(* ===== verification/Prelude.thy ===== *)
theory Prelude
  imports Complex_Main "HOL-Library.Signed_Division"
begin

text \<open>
  What the components share: the Go runtime facts the sources rely on (64-bit integers
  and their wrap-around, truncating division, IEEE double rounding, instants and
  durations, the string functions of package strings), the error values of the
  packages, and generic lemmas on lists and options.

  Integers of Go type int64 and int are HOL \<open>int\<close>s in the int64 range; every place
  where the source computes on them with a result that may leave the range applies
  \<open>wrap64\<close>, the two's complement wrap-around of Go.  Strings are byte strings;
  the white space and case functions are those of the ASCII range.
\<close>

section \<open>Collections of facts\<close>

named_theorems wpt_rules \<open>verification conditions of store operations\<close>
named_theorems sound_rules \<open>operations that keep the database sound\<close>
named_theorems runs_rules \<open>operations that return when the engine does not fail\<close>
named_theorems keep_rules \<open>operations that preserve a property of the tables\<close>
named_theorems table_simps \<open>evaluation of row operations on tables\<close>

section \<open>64-bit integers\<close>

definition maxI64 :: int where
  "maxI64 = 9223372036854775807"

definition minI64 :: int where
  "minI64 = - 9223372036854775808"

definition in_i64 :: "int \<Rightarrow> bool" where
  "in_i64 x \<longleftrightarrow> minI64 \<le> x \<and> x \<le> maxI64"

definition wrap64 :: "int \<Rightarrow> int" where
  "wrap64 x = (x + 9223372036854775808) mod 18446744073709551616 - 9223372036854775808"

lemmas i64_defs = maxI64_def minI64_def in_i64_def

lemma wrap64_in_range [simp]: "in_i64 (wrap64 x)"
proof -
  have "0 \<le> (x + 9223372036854775808) mod (18446744073709551616::int)"
    and "(x + 9223372036854775808) mod (18446744073709551616::int) < 18446744073709551616"
    by simp_all
  then show ?thesis by (simp add: wrap64_def i64_defs)
qed

lemma wrap64_id [simp]: "in_i64 x \<Longrightarrow> wrap64 x = x"
  by (simp add: wrap64_def i64_defs)

lemma wrap64_above:
  assumes "maxI64 < x" and "x \<le> 2 * maxI64 + 1"
  shows "wrap64 x = x - 2 ^ 64"
proof -
  have "(x + 9223372036854775808) mod 18446744073709551616
      = (x - 9223372036854775808) mod (18446744073709551616::int)"
    using mod_add_self2 [of "x - 9223372036854775808" "18446744073709551616::int"] by (simp add: add.commute)
  also have "\<dots> = x - 9223372036854775808"
    using assms by (intro mod_pos_pos_trivial) (simp_all add: maxI64_def)
  finally show ?thesis by (simp add: wrap64_def)
qed

lemma wrap64_idem [simp]: "wrap64 (wrap64 x) = wrap64 x"
  by simp

text \<open>Go's \<open>/\<close> on integers and \<open>big.Int.Quo\<close> truncate towards zero; this is \<open>sdiv\<close>.\<close>

lemma sdiv_nonneg [simp]: "0 \<le> (a::int) \<Longrightarrow> 0 \<le> b \<Longrightarrow> a sdiv b = a div b"
  by (simp add: signed_divide_int_def sgn_if)

lemma sdiv_nonpos: "(a::int) \<le> 0 \<Longrightarrow> 0 < b \<Longrightarrow> a sdiv b = - ((- a) div b)"
  by (auto simp: signed_divide_int_def sgn_if)

lemma sdiv_pos_bounds:
  assumes "0 \<le> (x::int)" and "0 \<le> k" and "k \<le> n" and "0 < n"
  shows "0 \<le> (x * k) sdiv n" and "(x * k) sdiv n \<le> x"
proof -
  from assms show "0 \<le> (x * k) sdiv n" by (simp add: div_int_pos_iff)
  from assms have "x * k \<le> x * n" by (intro mult_left_mono) auto
  then have "x * k div n \<le> x * n div n" using assms(4) by (intro zdiv_mono1) auto
  with assms show "(x * k) sdiv n \<le> x" by simp
qed

section \<open>IEEE 754 double precision\<close>

text \<open>
  A float64 value is kept as the rational it denotes; \<open>f64\<close> rounds the exact result
  of an operation to the nearest double, ties to even.  The values the sources compute
  (hours of a duration, rates, percentages) are far inside the normal range, so
  subnormals, infinities and NaN do not occur in them.
\<close>

fun bit_length :: "nat \<Rightarrow> nat" where
  "bit_length n = (if n = 0 then 0 else Suc (bit_length (n div 2)))"

declare bit_length.simps [simp del]

definition round_even :: "rat \<Rightarrow> int" where
  "round_even m = (let f = \<lfloor>m\<rfloor>; r = m - of_int f in
     if r < 1 / 2 then f else if 1 / 2 < r then f + 1 else if even f then f else f + 1)"

definition pow2 :: "int \<Rightarrow> rat" where
  "pow2 e = (if 0 \<le> e then 2 ^ nat e else 1 / 2 ^ nat (- e))"

definition rat_exponent :: "rat \<Rightarrow> int" where
  "rat_exponent x = (let (p, q) = quotient_of x; e = int (bit_length (nat p)) - int (bit_length (nat q)) in
     if pow2 e \<le> x then e else e - 1)"

definition f64 :: "rat \<Rightarrow> rat" where
  "f64 x = (if x = 0 then 0 else
     (let e = rat_exponent \<bar>x\<bar> - 52 in sgn x * of_int (round_even (\<bar>x\<bar> / pow2 e)) * pow2 e))"

definition f64_to_int :: "rat \<Rightarrow> int" where
  "f64_to_int x = (if 0 \<le> x then \<lfloor>x\<rfloor> else \<lceil>x\<rceil>)"

lemma pow2_pos [simp]: "0 < pow2 e"
  by (simp add: pow2_def)

lemma round_even_nonneg: "0 \<le> m \<Longrightarrow> 0 \<le> round_even m"
  by (simp add: round_even_def Let_def)

lemma f64_nonneg: "0 \<le> x \<Longrightarrow> 0 \<le> f64 x"
proof (cases "x = 0")
  case False
  assume "0 \<le> x"
  with False have x: "0 < x" by simp
  let ?e = "rat_exponent \<bar>x\<bar> - 52"
  have "0 \<le> round_even (\<bar>x\<bar> / pow2 ?e)"
    by (rule round_even_nonneg) (simp add: less_imp_le)
  with x show ?thesis
    by (simp add: f64_def Let_def less_imp_le)
qed (simp add: f64_def)

lemma f64_to_int_nonneg: "0 \<le> x \<Longrightarrow> 0 \<le> f64_to_int x"
  by (simp add: f64_to_int_def)

section \<open>Instants and durations\<close>

text \<open>
  A \<open>time.Time\<close> is its instant in nanoseconds since the Unix epoch; \<open>zero_time\<close>
  is the zero \<open>time.Time\<close>.  \<open>AddDate\<close> with days only is the addition of whole
  days, as it is in UTC and in every zone without daylight saving.
\<close>

type_synonym time = int

definition zero_time :: time where
  "zero_time = - 62135596800000000000"

definition second :: int where "second = 1000000000"
definition minute :: int where "minute = 60000000000"
definition hour :: int where "hour = 3600000000000"
definition day :: int where "day = 86400000000000"

lemmas duration_defs = second_def minute_def hour_def day_def

definition add_days :: "time \<Rightarrow> int \<Rightarrow> time" where
  "add_days t n = t + n * day"

lemma add_days_mono: "0 \<le> n \<Longrightarrow> t \<le> add_days t n"
  by (simp add: add_days_def day_def)

lemma add_days_strict: "0 < n \<Longrightarrow> t < add_days t n"
  by (simp add: add_days_def day_def)

text \<open>\<open>t.Sub(u)\<close> saturates at the int64 bounds.\<close>

definition time_sub :: "time \<Rightarrow> time \<Rightarrow> int" where
  "time_sub t u = max minI64 (min maxI64 (t - u))"

text \<open>\<open>Duration.Hours()\<close>: whole hours plus the fraction, in double arithmetic.\<close>

definition hours :: "int \<Rightarrow> rat" where
  "hours d = f64 (f64 (of_int (d sdiv hour))
     + f64 (of_int (d - hour * (d sdiv hour)) / of_int hour))"

text \<open>\<open>int(d.Hours() / 24)\<close>, the source's idiom for the whole days of a duration.\<close>

definition whole_days :: "int \<Rightarrow> int" where
  "whole_days d = f64_to_int (f64 (hours d / 24))"

lemma hours_nonneg: "0 \<le> d \<Longrightarrow> 0 \<le> hours d"
proof -
  assume d: "0 \<le> d"
  then have "0 \<le> d div hour" and "0 \<le> d - hour * (d div hour)"
    by (simp_all add: hour_def pos_imp_zdiv_nonneg_iff minus_mult_div_eq_mod)
  with d show ?thesis
    unfolding hours_def
    by (intro f64_nonneg add_nonneg_nonneg) (auto simp: hour_def intro!: f64_nonneg)
qed

lemma whole_days_nonneg: "0 \<le> d \<Longrightarrow> 0 \<le> whole_days d"
  by (simp add: whole_days_def f64_to_int_nonneg f64_nonneg hours_nonneg)

lemma time_sub_pos: "u < t \<Longrightarrow> 0 \<le> time_sub t u"
  by (simp add: time_sub_def i64_defs)

section \<open>Strings\<close>

definition is_space :: "char \<Rightarrow> bool" where
  "is_space c = (c \<in> {CHR '' '', CHR 0x09, CHR 0x0A, CHR 0x0B, CHR 0x0C, CHR 0x0D})"

definition trim_space :: "string \<Rightarrow> string" where
  "trim_space s = rev (dropWhile is_space (rev (dropWhile is_space s)))"

definition to_upper_char :: "char \<Rightarrow> char" where
  "to_upper_char c = (if 97 \<le> (of_char c :: nat) \<and> of_char c \<le> (122::nat)
     then char_of (of_char c - (32::nat)) else c)"

definition to_upper :: "string \<Rightarrow> string" where
  "to_upper s = map to_upper_char s"

definition to_lower_char :: "char \<Rightarrow> char" where
  "to_lower_char c = (if 65 \<le> (of_char c :: nat) \<and> of_char c \<le> (90::nat)
     then char_of (of_char c + (32::nat)) else c)"

definition to_lower :: "string \<Rightarrow> string" where
  "to_lower s = map to_lower_char s"

fun split_char :: "char \<Rightarrow> string \<Rightarrow> string list" where
  "split_char d [] = [[]]"
| "split_char d (c # cs) =
     (if c = d then [] # split_char d cs
      else (case split_char d cs of [] \<Rightarrow> [[c]] | p # ps \<Rightarrow> (c # p) # ps))"

fun join_char :: "char \<Rightarrow> string list \<Rightarrow> string" where
  "join_char d [] = []"
| "join_char d [p] = p"
| "join_char d (p # q # ps) = p @ d # join_char d (q # ps)"

text \<open>Decimal printing (\<open>%d\<close>) and scanning of integers.\<close>

definition digit_char :: "nat \<Rightarrow> char" where
  "digit_char d = char_of (48 + d)"

fun show_nat :: "nat \<Rightarrow> string" where
  "show_nat n = (if n < 10 then [digit_char n] else show_nat (n div 10) @ [digit_char (n mod 10)])"

declare show_nat.simps [simp del]

definition show_int :: "int \<Rightarrow> string" where
  "show_int i = (if i < 0 then CHR ''-'' # show_nat (nat (- i)) else show_nat (nat i))"

definition is_digit :: "char \<Rightarrow> bool" where
  "is_digit c = (48 \<le> (of_char c :: nat) \<and> of_char c \<le> (57::nat))"

definition digit_val :: "char \<Rightarrow> nat" where
  "digit_val c = of_char c - 48"

definition read_nat :: "string \<Rightarrow> nat" where
  "read_nat s = foldl (\<lambda>n c. 10 * n + digit_val c) 0 s"

text \<open>
  \<open>strconv.ParseInt(s, 10, 64)\<close>: an optional sign, at least one digit, nothing
  else, and a value in the int64 range.
\<close>

definition parse_int64 :: "string \<Rightarrow> int option" where
  "parse_int64 s =
     (let (neg, ds) = (case s of [] \<Rightarrow> (False, [])
        | c # cs \<Rightarrow> if c = CHR ''-'' then (True, cs) else if c = CHR ''+'' then (False, cs)
                    else (False, s));
          v = (if neg then - int (read_nat ds) else int (read_nat ds))
      in if ds \<noteq> [] \<and> list_all is_digit ds \<and> in_i64 v then Some v else None)"

text \<open>
  \<open>fmt.Sscanf(s, "%d", &id)\<close>: blanks are skipped, then an optional sign and the longest
  run of digits are read; what follows is ignored.
\<close>

definition scan_int64 :: "string \<Rightarrow> int option" where
  "scan_int64 s =
     (let s = dropWhile (\<lambda>c. is_space c \<and> c \<noteq> CHR 0x0A) s;
          (neg, ds) = (case s of [] \<Rightarrow> (False, [])
        | c # cs \<Rightarrow> if c = CHR ''-'' then (True, cs) else if c = CHR ''+'' then (False, cs)
                    else (False, s));
          ds = takeWhile is_digit ds;
          v = (if neg then - int (read_nat ds) else int (read_nat ds))
      in if ds \<noteq> [] \<and> in_i64 v then Some v else None)"

text \<open>\<open>hex.EncodeToString\<close>.\<close>

definition hex_digit :: "nat \<Rightarrow> char" where
  "hex_digit n = (if n < 10 then char_of (48 + n) else char_of (87 + n))"

definition hex_encode :: "nat list \<Rightarrow> string" where
  "hex_encode bs = concat (map (\<lambda>b. [hex_digit (b div 16), hex_digit (b mod 16)]) bs)"

text \<open>Text outside the ASCII range, given by its UTF-8 bytes.\<close>

definition utf8 :: "nat list \<Rightarrow> string" where
  "utf8 bs = map char_of bs"

section \<open>Generic lemmas\<close>

lemma find_Some_iff_In: "find P xs = Some x \<Longrightarrow> P x \<and> x \<in> set xs"
  by (induction xs) (auto split: if_splits)

lemma find_None_all: "find P xs = None \<longleftrightarrow> (\<forall>x \<in> set xs. \<not> P x)"
  by (induction xs) auto

lemma filter_distinct_key_le1:
  "distinct (map k xs) \<Longrightarrow> length (filter (\<lambda>x. k x = i \<and> P x) xs) \<le> 1"
proof (induction xs)
  case Nil
  then show ?case by simp
next
  case (Cons x xs)
  have "filter (\<lambda>y. k y = i \<and> P y) xs = []" if "k x = i"
    using Cons.prems that by (metis (mono_tags, lifting) distinct.simps(2) filter_False image_eqI list.set_map list.simps(9))
  with Cons show ?case by auto
qed

lemma filter_length_pos: "filter P xs \<noteq> [] \<longleftrightarrow> (\<exists>x \<in> set xs. P x)"
  by (simp add: filter_empty_conv)

lemma sum_list_map_if_update:
  fixes f :: "'a \<Rightarrow> int"
  shows "sum_list (map (\<lambda>x. if P x then f x + d else f x) xs)
       = sum_list (map f xs) + d * int (length (filter P xs))"
  by (induction xs) (auto simp: algebra_simps)


text \<open>What is printed is read back, and joined pieces are split again.\<close>

lemma of_char_digit: "d < 10 \<Longrightarrow> (of_char (digit_char d) :: nat) = 48 + d"
  by (simp add: digit_char_def)

lemma digit_char_props [simp]:
  assumes "d < 10"
  shows "is_digit (digit_char d)" and "digit_val (digit_char d) = d" and "\<not> is_space (digit_char d)"
    and "(of_char c :: nat) < 48 \<Longrightarrow> digit_char d \<noteq> c"
  using of_char_digit [OF assms] assms
  by (auto simp: is_digit_def digit_val_def is_space_def dest!: arg_cong [of _ _ "of_char :: char \<Rightarrow> nat"])

lemma show_nat_digits: "c \<in> set (show_nat n) \<Longrightarrow> \<exists>d < 10. c = digit_char d"
proof (induction n rule: show_nat.induct)
  case (1 n)
  show ?case
  proof (cases "n < 10")
    case True with "1.prems" show ?thesis by (subst (asm) show_nat.simps) auto
  next
    case False
    with "1.prems" have "c \<in> set (show_nat (n div 10)) \<or> c = digit_char (n mod 10)"
      by (subst (asm) show_nat.simps) auto
    then show ?thesis using "1.IH" False by (auto intro: exI [of _ "n mod 10"])
  qed
qed

lemma show_nat_nonempty [simp]: "show_nat n \<noteq> []"
  by (subst show_nat.simps) simp

lemma read_nat_snoc: "read_nat (s @ [c]) = 10 * read_nat s + digit_val c"
  by (simp add: read_nat_def)

lemma read_show_nat [simp]: "read_nat (show_nat n) = n"
proof (induction n rule: show_nat.induct)
  case (1 n)
  then show ?case
    by (subst show_nat.simps) (auto simp: read_nat_snoc read_nat_def [of "[_]"])
qed

lemma all_digits_show_nat [simp]: "takeWhile is_digit (show_nat n) = show_nat n"
  by (rule takeWhile_eq_all_conv [THEN iffD2]) (auto dest!: show_nat_digits)

lemma scan_show_nat: "scan_int64 (show_nat n) = (if in_i64 (int n) then Some (int n) else None)"
proof -
  obtain c cs where c: "show_nat n = c # cs" by (cases "show_nat n") auto
  then obtain d where d: "d < 10" "c = digit_char d" using show_nat_digits [of c n] by auto
  have ds: "takeWhile is_digit (c # cs) = c # cs" "read_nat (c # cs) = n"
    using all_digits_show_nat [of n] read_show_nat [of n] by (simp_all only: c)
  have ne: "c \<noteq> CHR ''-''" "c \<noteq> CHR ''+''" "\<not> is_space c" using d by simp_all
  show ?thesis unfolding scan_int64_def c by (simp add: Let_def ne ds del: takeWhile.simps)
qed

lemma scan_show_int: "in_i64 i \<Longrightarrow> scan_int64 (show_int i) = Some i"
proof -
  assume i: "in_i64 i"
  have "scan_int64 (CHR ''-'' # show_nat n) = (if in_i64 (- int n) then Some (- int n) else None)" for n
    by (simp add: scan_int64_def Let_def is_space_def)
  then show ?thesis using i by (auto simp: show_int_def scan_show_nat)
qed

lemma show_int_no_comma: "CHR '','' \<notin> set (show_int i)"
proof -
  have "CHR '','' \<notin> set (show_nat n)" for n
  proof
    assume "CHR '','' \<in> set (show_nat n)"
    then obtain d where "d < 10" and eq: "digit_char d = CHR '',''" using show_nat_digits by metis
    then have "48 + d = of_char (CHR '','')" using of_char_digit [of d] by (simp only: eq)
    then show False by simp
  qed
  then show ?thesis by (simp add: show_int_def)
qed

lemma split_char_no: "d \<notin> set s \<Longrightarrow> split_char d s = [s]"
  by (induction s) auto

lemma split_char_app: "d \<notin> set s \<Longrightarrow> split_char d (s @ d # t) = s # split_char d t"
  by (induction s) auto

lemma split_join: "ps \<noteq> [] \<Longrightarrow> (\<And>p. p \<in> set ps \<Longrightarrow> d \<notin> set p) \<Longrightarrow> split_char d (join_char d ps) = ps"
  by (induction d ps rule: join_char.induct) (auto simp: split_char_no split_char_app)

text \<open>Trimming and lower case.\<close>

lemma to_lower_char_idem [simp]: "to_lower_char (to_lower_char c) = to_lower_char c"
  by (simp add: to_lower_char_def)

lemma is_space_le: "is_space c \<Longrightarrow> of_char c \<le> (32::nat)"
  by (auto simp: is_space_def)

lemma to_lower_char_space [simp]: "is_space (to_lower_char c) = is_space c"
  using is_space_le [of c] is_space_le [of "to_lower_char c"] by (auto simp: to_lower_char_def)

lemma trim_space_idem [simp]: "trim_space (trim_space s) = trim_space s"
proof -
  have "dropWhile is_space (rev (dropWhile is_space (rev (dropWhile is_space s)))) = rev (dropWhile is_space (rev (dropWhile is_space s)))"
  proof (cases "dropWhile is_space s")
    case (Cons c cs)
    then have "\<not> is_space c" by (metis dropWhile_eq_Cons_conv)
    then show ?thesis using Cons by (simp add: dropWhile_append1 dropWhile_append)
  next
    case Nil
    show ?thesis unfolding Nil by simp
  qed
  then show ?thesis by (simp add: trim_space_def)
qed

lemma trim_space_lower: "trim_space (to_lower s) = to_lower (trim_space s)"
  by (simp add: trim_space_def to_lower_def dropWhile_map rev_map o_def)

lemma to_lower_idem [simp]: "to_lower (to_lower s) = to_lower s"
  by (simp add: to_lower_def)

lemma to_lower_Nil [simp]: "to_lower s = [] \<longleftrightarrow> s = []"
  by (simp add: to_lower_def)

lemma trim_space_Nil [simp]: "trim_space [] = []"
  by (simp add: trim_space_def)

end
