(* ===== verification/Errors.thy ===== *)
theory Errors
  imports Prelude
begin

text \<open>
  The error values of the packages.  Each package's sentinel errors are a datatype, and
  \<open>err\<close> is the Go \<open>error\<close> interface over them: a sentinel, an ad hoc
  \<open>errors.New\<close> text, \<open>fmt.Errorf("%w: ...")\<close> wrapping another error,
  \<open>errors.Join\<close>, or one of the application errors of \<open>pkg/errors\<close> (not found,
  validation, rate limit, unauthorized, forbidden, conflict, internal and database errors with their cause).  \<open>NilDereference\<close> and
  \<open>IndexOutOfRange\<close> are the panics of a nil pointer dereference and of an index outside a
  slice or a negative slice capacity.  A caller compares with \<open>errors.Is\<close>, here \<open>errors_is\<close>;
  the sources only ever compare with a sentinel.
\<close>

datatype gorm_err = ErrRecordNotFound | ErrInvalidData | ErrDuplicatedKey | ErrDriver

datatype repo_err =
    ErrCommercialState | ErrCommercialExpired | ErrCurrentPlanUnknown | ErrRepoInsufficient

datatype balance_err =
    ErrInsufficientBalance | ErrInvalidAmount | ErrUserNotFound | ErrNegativeBalance
  | ErrRechargeUnavailable | ErrRechargeOrderNotFound | ErrRechargeOrderNotReady
  | ErrInvalidRechargeMethod

datatype order_err =
    ErrOrderNotFound | ErrOrderExpired | ErrOrderAlreadyPaid | ErrOrderCannotCancel
  | ErrInvalidOrder | ErrPlanNotFound | ErrPlanInactive

datatype coupon_err =
    ErrCouponNotFound | ErrCouponExpired | ErrCouponInactive | ErrCouponNotStarted
  | ErrCouponLimitReached | ErrCouponUserLimit | ErrCouponMinAmount | ErrCouponPlanMismatch
  | ErrInvalidCoupon

datatype giftcard_err =
    ErrGiftCardNotFound | ErrGiftCardAlreadyUsed | ErrGiftCardExpired | ErrGiftCardDisabled
  | ErrGiftCardInvalid | ErrGiftInvalidAmount | ErrInvalidCount | ErrSelfRedeem

datatype planchange_err =
    ErrChangePlanNotFound | ErrChangePlanInactive | ErrChangeUserNotFound
  | ErrNoActiveSubscription | ErrSamePlan | ErrDowngradeNotAllowed | ErrUpgradeNotAllowed
  | ErrPendingDowngrade | ErrNoPendingDowngrade | ErrChangeInsufficient

datatype trial_err =
    ErrTrialNotFound | ErrTrialAlreadyUsed | ErrTrialExpired | ErrTrialNotActive
  | ErrTrialDisabled | ErrEmailNotVerified | ErrActiveSubscription

datatype refund_err =
    ErrRefundOrderNotFound | ErrOrderNotRefundable | ErrInvalidRefundAmount
  | ErrRefundExceedsAmount | ErrAlreadyRefunded

datatype invite_err =
    ErrInviteCodeNotFound | ErrSelfReferral | ErrAlreadyReferred | ErrInvalidInviteCode

datatype commission_err =
    ErrCommissionNotFound | ErrInvalidCommission | ErrAlreadyConfirmed | ErrAlreadyCancelled

datatype payment_err =
    ErrGatewayNotFound | ErrPaymentOrderNotFound | ErrOrderNotPending | ErrPaymentFailed
  | ErrRefundFailed | ErrDuplicateCallback | ErrInvalidCallback | ErrAmountMismatch
  | ErrMaxRetriesExceeded | ErrOrderNotRetryable | ErrRetryTooSoon

datatype cache_err = ErrCacheMiss | ErrCacheClosed | ErrInvalidKey | ErrInvalidValue

datatype node_err =
    ErrNoAvailableNodes | ErrInvalidStrategy | ErrUserNotAssigned | ErrFailoverInProgress
  | ErrNoTargetNodes | ErrMaxConcurrentExceeded | ErrNodeNotUnhealthy | ErrNodeAtCapacity

datatype err =
    Gorm gorm_err | Repo repo_err | Balance balance_err | OrderE order_err
  | CouponE coupon_err | GiftCardE giftcard_err | PlanChangeE planchange_err
  | TrialE trial_err | RefundE refund_err | InviteE invite_err | CommissionE commission_err
  | PaymentE payment_err | CacheE cache_err | NodeE node_err
  | ErrText string
  | NilDereference
  | IndexOutOfRange
  | Wrapped err string
  | Joined "err list"
  | NotFoundError string int
  | NotFoundKey string string
  | ValidationError string string
  | DatabaseError string err
  | RateLimitError string
  | UnauthorizedError string
  | ForbiddenError string
  | ConflictError string
  | InternalError string "err option"

fun errors_is :: "err \<Rightarrow> err \<Rightarrow> bool" where
  "errors_is (Wrapped e s) t \<longleftrightarrow> Wrapped e s = t \<or> errors_is e t"
| "errors_is (Joined es) t \<longleftrightarrow> Joined es = t \<or> (\<exists>e \<in> set es. errors_is e t)"
| "errors_is (DatabaseError s e) t \<longleftrightarrow> DatabaseError s e = t \<or> errors_is e t"
| "errors_is e t \<longleftrightarrow> e = t"

definition IsNotFound :: "err \<Rightarrow> bool" where
  "IsNotFound e = (case e of NotFoundError _ _ \<Rightarrow> True | NotFoundKey _ _ \<Rightarrow> True | _ \<Rightarrow> False)"

text \<open>\<open>errors.Join(failures...)\<close> is nil when there is no failure.\<close>

definition join_failures :: "err list \<Rightarrow> err option" where
  "join_failures es = (if es = [] then None else Some (Joined es))"

lemma errors_is_refl [simp]: "errors_is e e"
  by (cases e) auto

end
