(* ===== verification/Store.thy ===== *)
theory Store
  imports Errors "HOL-Library.Option_ord"
begin

text \<open>
  The relational store behind the repositories, and the way the repositories use it.
  A table is the list of its rows in primary key order together with its
  auto-increment counter.  The SQL the sources write (WHERE conditions, SET lists,
  aggregates) is translated condition by condition into HOL predicates and functions on
  rows; the combinators of this theory give such a statement its usual meaning.

  The engine can fail at any statement: the world carries a fault schedule, one flag per
  statement, and a statement whose flag is set returns the driver's error and changes
  nothing.  The schedule is arbitrary in every theorem, so each \<open>if err != nil\<close>
  branch of the sources is a branch of the model.

  Where the sources do not use the associations a read loads with \<open>Preload\<close>, the read and
  its further SELECTs are one statement here, which fails when any of them does.

  \<open>transaction\<close> is gorm's \<open>db.Transaction(func(tx) error)\<close> as documented: an
  error of the body, of BEGIN or of COMMIT leaves the tables as they were; inside an
  open transaction the block is a savepoint, which has no COMMIT of its own.
\<close>

section \<open>Worlds and operations\<close>

record 't world =
  tables :: 't
  faults :: "bool list"
  in_tx :: bool

type_synonym ('t, 'a) op = "'t world \<Rightarrow> (err + 'a) \<times> 't world"

definition ret :: "'a \<Rightarrow> ('t, 'a) op" where
  "ret x w = (Inr x, w)"

definition raise :: "err \<Rightarrow> ('t, 'a) op" where
  "raise e w = (Inl e, w)"

definition bindE :: "('t, 'a) op \<Rightarrow> ('a \<Rightarrow> ('t, 'b) op) \<Rightarrow> ('t, 'b) op" where
  "bindE m f w = (case m w of (Inl e, w') \<Rightarrow> (Inl e, w') | (Inr x, w') \<Rightarrow> f x w')"

text \<open>Go's \<open>x, err := f()\<close> with the error inspected by the caller.\<close>

definition attempt :: "('t, 'a) op \<Rightarrow> ('t, err + 'a) op" where
  "attempt m w = (case m w of (r, w') \<Rightarrow> (Inr r, w'))"

text \<open>\<open>if err != nil { return h(err) }\<close>.\<close>

definition map_err :: "(err \<Rightarrow> err) \<Rightarrow> ('t, 'a) op \<Rightarrow> ('t, 'a) op" where
  "map_err h m w = (case m w of (Inl e, w') \<Rightarrow> (Inl (h e), w') | (Inr x, w') \<Rightarrow> (Inr x, w'))"

text \<open>The early return \<open>if b { return err }\<close>.\<close>

definition guardE :: "bool \<Rightarrow> err \<Rightarrow> ('t, unit) op" where
  "guardE b e = (if b then ret () else raise e)"

lemma bind_ret: "bindE (ret x) f = f x"
  by (simp add: bindE_def ret_def fun_eq_iff)

section \<open>Statements and transactions\<close>

definition fault_pending :: "'t world \<Rightarrow> bool" where
  "fault_pending w = (case faults w of [] \<Rightarrow> False | b # _ \<Rightarrow> b)"

definition tick :: "'t world \<Rightarrow> 't world" where
  "tick w = w\<lparr>faults := tl (faults w)\<rparr>"

definition stmt :: "('t \<Rightarrow> err + ('a \<times> 't)) \<Rightarrow> ('t, 'a) op" where
  "stmt f w = (if fault_pending w then (Inl (Gorm ErrDriver), tick w)
     else (case f (tables w) of
         Inl e \<Rightarrow> (Inl e, tick w)
       | Inr (x, t) \<Rightarrow> (Inr x, (tick w)\<lparr>tables := t\<rparr>)))"

definition transaction :: "('t, 'a) op \<Rightarrow> ('t, 'a) op" where
  "transaction body w =
     (if fault_pending w then (Inl (Gorm ErrDriver), tick w)
      else (case body ((tick w)\<lparr>in_tx := True\<rparr>) of
          (Inl e, w') \<Rightarrow> (Inl e, w'\<lparr>tables := tables w, in_tx := in_tx w\<rparr>)
        | (Inr x, w') \<Rightarrow>
            if in_tx w then (Inr x, w'\<lparr>in_tx := in_tx w\<rparr>)
            else if fault_pending w'
            then (Inl (Gorm ErrDriver), (tick w')\<lparr>tables := tables w, in_tx := in_tx w\<rparr>)
            else (Inr x, (tick w')\<lparr>in_tx := in_tx w\<rparr>)))"

section \<open>SQL statements over a table\<close>

record 'r table =
  rows :: "'r list"
  seq :: int

definition upd_rows :: "('r \<Rightarrow> bool) \<Rightarrow> ('r \<Rightarrow> 'r) \<Rightarrow> 'r table \<Rightarrow> 'r table" where
  "upd_rows p f t = t\<lparr>rows := map (\<lambda>r. if p r then f r else r) (rows t)\<rparr>"

definition del_rows :: "('r \<Rightarrow> bool) \<Rightarrow> 'r table \<Rightarrow> 'r table" where
  "del_rows p t = t\<lparr>rows := filter (\<lambda>r. \<not> p r) (rows t)\<rparr>"

definition add_row :: "(int \<Rightarrow> 'r) \<Rightarrow> 'r table \<Rightarrow> 'r table" where
  "add_row mk t = \<lparr>rows = rows t @ [mk (seq t + 1)], seq = seq t + 1\<rparr>"

definition count_rows :: "('r \<Rightarrow> bool) \<Rightarrow> 'r table \<Rightarrow> int" where
  "count_rows p t = int (length (filter p (rows t)))"

definition sum_rows :: "('r \<Rightarrow> bool) \<Rightarrow> ('r \<Rightarrow> int) \<Rightarrow> 'r table \<Rightarrow> int" where
  "sum_rows p f t = sum_list (map f (filter p (rows t)))"

text \<open>\<open>SELECT\<close> of a derived value; \<open>First\<close>: the first row by primary key, or an error.\<close>

definition query :: "('t \<Rightarrow> 'a) \<Rightarrow> ('t, 'a) op" where
  "query f = stmt (\<lambda>t. Inr (f t, t))"

definition first :: "('t \<Rightarrow> 'r table) \<Rightarrow> ('r \<Rightarrow> bool) \<Rightarrow> ('t, 'r) op" where
  "first sel p = stmt (\<lambda>t. case find p (rows (sel t)) of
      None \<Rightarrow> Inl (Gorm ErrRecordNotFound) | Some r \<Rightarrow> Inr (r, t))"

text \<open>\<open>Order("k DESC").First\<close>: the first row by descending \<open>k\<close>, then by primary key.\<close>

definition first_desc :: "('t \<Rightarrow> 'r table) \<Rightarrow> ('r \<Rightarrow> int) \<Rightarrow> ('r \<Rightarrow> bool) \<Rightarrow> ('t, 'r) op" where
  "first_desc sel k p = stmt (\<lambda>t. case sort_key (\<lambda>r. - k r) (filter p (rows (sel t))) of
      [] \<Rightarrow> Inl (Gorm ErrRecordNotFound) | r # _ \<Rightarrow> Inr (r, t))"

text \<open>\<open>Order("k DESC, id DESC").First\<close>: the row with the largest key, the latest of several.\<close>

definition first_latest :: "('t \<Rightarrow> 'r table) \<Rightarrow> ('r \<Rightarrow> int option) \<Rightarrow> ('r \<Rightarrow> bool) \<Rightarrow> ('t, 'r) op" where
  "first_latest sel k p = stmt (\<lambda>t. case rev (sort_key k (filter p (rows (sel t)))) of
      [] \<Rightarrow> Inl (Gorm ErrRecordNotFound) | r # _ \<Rightarrow> Inr (r, t))"

text \<open>\<open>UPDATE ... SET ... WHERE\<close> and \<open>DELETE ... WHERE\<close> return RowsAffected.\<close>

definition update_where :: "('t \<Rightarrow> 'r table) \<Rightarrow> (('r table \<Rightarrow> 'r table) \<Rightarrow> 't \<Rightarrow> 't)
    \<Rightarrow> ('r \<Rightarrow> bool) \<Rightarrow> ('r \<Rightarrow> 'r) \<Rightarrow> ('t, int) op" where
  "update_where sel upd p f =
     stmt (\<lambda>t. Inr (count_rows p (sel t), upd (\<lambda>_. upd_rows p f (sel t)) t))"

definition delete_where :: "('t \<Rightarrow> 'r table) \<Rightarrow> (('r table \<Rightarrow> 'r table) \<Rightarrow> 't \<Rightarrow> 't)
    \<Rightarrow> ('r \<Rightarrow> bool) \<Rightarrow> ('t, int) op" where
  "delete_where sel upd p = stmt (\<lambda>t. Inr (count_rows p (sel t), upd (\<lambda>_. del_rows p (sel t)) t))"

text \<open>
  \<open>Create\<close>: the row gets the next identifier; \<open>clash\<close> is the table's unique
  index, which refuses a row that collides with a stored one.
\<close>

definition create :: "('t \<Rightarrow> 'r table) \<Rightarrow> (('r table \<Rightarrow> 'r table) \<Rightarrow> 't \<Rightarrow> 't)
    \<Rightarrow> ('r \<Rightarrow> 'r \<Rightarrow> bool) \<Rightarrow> (int \<Rightarrow> 'r) \<Rightarrow> ('t, 'r) op" where
  "create sel upd clash mk =
     stmt (\<lambda>t. let r = mk (seq (sel t) + 1) in
       if \<exists>r' \<in> set (rows (sel t)). clash r r' then Inl (Gorm ErrDuplicatedKey)
       else Inr (r, upd (\<lambda>_. add_row mk (sel t)) t))"

text \<open>
  \<open>Save\<close>: all columns of the row with this primary key are written, and a row that
  is not there is inserted under its own key.
\<close>

definition save :: "('t \<Rightarrow> 'r table) \<Rightarrow> (('r table \<Rightarrow> 'r table) \<Rightarrow> 't \<Rightarrow> 't)
    \<Rightarrow> ('r \<Rightarrow> 'r \<Rightarrow> bool) \<Rightarrow> ('r \<Rightarrow> int) \<Rightarrow> 'r \<Rightarrow> ('t, unit) op" where
  "save sel upd clash key r = stmt (\<lambda>t.
     if \<exists>r' \<in> set (rows (sel t)). key r' \<noteq> key r \<and> clash r r' then Inl (Gorm ErrDuplicatedKey)
     else if \<exists>r' \<in> set (rows (sel t)). key r' = key r
     then Inr ((), upd (\<lambda>_. upd_rows (\<lambda>r'. key r' = key r) (\<lambda>_. r) (sel t)) t)
     else Inr ((), upd (\<lambda>_. \<lparr>rows = rows (sel t) @ [r], seq = max (seq (sel t)) (key r)\<rparr>) t))"

text \<open>
  \<open>Limit(n)\<close>, which gorm drops when \<open>n\<close> is negative, and
  \<open>ORDER BY k DESC LIMIT n OFFSET m\<close> on the rows that satisfy the filter.
\<close>

definition limit_rows :: "int \<Rightarrow> 'r list \<Rightarrow> 'r list" where
  "limit_rows n rs = (if n < 0 then rs else take (nat n) rs)"

definition page_desc :: "('r \<Rightarrow> int) \<Rightarrow> int \<Rightarrow> int \<Rightarrow> 'r list \<Rightarrow> 'r list" where
  "page_desc k limit offset rs = limit_rows limit (drop (nat offset) (sort_key (\<lambda>r. - k r) rs))"

section \<open>Verification conditions\<close>

text \<open>
  \<open>wpt m Q E t\<close>: started on tables \<open>t\<close>, under every fault schedule, \<open>m\<close> ends
  either with a value \<open>x\<close> and tables satisfying \<open>Q x\<close>, or with an error \<open>e\<close> and
  tables satisfying \<open>E e\<close>.
\<close>

definition wpt :: "('t, 'a) op \<Rightarrow> ('a \<Rightarrow> 't \<Rightarrow> bool) \<Rightarrow> (err \<Rightarrow> 't \<Rightarrow> bool) \<Rightarrow> 't \<Rightarrow> bool" where
  "wpt m Q E t \<longleftrightarrow> (\<forall>w. tables w = t \<longrightarrow>
     (case m w of (Inl e, w') \<Rightarrow> E e (tables w') | (Inr x, w') \<Rightarrow> Q x (tables w')))"

lemma tables_tick [simp]: "tables (tick w) = tables w"
  by (simp add: tick_def)

lemma wptD_Inr: "wpt m Q E (tables w) \<Longrightarrow> m w = (Inr x, w') \<Longrightarrow> Q x (tables w')"
  by (fastforce simp: wpt_def)

lemma wptD_Inl: "wpt m Q E (tables w) \<Longrightarrow> m w = (Inl e, w') \<Longrightarrow> E e (tables w')"
  by (fastforce simp: wpt_def)

lemma wpt_run:
  "wpt m Q E (tables w) \<Longrightarrow> m w = (r, w') \<Longrightarrow>
     (case r of Inl e \<Rightarrow> E e (tables w') | Inr x \<Rightarrow> Q x (tables w'))"
  by (fastforce simp: wpt_def split: sum.splits)

lemma wpt_mono:
  assumes "wpt m Q E t" and "\<And>x t'. Q x t' \<Longrightarrow> Q' x t'" and "\<And>e t'. E e t' \<Longrightarrow> E' e t'"
  shows "wpt m Q' E' t"
  using assms unfolding wpt_def by (fastforce split: prod.splits sum.splits)

lemma wpt_conj:
  "wpt m Q E t \<Longrightarrow> wpt m Q' E' t \<Longrightarrow> wpt m (\<lambda>x t. Q x t \<and> Q' x t) (\<lambda>e t. E e t \<and> E' e t) t"
  unfolding wpt_def by (fastforce split: prod.splits sum.splits)

lemma wpt_ret [wpt_rules]: "Q x t \<Longrightarrow> wpt (ret x) Q E t"
  by (simp add: wpt_def ret_def)

lemma wpt_raise [wpt_rules]: "E e t \<Longrightarrow> wpt (raise e) Q E t"
  by (simp add: wpt_def raise_def)

lemma wpt_bind [wpt_rules]: "wpt m (\<lambda>x. wpt (f x) Q E) E t \<Longrightarrow> wpt (bindE m f) Q E t"
  unfolding wpt_def bindE_def by (fastforce split: prod.splits sum.splits)

lemma wpt_attempt [wpt_rules]: "wpt m (\<lambda>x. Q (Inr x)) (\<lambda>e. Q (Inl e)) t \<Longrightarrow> wpt (attempt m) Q E t"
  unfolding wpt_def attempt_def by (fastforce split: prod.splits sum.splits)

lemma wpt_map_err [wpt_rules]: "wpt m Q (\<lambda>e. E (h e)) t \<Longrightarrow> wpt (map_err h m) Q E t"
  unfolding wpt_def map_err_def by (fastforce split: prod.splits sum.splits)

lemma wpt_guard [wpt_rules]: "(b \<Longrightarrow> Q () t) \<Longrightarrow> (\<not> b \<Longrightarrow> E e t) \<Longrightarrow> wpt (guardE b e) Q E t"
  by (simp add: guardE_def wpt_ret wpt_raise)

lemma wpt_stmt:
  assumes "E (Gorm ErrDriver) t"
    and "\<And>e. f t = Inl e \<Longrightarrow> E e t" and "\<And>x t'. f t = Inr (x, t') \<Longrightarrow> Q x t'"
  shows "wpt (stmt f) Q E t"
  using assms unfolding wpt_def stmt_def by (auto split: sum.splits)

lemma wpt_transaction [wpt_rules]:
  assumes "E (Gorm ErrDriver) t" and "wpt b Q (\<lambda>e _. E e t) t"
  shows "wpt (transaction b) Q E t"
  unfolding wpt_def
proof (intro allI impI)
  fix w :: "_ world" assume w: "tables w = t"
  have "case b ((tick w)\<lparr>in_tx := True\<rparr>) of (Inl e, w') \<Rightarrow> E e t | (Inr x, w') \<Rightarrow> Q x (tables w')"
    using assms(2) w unfolding wpt_def by simp
  with assms(1) w
  show "case transaction b w of (Inl e, w') \<Rightarrow> E e (tables w') | (Inr x, w') \<Rightarrow> Q x (tables w')"
    unfolding transaction_def by (auto split: prod.splits sum.splits)
qed

lemma wpt_query [wpt_rules]:
  "E (Gorm ErrDriver) t \<Longrightarrow> Q (f t) t \<Longrightarrow> wpt (query f) Q E t"
  unfolding query_def by (rule wpt_stmt) auto

lemma wpt_first [wpt_rules]:
  assumes "E (Gorm ErrDriver) t"
    and "(\<And>r. r \<in> set (rows (sel t)) \<Longrightarrow> \<not> p r) \<Longrightarrow> E (Gorm ErrRecordNotFound) t"
    and "\<And>r. find p (rows (sel t)) = Some r \<Longrightarrow> p r \<Longrightarrow> r \<in> set (rows (sel t)) \<Longrightarrow> Q r t"
  shows "wpt (first sel p) Q E t"
  unfolding first_def
  by (rule wpt_stmt)
     (use assms in \<open>auto split: option.splits dest: find_Some_iff_In simp: find_None_all\<close>)

lemma wpt_first_desc [wpt_rules]:
  assumes "E (Gorm ErrDriver) t"
    and "(\<And>r. r \<in> set (rows (sel t)) \<Longrightarrow> \<not> p r) \<Longrightarrow> E (Gorm ErrRecordNotFound) t"
    and "\<And>r. p r \<Longrightarrow> r \<in> set (rows (sel t)) \<Longrightarrow>
          (\<And>s. s \<in> set (rows (sel t)) \<Longrightarrow> p s \<Longrightarrow> k s \<le> k r) \<Longrightarrow> Q r t"
  shows "wpt (first_desc sel k p) Q E t"
  unfolding first_desc_def
proof (rule wpt_stmt)
  let ?xs = "sort_key (\<lambda>r. - k r) (filter p (rows (sel t)))"
  have s: "sorted (map (\<lambda>r. - k r) ?xs)" by simp
  have m: "set ?xs = {r \<in> set (rows (sel t)). p r}" by simp
  show "E e t" if "(case ?xs of [] \<Rightarrow> Inl (Gorm ErrRecordNotFound) | r # x \<Rightarrow> Inr (r, t)) = Inl e" for e
  proof -
    have e: "?xs = []" "e = Gorm ErrRecordNotFound" using that by (auto split: list.splits)
    have "\<not> p r" if "r \<in> set (rows (sel t))" for r
      using that m unfolding e(1) by auto
    with assms(2) e(2) show ?thesis by blast
  qed
  show "Q x t'" if "(case ?xs of [] \<Rightarrow> Inl (Gorm ErrRecordNotFound) | r # x \<Rightarrow> Inr (r, t)) = Inr (x, t')" for x t'
  proof -
    have "\<exists>ys. ?xs = x # ys \<and> t' = t" using that by (cases ?xs) auto
    then obtain ys where ys: "?xs = x # ys" "t' = t" by blast
    have "k s \<le> k x" if "s \<in> set (rows (sel t))" "p s" for s
    proof -
      have "s \<in> set (x # ys)" using that m by (simp add: ys(1) [symmetric])
      then show ?thesis using s unfolding ys(1) by auto
    qed
    moreover have "x \<in> set ?xs" using ys by simp
    ultimately show ?thesis using assms(3) m ys by auto
  qed
qed (rule assms(1))

lemma wpt_first_latest [wpt_rules]:
  assumes "E (Gorm ErrDriver) t" and "E (Gorm ErrRecordNotFound) t"
    and "\<And>r. p r \<Longrightarrow> r \<in> set (rows (sel t)) \<Longrightarrow> Q r t"
  shows "wpt (first_latest sel k p) Q E t"
  unfolding first_latest_def
proof (rule wpt_stmt)
  let ?xs = "rev (sort_key k (filter p (rows (sel t))))"
  show "Q x t'" if "(case ?xs of [] \<Rightarrow> Inl (Gorm ErrRecordNotFound) | r # x \<Rightarrow> Inr (r, t)) = Inr (x, t')" for x t'
  proof -
    have "x \<in> set ?xs \<and> t' = t" using that by (cases ?xs) auto
    then show ?thesis using assms(3) by simp
  qed
qed (use assms in \<open>auto split: list.splits\<close>)

lemma wpt_update [wpt_rules]:
  "E (Gorm ErrDriver) t \<Longrightarrow> Q (count_rows p (sel t)) (upd (\<lambda>_. upd_rows p f (sel t)) t)
    \<Longrightarrow> wpt (update_where sel upd p f) Q E t"
  unfolding update_where_def by (rule wpt_stmt) auto

lemma wpt_delete [wpt_rules]:
  "E (Gorm ErrDriver) t \<Longrightarrow> Q (count_rows p (sel t)) (upd (\<lambda>_. del_rows p (sel t)) t)
    \<Longrightarrow> wpt (delete_where sel upd p) Q E t"
  unfolding delete_where_def by (rule wpt_stmt) auto

lemma wpt_create [wpt_rules]:
  assumes "E (Gorm ErrDriver) t"
    and "\<And>r'. r' \<in> set (rows (sel t)) \<Longrightarrow> clash (mk (seq (sel t) + 1)) r'
           \<Longrightarrow> E (Gorm ErrDuplicatedKey) t"
    and "(\<And>r'. r' \<in> set (rows (sel t)) \<Longrightarrow> \<not> clash (mk (seq (sel t) + 1)) r')
           \<Longrightarrow> Q (mk (seq (sel t) + 1)) (upd (\<lambda>_. add_row mk (sel t)) t)"
  shows "wpt (create sel upd clash mk) Q E t"
  unfolding create_def
  by (rule wpt_stmt) (use assms in \<open>auto simp: Let_def split: if_splits\<close>)

lemma wpt_save [wpt_rules]:
  assumes "E (Gorm ErrDriver) t" and "E (Gorm ErrDuplicatedKey) t"
    and "\<And>r'. r' \<in> set (rows (sel t)) \<Longrightarrow> key r' = key r
           \<Longrightarrow> Q () (upd (\<lambda>_. upd_rows (\<lambda>r'. key r' = key r) (\<lambda>_. r) (sel t)) t)"
    and "(\<And>r'. r' \<in> set (rows (sel t)) \<Longrightarrow> key r' \<noteq> key r)
           \<Longrightarrow> Q () (upd (\<lambda>_. \<lparr>rows = rows (sel t) @ [r], seq = max (seq (sel t)) (key r)\<rparr>) t)"
  shows "wpt (save sel upd clash key r) Q E t"
  unfolding save_def
  by (rule wpt_stmt) (use assms in \<open>auto split: if_splits\<close>)

lemma wpt_if [wpt_rules]:
  "(b \<Longrightarrow> wpt m Q E t) \<Longrightarrow> (\<not> b \<Longrightarrow> wpt n Q E t) \<Longrightarrow> wpt (if b then m else n) Q E t"
  by simp

lemma wpt_case_option [wpt_rules]:
  "(x = None \<Longrightarrow> wpt m Q E t) \<Longrightarrow> (\<And>y. x = Some y \<Longrightarrow> wpt (f y) Q E t)
    \<Longrightarrow> wpt (case x of None \<Rightarrow> m | Some y \<Rightarrow> f y) Q E t"
  by (cases x) auto

lemma wpt_case_sum [wpt_rules]:
  "(\<And>y. x = Inl y \<Longrightarrow> wpt (f y) Q E t) \<Longrightarrow> (\<And>y. x = Inr y \<Longrightarrow> wpt (g y) Q E t)
    \<Longrightarrow> wpt (case x of Inl y \<Rightarrow> f y | Inr y \<Rightarrow> g y) Q E t"
  by (cases x) auto

section \<open>Preserved properties\<close>

text \<open>\<open>preserves P m\<close>: \<open>m\<close> keeps \<open>P\<close> of the tables, whatever the faults and the outcome.\<close>

definition preserves :: "('t \<Rightarrow> bool) \<Rightarrow> ('t, 'a) op \<Rightarrow> bool" where
  "preserves P m \<longleftrightarrow> (\<forall>t. P t \<longrightarrow> wpt m (\<lambda>_. P) (\<lambda>_. P) t)"

lemma preservesI: "(\<And>t. P t \<Longrightarrow> wpt m (\<lambda>_. P) (\<lambda>_. P) t) \<Longrightarrow> preserves P m"
  by (simp add: preserves_def)

lemma preserves_run: "preserves P m \<Longrightarrow> P (tables w) \<Longrightarrow> m w = (r, w') \<Longrightarrow> P (tables w')"
  unfolding preserves_def using wpt_run [of m "\<lambda>_. P" "\<lambda>_. P" w r w'] by (auto split: sum.splits)

lemma preserves_basic [keep_rules]:
  "preserves P (ret x)" "preserves P (raise e)" "preserves P (guardE b e)" "preserves P (query f)"
  "preserves P (first sel p)" "preserves P (first_desc sel k p)" "preserves P (first_latest sel k2 p)"
  by (auto intro!: preservesI wpt_rules)

lemma preserves_bind [keep_rules]:
  "preserves P m \<Longrightarrow> (\<And>x. preserves P (f x)) \<Longrightarrow> preserves P (bindE m f)"
  by (auto intro!: preservesI wpt_bind simp: preserves_def elim!: wpt_mono)

lemma preserves_attempt [keep_rules]: "preserves P m \<Longrightarrow> preserves P (attempt m)"
  by (auto simp: preserves_def intro: wpt_attempt)

lemma preserves_map_err [keep_rules]: "preserves P m \<Longrightarrow> preserves P (map_err h m)"
  by (auto simp: preserves_def intro: wpt_map_err)

lemma preserves_transaction [keep_rules]: "preserves P m \<Longrightarrow> preserves P (transaction m)"
  by (auto simp: preserves_def intro!: wpt_transaction elim!: wpt_mono)

lemma preserves_if [keep_rules]:
  "(b \<Longrightarrow> preserves P m) \<Longrightarrow> (\<not> b \<Longrightarrow> preserves P n) \<Longrightarrow> preserves P (if b then m else n)"
  by simp

lemma preserves_case_option [keep_rules]:
  "(x = None \<Longrightarrow> preserves P m) \<Longrightarrow> (\<And>y. x = Some y \<Longrightarrow> preserves P (f y))
    \<Longrightarrow> preserves P (case x of None \<Rightarrow> m | Some y \<Rightarrow> f y)"
  by (cases x) auto

lemma preserves_case_sum [keep_rules]:
  "(\<And>y. preserves P (f y)) \<Longrightarrow> (\<And>y. preserves P (g y)) \<Longrightarrow> preserves P (case x of Inl y \<Rightarrow> f y | Inr y \<Rightarrow> g y)"
  by (cases x) auto

section \<open>Running without faults\<close>

lemma world_in_tx_id [simp]: "w\<lparr>in_tx := in_tx w\<rparr> = (w::'t world)"
  by (cases w) simp

lemma tick_no_faults [simp]: "faults w = [] \<Longrightarrow> tick w = w"
  by (cases w) (simp add: tick_def)

lemma no_fault_pending [simp]: "faults w = [] \<Longrightarrow> \<not> fault_pending w"
  by (simp add: fault_pending_def)

lemma stmt_run: "faults w = [] \<Longrightarrow> stmt f w = (case f (tables w) of Inl e \<Rightarrow> (Inl e, w)
       | Inr (x, t) \<Rightarrow> (Inr x, w\<lparr>tables := t\<rparr>))"
  by (simp add: stmt_def split: sum.split prod.split)

lemma run_Inr: "\<not> isl (fst p) \<Longrightarrow> p = (Inr (projr (fst p)), snd p)"
  by (cases p; cases "fst p") auto

lemma run_Inl: "isl (fst p) \<Longrightarrow> p = (Inl (projl (fst p)), snd p)"
  by (cases p; cases "fst p") auto

lemmas run_defs =
  ret_def raise_def bindE_def attempt_def map_err_def guardE_def stmt_def fault_pending_def
  tick_def transaction_def query_def first_def update_where_def delete_where_def create_def save_def

section \<open>Row algebra\<close>

lemma rows_upd [table_simps]: "rows (upd_rows p f t) = map (\<lambda>r. if p r then f r else r) (rows t)"
  by (simp add: upd_rows_def)

lemma upd_rows_id [simp]: "upd_rows p (\<lambda>r. r) t = t"
  by (simp add: upd_rows_def)

lemma upd_rows_eq: "(\<And>r. r \<in> set (rows t) \<Longrightarrow> p r \<Longrightarrow> f r = g r) \<Longrightarrow> upd_rows p f t = upd_rows p g t"
  by (auto simp: upd_rows_def intro!: arg_cong [where f = "\<lambda>x. rows_update (\<lambda>_. x) t"] map_cong)

lemma upd_rows_hit:
  assumes "k \<in> set (rows (upd_rows (\<lambda>r. key r = i) f t))" and "key k = i"
  shows "\<exists>r. k = f r"
  using assms by (auto simp: table_simps split: if_splits)

lemma seq_upd [table_simps]: "seq (upd_rows p f t) = seq t"
  by (simp add: upd_rows_def)

lemma rows_add [table_simps]: "rows (add_row mk t) = rows t @ [mk (seq t + 1)]"
  by (simp add: add_row_def)

lemma seq_add [table_simps]: "seq (add_row mk t) = seq t + 1"
  by (simp add: add_row_def)

lemma rows_del [table_simps]: "rows (del_rows p t) = filter (\<lambda>r. \<not> p r) (rows t)"
  by (simp add: del_rows_def)

lemma seq_del [table_simps]: "seq (del_rows p t) = seq t"
  by (simp add: del_rows_def)

lemma sum_rows_add [table_simps]:
  "sum_rows p f (add_row mk t) = sum_rows p f t + (if p (mk (seq t + 1)) then f (mk (seq t + 1)) else 0)"
  by (simp add: sum_rows_def add_row_def)

text \<open>Identifiers: distinct and bounded by the auto-increment counter.\<close>

definition keyed :: "('r \<Rightarrow> int) \<Rightarrow> 'r table \<Rightarrow> bool" where
  "keyed k t \<longleftrightarrow> distinct (map k (rows t)) \<and> (\<forall>r \<in> set (rows t). k r \<le> seq t)"

lemma keyed_upd:
  "keyed k t \<Longrightarrow> (\<And>r. k (f r) = k r) \<Longrightarrow> keyed k (upd_rows p f t)"
  by (auto simp: keyed_def upd_rows_def comp_def if_distrib cong: if_cong)

lemma map_key_upd: "(\<And>r. k (f r) = k r) \<Longrightarrow> map k (rows (upd_rows p f t)) = map k (rows t)"
  by (simp add: upd_rows_def)

lemma keyed_add: "keyed k t \<Longrightarrow> (\<And>i. k (mk i) = i) \<Longrightarrow> keyed k (add_row mk t)"
  by (force simp: keyed_def add_row_def)

lemma keyed_del: "keyed k t \<Longrightarrow> keyed k (del_rows p t)"
  by (auto simp: keyed_def del_rows_def distinct_map_filter)

lemma keyed_unique: "keyed k t \<Longrightarrow> r \<in> set (rows t) \<Longrightarrow> s \<in> set (rows t) \<Longrightarrow> k r = k s \<Longrightarrow> r = s"
  by (auto simp: keyed_def distinct_map inj_on_def)

lemma count_rows_key_le1: "keyed k t \<Longrightarrow> count_rows (\<lambda>r. k r = i \<and> p r) t \<le> 1"
  unfolding keyed_def count_rows_def using filter_distinct_key_le1 [of k "rows t" i p] by simp

lemma count_rows_pos: "0 < count_rows p t \<longleftrightarrow> (\<exists>r \<in> set (rows t). p r)"
  by (auto simp: count_rows_def filter_empty_conv)

lemma count_rows_zero: "count_rows p t = 0 \<longleftrightarrow> (\<forall>r \<in> set (rows t). \<not> p r)"
  by (auto simp: count_rows_def filter_empty_conv)

lemma count_rows_nonneg [simp]: "0 \<le> count_rows p t"
  by (simp add: count_rows_def)

lemma count_key_one:
  assumes "keyed k t"
  shows "count_rows (\<lambda>r. k r = i \<and> p r) t = (if \<exists>r \<in> set (rows t). k r = i \<and> p r then 1 else 0)"
  using count_rows_key_le1 [OF assms, of i p] count_rows_pos [of "\<lambda>r. k r = i \<and> p r" t]
    count_rows_zero [of "\<lambda>r. k r = i \<and> p r" t] count_rows_nonneg [of "\<lambda>r. k r = i \<and> p r" t]
  by auto


lemma keyed_save:
  "keyed k t \<Longrightarrow> keyed k (upd_rows (\<lambda>r'. k r' = k r) (\<lambda>_. r) t)"
  by (auto simp: keyed_def upd_rows_def comp_def if_distrib [of k] cong: if_cong)

lemma keyed_insert:
  "keyed k t \<Longrightarrow> (\<And>r'. r' \<in> set (rows t) \<Longrightarrow> k r' \<noteq> k r)
    \<Longrightarrow> keyed k \<lparr>rows = rows t @ [r], seq = max (seq t) (k r)\<rparr>"
  by (force simp: keyed_def)

section \<open>Runs without faults\<close>

text \<open>
  \<open>runs m Q t\<close>: started on tables \<open>t\<close> with no engine failure to come, \<open>m\<close> returns
  a value \<open>x\<close> and tables satisfying \<open>Q x\<close>.
\<close>

definition runs :: "('t, 'a) op \<Rightarrow> ('a \<Rightarrow> 't \<Rightarrow> bool) \<Rightarrow> 't \<Rightarrow> bool" where
  "runs m Q t \<longleftrightarrow> (\<forall>w. tables w = t \<and> faults w = [] \<longrightarrow>
     (\<exists>x w'. m w = (Inr x, w') \<and> faults w' = [] \<and> Q x (tables w')))"

lemma runsD: "runs m Q (tables w) \<Longrightarrow> faults w = [] \<Longrightarrow> \<exists>x w'. m w = (Inr x, w') \<and> faults w' = [] \<and> Q x (tables w')"
  by (auto simp: runs_def)

lemma runs_mono: "runs m Q t \<Longrightarrow> (\<And>x t'. Q x t' \<Longrightarrow> Q' x t') \<Longrightarrow> runs m Q' t"
  unfolding runs_def by (metis (no_types, lifting))

lemma runs_ret [runs_rules]: "Q x t \<Longrightarrow> runs (ret x) Q t"
  by (simp add: runs_def ret_def)

lemma runs_bind [runs_rules]: "runs m (\<lambda>x. runs (f x) Q) t \<Longrightarrow> runs (bindE m f) Q t"
  unfolding runs_def bindE_def by (fastforce split: prod.splits)

lemma runs_attempt [runs_rules]: "runs m (\<lambda>x. Q (Inr x)) t \<Longrightarrow> runs (attempt m) Q t"
  unfolding runs_def attempt_def by (fastforce split: prod.splits)

lemma runs_map_err [runs_rules]: "runs m Q t \<Longrightarrow> runs (map_err h m) Q t"
  unfolding runs_def map_err_def by (fastforce split: prod.splits)

lemma runs_guard [runs_rules]: "b \<Longrightarrow> Q () t \<Longrightarrow> runs (guardE b e) Q t"
  by (simp add: guardE_def runs_ret)

lemma runs_if [runs_rules]: "(b \<Longrightarrow> runs m Q t) \<Longrightarrow> (\<not> b \<Longrightarrow> runs n Q t) \<Longrightarrow> runs (if b then m else n) Q t"
  by simp

lemma runs_case_prod:
  "(\<And>a b. x = (a, b) \<Longrightarrow> runs (f a b) Q t) \<Longrightarrow> runs (case x of (a, b) \<Rightarrow> f a b) Q t"
  by (cases x) simp

lemma runs_query [runs_rules]: "Q (f t) t \<Longrightarrow> runs (query f) Q t"
  by (simp add: runs_def query_def stmt_run)

lemma runs_first [runs_rules]:
  "find p (rows (sel t)) = Some r \<Longrightarrow> Q r t \<Longrightarrow> runs (first sel p) Q t"
  by (simp add: runs_def first_def stmt_run)

lemma runs_conj_wpt:
  assumes "runs m Q t" and "wpt m Q' E t"
  shows "runs m (\<lambda>x t'. Q x t' \<and> Q' x t') t"
  unfolding runs_def
proof (intro allI impI)
  fix w :: "'a world" assume w: "tables w = t \<and> faults w = []"
  with assms(1) obtain x w' where r: "m w = (Inr x, w')" "faults w' = []" "Q x (tables w')" by (auto simp: runs_def)
  moreover have "Q' x (tables w')" using wptD_Inr [of m Q' E w] assms(2) w r(1) by auto
  ultimately show "\<exists>x w'. m w = (Inr x, w') \<and> faults w' = [] \<and> Q x (tables w') \<and> Q' x (tables w')" by blast
qed

section \<open>Operations on a part of the state\<close>

text \<open>
  \<open>on_part view put m\<close> runs \<open>m\<close>, an operation of one component, on the view it has of a
  larger state; \<open>put\<close> writes the changed view back.
\<close>

definition on_part :: "('s \<Rightarrow> 't) \<Rightarrow> ('t \<Rightarrow> 's \<Rightarrow> 's) \<Rightarrow> ('t, 'a) op \<Rightarrow> ('s, 'a) op" where
  "on_part view put m w = (case m \<lparr>tables = view (tables w), faults = faults w, in_tx = in_tx w\<rparr> of
     (r, w') \<Rightarrow> (r, \<lparr>tables = put (tables w') (tables w), faults = faults w', in_tx = in_tx w'\<rparr>))"

lemma wpt_part:
  fixes t :: 's and put :: "'t \<Rightarrow> 's \<Rightarrow> 's"
  assumes "wpt m (\<lambda>x v. Q x (put v t)) (\<lambda>e v. E e (put v t)) (view t)"
  shows "wpt (on_part view put m) Q E t"
  unfolding wpt_def
proof (intro allI impI)
  fix w :: "'s world"
  assume t: "tables w = t"
  let ?v = "\<lparr>tables = view (tables w), faults = faults w, in_tx = in_tx w\<rparr>"
  obtain r v where m: "m ?v = (r, v)" by fastforce
  have "case r of Inl e \<Rightarrow> E e (put (tables v) t) | Inr x \<Rightarrow> Q x (put (tables v) t)"
    using wpt_run [of m _ _ ?v, OF _ m] assms t by simp
  with m t show "case on_part view put m w of (Inl e, w') \<Rightarrow> E e (tables w') | (Inr x, w') \<Rightarrow> Q x (tables w')"
    by (simp add: on_part_def split: sum.splits)
qed

lemma part_keeps: "(\<And>v t. P (put v t) = P t) \<Longrightarrow> preserves P (on_part view put m)"
  by (rule preservesI, rule wpt_part) (auto simp: wpt_def split: prod.split sum.split)

lemma runs_part:
  fixes t :: 's
  assumes "runs m (\<lambda>x v. Q x (put v t)) (view t)"
  shows "runs (on_part view put m) Q t"
  unfolding runs_def
proof (intro allI impI)
  fix w :: "'s world"
  assume w: "tables w = t \<and> faults w = []"
  let ?v = "\<lparr>tables = view t, faults = [], in_tx = in_tx w\<rparr>"
  obtain x v where "m ?v = (Inr x, v)" "faults v = []" "Q x (put (tables v) t)"
    using runsD [of m "\<lambda>x v. Q x (put v t)" ?v] assms by auto
  with w show "\<exists>x w'. on_part view put m w = (Inr x, w') \<and> faults w' = [] \<and> Q x (tables w')"
    by (simp add: on_part_def)
qed

end
