(* ===== verification/Schema.thy ===== *)
theory Schema
  imports Store
begin

text \<open>
  The rows of the commercial tables (the gorm model structs of
  \<open>internal/database/repository\<close>) and the database record that holds the tables.
  Field prefixes name the table.  Left out are the \<open>updated_at\<close> columns gorm
  maintains by itself, the preloaded associations (\<open>User *User\<close> and so on, which
  are not columns) and, of the wide users table, the columns the modelled packages
  neither read nor write (profile, notification and login data).
\<close>

section \<open>Rows\<close>

record user_row =
  u_id :: int
  u_username :: string
  u_enabled :: bool
  u_traffic_limit :: int
  u_traffic_used :: int
  u_expires_at :: "time option"
  u_email_verified :: bool
  u_current_plan_id :: int
  u_current_plan_price :: int
  u_current_plan_duration :: int
  u_balance :: int
  u_created_at :: time

record plan_row =
  p_id :: int
  p_name :: string
  p_traffic_limit :: int
  p_duration :: int
  p_price :: int
  p_is_active :: bool

record order_row =
  o_id :: int
  o_order_no :: string
  o_user_id :: int
  o_plan_id :: int
  o_coupon_id :: "int option"
  o_original_amount :: int
  o_discount_amount :: int
  o_balance_used :: int
  o_pay_amount :: int
  o_status :: string
  o_payment_method :: string
  o_payment_no :: string
  o_paid_at :: "time option"
  o_fulfilled_at :: "time option"
  o_fulfillment_pending :: bool
  o_refunded_amount :: int
  o_expired_at :: time
  o_notes :: string
  o_created_at :: time

record balance_tx_row =
  t_id :: int
  t_user_id :: int
  t_type :: string
  t_amount :: int
  t_balance :: int
  t_order_id :: "int option"
  t_description :: string
  t_operator :: string
  t_created_at :: time

record recharge_row =
  r_id :: int
  r_order_no :: string
  r_user_id :: int
  r_amount :: int
  r_method :: string
  r_status :: string
  r_payment_no :: string
  r_paid_at :: "time option"
  r_expired_at :: time
  r_created_at :: time

record gift_card_row =
  g_id :: int
  g_code :: string
  g_value :: int
  g_status :: string
  g_created_by :: "int option"
  g_purchased_by :: "int option"
  g_redeemed_by :: "int option"
  g_batch_id :: string
  g_expires_at :: "time option"
  g_redeemed_at :: "time option"
  g_purchased_at :: "time option"
  g_created_at :: time

record coupon_row =
  c_id :: int
  c_code :: string
  c_name :: string
  c_type :: string
  c_value :: int
  c_min_order_amount :: int
  c_max_discount :: int
  c_total_limit :: int
  c_per_user_limit :: int
  c_used_count :: int
  c_plan_ids :: string
  c_start_at :: time
  c_expire_at :: time
  c_is_active :: bool
  c_created_at :: time

record coupon_usage_row =
  cu_id :: int
  cu_coupon_id :: int
  cu_user_id :: int
  cu_order_id :: int
  cu_discount :: int
  cu_used_at :: time

record downgrade_row =
  d_id :: int
  d_user_id :: int
  d_current_plan_id :: int
  d_new_plan_id :: int
  d_effective_at :: time
  d_created_at :: time

record trial_row =
  tr_id :: int
  tr_user_id :: int
  tr_status :: string
  tr_start_at :: time
  tr_expire_at :: time
  tr_traffic_used :: int
  tr_converted_at :: "time option"
  tr_created_at :: time

record pause_row =
  ps_id :: int
  ps_user_id :: int
  ps_paused_at :: time
  ps_resumed_at :: "time option"
  ps_remaining_days :: int
  ps_remaining_traffic :: int
  ps_auto_resume_at :: time
  ps_created_at :: time

record commission_row =
  k_id :: int
  k_user_id :: int
  k_from_user_id :: int
  k_order_id :: int
  k_amount :: int
  k_rate :: rat
  k_level :: int
  k_status :: string
  k_confirm_at :: "time option"
  k_created_at :: time

record invite_code_row =
  ic_id :: int
  ic_user_id :: int
  ic_code :: string
  ic_invite_count :: int
  ic_created_at :: time

record referral_row =
  rl_id :: int
  rl_inviter_id :: int
  rl_invitee_id :: int
  rl_invite_code :: string
  rl_status :: string
  rl_converted_at :: "time option"
  rl_created_at :: time

section \<open>The database\<close>

record db =
  users :: "user_row table"
  plans :: "plan_row table"
  orders :: "order_row table"
  ledger :: "balance_tx_row table"
  recharges :: "recharge_row table"
  gift_cards :: "gift_card_row table"
  coupons :: "coupon_row table"
  coupon_usages :: "coupon_usage_row table"
  downgrades :: "downgrade_row table"
  trials :: "trial_row table"
  pauses :: "pause_row table"
  commissions :: "commission_row table"
  invite_codes :: "invite_code_row table"
  referrals :: "referral_row table"

type_synonym 'a dbop = "(db, 'a) op"

definition empty_table :: "'r table" where
  "empty_table = \<lparr>rows = [], seq = 0\<rparr>"

definition empty_db :: db where
  "empty_db = \<lparr>users = empty_table, plans = empty_table, orders = empty_table,
     ledger = empty_table, recharges = empty_table, gift_cards = empty_table,
     coupons = empty_table, coupon_usages = empty_table, downgrades = empty_table,
     trials = empty_table, pauses = empty_table, commissions = empty_table,
     invite_codes = empty_table, referrals = empty_table\<rparr>"

definition fresh_world :: "db \<Rightarrow> db world" where
  "fresh_world d = \<lparr>tables = d, faults = [], in_tx = False\<rparr>"

text \<open>
  What the engine leaves open and the sources do not decide: how \<open>LIKE\<close> treats letter
  case, and what an addition that leaves the int64 range stores (\<open>None\<close>: the
  statement fails).  Both are parameters of the statements that depend on them.
\<close>

record engine =
  like_match :: "string \<Rightarrow> string \<Rightarrow> bool"
  overflow_result :: "int \<Rightarrow> int option"

text \<open>Status and type constants shared by the services.\<close>

definition StatusPending :: string where "StatusPending = ''pending''"
definition StatusPaid :: string where "StatusPaid = ''paid''"
definition StatusCompleted :: string where "StatusCompleted = ''completed''"
definition StatusCancelled :: string where "StatusCancelled = ''cancelled''"
definition StatusRefunded :: string where "StatusRefunded = ''refunded''"

definition TxTypeRecharge :: string where "TxTypeRecharge = ''recharge''"
definition TxTypePurchase :: string where "TxTypePurchase = ''purchase''"
definition TxTypeRefund :: string where "TxTypeRefund = ''refund''"
definition TxTypeCommission :: string where "TxTypeCommission = ''commission''"
definition TxTypeAdjustment :: string where "TxTypeAdjustment = ''adjustment''"

lemmas status_defs =
  StatusPending_def StatusPaid_def StatusCompleted_def StatusCancelled_def StatusRefunded_def

lemmas tx_type_defs =
  TxTypeRecharge_def TxTypePurchase_def TxTypeRefund_def TxTypeCommission_def TxTypeAdjustment_def

lemma status_distinct [simp]:
  "StatusPending \<noteq> StatusPaid" "StatusPending \<noteq> StatusCompleted"
  "StatusPending \<noteq> StatusCancelled" "StatusPending \<noteq> StatusRefunded"
  "StatusPaid \<noteq> StatusPending" "StatusPaid \<noteq> StatusCompleted"
  "StatusPaid \<noteq> StatusCancelled" "StatusPaid \<noteq> StatusRefunded"
  "StatusCompleted \<noteq> StatusPending" "StatusCompleted \<noteq> StatusPaid"
  "StatusCompleted \<noteq> StatusCancelled" "StatusCompleted \<noteq> StatusRefunded"
  "StatusCancelled \<noteq> StatusPending" "StatusCancelled \<noteq> StatusPaid"
  "StatusCancelled \<noteq> StatusCompleted" "StatusCancelled \<noteq> StatusRefunded"
  "StatusRefunded \<noteq> StatusPending" "StatusRefunded \<noteq> StatusPaid"
  "StatusRefunded \<noteq> StatusCompleted" "StatusRefunded \<noteq> StatusCancelled"
  by (simp_all add: status_defs)

section \<open>Well-formed databases and the books\<close>

text \<open>
  \<open>wf_db\<close>: identifiers are keys.  \<open>wallet d u\<close> is the balance column of user
  \<open>u\<close>, \<open>ledger_total d u\<close> the sum of the user's audit rows.  The books of
  \<open>d'\<close> agree with those of \<open>d\<close> when every user's wallet moved by exactly what
  the audit rows written in between record.
\<close>

definition wf_db :: "db \<Rightarrow> bool" where
  "wf_db d \<longleftrightarrow> keyed u_id (users d) \<and> keyed o_id (orders d) \<and> keyed g_id (gift_cards d)
     \<and> keyed r_id (recharges d) \<and> keyed p_id (plans d) \<and> keyed d_id (downgrades d)
     \<and> keyed k_id (commissions d)"

definition wallet :: "db \<Rightarrow> int \<Rightarrow> int" where
  "wallet d u = (case find (\<lambda>r. u_id r = u) (rows (users d)) of None \<Rightarrow> 0 | Some r \<Rightarrow> u_balance r)"

definition ledger_total :: "db \<Rightarrow> int \<Rightarrow> int" where
  "ledger_total d u = sum_rows (\<lambda>t. t_user_id t = u) t_amount (ledger d)"

definition books_agree :: "db \<Rightarrow> db \<Rightarrow> bool" where
  "books_agree d d' \<longleftrightarrow>
     (\<forall>u. wallet d' u - wallet d u = ledger_total d' u - ledger_total d u)"

definition wallets_ok :: "db \<Rightarrow> bool" where
  "wallets_ok d \<longleftrightarrow> (\<forall>r \<in> set (rows (users d)). 0 \<le> u_balance r \<and> u_balance r \<le> maxI64)"

definition user_ids :: "db \<Rightarrow> int set" where
  "user_ids d = set (map u_id (rows (users d)))"

text \<open>
  \<open>columns_ok\<close>: the amounts the money operations compute with are int64 values, those
  of orders and plans not negative, and recharge orders ask for a positive amount.  \<open>sound_db\<close> is the invariant of the
  database; \<open>sound_step\<close> the relation every money operation keeps between the database
  before and after it.
\<close>

definition price_ok :: "int \<Rightarrow> bool" where
  "price_ok x \<longleftrightarrow> 0 \<le> x \<and> x \<le> maxI64"

lemma price_ok_in_i64 [simp]: "price_ok x \<Longrightarrow> in_i64 x"
  by (simp add: price_ok_def i64_defs)

definition columns_ok :: "db \<Rightarrow> bool" where
  "columns_ok d \<longleftrightarrow>
     (\<forall>r \<in> set (rows (orders d)). price_ok (o_pay_amount r) \<and> price_ok (o_balance_used r))
   \<and> (\<forall>r \<in> set (rows (gift_cards d)). in_i64 (g_value r))
   \<and> (\<forall>r \<in> set (rows (recharges d)). 0 < r_amount r \<and> r_amount r \<le> maxI64)
   \<and> (\<forall>r \<in> set (rows (plans d)). price_ok (p_price r))
   \<and> (\<forall>r \<in> set (rows (commissions d)). in_i64 (k_amount r))"

definition sound_db :: "db \<Rightarrow> bool" where
  "sound_db d \<longleftrightarrow> wf_db d \<and> wallets_ok d \<and> columns_ok d"

definition sound_step :: "db \<Rightarrow> db \<Rightarrow> bool" where
  "sound_step d d' \<longleftrightarrow> sound_db d' \<and> books_agree d d'"

lemma wallet_frame [simp]:
  "wallet (d\<lparr>plans := x0\<rparr>) u = wallet d u"
  "wallet (d\<lparr>orders := x1\<rparr>) u = wallet d u"
  "wallet (d\<lparr>ledger := x2\<rparr>) u = wallet d u"
  "wallet (d\<lparr>recharges := x3\<rparr>) u = wallet d u"
  "wallet (d\<lparr>gift_cards := x4\<rparr>) u = wallet d u"
  "wallet (d\<lparr>coupons := x5\<rparr>) u = wallet d u"
  "wallet (d\<lparr>coupon_usages := x6\<rparr>) u = wallet d u"
  "wallet (d\<lparr>downgrades := x7\<rparr>) u = wallet d u"
  "wallet (d\<lparr>trials := x8\<rparr>) u = wallet d u"
  "wallet (d\<lparr>pauses := x9\<rparr>) u = wallet d u"
  "wallet (d\<lparr>commissions := x10\<rparr>) u = wallet d u"
  "wallet (d\<lparr>invite_codes := x11\<rparr>) u = wallet d u"
  "wallet (d\<lparr>referrals := x12\<rparr>) u = wallet d u"
  by (simp_all add: wallet_def)

lemma user_ids_frame [simp]:
  "user_ids (d\<lparr>plans := x0\<rparr>) = user_ids d"
  "user_ids (d\<lparr>orders := x1\<rparr>) = user_ids d"
  "user_ids (d\<lparr>ledger := x2\<rparr>) = user_ids d"
  "user_ids (d\<lparr>recharges := x3\<rparr>) = user_ids d"
  "user_ids (d\<lparr>gift_cards := x4\<rparr>) = user_ids d"
  "user_ids (d\<lparr>coupons := x5\<rparr>) = user_ids d"
  "user_ids (d\<lparr>coupon_usages := x6\<rparr>) = user_ids d"
  "user_ids (d\<lparr>downgrades := x7\<rparr>) = user_ids d"
  "user_ids (d\<lparr>trials := x8\<rparr>) = user_ids d"
  "user_ids (d\<lparr>pauses := x9\<rparr>) = user_ids d"
  "user_ids (d\<lparr>commissions := x10\<rparr>) = user_ids d"
  "user_ids (d\<lparr>invite_codes := x11\<rparr>) = user_ids d"
  "user_ids (d\<lparr>referrals := x12\<rparr>) = user_ids d"
  by (simp_all add: user_ids_def)

lemma ledger_total_frame [simp]:
  "ledger_total (d\<lparr>users := y0\<rparr>) u = ledger_total d u"
  "ledger_total (d\<lparr>plans := y1\<rparr>) u = ledger_total d u"
  "ledger_total (d\<lparr>orders := y2\<rparr>) u = ledger_total d u"
  "ledger_total (d\<lparr>recharges := y3\<rparr>) u = ledger_total d u"
  "ledger_total (d\<lparr>gift_cards := y4\<rparr>) u = ledger_total d u"
  "ledger_total (d\<lparr>coupons := y5\<rparr>) u = ledger_total d u"
  "ledger_total (d\<lparr>coupon_usages := y6\<rparr>) u = ledger_total d u"
  "ledger_total (d\<lparr>downgrades := y7\<rparr>) u = ledger_total d u"
  "ledger_total (d\<lparr>trials := y8\<rparr>) u = ledger_total d u"
  "ledger_total (d\<lparr>pauses := y9\<rparr>) u = ledger_total d u"
  "ledger_total (d\<lparr>commissions := y10\<rparr>) u = ledger_total d u"
  "ledger_total (d\<lparr>invite_codes := y11\<rparr>) u = ledger_total d u"
  "ledger_total (d\<lparr>referrals := y12\<rparr>) u = ledger_total d u"
  by (simp_all add: ledger_total_def)

lemma books_agree_refl [simp]: "books_agree d d"
  by (simp add: books_agree_def)

lemma books_agree_trans: "books_agree d d' \<Longrightarrow> books_agree d' d'' \<Longrightarrow> books_agree d d''"
  unfolding books_agree_def
proof
  fix u
  assume "\<forall>u. wallet d' u - wallet d u = ledger_total d' u - ledger_total d u"
    and "\<forall>u. wallet d'' u - wallet d' u = ledger_total d'' u - ledger_total d' u"
  then have "wallet d' u - wallet d u = ledger_total d' u - ledger_total d u"
    and "wallet d'' u - wallet d' u = ledger_total d'' u - ledger_total d' u" by blast+
  then show "wallet d'' u - wallet d u = ledger_total d'' u - ledger_total d u" by linarith
qed

lemma books_agree_same:
  "users d' = users d \<Longrightarrow> ledger d' = ledger d \<Longrightarrow> books_agree d d'"
  by (simp add: books_agree_def wallet_def ledger_total_def)

lemma sound_step_refl: "sound_db d \<Longrightarrow> sound_step d d"
  by (simp add: sound_step_def)

lemma sound_step_trans: "sound_step d d' \<Longrightarrow> sound_step d' d'' \<Longrightarrow> sound_step d d''"
  by (auto simp: sound_step_def intro: books_agree_trans)

lemma sound_step_same:
  "sound_db d \<Longrightarrow> wf_db d' \<Longrightarrow> columns_ok d' \<Longrightarrow> users d' = users d \<Longrightarrow> ledger d' = ledger d
    \<Longrightarrow> sound_step d d'"
  by (simp add: sound_step_def sound_db_def wallets_ok_def books_agree_same)

text \<open>An update of the users table that leaves ids and balances alone leaves the wallets alone.\<close>

lemma find_map_key:
  assumes "\<And>r. k (f r) = k r"
  shows "find (\<lambda>r. k r = i) (map f xs) = map_option f (find (\<lambda>r. k r = i) xs)"
  by (induction xs) (auto simp: assms)

lemma wallet_upd_frame:
  assumes "\<And>r. u_id (f r) = u_id r" and "\<And>r. u_balance (f r) = u_balance r"
  shows "wallet (d\<lparr>users := upd_rows p f (users d)\<rparr>) u = wallet d u"
proof -
  have "find (\<lambda>r. u_id r = u) (map (\<lambda>r. if p r then f r else r) (rows (users d)))
      = map_option (\<lambda>r. if p r then f r else r) (find (\<lambda>r. u_id r = u) (rows (users d)))"
    by (rule find_map_key) (simp add: assms)
  then show ?thesis
    by (auto simp: wallet_def table_simps assms split: option.splits)
qed

lemma sound_step_user_frame:
  assumes "sound_db d"
    and "\<And>r. u_id (f r) = u_id r" and "\<And>r. u_balance (f r) = u_balance r"
  shows "sound_step d (d\<lparr>users := upd_rows p f (users d)\<rparr>)"
  using assms
  by (auto simp: sound_step_def sound_db_def wf_db_def wallets_ok_def columns_ok_def books_agree_def
      wallet_upd_frame ledger_total_def table_simps intro!: keyed_upd)

lemma sound_step_commissions:
  assumes "sound_db d" and "\<And>k. k_id (f k) = k_id k" and "\<And>k. k_amount (f k) = k_amount k"
  shows "sound_step d (d\<lparr>commissions := upd_rows p f (commissions d)\<rparr>)"
  using assms
  by (intro sound_step_same) (auto simp: sound_db_def wf_db_def columns_ok_def table_simps intro!: keyed_upd)

lemma wallet_member:
  "keyed u_id (users d) \<Longrightarrow> r \<in> set (rows (users d)) \<Longrightarrow> wallet d (u_id r) = u_balance r"
proof -
  assume k: "keyed u_id (users d)" and r: "r \<in> set (rows (users d))"
  then obtain s where s: "find (\<lambda>s. u_id s = u_id r) (rows (users d)) = Some s"
    by (cases "find (\<lambda>s. u_id s = u_id r) (rows (users d))") (auto simp: find_None_all)
  then have "u_id s = u_id r" and "s \<in> set (rows (users d))"
    by (auto dest: find_Some_iff_In)
  with k r have "s = r" by (blast intro: keyed_unique)
  with s show ?thesis by (simp add: wallet_def)
qed

section \<open>Sample rows\<close>

text \<open>Concrete rows for the examples at which the theorems are instantiated.\<close>

definition sample_user :: "int \<Rightarrow> int \<Rightarrow> user_row" where
  "sample_user i bal = \<lparr>u_id = i, u_username = ''alice'', u_enabled = True, u_traffic_limit = 1000,
     u_traffic_used = 100, u_expires_at = None, u_email_verified = True, u_current_plan_id = 0,
     u_current_plan_price = 0, u_current_plan_duration = 0, u_balance = bal, u_created_at = 0\<rparr>"

definition sample_plan :: "int \<Rightarrow> int \<Rightarrow> plan_row" where
  "sample_plan i price = \<lparr>p_id = i, p_name = ''basic'', p_traffic_limit = 5000, p_duration = 30,
     p_price = price, p_is_active = True\<rparr>"

definition sample_order :: "int \<Rightarrow> int \<Rightarrow> string \<Rightarrow> order_row" where
  "sample_order i price st = \<lparr>o_id = i, o_order_no = ''ORD-1'', o_user_id = 1, o_plan_id = 1,
     o_coupon_id = None, o_original_amount = price, o_discount_amount = 0, o_balance_used = 0,
     o_pay_amount = price, o_status = st, o_payment_method = [], o_payment_no = [],
     o_paid_at = None, o_fulfilled_at = None, o_fulfillment_pending = False, o_refunded_amount = 0,
     o_expired_at = 1000, o_notes = [], o_created_at = 0\<rparr>"

definition sample_recharge :: "int \<Rightarrow> int \<Rightarrow> recharge_row" where
  "sample_recharge i amount = \<lparr>r_id = i, r_order_no = ''RCG-1'', r_user_id = 1, r_amount = amount,
     r_method = ''alipay'', r_status = ''pending'', r_payment_no = [], r_paid_at = None,
     r_expired_at = 1000, r_created_at = 0\<rparr>"

definition sample_card :: "int \<Rightarrow> int \<Rightarrow> string \<Rightarrow> gift_card_row" where
  "sample_card i val st = \<lparr>g_id = i, g_code = ''GIFT'', g_value = val, g_status = st,
     g_created_by = None, g_purchased_by = None, g_redeemed_by = None, g_batch_id = ''B'',
     g_expires_at = None, g_redeemed_at = None, g_purchased_at = None, g_created_at = 0\<rparr>"

definition sample_db :: db where
  "sample_db = empty_db\<lparr>users := \<lparr>rows = [sample_user 1 500], seq = 1\<rparr>,
     plans := \<lparr>rows = [sample_plan 1 300], seq = 1\<rparr>,
     orders := \<lparr>rows = [sample_order 1 300 ''pending''], seq = 1\<rparr>,
     recharges := \<lparr>rows = [sample_recharge 1 200], seq = 1\<rparr>,
     gift_cards := \<lparr>rows = [sample_card 1 50 ''active''], seq = 1\<rparr>\<rparr>"

definition sample_engine :: engine where
  "sample_engine = \<lparr>like_match = (\<lambda>p s. p = s), overflow_result = (\<lambda>_. None)\<rparr>"

definition sample_world :: "db world" where
  "sample_world = fresh_world sample_db"

lemmas sample_defs = sample_user_def sample_plan_def sample_order_def sample_recharge_def
  sample_card_def sample_db_def sample_engine_def sample_world_def fresh_world_def
  empty_db_def empty_table_def

lemma sample_db_sound: "sound_db sample_db"
  by (simp add: sample_defs sound_db_def wf_db_def wallets_ok_def columns_ok_def price_ok_def keyed_def i64_defs)

lemma sample_world_fields [simp]:
  "tables sample_world = sample_db" "faults sample_world = []" "in_tx sample_world = False"
  by (simp_all add: sample_world_def fresh_world_def)

end
