(* ===== verification/BalanceRepo.thy ===== *)
theory BalanceRepo
  imports Schema
begin

text \<open>
  \<open>internal/database/repository/balance_repository.go\<close>: the wallet column of the
  users table and the audit rows of balance_transactions.  \<open>CreditAtomic\<close> and
  \<open>DebitAtomic\<close> are the two operations every package that moves money goes through;
  the locale \<open>wallet_store\<close> states what they promise and derives what clients need.
\<close>

section \<open>Operations\<close>

definition GetBalance :: "int \<Rightarrow> int dbop" where
  "GetBalance userID = query (\<lambda>d. wallet d userID)"

definition UpdateBalance :: "int \<Rightarrow> int \<Rightarrow> unit dbop" where
  "UpdateBalance userID amount =
     bindE (update_where users users_update (\<lambda>r. u_id r = userID) (\<lambda>r. r\<lparr>u_balance := amount\<rparr>))
       (\<lambda>_. ret ())"

text \<open>\<open>balance + ?\<close> without a guard: the engine decides what an overflow stores.\<close>

definition sql_add :: "engine \<Rightarrow> int \<Rightarrow> int \<Rightarrow> int option" where
  "sql_add eng a b = (if in_i64 (a + b) then Some (a + b) else overflow_result eng (a + b))"

definition add_balance :: "engine \<Rightarrow> int \<Rightarrow> int \<Rightarrow> int dbop" where
  "add_balance eng userID amount = stmt (\<lambda>d.
     let hit = filter (\<lambda>r. u_id r = userID) (rows (users d)) in
     if \<exists>r \<in> set hit. sql_add eng (u_balance r) amount = None then Inl (Gorm ErrDriver)
     else Inr (int (length hit),
       d\<lparr>users := upd_rows (\<lambda>r. u_id r = userID)
            (\<lambda>r. r\<lparr>u_balance := the (sql_add eng (u_balance r) amount)\<rparr>) (users d)\<rparr>))"

definition IncrementBalance :: "engine \<Rightarrow> int \<Rightarrow> int \<Rightarrow> unit dbop" where
  "IncrementBalance eng userID amount = bindE (add_balance eng userID amount) (\<lambda>_. ret ())"

definition debit_where :: "int \<Rightarrow> int \<Rightarrow> int dbop" where
  "debit_where userID amount = update_where users users_update
     (\<lambda>r. u_id r = userID \<and> amount \<le> u_balance r) (\<lambda>r. r\<lparr>u_balance := u_balance r - amount\<rparr>)"

definition DecrementBalance :: "int \<Rightarrow> int \<Rightarrow> unit dbop" where
  "DecrementBalance userID amount =
     bindE (debit_where userID amount) (\<lambda>n. guardE (n \<noteq> 0) (Repo ErrRepoInsufficient))"

definition CreateTransaction :: "balance_tx_row \<Rightarrow> balance_tx_row dbop" where
  "CreateTransaction tx = create ledger ledger_update (\<lambda>_ _. False) (\<lambda>i. tx\<lparr>t_id := i\<rparr>)"

text \<open>A \<open>&BalanceTransaction{Type: ..., OrderID: ..., Description: ..., Operator: ...}\<close>.\<close>

definition new_tx :: "string \<Rightarrow> int option \<Rightarrow> string \<Rightarrow> string \<Rightarrow> balance_tx_row" where
  "new_tx ty orderID desc operator = \<lparr>t_id = 0, t_user_id = 0, t_type = ty, t_amount = 0,
     t_balance = 0, t_order_id = orderID, t_description = desc, t_operator = operator,
     t_created_at = zero_time\<rparr>"

text \<open>
  The audit row of a mutation: the caller's draft with user, signed amount and the
  balance read back inside the transaction.
\<close>

definition audit_row :: "time \<Rightarrow> int \<Rightarrow> int \<Rightarrow> int \<Rightarrow> balance_tx_row \<Rightarrow> int \<Rightarrow> balance_tx_row" where
  "audit_row now userID amount bal tx i =
     tx\<lparr>t_id := i, t_user_id := userID, t_amount := amount, t_balance := bal, t_created_at := now\<rparr>"

definition CreditAtomic :: "time \<Rightarrow> int \<Rightarrow> int \<Rightarrow> balance_tx_row option \<Rightarrow> int dbop" where
  "CreditAtomic now userID amount txp = (case txp of
      None \<Rightarrow> raise (ErrText ''nil balance transaction'')
    | Some tx \<Rightarrow>
        if amount \<le> 0 then raise (ErrText ''credit amount must be positive'')
        else transaction (
          bindE (update_where users users_update
              (\<lambda>r. u_id r = userID \<and> u_balance r \<le> wrap64 (maxI64 - amount))
              (\<lambda>r. r\<lparr>u_balance := u_balance r + amount\<rparr>)) (\<lambda>n.
          bindE (guardE (n = 1) (Gorm ErrRecordNotFound)) (\<lambda>_.
          bindE (query (\<lambda>d. wallet d userID)) (\<lambda>newBalance.
          bindE (create ledger ledger_update (\<lambda>_ _. False) (audit_row now userID amount newBalance tx))
            (\<lambda>_. ret newBalance))))))"

definition DebitAtomic :: "time \<Rightarrow> int \<Rightarrow> int \<Rightarrow> balance_tx_row option \<Rightarrow> int dbop" where
  "DebitAtomic now userID amount txp = (case txp of
      None \<Rightarrow> raise (ErrText ''nil balance transaction'')
    | Some tx \<Rightarrow>
        if amount \<le> 0 then raise (ErrText ''debit amount must be positive'')
        else transaction (
          bindE (debit_where userID amount) (\<lambda>n.
          bindE (guardE (n \<noteq> 0) (Repo ErrRepoInsufficient)) (\<lambda>_.
          bindE (query (\<lambda>d. wallet d userID)) (\<lambda>newBalance.
          bindE (create ledger ledger_update (\<lambda>_ _. False)
              (audit_row now userID (wrap64 (- amount)) newBalance tx))
            (\<lambda>_. ret newBalance))))))"

definition GetTransactionByID :: "int \<Rightarrow> balance_tx_row dbop" where
  "GetTransactionByID i = first ledger (\<lambda>t. t_id t = i)"

record tx_filter =
  tf_user_id :: "int option"
  tf_type :: string
  tf_start :: "time option"
  tf_end :: "time option"

definition tx_matches :: "tx_filter \<Rightarrow> balance_tx_row \<Rightarrow> bool" where
  "tx_matches f t \<longleftrightarrow>
     (case tf_user_id f of None \<Rightarrow> True | Some u \<Rightarrow> t_user_id t = u)
   \<and> (tf_type f = [] \<or> t_type t = tf_type f)
   \<and> (case tf_start f of None \<Rightarrow> True | Some s \<Rightarrow> s \<le> t_created_at t)
   \<and> (case tf_end f of None \<Rightarrow> True | Some e \<Rightarrow> t_created_at t \<le> e)"

definition RepoListTransactions :: "tx_filter \<Rightarrow> int \<Rightarrow> int \<Rightarrow> (balance_tx_row list \<times> int) dbop" where
  "RepoListTransactions f limit offset =
     bindE (query (\<lambda>d. count_rows (tx_matches f) (ledger d))) (\<lambda>total.
     bindE (query (\<lambda>d. page_desc t_created_at limit offset (filter (tx_matches f) (rows (ledger d)))))
       (\<lambda>txs. ret (txs, total)))"

definition RepoListByUser :: "int \<Rightarrow> int \<Rightarrow> int \<Rightarrow> (balance_tx_row list \<times> int) dbop" where
  "RepoListByUser userID limit offset =
     bindE (query (\<lambda>d. count_rows (\<lambda>t. t_user_id t = userID) (ledger d))) (\<lambda>total.
     bindE (query (\<lambda>d. page_desc t_created_at limit offset
              (filter (\<lambda>t. t_user_id t = userID) (rows (ledger d)))))
       (\<lambda>txs. ret (txs, total)))"

definition GetTotalRecharge :: "int \<Rightarrow> int dbop" where
  "GetTotalRecharge userID =
     query (\<lambda>d. sum_rows (\<lambda>t. t_user_id t = userID \<and> t_type t = TxTypeRecharge) t_amount (ledger d))"

definition GetTotalSpent :: "int \<Rightarrow> int dbop" where
  "GetTotalSpent userID =
     query (\<lambda>d. sum_rows (\<lambda>t. t_user_id t = userID \<and> t_type t = TxTypePurchase)
       (\<lambda>t. \<bar>t_amount t\<bar>) (ledger d))"

definition GetTotalCommission :: "int \<Rightarrow> int dbop" where
  "GetTotalCommission userID =
     query (\<lambda>d. sum_rows (\<lambda>t. t_user_id t = userID \<and> t_type t = TxTypeCommission) t_amount (ledger d))"

section \<open>One posted entry\<close>

text \<open>
  \<open>entry_posted d d' u a\<close>: \<open>d'\<close> is \<open>d\<close> with \<open>a\<close> added to the wallet of
  the existing user \<open>u\<close> and one audit row appended, for that user and amount and
  carrying the new balance; nothing else differs.
\<close>

definition entry_posted :: "db \<Rightarrow> db \<Rightarrow> int \<Rightarrow> int \<Rightarrow> bool" where
  "entry_posted d d' u a \<longleftrightarrow> u \<in> user_ids d \<and>
     (\<exists>mk. (\<forall>i. t_id (mk i) = i \<and> t_user_id (mk i) = u \<and> t_amount (mk i) = a
             \<and> t_balance (mk i) = wallet d u + a)
       \<and> d' = d\<lparr>users := upd_rows (\<lambda>r. u_id r = u) (\<lambda>r. r\<lparr>u_balance := u_balance r + a\<rparr>) (users d),
                 ledger := add_row mk (ledger d)\<rparr>)"

lemma entry_postedI:
  assumes "u \<in> user_ids d"
    and "\<And>i. t_id (mk i) = i \<and> t_user_id (mk i) = u \<and> t_amount (mk i) = a \<and> t_balance (mk i) = wallet d u + a"
    and "d' = d\<lparr>users := upd_rows (\<lambda>r. u_id r = u) (\<lambda>r. r\<lparr>u_balance := u_balance r + a\<rparr>) (users d),
               ledger := add_row mk (ledger d)\<rparr>"
  shows "entry_posted d d' u a"
  using assms unfolding entry_posted_def by blast

lemma upd_rows_guarded:
  assumes "keyed k t" and "count_rows (\<lambda>r. k r = i \<and> p r) t \<noteq> 0"
  shows "upd_rows (\<lambda>r. k r = i \<and> p r) f t = upd_rows (\<lambda>r. k r = i) f t"
proof -
  obtain s where s: "s \<in> set (rows t)" "k s = i" "p s"
    using assms(2) by (auto simp: count_rows_zero)
  have "(k r = i \<and> p r) = (k r = i)" if "r \<in> set (rows t)" for r
    using keyed_unique [OF assms(1) that s(1)] s by auto
  then show ?thesis by (auto simp: upd_rows_def)
qed

lemma wallet_add:
  assumes "u \<in> user_ids d"
  shows "wallet (d\<lparr>users := upd_rows (\<lambda>r. u_id r = u) (\<lambda>r. r\<lparr>u_balance := u_balance r + a\<rparr>) (users d)\<rparr>) v
       = (if v = u then wallet d u + a else wallet d v)"
proof -
  let ?f = "\<lambda>r. if u_id r = u then r\<lparr>u_balance := u_balance r + a\<rparr> else r"
  have f: "find (\<lambda>r. u_id r = v) (map ?f (rows (users d)))
      = map_option ?f (find (\<lambda>r. u_id r = v) (rows (users d)))"
    by (rule find_map_key) simp
  have "\<exists>r. find (\<lambda>r. u_id r = u) (rows (users d)) = Some r"
    using assms by (cases "find (\<lambda>r. u_id r = u) (rows (users d))") (auto simp: user_ids_def find_None_all)
  with f show ?thesis
    by (auto simp: wallet_def table_simps split: option.splits dest: find_Some_iff_In)
qed

lemma entry_posted_wallet:
  "entry_posted d d' u a \<Longrightarrow> wallet d' v = (if v = u then wallet d u + a else wallet d v)"
  unfolding entry_posted_def by (auto simp: wallet_add)

lemma entry_posted_ledger:
  "entry_posted d d' u a \<Longrightarrow> ledger_total d' v = ledger_total d v + (if v = u then a else 0)"
  unfolding entry_posted_def ledger_total_def by (auto simp: table_simps)

lemma entry_posted_books: "entry_posted d d' u a \<Longrightarrow> books_agree d d'"
  by (simp add: books_agree_def entry_posted_wallet entry_posted_ledger)

lemma entry_posted_wf: "entry_posted d d' u a \<Longrightarrow> wf_db d \<Longrightarrow> wf_db d'"
  unfolding entry_posted_def wf_db_def by (auto intro!: keyed_upd)

lemma entry_posted_wallets_ok:
  assumes "entry_posted d d' u a" and "wf_db d" and "wallets_ok d"
    and "0 \<le> wallet d u + a" and "wallet d u + a \<le> maxI64"
  shows "wallets_ok d'"
  unfolding wallets_ok_def
proof
  fix r assume r: "r \<in> set (rows (users d'))"
  then obtain s where s: "s \<in> set (rows (users d))"
    and rs: "r = (if u_id s = u then s\<lparr>u_balance := u_balance s + a\<rparr> else s)"
    using assms(1) by (auto simp: entry_posted_def table_simps)
  have "wallet d (u_id s) = u_balance s"
    using assms(2) s by (simp add: wf_db_def wallet_member)
  with s rs assms(3-5) show "0 \<le> u_balance r \<and> u_balance r \<le> maxI64"
    by (auto simp: wallets_ok_def)
qed

lemma entry_posted_frame:
  assumes "entry_posted d d' u a"
  shows "orders d' = orders d" "plans d' = plans d" "gift_cards d' = gift_cards d"
    "recharges d' = recharges d" "coupons d' = coupons d" "coupon_usages d' = coupon_usages d"
    "downgrades d' = downgrades d" "trials d' = trials d" "pauses d' = pauses d"
    "commissions d' = commissions d"
  using assms by (auto simp: entry_posted_def)

lemma entry_posted_user_ids: "entry_posted d d' u a \<Longrightarrow> user_ids d' = user_ids d"
  unfolding entry_posted_def user_ids_def by (auto simp: map_key_upd simp del: set_map)

lemma entry_posted_users:
  "entry_posted d d' u a \<Longrightarrow> rows (users d') =
     map (\<lambda>r. if u_id r = u then r\<lparr>u_balance := u_balance r + a\<rparr> else r) (rows (users d))"
  unfolding entry_posted_def by (auto simp: table_simps)

lemma entry_posted_sound:
  assumes "entry_posted d d' u a" and "sound_db d"
    and "0 \<le> wallet d u + a" and "wallet d u + a \<le> maxI64"
  shows "sound_step d d'"
proof -
  have "wallets_ok d'"
    using assms by (intro entry_posted_wallets_ok [OF assms(1)]) (auto simp: sound_db_def)
  moreover have "columns_ok d'"
    using assms(2) by (simp add: sound_db_def columns_ok_def entry_posted_frame [OF assms(1)])
  ultimately show ?thesis
    using assms(1,2) by (auto simp: sound_step_def sound_db_def entry_posted_books intro: entry_posted_wf)
qed

lemma wallet_range: "sound_db d \<Longrightarrow> 0 \<le> wallet d u \<and> wallet d u \<le> maxI64"
  by (auto simp: wallet_def sound_db_def wallets_ok_def maxI64_def split: option.splits
      dest!: find_Some_iff_In)

lemma count_user_ids:
  "count_rows (\<lambda>r. u_id r = u \<and> p r) (users d) \<noteq> 0 \<Longrightarrow> u \<in> user_ids d"
  by (auto simp: count_rows_zero user_ids_def)

section \<open>What the atomic mutations do\<close>

lemma credit_wpt:
  assumes wf: "wf_db d" and i: "in_i64 amount"
    and ok: "\<And>d'. 0 < amount \<Longrightarrow> txp \<noteq> None \<Longrightarrow> entry_posted d d' userID amount \<Longrightarrow>
        wallet d userID + amount \<le> maxI64 \<Longrightarrow> Q (wallet d userID + amount) d'"
    and bad: "\<And>e. E e d"
  shows "wpt (CreditAtomic now userID amount txp) Q E d"
proof (cases "\<exists>tx. txp = Some tx \<and> 0 < amount")
  case False
  then show ?thesis
    by (auto simp: CreditAtomic_def intro!: wpt_rules bad split: option.splits)
next
  case True
  then obtain tx where tx: "txp = Some tx" and pos: "0 < amount" by blast
  let ?p = "\<lambda>r. u_id r = userID \<and> u_balance r \<le> wrap64 (maxI64 - amount)"
  let ?q = "\<lambda>r. u_id r = userID"
  let ?f = "\<lambda>r. r\<lparr>u_balance := u_balance r + amount\<rparr>"
  have w: "wrap64 (maxI64 - amount) = maxI64 - amount"
    using pos i by (simp add: i64_defs)
  have k: "keyed u_id (users d)" using wf by (simp add: wf_db_def)
  have main: "Q (wallet (d\<lparr>users := upd_rows ?p ?f (users d)\<rparr>) userID)
      (d\<lparr>users := upd_rows ?p ?f (users d),
         ledger := add_row (audit_row now userID amount
           (wallet (d\<lparr>users := upd_rows ?p ?f (users d)\<rparr>) userID) tx) (ledger d)\<rparr>)"
    if n: "count_rows ?p (users d) = 1"
  proof -
    have u: "userID \<in> user_ids d"
      by (rule count_user_ids [where p = "\<lambda>r. u_balance r \<le> wrap64 (maxI64 - amount)"]) (simp add: n)
    have upd: "upd_rows ?p ?f (users d) = upd_rows ?q ?f (users d)"
      using n by (intro upd_rows_guarded [OF k]) simp
    have wal: "wallet (d\<lparr>users := upd_rows ?p ?f (users d)\<rparr>) userID = wallet d userID + amount"
      using wallet_add [OF u] by (simp add: upd)
    obtain s where s: "s \<in> set (rows (users d))" "?p s"
      using n count_rows_pos [of ?p "users d"] by auto
    then have "wallet d userID + amount \<le> maxI64"
      using wallet_member [OF k s(1)] w by simp
    moreover have "entry_posted d (d\<lparr>users := upd_rows ?p ?f (users d),
        ledger := add_row (audit_row now userID amount (wallet d userID + amount) tx) (ledger d)\<rparr>)
        userID amount"
      unfolding entry_posted_def upd
      using u by (auto simp: audit_row_def intro!: exI [of _ "audit_row now userID amount (wallet d userID + amount) tx"])
    ultimately show ?thesis using ok pos tx by (simp add: wal)
  qed
  show ?thesis
    unfolding CreditAtomic_def tx using pos
    by (auto intro!: wpt_rules bad main)
qed

lemma debit_wpt:
  assumes wf: "wf_db d" and i: "in_i64 amount"
    and ok: "\<And>d'. 0 < amount \<Longrightarrow> txp \<noteq> None \<Longrightarrow> entry_posted d d' userID (- amount) \<Longrightarrow>
        amount \<le> wallet d userID \<Longrightarrow> Q (wallet d userID - amount) d'"
    and bad: "\<And>e. E e d"
  shows "wpt (DebitAtomic now userID amount txp) Q E d"
proof (cases "\<exists>tx. txp = Some tx \<and> 0 < amount")
  case False
  then show ?thesis
    by (auto simp: DebitAtomic_def intro!: wpt_rules bad split: option.splits)
next
  case True
  then obtain tx where tx: "txp = Some tx" and pos: "0 < amount" by blast
  let ?p = "\<lambda>r. u_id r = userID \<and> amount \<le> u_balance r"
  let ?q = "\<lambda>r. u_id r = userID"
  let ?f = "\<lambda>r. r\<lparr>u_balance := u_balance r - amount\<rparr>"
  let ?g = "\<lambda>r. r\<lparr>u_balance := u_balance r + - amount\<rparr>"
  have w: "wrap64 (- amount) = - amount"
    using pos i by (simp add: i64_defs)
  have k: "keyed u_id (users d)" using wf by (simp add: wf_db_def)
  have main: "Q (wallet (d\<lparr>users := upd_rows ?p ?f (users d)\<rparr>) userID)
      (d\<lparr>users := upd_rows ?p ?f (users d),
         ledger := add_row (audit_row now userID (wrap64 (- amount))
           (wallet (d\<lparr>users := upd_rows ?p ?f (users d)\<rparr>) userID) tx) (ledger d)\<rparr>)"
    if n: "count_rows ?p (users d) \<noteq> 0"
  proof -
    have u: "userID \<in> user_ids d" using n by (rule count_user_ids)
    have upd: "upd_rows ?p ?f (users d) = upd_rows ?q ?g (users d)"
      using upd_rows_guarded [OF k n, of ?f] by simp
    have wal: "wallet (d\<lparr>users := upd_rows ?p ?f (users d)\<rparr>) userID = wallet d userID + - amount"
      using wallet_add [OF u, of "- amount"] by (simp add: upd)
    obtain s where s: "s \<in> set (rows (users d))" "?p s"
      using n by (auto simp: count_rows_zero)
    then have "amount \<le> wallet d userID"
      using wallet_member [OF k s(1)] by simp
    moreover have "entry_posted d (d\<lparr>users := upd_rows ?p ?f (users d),
        ledger := add_row (audit_row now userID (- amount) (wallet d userID - amount) tx) (ledger d)\<rparr>)
        userID (- amount)"
      unfolding entry_posted_def upd
      using u by (auto simp: audit_row_def intro!: exI [of _ "audit_row now userID (- amount) (wallet d userID - amount) tx"])
    ultimately show ?thesis using ok pos tx by (simp add: wal w)
  qed
  show ?thesis
    unfolding DebitAtomic_def debit_where_def tx using pos
    by (auto intro!: wpt_rules bad main)
qed

lemma wallet_range_iff:
  assumes "keyed u_id (users d)"
  shows "(\<exists>r \<in> set (rows (users d)). u_id r = u \<and> p (u_balance r)) \<longleftrightarrow> u \<in> user_ids d \<and> p (wallet d u)"
  using wallet_member [OF assms] by (fastforce simp: user_ids_def)

section \<open>Outcome without faults\<close>

text \<open>
  Crediting a wallet: with no engine fault, \<open>CreditAtomic\<close> refuses a non-positive
  amount, refuses with record-not-found when the user is unknown or the new balance would
  leave the int64 range, and otherwise adds exactly the amount, appends one audit row with
  that amount and the balance read back, and returns that balance.
\<close>

theorem credit_outcome:
  fixes w :: "db world"
  assumes "wf_db (tables w)" and "faults w = []" and "in_i64 amount"
  shows "CreditAtomic now u amount (Some tx) w =
    (if amount \<le> 0 then (Inl (ErrText ''credit amount must be positive''), w)
     else if u \<in> user_ids (tables w) \<and> wallet (tables w) u + amount \<le> maxI64
     then (Inr (wallet (tables w) u + amount),
       w\<lparr>tables := (tables w)\<lparr>
          users := upd_rows (\<lambda>r. u_id r = u) (\<lambda>r. r\<lparr>u_balance := u_balance r + amount\<rparr>) (users (tables w)),
          ledger := add_row (audit_row now u amount (wallet (tables w) u + amount) tx) (ledger (tables w))\<rparr>\<rparr>)
     else (Inl (Gorm ErrRecordNotFound), w))"
proof (cases "0 < amount")
  case False
  then show ?thesis by (simp add: CreditAtomic_def raise_def)
next
  case True
  let ?d = "tables w"
  have k: "keyed u_id (users ?d)" using assms(1) by (simp add: wf_db_def)
  have wr: "wrap64 (maxI64 - amount) = maxI64 - amount"
    using True assms(3) by (simp add: i64_defs)
  let ?g = "u \<in> user_ids ?d \<and> wallet ?d u + amount \<le> maxI64"
  have c: "count_rows (\<lambda>r. u_id r = u \<and> u_balance r \<le> maxI64 - amount) (users ?d) = (if ?g then 1 else 0)"
    using wallet_range_iff [OF k, of u "\<lambda>b. b \<le> maxI64 - amount"]
    by (auto simp: count_key_one [OF k])
  have g: "upd_rows (\<lambda>r. u_id r = u \<and> u_balance r \<le> maxI64 - amount) f (users ?d)
      = upd_rows (\<lambda>r. u_id r = u) f (users ?d)" if ?g for f
    using that c by (intro upd_rows_guarded [OF k]) simp
  show ?thesis
    using True assms(2)
    by (auto simp: CreditAtomic_def transaction_def bindE_def update_where_def stmt_run wr c g
        guardE_def ret_def raise_def query_def create_def wallet_add)
qed

theorem credit_outcome_witness:
  "fst (CreditAtomic 7 1 250 (Some (new_tx TxTypeRecharge None ''x'' ''system'')) sample_world) = Inr 750"
proof -
  have "wf_db (tables sample_world)" and "faults sample_world = []" and "in_i64 250"
    using sample_db_sound by (simp_all add: sound_db_def i64_defs)
  from credit_outcome [OF this, of 7 1] show ?thesis
    by (simp add: sample_defs user_ids_def wallet_def maxI64_def)
qed

text \<open>
  Debiting a wallet: with no engine fault, \<open>DebitAtomic\<close> refuses a non-positive
  amount, refuses with the insufficient-balance error when the user is unknown or holds
  less than the amount, and otherwise subtracts exactly the amount, appends one audit row
  with the negated amount and the balance read back, and returns that balance.
\<close>

theorem debit_outcome:
  fixes w :: "db world"
  assumes "wf_db (tables w)" and "faults w = []" and "in_i64 amount"
  shows "DebitAtomic now u amount (Some tx) w =
    (if amount \<le> 0 then (Inl (ErrText ''debit amount must be positive''), w)
     else if u \<in> user_ids (tables w) \<and> amount \<le> wallet (tables w) u
     then (Inr (wallet (tables w) u - amount),
       w\<lparr>tables := (tables w)\<lparr>
          users := upd_rows (\<lambda>r. u_id r = u) (\<lambda>r. r\<lparr>u_balance := u_balance r - amount\<rparr>) (users (tables w)),
          ledger := add_row (audit_row now u (- amount) (wallet (tables w) u - amount) tx) (ledger (tables w))\<rparr>\<rparr>)
     else (Inl (Repo ErrRepoInsufficient), w))"
proof (cases "0 < amount")
  case False
  then show ?thesis by (simp add: DebitAtomic_def raise_def)
next
  case True
  let ?d = "tables w"
  have k: "keyed u_id (users ?d)" using assms(1) by (simp add: wf_db_def)
  have wr: "wrap64 (- amount) = - amount"
    using True assms(3) by (simp add: i64_defs)
  let ?g = "u \<in> user_ids ?d \<and> amount \<le> wallet ?d u"
  have c: "count_rows (\<lambda>r. u_id r = u \<and> amount \<le> u_balance r) (users ?d) = (if ?g then 1 else 0)"
    using wallet_range_iff [OF k, of u "\<lambda>b. amount \<le> b"]
    by (auto simp: count_key_one [OF k])
  have g: "upd_rows (\<lambda>r. u_id r = u \<and> amount \<le> u_balance r) f (users ?d)
      = upd_rows (\<lambda>r. u_id r = u) f (users ?d)" if ?g for f
    using that c by (intro upd_rows_guarded [OF k]) simp
  show ?thesis
    using True assms(2) wallet_add [of u ?d "- amount" u]
    by (auto simp: DebitAtomic_def debit_where_def transaction_def bindE_def update_where_def stmt_run wr c g
        guardE_def ret_def raise_def query_def create_def)
qed

theorem debit_outcome_witness:
  "fst (DebitAtomic 7 1 501 (Some (new_tx TxTypePurchase None ''x'' ''system'')) sample_world)
     = Inl (Repo ErrRepoInsufficient)"
proof -
  have "wf_db (tables sample_world)" and "faults sample_world = []" and "in_i64 501"
    using sample_db_sound by (simp_all add: sound_db_def i64_defs)
  from debit_outcome [OF this, of 7 1] show ?thesis
    by (simp add: sample_defs user_ids_def wallet_def)
qed

section \<open>The contract of the wallet store\<close>

text \<open>
  Packages that move money rely on two operations.  The locale states their contract;
  what clients use of it is derived once, here.
\<close>

locale wallet_store =
  fixes credit :: "time \<Rightarrow> int \<Rightarrow> int \<Rightarrow> balance_tx_row option \<Rightarrow> int dbop"
    and debit :: "time \<Rightarrow> int \<Rightarrow> int \<Rightarrow> balance_tx_row option \<Rightarrow> int dbop"
  assumes credit_law: "wf_db d \<Longrightarrow> in_i64 a \<Longrightarrow>
      wpt (credit now u a tx)
        (\<lambda>b d'. 0 < a \<and> entry_posted d d' u a \<and> b = wallet d u + a \<and> b \<le> maxI64)
        (\<lambda>_ d'. d' = d) d"
    and debit_law: "wf_db d \<Longrightarrow> in_i64 a \<Longrightarrow>
      wpt (debit now u a tx)
        (\<lambda>b d'. 0 < a \<and> entry_posted d d' u (- a) \<and> b = wallet d u - a \<and> 0 \<le> b)
        (\<lambda>_ d'. d' = d) d"
begin

lemma credit_sound:
  assumes "sound_db d" and "in_i64 a"
  shows "wpt (credit now u a tx)
      (\<lambda>b d'. 0 < a \<and> entry_posted d d' u a \<and> sound_step d d' \<and> b = wallet d' u)
      (\<lambda>_ d'. d' = d) d"
proof (rule wpt_mono [OF credit_law [OF _ assms(2)]])
  fix b d'
  assume "0 < a \<and> entry_posted d d' u a \<and> b = wallet d u + a \<and> b \<le> maxI64"
  with wallet_range [OF assms(1), of u] assms(1)
  show "0 < a \<and> entry_posted d d' u a \<and> sound_step d d' \<and> b = wallet d' u"
    by (auto simp: entry_posted_wallet intro!: entry_posted_sound)
qed (use assms(1) in \<open>auto simp: sound_db_def\<close>)

lemma debit_sound:
  assumes "sound_db d" and "in_i64 a"
  shows "wpt (debit now u a tx)
      (\<lambda>b d'. 0 < a \<and> entry_posted d d' u (- a) \<and> sound_step d d' \<and> b = wallet d' u)
      (\<lambda>_ d'. d' = d) d"
proof (rule wpt_mono [OF debit_law [OF _ assms(2)]])
  fix b d'
  assume "0 < a \<and> entry_posted d d' u (- a) \<and> b = wallet d u - a \<and> 0 \<le> b"
  with wallet_range [OF assms(1), of u] assms(1)
  show "0 < a \<and> entry_posted d d' u (- a) \<and> sound_step d d' \<and> b = wallet d' u"
    by (auto simp: entry_posted_wallet intro!: entry_posted_sound)
qed (use assms(1) in \<open>auto simp: sound_db_def\<close>)

lemma credit_then_debit:
  assumes "sound_db d" and "in_i64 a"
  shows "wpt (bindE (credit now u a tx) (\<lambda>_. debit now' u a tx'))
      (\<lambda>b d'. wallet d' u = wallet d u \<and> ledger_total d' u = ledger_total d u)
      (\<lambda>_ _. True) d"
proof (rule wpt_bind, rule wpt_mono [OF credit_sound [OF assms]])
  fix b d1
  assume h: "0 < a \<and> entry_posted d d1 u a \<and> sound_step d d1 \<and> b = wallet d1 u"
  then have "sound_db d1" by (simp add: sound_step_def)
  then show "wpt (debit now' u a tx')
      (\<lambda>b d'. wallet d' u = wallet d u \<and> ledger_total d' u = ledger_total d u) (\<lambda>_ _. True) d1"
    by (rule wpt_mono [OF debit_sound [OF _ assms(2)]])
       (use h in \<open>auto simp: entry_posted_wallet entry_posted_ledger\<close>)
qed auto

end

interpretation wallet_ops: wallet_store CreditAtomic DebitAtomic
  by unfold_locales (auto intro!: credit_wpt debit_wpt)

text \<open>
  (C2) Wallet mutations are atomic.  Under every fault schedule of the engine, a credit or
  debit that returns an error leaves every table unchanged, and one that succeeds changes
  exactly the user's balance by the amount and appends exactly one matching audit row; a
  debit never leaves a negative balance, a credit never one above the int64 range.
\<close>

theorem wallet_mutation_atomic:
  fixes w w' :: "db world"
  assumes "sound_db (tables w)" and "in_i64 a"
    and "(m, delta) \<in> {(CreditAtomic now u a tx, a), (DebitAtomic now u a tx, - a)}"
    and run: "m w = (r, w')"
  shows "case r of Inl _ \<Rightarrow> tables w' = tables w
     | Inr b \<Rightarrow> entry_posted (tables w) (tables w') u delta \<and> b = wallet (tables w') u
         \<and> 0 \<le> b \<and> b \<le> maxI64"
proof -
  have "wpt m (\<lambda>b d'. entry_posted (tables w) d' u delta \<and> sound_step (tables w) d' \<and> b = wallet d' u)
      (\<lambda>_ d'. d' = tables w) (tables w)"
    using assms(3) wpt_mono [OF wallet_ops.credit_sound [OF assms(1,2)]]
      wpt_mono [OF wallet_ops.debit_sound [OF assms(1,2)]] by force
  from wpt_run [OF this run] show ?thesis
    by (auto simp: sound_step_def wallet_range split: sum.splits)
qed

theorem wallet_mutation_atomic_witness:
  "let m = DebitAtomic 7 1 120 (Some (new_tx TxTypePurchase None ''x'' ''system'')) in
   case fst (m sample_world) of Inl _ \<Rightarrow> False
   | Inr b \<Rightarrow> b = 380 \<and> entry_posted sample_db (tables (snd (m sample_world))) 1 (- 120)"
proof -
  let ?m = "DebitAtomic 7 1 120 (Some (new_tx TxTypePurchase None ''x'' ''system''))"
  have "fst (?m sample_world) = Inr 380" by code_simp
  moreover have "sound_db (tables sample_world)" and "in_i64 120"
    by (simp_all add: sample_db_sound i64_defs)
  ultimately show ?thesis
    using wallet_mutation_atomic [OF _ _ _ surjective_pairing, of sample_world 120 ?m "- 120" 7 1
        "Some (new_tx TxTypePurchase None ''x'' ''system'')"]
    by (simp add: Let_def)
qed

section \<open>Sound operations\<close>

text \<open>
  \<open>sound_op m\<close>: from every sound database and under every fault schedule, \<open>m\<close>
  ends in a database that is a sound step away, whether it returns a value or an error.
  The rules below compose the operations of the packages from such steps.
\<close>

definition sound_op :: "'a dbop \<Rightarrow> bool" where
  "sound_op m \<longleftrightarrow> (\<forall>d. sound_db d \<longrightarrow> wpt m (\<lambda>_. sound_step d) (\<lambda>_. sound_step d) d)"

lemma sound_opI:
  "(\<And>d. sound_db d \<Longrightarrow> wpt m (\<lambda>_. sound_step d) (\<lambda>_. sound_step d) d) \<Longrightarrow> sound_op m"
  by (simp add: sound_op_def)

lemma sound_op_ret [sound_rules]: "sound_op (ret x)"
  by (auto intro!: sound_opI wpt_rules sound_step_refl)

lemma sound_op_raise [sound_rules]: "sound_op (raise e)"
  by (auto intro!: sound_opI wpt_rules sound_step_refl)

lemma sound_op_guard [sound_rules]: "sound_op (guardE b e)"
  by (auto intro!: sound_opI wpt_rules sound_step_refl)

lemma sound_op_bind [sound_rules]:
  assumes "sound_op m" and "\<And>x. sound_op (f x)"
  shows "sound_op (bindE m f)"
proof (rule sound_opI, rule wpt_bind)
  fix d assume "sound_db d"
  with assms(1) have m: "wpt m (\<lambda>_. sound_step d) (\<lambda>_. sound_step d) d" by (simp add: sound_op_def)
  show "wpt m (\<lambda>x. wpt (f x) (\<lambda>_. sound_step d) (\<lambda>_. sound_step d)) (\<lambda>_. sound_step d) d"
  proof (rule wpt_mono [OF m])
    fix x d1 assume s: "sound_step d d1"
    then have "wpt (f x) (\<lambda>_. sound_step d1) (\<lambda>_. sound_step d1) d1"
      using assms(2) by (simp add: sound_op_def sound_step_def)
    then show "wpt (f x) (\<lambda>_. sound_step d) (\<lambda>_. sound_step d) d1"
      by (rule wpt_mono) (auto intro: sound_step_trans [OF s])
  qed
qed

text \<open>A row or a value read from a sound database may be used with what the invariant says of it.\<close>

lemma sound_bind_query:
  assumes "\<And>d. sound_db d \<Longrightarrow> sound_op (f (g d))"
  shows "sound_op (bindE (query g) f)"
  using assms by (auto intro!: sound_opI wpt_bind wpt_query sound_step_refl simp: sound_op_def)

lemma sound_bind_first:
  assumes "\<And>r. P r \<Longrightarrow> sound_op (f r)" and "\<And>d r. sound_db d \<Longrightarrow> r \<in> set (rows (sel d)) \<Longrightarrow> P r"
  shows "sound_op (bindE (map_err h (first sel p)) f)"
  using assms by (auto intro!: sound_opI wpt_bind wpt_map_err wpt_first sound_step_refl simp: sound_op_def)

lemma sound_op_attempt [sound_rules]: "sound_op m \<Longrightarrow> sound_op (attempt m)"
  by (auto simp: sound_op_def intro: wpt_attempt)

lemma sound_op_map_err [sound_rules]: "sound_op m \<Longrightarrow> sound_op (map_err h m)"
  by (auto simp: sound_op_def intro: wpt_map_err)

lemma sound_op_transaction [sound_rules]:
  assumes "sound_op m" shows "sound_op (transaction m)"
proof (rule sound_opI)
  fix d assume d: "sound_db d"
  with assms have "wpt m (\<lambda>_. sound_step d) (\<lambda>_. sound_step d) d" by (simp add: sound_op_def)
  then have "wpt m (\<lambda>_. sound_step d) (\<lambda>e _. sound_step d d) d"
    by (rule wpt_mono) (auto intro: sound_step_refl d)
  then show "wpt (transaction m) (\<lambda>_. sound_step d) (\<lambda>_. sound_step d) d"
    by (intro wpt_transaction sound_step_refl d)
qed

lemma sound_op_if [sound_rules]: "(b \<Longrightarrow> sound_op m) \<Longrightarrow> (\<not> b \<Longrightarrow> sound_op n) \<Longrightarrow> sound_op (if b then m else n)"
  by simp

lemma sound_op_case_option [sound_rules]:
  "(x = None \<Longrightarrow> sound_op m) \<Longrightarrow> (\<And>y. x = Some y \<Longrightarrow> sound_op (f y)) \<Longrightarrow> sound_op (case x of None \<Rightarrow> m | Some y \<Rightarrow> f y)"
  by (cases x) auto

lemma sound_op_case_sum [sound_rules]:
  "(\<And>y. sound_op (f y)) \<Longrightarrow> (\<And>y. sound_op (g y)) \<Longrightarrow> sound_op (case x of Inl y \<Rightarrow> f y | Inr y \<Rightarrow> g y)"
  by (cases x) auto

lemma sound_op_query [sound_rules]: "sound_op (query f)"
  by (auto intro!: sound_opI wpt_rules sound_step_refl)

lemma sound_op_first [sound_rules]: "sound_op (first sel p)"
  by (auto intro!: sound_opI wpt_rules sound_step_refl)

lemma sound_op_first_desc [sound_rules]: "sound_op (first_desc sel k p)"
  by (auto intro!: sound_opI wpt_rules sound_step_refl)

lemma sound_op_first_latest [sound_rules]: "sound_op (first_latest sel k p)"
  by (auto intro!: sound_opI wpt_rules sound_step_refl)

lemma sound_upd_users [sound_rules]:
  assumes "\<And>r. u_id (f r) = u_id r" and "\<And>r. u_balance (f r) = u_balance r"
  shows "sound_op (update_where users users_update p f)"
  by (auto intro!: sound_opI wpt_rules sound_step_refl sound_step_user_frame simp: assms)

lemma sound_op_credit [sound_rules]: "in_i64 a \<Longrightarrow> sound_op (CreditAtomic now u a tx)"
  by (rule sound_opI, rule wpt_mono [OF wallet_ops.credit_sound]) (auto intro: sound_step_refl)

lemma sound_op_debit [sound_rules]: "in_i64 a \<Longrightarrow> sound_op (DebitAtomic now u a tx)"
  by (rule sound_opI, rule wpt_mono [OF wallet_ops.debit_sound]) (auto intro: sound_step_refl)

text \<open>Running a sound operation, whatever the faults.\<close>

lemma sound_op_run:
  assumes "sound_op m" and "sound_db (tables w)" and "m w = (r, w')"
  shows "sound_step (tables w) (tables w')"
proof -
  have "wpt m (\<lambda>_. sound_step (tables w)) (\<lambda>_. sound_step (tables w)) (tables w)"
    using assms(1,2) by (simp add: sound_op_def)
  from wpt_run [OF this assms(3)] show ?thesis by (simp split: sum.splits)
qed

end
