(* ===== verification/BalanceService.thy ===== *)
theory BalanceService
  imports BalanceRepo
begin

text \<open>
  \<open>internal/commercial/balance/service.go\<close> and
  \<open>internal/database/repository/balance_recharge_repository.go\<close>: the balance service
  (recharge, deduct, refund, commission, admin adjustment, statistics) and online
  recharge orders, whose payment callback credits the wallet.
\<close>

section \<open>Wallet operations of the service\<close>

definition CanDeduct :: "int \<Rightarrow> int \<Rightarrow> bool dbop" where
  "CanDeduct userID amount =
     (if amount \<le> 0 then ret False
      else bindE (attempt (GetBalance userID)) (\<lambda>r. case r of
          Inl _ \<Rightarrow> ret False | Inr bal \<Rightarrow> ret (amount \<le> bal)))"

definition Recharge :: "time \<Rightarrow> int \<Rightarrow> int \<Rightarrow> int option \<Rightarrow> string \<Rightarrow> unit dbop" where
  "Recharge now userID amount orderID description =
     (if amount \<le> 0 then raise (Wrapped (Balance ErrInvalidAmount) ''amount must be positive'')
      else bindE (CreditAtomic now userID amount (Some (new_tx TxTypeRecharge orderID description ''system'')))
        (\<lambda>_. ret ()))"

definition Deduct :: "time \<Rightarrow> int \<Rightarrow> int \<Rightarrow> int option \<Rightarrow> string \<Rightarrow> unit dbop" where
  "Deduct now userID amount orderID description =
     (if amount \<le> 0 then raise (Wrapped (Balance ErrInvalidAmount) ''amount must be positive'')
      else bindE (map_err
          (\<lambda>e. if errors_is e (Repo ErrRepoInsufficient) then Balance ErrInsufficientBalance else e)
          (DebitAtomic now userID amount (Some (new_tx TxTypePurchase orderID description ''system''))))
        (\<lambda>_. ret ()))"

definition Refund :: "time \<Rightarrow> int \<Rightarrow> int \<Rightarrow> int option \<Rightarrow> string \<Rightarrow> unit dbop" where
  "Refund now userID amount orderID description =
     (if amount \<le> 0 then raise (Wrapped (Balance ErrInvalidAmount) ''amount must be positive'')
      else bindE (CreditAtomic now userID amount (Some (new_tx TxTypeRefund orderID description ''system'')))
        (\<lambda>_. ret ()))"

definition AddCommission :: "time \<Rightarrow> int \<Rightarrow> int \<Rightarrow> string \<Rightarrow> unit dbop" where
  "AddCommission now userID amount description =
     (if amount \<le> 0 then raise (Wrapped (Balance ErrInvalidAmount) ''amount must be positive'')
      else bindE (CreditAtomic now userID amount (Some (new_tx TxTypeCommission None description ''system'')))
        (\<lambda>_. ret ()))"

definition Adjust :: "time \<Rightarrow> int \<Rightarrow> int \<Rightarrow> string \<Rightarrow> string \<Rightarrow> unit dbop" where
  "Adjust now userID amount reason operator =
     (if amount = 0 then raise (Wrapped (Balance ErrInvalidAmount) ''amount cannot be zero'')
      else let tx = new_tx TxTypeAdjustment None reason operator in
        bindE (if 0 < amount then CreditAtomic now userID amount (Some tx)
               else map_err
                 (\<lambda>e. if errors_is e (Repo ErrRepoInsufficient) then Balance ErrNegativeBalance else e)
                 (DebitAtomic now userID (wrap64 (- amount)) (Some tx)))
          (\<lambda>_. ret ()))"

definition page_args :: "int \<Rightarrow> int \<Rightarrow> int \<times> int" where
  "page_args page pageSize =
     (let page = (if page < 1 then 1 else page); pageSize = (if pageSize < 1 then 20 else pageSize)
      in (pageSize, wrap64 (wrap64 (page - 1) * pageSize)))"

definition ListTransactions :: "tx_filter \<Rightarrow> int \<Rightarrow> int \<Rightarrow> (balance_tx_row list \<times> int) dbop" where
  "ListTransactions f page pageSize =
     (let (limit, offset) = page_args page pageSize in RepoListTransactions f limit offset)"

definition GetTransactions :: "int \<Rightarrow> int \<Rightarrow> int \<Rightarrow> (balance_tx_row list \<times> int) dbop" where
  "GetTransactions userID page pageSize =
     ListTransactions \<lparr>tf_user_id = Some userID, tf_type = [], tf_start = None, tf_end = None\<rparr> page pageSize"

definition GetStatistics :: "int \<Rightarrow> (int \<times> int \<times> int) dbop" where
  "GetStatistics userID =
     bindE (GetTotalRecharge userID) (\<lambda>totalRecharge.
     bindE (GetTotalSpent userID) (\<lambda>totalSpent.
     bindE (GetTotalCommission userID) (\<lambda>totalCommission.
       ret (totalRecharge, totalSpent, totalCommission))))"

section \<open>Recharge orders: the repository\<close>

definition RechargePending :: string where "RechargePending = ''pending''"
definition RechargePaid :: string where "RechargePaid = ''paid''"
definition RechargeCancelled :: string where "RechargeCancelled = ''cancelled''"
definition RechargeExpired :: string where "RechargeExpired = ''expired''"

lemmas recharge_status_defs =
  RechargePending_def RechargePaid_def RechargeCancelled_def RechargeExpired_def

definition RechargeCreate :: "recharge_row \<Rightarrow> recharge_row dbop" where
  "RechargeCreate r = create recharges recharges_update
     (\<lambda>a b. r_order_no a = r_order_no b) (\<lambda>i. r\<lparr>r_id := i\<rparr>)"

definition RechargeUpdate :: "recharge_row \<Rightarrow> unit dbop" where
  "RechargeUpdate r = save recharges recharges_update (\<lambda>a b. r_order_no a = r_order_no b) r_id r"

definition RechargeGetByOrderNo :: "string \<Rightarrow> recharge_row dbop" where
  "RechargeGetByOrderNo orderNo = first recharges (\<lambda>r. r_order_no r = orderNo)"

definition RechargeGetByPaymentNo :: "string \<Rightarrow> recharge_row dbop" where
  "RechargeGetByPaymentNo paymentNo = first recharges (\<lambda>r. r_payment_no r = paymentNo)"

definition RechargeCancel :: "string \<Rightarrow> unit dbop" where
  "RechargeCancel orderNo =
     bindE (update_where recharges recharges_update
         (\<lambda>r. r_order_no r = orderNo \<and> r_status r = RechargePending)
         (\<lambda>r. r\<lparr>r_status := RechargeCancelled\<rparr>)) (\<lambda>n.
     if n = 0 then bindE (first recharges (\<lambda>r. r_order_no r = orderNo)) (\<lambda>_. raise (Gorm ErrInvalidData))
     else ret ())"

definition MarkPaidAndCredit ::
    "engine \<Rightarrow> time \<Rightarrow> string \<Rightarrow> string \<Rightarrow> time \<Rightarrow> string \<Rightarrow> recharge_row dbop" where
  "MarkPaidAndCredit eng now orderNo paymentNo paidAt description = transaction (
     bindE (first recharges (\<lambda>r. r_order_no r = orderNo)) (\<lambda>order.
     if r_payment_no order = paymentNo \<and> r_status order = RechargePaid then ret order
     else if r_status order \<noteq> RechargePending then raise (Gorm ErrInvalidData)
     else let paidAt = (if paidAt = zero_time then now else paidAt) in
       bindE (update_where recharges recharges_update
           (\<lambda>r. r_id r = r_id order \<and> r_status r = RechargePending)
           (\<lambda>r. r\<lparr>r_status := RechargePaid, r_payment_no := paymentNo, r_paid_at := Some paidAt\<rparr>)) (\<lambda>n.
       if n = 0 then
         bindE (first recharges (\<lambda>r. r_id r = r_id order)) (\<lambda>latest.
           if r_payment_no latest = paymentNo \<and> r_status latest = RechargePaid then ret latest
           else raise (Gorm ErrInvalidData))
       else
         bindE (query (\<lambda>d. wallet d (r_user_id order))) (\<lambda>currentBalance.
         bindE (add_balance eng (r_user_id order) (r_amount order)) (\<lambda>m.
         if m = 0 then raise (Gorm ErrRecordNotFound)
         else
           bindE (create ledger ledger_update (\<lambda>_ _. False)
              (\<lambda>i. (new_tx TxTypeRecharge None description ''system'')\<lparr>t_id := i,
                 t_user_id := r_user_id order, t_amount := r_amount order,
                 t_balance := wrap64 (currentBalance + r_amount order), t_created_at := now\<rparr>)) (\<lambda>_.
           ret (order\<lparr>r_status := RechargePaid, r_payment_no := paymentNo, r_paid_at := Some paidAt\<rparr>)))))))"

record recharge_filter =
  rf_user_id :: "int option"
  rf_search :: string
  rf_status :: string
  rf_method :: string
  rf_start :: "time option"
  rf_end :: "time option"
  rf_min :: "int option"
  rf_max :: "int option"

definition opt_holds :: "('a \<Rightarrow> bool) \<Rightarrow> 'a option \<Rightarrow> bool" where
  "opt_holds p x = (case x of None \<Rightarrow> True | Some y \<Rightarrow> p y)"

definition username_of :: "db \<Rightarrow> int \<Rightarrow> string option" where
  "username_of d u = map_option u_username (find (\<lambda>r. u_id r = u) (rows (users d)))"

definition recharge_matches :: "engine \<Rightarrow> db \<Rightarrow> recharge_filter \<Rightarrow> recharge_row \<Rightarrow> bool" where
  "recharge_matches eng d f r \<longleftrightarrow>
     opt_holds (\<lambda>u. r_user_id r = u) (rf_user_id f)
   \<and> (rf_status f = [] \<or> r_status r = rf_status f)
   \<and> (rf_method f = [] \<or> r_method r = rf_method f)
   \<and> opt_holds (\<lambda>s. s \<le> r_created_at r) (rf_start f)
   \<and> opt_holds (\<lambda>e. r_created_at r \<le> e) (rf_end f)
   \<and> opt_holds (\<lambda>m. m \<le> r_amount r) (rf_min f)
   \<and> opt_holds (\<lambda>m. r_amount r \<le> m) (rf_max f)
   \<and> (let q = trim_space (rf_search f); pat = ''%'' @ q @ ''%'' in
        q = [] \<or> (case parse_int64 q of
            Some n \<Rightarrow> r_user_id r = n \<or> r_id r = n
          | None \<Rightarrow> like_match eng pat (r_order_no r) \<or> like_match eng pat (r_payment_no r)
              \<or> (case username_of d (r_user_id r) of None \<Rightarrow> False | Some n \<Rightarrow> like_match eng pat n)))"

definition RechargeList ::
    "engine \<Rightarrow> recharge_filter \<Rightarrow> int \<Rightarrow> int \<Rightarrow> ((recharge_row \<times> string option) list \<times> int) dbop" where
  "RechargeList eng f limit offset =
     bindE (query (\<lambda>d. count_rows (recharge_matches eng d f) (recharges d))) (\<lambda>total.
     bindE (query (\<lambda>d. map (\<lambda>r. (r, username_of d (r_user_id r)))
          (page_desc r_created_at limit offset (filter (recharge_matches eng d f) (rows (recharges d))))))
       (\<lambda>rs. ret (rs, total)))"

section \<open>Recharge orders: the service\<close>

text \<open>\<open>repo\<close> tells whether the service was built with a recharge repository.\<close>

definition toRechargeOrder :: "recharge_row \<times> string option \<Rightarrow> recharge_row \<times> string" where
  "toRechargeOrder rn = (fst rn, case snd rn of Some n \<Rightarrow> n | None \<Rightarrow> [])"

definition ListRechargeOrders :: "bool \<Rightarrow> engine \<Rightarrow> recharge_filter \<Rightarrow> int \<Rightarrow> int
    \<Rightarrow> ((recharge_row \<times> string) list \<times> int) dbop" where
  "ListRechargeOrders repo eng f page pageSize =
     (if \<not> repo then raise (Balance ErrRechargeUnavailable)
      else let (limit, offset) = page_args page pageSize in
        bindE (RechargeList eng f limit offset) (\<lambda>(rs, total). ret (map toRechargeOrder rs, total)))"

definition rechargeOrderExpiration :: int where
  "rechargeOrderExpiration = 30 * minute"

text \<open>\<open>RCG-<date>-<4 random bytes in hex>\<close>; the date text and the bytes come from outside.\<close>

definition generateRechargeOrderNo :: "string \<Rightarrow> nat list \<Rightarrow> string" where
  "generateRechargeOrderNo date bytes = ''RCG-'' @ date @ ''-'' @ hex_encode bytes"

definition CreateRechargeOrder ::
    "bool \<Rightarrow> time \<Rightarrow> string \<Rightarrow> nat list \<Rightarrow> int \<Rightarrow> int \<Rightarrow> string \<Rightarrow> recharge_row dbop" where
  "CreateRechargeOrder repo now date bytes userID amount meth =
     (if \<not> repo then raise (Balance ErrRechargeUnavailable)
      else if amount \<le> 0 then raise (Wrapped (Balance ErrInvalidAmount) ''amount must be positive'')
      else let meth = trim_space meth in
        if meth = [] \<or> meth = ''balance'' then raise (Balance ErrInvalidRechargeMethod)
        else RechargeCreate \<lparr>r_id = 0, r_order_no = generateRechargeOrderNo date bytes,
          r_user_id = userID, r_amount = amount, r_method = meth, r_status = RechargePending,
          r_payment_no = [], r_paid_at = None, r_expired_at = now + rechargeOrderExpiration,
          r_created_at = now\<rparr>)"

definition GetRechargeOrderByOrderNo :: "bool \<Rightarrow> string \<Rightarrow> recharge_row dbop" where
  "GetRechargeOrderByOrderNo repo orderNo =
     (if \<not> repo then raise (Balance ErrRechargeUnavailable)
      else map_err (\<lambda>e. if errors_is e (Gorm ErrRecordNotFound) then Balance ErrRechargeOrderNotFound else e)
        (RechargeGetByOrderNo (trim_space orderNo)))"

definition GetRechargePaymentDetails :: "bool \<Rightarrow> string \<Rightarrow> (int \<times> string \<times> string) dbop" where
  "GetRechargePaymentDetails repo orderNo =
     bindE (GetRechargeOrderByOrderNo repo orderNo) (\<lambda>r. ret (r_amount r, r_payment_no r, r_status r))"

definition recharge_err :: "err \<Rightarrow> err" where
  "recharge_err e =
     (if errors_is e (Gorm ErrRecordNotFound) then Balance ErrRechargeOrderNotFound
      else if errors_is e (Gorm ErrInvalidData) then Balance ErrRechargeOrderNotReady else e)"

definition CancelRechargeOrder :: "bool \<Rightarrow> string \<Rightarrow> unit dbop" where
  "CancelRechargeOrder repo orderNo =
     (if \<not> repo then raise (Balance ErrRechargeUnavailable)
      else map_err recharge_err (RechargeCancel (trim_space orderNo)))"

definition recharge_description :: "string \<Rightarrow> string" where
  "recharge_description orderNo =
     utf8 [232, 180, 166, 230, 136, 183, 228, 189, 153, 233, 162, 157, 229, 133, 133, 229, 128, 188,
           239, 188, 136, 232, 174, 162, 229, 141, 149, 32] @ orderNo @ utf8 [239, 188, 137]"

definition MarkRechargePaid :: "bool \<Rightarrow> engine \<Rightarrow> time \<Rightarrow> string \<Rightarrow> string \<Rightarrow> time \<Rightarrow> unit dbop" where
  "MarkRechargePaid repo eng now orderNo paymentNo paidAt =
     (if \<not> repo then raise (Balance ErrRechargeUnavailable)
      else bindE (map_err recharge_err
          (MarkPaidAndCredit eng now (trim_space orderNo) (trim_space paymentNo) paidAt
             (recharge_description (trim_space orderNo))))
        (\<lambda>_. ret ()))"

section \<open>Soundness of the wallet services\<close>

lemma Recharge_sound [sound_rules]: "in_i64 a \<Longrightarrow> sound_op (Recharge now u a oid desc)"
  unfolding Recharge_def by (intro sound_rules)

lemma Deduct_sound [sound_rules]: "in_i64 a \<Longrightarrow> sound_op (Deduct now u a oid desc)"
  unfolding Deduct_def by (intro sound_rules)

lemma Refund_sound [sound_rules]: "in_i64 a \<Longrightarrow> sound_op (Refund now u a oid desc)"
  unfolding Refund_def by (intro sound_rules)

lemma AddCommission_sound [sound_rules]: "in_i64 a \<Longrightarrow> sound_op (AddCommission now u a desc)"
  unfolding AddCommission_def by (intro sound_rules)

lemma Adjust_sound [sound_rules]: "in_i64 a \<Longrightarrow> sound_op (Adjust now u a reason operator)"
  unfolding Adjust_def Let_def by (intro sound_rules wrap64_in_range)

section \<open>Soundness of recharge orders\<close>

lemma RechargeCreate_sound [sound_rules]:
  "0 < r_amount r \<Longrightarrow> r_amount r \<le> maxI64 \<Longrightarrow> sound_op (RechargeCreate r)"
  unfolding RechargeCreate_def
  by (auto intro!: sound_opI wpt_rules sound_step_refl sound_step_same keyed_add
      simp: sound_db_def wf_db_def columns_ok_def table_simps)

lemma CreateRechargeOrder_sound [sound_rules]:
  "in_i64 a \<Longrightarrow> sound_op (CreateRechargeOrder repo now date bytes u a meth)"
  unfolding CreateRechargeOrder_def Let_def by (auto intro!: sound_rules simp: in_i64_def)

lemma sound_upd_recharges [sound_rules]:
  assumes "\<And>r. r_id (f r) = r_id r" and "\<And>r. r_amount (f r) = r_amount r"
  shows "sound_op (update_where recharges recharges_update p f)"
  by (auto intro!: sound_opI wpt_rules sound_step_refl sound_step_same keyed_upd
      simp: sound_db_def wf_db_def columns_ok_def table_simps assms)

lemma CancelRechargeOrder_sound [sound_rules]: "sound_op (CancelRechargeOrder repo no)"
  unfolding CancelRechargeOrder_def RechargeCancel_def by (intro sound_rules) simp_all

text \<open>An engine that refuses to store an integer outside the int64 range.\<close>

definition strict_engine :: "engine \<Rightarrow> bool" where
  "strict_engine eng \<longleftrightarrow> (\<forall>x. overflow_result eng x = None)"

lemma add_balance_wpt:
  assumes k: "keyed u_id (users d)" and s: "strict_engine eng"
    and hit: "u \<in> user_ids d \<Longrightarrow> in_i64 (wallet d u + a) \<Longrightarrow>
      Q 1 (d\<lparr>users := upd_rows (\<lambda>r. u_id r = u) (\<lambda>r. r\<lparr>u_balance := u_balance r + a\<rparr>) (users d)\<rparr>)"
    and miss: "u \<notin> user_ids d \<Longrightarrow> Q 0 d" and bad: "E (Gorm ErrDriver) d"
  shows "wpt (add_balance eng u a) Q E d"
  unfolding add_balance_def
proof (rule wpt_stmt)
  let ?hit = "filter (\<lambda>r. u_id r = u) (rows (users d))"
  fix x t'
  assume eq: "(let hit = ?hit in
     if \<exists>r\<in>set hit. sql_add eng (u_balance r) a = None then Inl (Gorm ErrDriver)
     else Inr (int (length hit),
       d\<lparr>users := upd_rows (\<lambda>r. u_id r = u)
            (\<lambda>r. r\<lparr>u_balance := the (sql_add eng (u_balance r) a)\<rparr>) (users d)\<rparr>)) = Inr (x, t')"
  then have ok: "\<And>r. r \<in> set (rows (users d)) \<Longrightarrow> u_id r = u \<Longrightarrow> in_i64 (u_balance r + a)"
    using s by (auto simp: Let_def sql_add_def strict_engine_def split: if_splits)
  have len: "int (length ?hit) = (if u \<in> user_ids d then 1 else 0)"
    using count_key_one [OF k, of u "\<lambda>_. True"] by (auto simp: count_rows_def user_ids_def)
  have upd: "upd_rows (\<lambda>r. u_id r = u) (\<lambda>r. r\<lparr>u_balance := the (sql_add eng (u_balance r) a)\<rparr>) (users d)
      = upd_rows (\<lambda>r. u_id r = u) (\<lambda>r. r\<lparr>u_balance := u_balance r + a\<rparr>) (users d)"
    using ok by (auto simp: upd_rows_def sql_add_def)
  show "Q x t'"
  proof (cases "u \<in> user_ids d")
    case True
    then have "in_i64 (wallet d u + a)"
      using ok wallet_member [OF k] by (auto simp: user_ids_def)
    with True eq show ?thesis by (auto simp: Let_def len upd intro!: hit split: if_splits)
  next
    case False
    then have "upd_rows (\<lambda>r. u_id r = u) (\<lambda>r. r\<lparr>u_balance := u_balance r + a\<rparr>) (users d) = users d"
      by (auto simp: upd_rows_def user_ids_def intro!: map_idI table.equality)
    with False eq have "x = 0" and "t' = d" by (auto simp: Let_def len upd split: if_splits)
    with miss False show ?thesis by simp
  qed
qed (use bad in \<open>auto simp: Let_def split: if_splits\<close>)

text \<open>
  \<open>recharge_settled d d' o r\<close>: recharge order \<open>o\<close>, pending in \<open>d\<close>, is stored as
  paid in \<open>d'\<close> and its amount posted to its user's wallet.
\<close>

definition recharge_settled :: "db \<Rightarrow> db \<Rightarrow> recharge_row \<Rightarrow> recharge_row \<Rightarrow> bool" where
  "recharge_settled d d' ord r \<longleftrightarrow> r_status ord = RechargePending \<and>
     in_i64 (wallet d (r_user_id ord) + r_amount ord) \<and>
     (\<exists>pno t. r = ord\<lparr>r_status := RechargePaid, r_payment_no := pno, r_paid_at := Some t\<rparr> \<and>
       entry_posted
         (d\<lparr>recharges := upd_rows (\<lambda>r. r_id r = r_id ord)
             (\<lambda>r. r\<lparr>r_status := RechargePaid, r_payment_no := pno, r_paid_at := Some t\<rparr>) (recharges d)\<rparr>)
         d' (r_user_id ord) (r_amount ord))"

lemma MarkPaidAndCredit_wpt:
  assumes s: "sound_db d" and e: "strict_engine eng"
  shows "wpt (MarkPaidAndCredit eng now no pno paidAt desc)
     (\<lambda>r d'. \<exists>ord \<in> set (rows (recharges d)). find (\<lambda>r. r_order_no r = no) (rows (recharges d)) = Some ord \<and>
        r_payment_no r = pno \<and> r_status r = RechargePaid \<and>
        (r = ord \<and> d' = d \<or> recharge_settled d d' ord r))
     (\<lambda>_ d'. d' = d) d"
proof -
  have ku: "keyed u_id (users d)" and kr: "keyed r_id (recharges d)"
    using s by (auto simp: sound_db_def wf_db_def)
  let ?paid = "\<lambda>t r. r\<lparr>r_status := RechargePaid, r_payment_no := pno, r_paid_at := Some t\<rparr>"
  have hitting: "count_rows (\<lambda>r. r_id r = r_id ord \<and> r_status r = RechargePending) (recharges d) \<noteq> 0"
    if "ord \<in> set (rows (recharges d))" "r_status ord = RechargePending" for ord
    using that by (auto simp: count_rows_zero)
  have settle: "wpt (add_balance eng (r_user_id ord) (r_amount ord)) Q (\<lambda>_ _. P) (d\<lparr>recharges := t\<rparr>)"
    if "r_user_id ord \<in> user_ids d \<Longrightarrow> in_i64 (wallet d (r_user_id ord) + r_amount ord) \<Longrightarrow>
        Q 1 (d\<lparr>recharges := t, users := upd_rows (\<lambda>r. u_id r = r_user_id ord)
             (\<lambda>r. r\<lparr>u_balance := u_balance r + r_amount ord\<rparr>) (users d)\<rparr>)"
      and "r_user_id ord \<notin> user_ids d \<Longrightarrow> Q 0 (d\<lparr>recharges := t\<rparr>)" and P
    for ord Q P t
    using that ku by (intro add_balance_wpt e) auto
  have posted: "recharge_settled d
      (d\<lparr>recharges := upd_rows (\<lambda>r. r_id r = r_id ord \<and> r_status r = RechargePending) (?paid t) (recharges d),
         users := upd_rows (\<lambda>r. u_id r = r_user_id ord) (\<lambda>r. r\<lparr>u_balance := u_balance r + r_amount ord\<rparr>) (users d),
         ledger := add_row (\<lambda>i. (new_tx TxTypeRecharge None desc ''system'')\<lparr>t_id := i,
                 t_user_id := r_user_id ord, t_amount := r_amount ord,
                 t_balance := wrap64 (wallet d (r_user_id ord) + r_amount ord), t_created_at := now\<rparr>) (ledger d)\<rparr>)
      ord (?paid t ord)"
    if o: "ord \<in> set (rows (recharges d))" "r_status ord = RechargePending"
      and u: "r_user_id ord \<in> user_ids d" "in_i64 (wallet d (r_user_id ord) + r_amount ord)" for ord t
    unfolding recharge_settled_def upd_rows_guarded [OF kr hitting [OF o]]
    using o(2) u by (intro conjI exI [of _ pno] exI [of _ t] refl entry_postedI) (auto simp: new_tx_def)
  show ?thesis
    unfolding MarkPaidAndCredit_def Let_def
    apply (intro wpt_rules settle refl)
    apply (simp_all add: hitting)
    subgoal for r using posted [of r] by (intro conjI impI bexI [of _ r] disjI2) auto
    done
qed


lemma recharge_settled_sound:
  assumes "recharge_settled d d' ord r" and "ord \<in> set (rows (recharges d))" and "sound_db d"
  shows "sound_step d d'"
proof -
  have "in_i64 (wallet d (r_user_id ord) + r_amount ord)"
    using assms(1) by (simp add: recharge_settled_def)
  obtain pno t where ep: "entry_posted (d\<lparr>recharges := upd_rows (\<lambda>r. r_id r = r_id ord)
      (\<lambda>r. r\<lparr>r_status := RechargePaid, r_payment_no := pno, r_paid_at := Some t\<rparr>) (recharges d)\<rparr>)
      d' (r_user_id ord) (r_amount ord)" (is "entry_posted ?d1 _ _ _")
    using assms(1) by (auto simp: recharge_settled_def)
  have s1: "sound_step d ?d1"
    using assms(3)
    by (intro sound_step_same) (auto simp: sound_db_def wf_db_def columns_ok_def table_simps intro!: keyed_upd)
  moreover have "sound_step ?d1 d'"
    using s1 assms(2,3) \<open>in_i64 _\<close> wallet_range [OF assms(3), of "r_user_id ord"]
    by (intro entry_posted_sound [OF ep])
       (auto simp: sound_step_def sound_db_def [of d] columns_ok_def in_i64_def)
  ultimately show ?thesis by (rule sound_step_trans)
qed


lemma recharge_settled_wallet:
  "recharge_settled d d' ord r \<Longrightarrow>
     wallet d' u = wallet d u + (if u = r_user_id ord then r_amount ord else 0)"
  by (auto simp: recharge_settled_def entry_posted_wallet)

lemma MarkPaidAndCredit_sound [sound_rules]:
  "strict_engine eng \<Longrightarrow> sound_op (MarkPaidAndCredit eng now no pno paidAt desc)"
  by (rule sound_opI, rule wpt_mono [OF MarkPaidAndCredit_wpt])
     (auto intro: sound_step_refl recharge_settled_sound)

lemma MarkRechargePaid_sound [sound_rules]:
  "strict_engine eng \<Longrightarrow> sound_op (MarkRechargePaid repo eng now no pno paidAt)"
  unfolding MarkRechargePaid_def by (intro sound_rules)

text \<open>A settled order is found as paid, so a second callback has nothing to settle.\<close>

lemma settled_found_paid:
  assumes "recharge_settled d d' ord r" and "find (\<lambda>r. r_order_no r = no) (rows (recharges d)) = Some ord"
    and "find (\<lambda>r. r_order_no r = no) (rows (recharges d')) = Some ord'"
  shows "r_status ord' = RechargePaid"
proof -
  obtain pno t where "recharges d' = upd_rows (\<lambda>r. r_id r = r_id ord)
      (\<lambda>r. r\<lparr>r_status := RechargePaid, r_payment_no := pno, r_paid_at := Some t\<rparr>) (recharges d)"
    using assms(1) by (auto simp: recharge_settled_def dest!: entry_posted_frame(4))
  then have "find (\<lambda>r. r_order_no r = no) (rows (recharges d')) =
      map_option (\<lambda>r. if r_id r = r_id ord then r\<lparr>r_status := RechargePaid, r_payment_no := pno, r_paid_at := Some t\<rparr> else r)
       (find (\<lambda>r. r_order_no r = no) (rows (recharges d)))"
    by (simp add: table_simps) (rule find_map_key, simp)
  with assms(2,3) show ?thesis by auto
qed



lemma sample_engine_strict: "strict_engine sample_engine"
  by (simp add: strict_engine_def sample_engine_def)


end
