(* ===== verification/OrderRepo.thy ===== *)
theory OrderRepo
  imports BalanceService
begin

text \<open>
  \<open>internal/database/repository/order_repository.go\<close> and the order operations of
  \<open>commercial_atomic.go\<close>: payment with plan activation (\<open>PayAndApplyPlan\<close>) and
  refund to the wallet (\<open>RefundToBalance\<close>), each one database transaction.
\<close>

section \<open>Queries and guarded updates\<close>

definition OrderCreate :: "order_row \<Rightarrow> order_row dbop" where
  "OrderCreate ord = create orders orders_update
     (\<lambda>a b. o_order_no a = o_order_no b) (\<lambda>i. ord\<lparr>o_id := i\<rparr>)"

definition OrderGetByID :: "int \<Rightarrow> order_row dbop" where
  "OrderGetByID i = first orders (\<lambda>r. o_id r = i)"

definition OrderGetByOrderNo :: "string \<Rightarrow> order_row dbop" where
  "OrderGetByOrderNo no = first orders (\<lambda>r. o_order_no r = no)"

definition OrderGetByPaymentNo :: "string \<Rightarrow> order_row dbop" where
  "OrderGetByPaymentNo no = first orders (\<lambda>r. o_payment_no r = no)"

definition OrderUpdate :: "order_row \<Rightarrow> unit dbop" where
  "OrderUpdate ord = save orders orders_update (\<lambda>a b. o_order_no a = o_order_no b) o_id ord"

definition OrderDelete :: "int \<Rightarrow> unit dbop" where
  "OrderDelete i = bindE (delete_where orders orders_update (\<lambda>r. o_id r = i)) (\<lambda>_. ret ())"

record order_filter =
  of_user_id :: "int option"
  of_search :: string
  of_status :: string
  of_payment_method :: string
  of_start :: "time option"
  of_end :: "time option"
  of_min :: "int option"
  of_max :: "int option"

definition order_matches :: "engine \<Rightarrow> order_filter \<Rightarrow> order_row \<Rightarrow> bool" where
  "order_matches eng f r \<longleftrightarrow>
     opt_holds (\<lambda>u. o_user_id r = u) (of_user_id f)
   \<and> (let q = trim_space (of_search f); pat = ''%'' @ q @ ''%'' in
        q = [] \<or> (case parse_int64 q of
            Some n \<Rightarrow> o_user_id r = n \<or> o_id r = n
          | None \<Rightarrow> like_match eng pat (o_order_no r) \<or> like_match eng pat (o_payment_no r)))
   \<and> (of_status f = [] \<or> o_status r = of_status f)
   \<and> (of_payment_method f = [] \<or> o_payment_method r = of_payment_method f)
   \<and> opt_holds (\<lambda>s. s \<le> o_created_at r) (of_start f)
   \<and> opt_holds (\<lambda>e. o_created_at r \<le> e) (of_end f)
   \<and> opt_holds (\<lambda>m. m \<le> o_pay_amount r) (of_min f)
   \<and> opt_holds (\<lambda>m. o_pay_amount r \<le> m) (of_max f)"

definition OrderRepoList :: "engine \<Rightarrow> order_filter \<Rightarrow> int \<Rightarrow> int \<Rightarrow> (order_row list \<times> int) dbop" where
  "OrderRepoList eng f limit offset =
     bindE (query (\<lambda>d. count_rows (order_matches eng f) (orders d))) (\<lambda>total.
     bindE (query (\<lambda>d. page_desc o_created_at limit offset (filter (order_matches eng f) (rows (orders d)))))
       (\<lambda>rs. ret (rs, total)))"

definition OrderRepoListByUser :: "int \<Rightarrow> int \<Rightarrow> int \<Rightarrow> (order_row list \<times> int) dbop" where
  "OrderRepoListByUser u limit offset =
     bindE (query (\<lambda>d. count_rows (\<lambda>r. o_user_id r = u) (orders d))) (\<lambda>total.
     bindE (query (\<lambda>d. page_desc o_created_at limit offset (filter (\<lambda>r. o_user_id r = u) (rows (orders d)))))
       (\<lambda>rs. ret (rs, total)))"

definition allowed_from :: "string \<Rightarrow> string list option" where
  "allowed_from status =
     (if status = StatusCancelled then Some [StatusPending]
      else if status = StatusPaid then Some [StatusPending]
      else if status = StatusCompleted then Some [StatusPaid]
      else if status = StatusRefunded then Some [StatusPaid, StatusCompleted]
      else None)"

definition OrderUpdateStatus :: "int \<Rightarrow> string \<Rightarrow> unit dbop" where
  "OrderUpdateStatus i status = (case allowed_from status of
      None \<Rightarrow> raise (Repo ErrCommercialState)
    | Some from \<Rightarrow>
        bindE (update_where orders orders_update (\<lambda>r. o_id r = i \<and> o_status r \<in> set from)
            (\<lambda>r. r\<lparr>o_status := status\<rparr>))
          (\<lambda>n. guardE (n = 1) (Repo ErrCommercialState)))"

definition OrderMarkPaid :: "int \<Rightarrow> string \<Rightarrow> time \<Rightarrow> unit dbop" where
  "OrderMarkPaid i paymentNo paidAt =
     bindE (update_where orders orders_update (\<lambda>r. o_id r = i \<and> o_status r = StatusPending)
         (\<lambda>r. r\<lparr>o_status := StatusPaid, o_payment_no := paymentNo, o_paid_at := Some paidAt\<rparr>))
       (\<lambda>n. guardE (n \<noteq> 0) (Gorm ErrRecordNotFound))"

definition expired_pending :: "time \<Rightarrow> order_row \<Rightarrow> bool" where
  "expired_pending now r \<longleftrightarrow> o_status r = StatusPending \<and> o_expired_at r < now"

definition GetExpiredPending :: "time \<Rightarrow> order_row list dbop" where
  "GetExpiredPending now = query (\<lambda>d. filter (expired_pending now) (rows (orders d)))"

definition CancelExpired :: "time \<Rightarrow> int dbop" where
  "CancelExpired now = update_where orders orders_update (expired_pending now)
     (\<lambda>r. r\<lparr>o_status := StatusCancelled\<rparr>)"

definition OrderCount :: "int dbop" where
  "OrderCount = query (\<lambda>d. count_rows (\<lambda>_. True) (orders d))"

definition OrderCountByStatus :: "string \<Rightarrow> int dbop" where
  "OrderCountByStatus status = query (\<lambda>d. count_rows (\<lambda>r. o_status r = status) (orders d))"

definition in_paid_range :: "time \<Rightarrow> time \<Rightarrow> order_row \<Rightarrow> bool" where
  "in_paid_range start end r \<longleftrightarrow> (o_status r = StatusPaid \<or> o_status r = StatusCompleted)
     \<and> (case o_paid_at r of None \<Rightarrow> False | Some t \<Rightarrow> start \<le> t \<and> t \<le> end)"

definition RepoRevenueByDateRange :: "time \<Rightarrow> time \<Rightarrow> int dbop" where
  "RepoRevenueByDateRange start end = query (\<lambda>d. sum_rows (in_paid_range start end) o_pay_amount (orders d))"

definition RepoOrderCountByDateRange :: "time \<Rightarrow> time \<Rightarrow> int dbop" where
  "RepoOrderCountByDateRange start end = query (\<lambda>d. count_rows (in_paid_range start end) (orders d))"

section \<open>Payment\<close>

definition set_paid :: "time \<Rightarrow> string \<Rightarrow> string \<Rightarrow> order_row \<Rightarrow> order_row" where
  "set_paid now paymentNo meth r =
     r\<lparr>o_status := StatusPaid, o_payment_no := paymentNo, o_payment_method := meth, o_paid_at := Some now\<rparr>"

definition set_fulfilled :: "time \<Rightarrow> order_row \<Rightarrow> order_row" where
  "set_fulfilled now r = r\<lparr>o_fulfilled_at := Some now, o_fulfillment_pending := True\<rparr>"

text \<open>The plan extends a running subscription and starts an expired or open one now.\<close>

definition plan_base :: "time \<Rightarrow> user_row \<Rightarrow> time" where
  "plan_base now user = (case u_expires_at user of
      None \<Rightarrow> now | Some t \<Rightarrow> if now < t then t else now)"

definition set_plan :: "plan_row \<Rightarrow> int \<Rightarrow> time \<Rightarrow> user_row \<Rightarrow> user_row" where
  "set_plan plan price expires r =
     r\<lparr>u_enabled := True, u_traffic_used := 0, u_traffic_limit := p_traffic_limit plan,
       u_expires_at := Some expires, u_current_plan_id := p_id plan,
       u_current_plan_price := price, u_current_plan_duration := p_duration plan\<rparr>"

definition activate_plan :: "time \<Rightarrow> order_row \<Rightarrow> unit dbop" where
  "activate_plan now ord =
     bindE (first plans (\<lambda>p. p_id p = o_plan_id ord)) (\<lambda>plan.
     bindE (first users (\<lambda>u. u_id u = o_user_id ord)) (\<lambda>user.
     bindE (update_where users users_update (\<lambda>u. u_id u = u_id user)
         (set_plan plan (o_original_amount ord) (add_days (plan_base now user) (p_duration plan)))) (\<lambda>_.
     bindE (update_where orders orders_update (\<lambda>r. o_id r = o_id ord) (set_fulfilled now)) (\<lambda>_.
       ret ()))))"

definition PayAndApplyPlan ::
    "time \<Rightarrow> string \<Rightarrow> string \<Rightarrow> string \<Rightarrow> bool \<Rightarrow> bool \<Rightarrow> order_row dbop" where
  "PayAndApplyPlan now orderNo paymentNo meth useBalance applyPlan = transaction (
     bindE (first orders (\<lambda>r. o_order_no r = orderNo)) (\<lambda>ord.
     if o_status ord = StatusPaid \<or> o_status ord = StatusCompleted then
       (if o_payment_no ord = paymentNo \<or> useBalance \<and> o_payment_method ord = ''balance'' then ret ord
        else raise (Repo ErrCommercialState))
     else if o_status ord \<noteq> StatusPending then raise (Repo ErrCommercialState)
     else if o_expired_at ord < now then raise (Repo ErrCommercialExpired)
     else
       bindE (update_where orders orders_update (\<lambda>r. o_id r = o_id ord \<and> o_status r = StatusPending)
           (set_paid now paymentNo meth)) (\<lambda>n.
       bindE (guardE (n = 1) (Repo ErrCommercialState)) (\<lambda>_.
       bindE (if useBalance then
                bindE (DebitAtomic now (o_user_id ord) (o_pay_amount ord)
                   (Some (new_tx TxTypePurchase (Some (o_id ord))
                       (''Balance payment for order '' @ o_order_no ord) ''system''))) (\<lambda>_. ret ())
              else ret ()) (\<lambda>_.
       bindE (if applyPlan then activate_plan now ord else ret ()) (\<lambda>_.
         ret (set_paid now paymentNo meth (if applyPlan then set_fulfilled now ord else ord))))))))"

definition MarkFulfillmentSynced :: "int \<Rightarrow> unit dbop" where
  "MarkFulfillmentSynced i =
     bindE (update_where orders orders_update (\<lambda>r. o_id r = i) (\<lambda>r. r\<lparr>o_fulfillment_pending := False\<rparr>))
       (\<lambda>_. ret ())"

definition ListPendingFulfillments :: "int \<Rightarrow> order_row list dbop" where
  "ListPendingFulfillments limit = query (\<lambda>d. limit_rows limit (filter
     (\<lambda>r. o_fulfillment_pending r \<and> (o_status r = StatusPaid \<or> o_status r = StatusCompleted))
     (rows (orders d))))"

section \<open>Refund\<close>

definition refund_notes :: "int \<Rightarrow> string \<Rightarrow> string" where
  "refund_notes amount reason = ''Refunded '' @ show_int amount @ '' cents: '' @ reason"

definition set_refunded :: "int \<Rightarrow> string \<Rightarrow> order_row \<Rightarrow> order_row" where
  "set_refunded amount notes r = r\<lparr>o_status := StatusRefunded, o_notes := notes,
     o_refunded_amount := amount, o_fulfillment_pending := False\<rparr>"

definition legacy_refund :: "engine \<Rightarrow> int \<Rightarrow> balance_tx_row \<Rightarrow> bool" where
  "legacy_refund eng i t \<longleftrightarrow> t_order_id t = Some i \<and> t_type t = TxTypeRefund
     \<and> like_match eng ''Refund for order #%'' (t_description t)"

definition RefundToBalance :: "engine \<Rightarrow> time \<Rightarrow> int \<Rightarrow> int \<Rightarrow> string \<Rightarrow> order_row dbop" where
  "RefundToBalance eng now i amount reason = transaction (
     bindE (first orders (\<lambda>r. o_id r = i)) (\<lambda>ord.
     if amount < 0 then raise (Gorm ErrInvalidData)
     else if o_status ord = StatusRefunded then
       (if 0 < o_refunded_amount ord \<and> (amount = 0 \<or> amount = o_refunded_amount ord) then ret ord
        else raise (Repo ErrCommercialState))
     else if o_status ord \<noteq> StatusPaid \<and> o_status ord \<noteq> StatusCompleted then raise (Repo ErrCommercialState)
     else
       bindE (query (\<lambda>d. sum_rows (legacy_refund eng i) t_amount (ledger d))) (\<lambda>previouslyRefunded.
       if 0 < previouslyRefunded then
         bindE (update_where orders orders_update (\<lambda>r. o_id r = i)
             (\<lambda>r. r\<lparr>o_status := StatusRefunded, o_refunded_amount := previouslyRefunded,
                    o_fulfillment_pending := False\<rparr>)) (\<lambda>_.
           ret (ord\<lparr>o_status := StatusRefunded, o_refunded_amount := previouslyRefunded\<rparr>))
       else
         let total = wrap64 (o_pay_amount ord + o_balance_used ord);
             amount = (if amount = 0 then total else amount);
             notes = refund_notes amount reason
         in if amount \<le> 0 \<or> total < amount then raise (Gorm ErrInvalidData)
         else
           bindE (update_where orders orders_update
               (\<lambda>r. o_id r = i \<and> (o_status r = StatusPaid \<or> o_status r = StatusCompleted))
               (set_refunded amount notes)) (\<lambda>n.
           bindE (guardE (n = 1) (Repo ErrCommercialState)) (\<lambda>_.
           bindE (CreditAtomic now (o_user_id ord) amount
               (Some (new_tx TxTypeRefund (Some (o_id ord)) notes ''system''))) (\<lambda>_.
           bindE (update_where commissions commissions_update
               (\<lambda>k. k_order_id k = i \<and> k_status k = ''pending'') (\<lambda>k. k\<lparr>k_status := ''cancelled''\<rparr>)) (\<lambda>_.
             ret (ord\<lparr>o_status := StatusRefunded, o_notes := notes, o_refunded_amount := amount\<rparr>))))))))"

section \<open>Soundness of the order updates\<close>

lemma sound_upd_orders [sound_rules]:
  assumes "\<And>r. o_id (f r) = o_id r" and "\<And>r. o_pay_amount (f r) = o_pay_amount r"
    and "\<And>r. o_balance_used (f r) = o_balance_used r"
  shows "sound_op (update_where orders orders_update p f)"
  by (auto intro!: sound_opI wpt_rules sound_step_refl sound_step_same keyed_upd
      simp: sound_db_def wf_db_def columns_ok_def table_simps assms)

lemma OrderCreate_sound [sound_rules]:
  "price_ok (o_pay_amount r) \<Longrightarrow> price_ok (o_balance_used r) \<Longrightarrow> sound_op (OrderCreate r)"
  unfolding OrderCreate_def
  by (auto intro!: sound_opI wpt_rules sound_step_refl sound_step_same keyed_add
      simp: sound_db_def wf_db_def columns_ok_def table_simps)

lemma OrderUpdateStatus_sound [sound_rules]: "sound_op (OrderUpdateStatus i status)"
  unfolding OrderUpdateStatus_def by (intro sound_rules) simp_all

lemma OrderMarkPaid_sound [sound_rules]: "sound_op (OrderMarkPaid i no t)"
  unfolding OrderMarkPaid_def by (intro sound_rules) simp_all

lemma CancelExpired_sound [sound_rules]: "sound_op (CancelExpired now)"
  unfolding CancelExpired_def by (intro sound_rules) simp_all

lemma MarkFulfillmentSynced_sound [sound_rules]: "sound_op (MarkFulfillmentSynced i)"
  unfolding MarkFulfillmentSynced_def by (intro sound_rules) simp_all

section \<open>What a payment does\<close>

text \<open>
  A committed payment in its three steps: the order is marked paid, the wallet is charged
  when the payment is by balance, the plan is activated when the service applies plans.
\<close>

definition charged :: "bool \<Rightarrow> order_row \<Rightarrow> db \<Rightarrow> db \<Rightarrow> bool" where
  "charged useBalance ord d d' \<longleftrightarrow> (if useBalance
     then 0 < o_pay_amount ord \<and> o_pay_amount ord \<le> wallet d (o_user_id ord)
        \<and> entry_posted d d' (o_user_id ord) (- o_pay_amount ord)
     else d' = d)"

definition plan_activated :: "time \<Rightarrow> bool \<Rightarrow> order_row \<Rightarrow> db \<Rightarrow> db \<Rightarrow> bool" where
  "plan_activated now applyPlan ord d d' \<longleftrightarrow> (if applyPlan
     then \<exists>plan user. find (\<lambda>p. p_id p = o_plan_id ord) (rows (plans d)) = Some plan
        \<and> find (\<lambda>u. u_id u = o_user_id ord) (rows (users d)) = Some user
        \<and> d' = d\<lparr>users := upd_rows (\<lambda>u. u_id u = o_user_id ord)
                     (set_plan plan (o_original_amount ord) (add_days (plan_base now user) (p_duration plan)))
                     (users d),
                  orders := upd_rows (\<lambda>r. o_id r = o_id ord) (set_fulfilled now) (orders d)\<rparr>
     else d' = d)"

definition payment_committed ::
    "time \<Rightarrow> string \<Rightarrow> string \<Rightarrow> bool \<Rightarrow> bool \<Rightarrow> db \<Rightarrow> db \<Rightarrow> order_row \<Rightarrow> bool" where
  "payment_committed now pno meth useBalance applyPlan d d' ord \<longleftrightarrow>
     o_status ord = StatusPending \<and> now \<le> o_expired_at ord \<and>
     (\<exists>d1. charged useBalance ord
         (d\<lparr>orders := upd_rows (\<lambda>r. o_id r = o_id ord) (set_paid now pno meth) (orders d)\<rparr>) d1
       \<and> plan_activated now applyPlan ord d1 d')"

lemma activate_plan_wpt:
  assumes "\<And>plan user. find (\<lambda>p. p_id p = o_plan_id ord) (rows (plans d)) = Some plan \<Longrightarrow>
      find (\<lambda>u. u_id u = o_user_id ord) (rows (users d)) = Some user \<Longrightarrow>
      Q () (d\<lparr>users := upd_rows (\<lambda>u. u_id u = o_user_id ord)
               (set_plan plan (o_original_amount ord) (add_days (plan_base now user) (p_duration plan))) (users d),
             orders := upd_rows (\<lambda>r. o_id r = o_id ord) (set_fulfilled now) (orders d)\<rparr>)"
    and "P"
  shows "wpt (activate_plan now ord) Q (\<lambda>_ _. P) d"
  unfolding activate_plan_def
  apply (intro wpt_rules)
  apply (simp_all add: assms)
  done

lemma PayAndApplyPlan_wpt:
  assumes s: "sound_db d"
  shows "wpt (PayAndApplyPlan now no pno meth useBalance applyPlan)
     (\<lambda>x d'. \<exists>ord. find (\<lambda>r. o_order_no r = no) (rows (orders d)) = Some ord \<and>
        (x = ord \<and> d' = d \<and> (o_status ord = StatusPaid \<or> o_status ord = StatusCompleted)
           \<and> (o_payment_no ord = pno \<or> useBalance \<and> o_payment_method ord = ''balance'')
         \<or> x = set_paid now pno meth (if applyPlan then set_fulfilled now ord else ord) \<and>
           payment_committed now pno meth useBalance applyPlan d d' ord))
     (\<lambda>_ d'. d' = d) d"
proof -
  have k: "keyed o_id (orders d)" using s by (simp add: sound_db_def wf_db_def)
  have hit: "upd_rows (\<lambda>r. o_id r = o_id ord \<and> o_status r = StatusPending) f (orders d)
      = upd_rows (\<lambda>r. o_id r = o_id ord) f (orders d)"
    if "ord \<in> set (rows (orders d))" "o_status ord = StatusPending" for ord f
    using that by (intro upd_rows_guarded [OF k]) (auto simp: count_rows_zero)
  have wf: "wf_db (d\<lparr>orders := upd_rows (\<lambda>r. o_id r = o_id ord \<and> o_status r = StatusPending)
      (set_paid now pno meth) (orders d)\<rparr>)" for ord
    using s by (auto simp: sound_db_def wf_db_def set_paid_def intro!: keyed_upd)
  have amt: "in_i64 (o_pay_amount ord)" if "ord \<in> set (rows (orders d))" for ord
    using s that by (simp add: sound_db_def columns_ok_def)
  show ?thesis
    unfolding PayAndApplyPlan_def
    apply (intro wpt_rules debit_wpt wf activate_plan_wpt)
    apply (simp_all add: amt hit payment_committed_def charged_def plan_activated_def)
    subgoal for r d' plan user by (rule exI [of _ d']) simp
    done
qed

text \<open>What a committed payment means for the wallets, the order and the subscriber.\<close>

lemma wallet_set_plan [simp]:
  "wallet (d\<lparr>users := upd_rows p (set_plan plan pr ex) (users d)\<rparr>) u = wallet d u"
  by (rule wallet_upd_frame) (simp_all add: set_plan_def)

lemma charged_effect:
  assumes "charged ub ord d d'"
  shows "wallet d' u = wallet d u - (if ub \<and> u = o_user_id ord then o_pay_amount ord else 0)"
    and "ledger_total d' u = ledger_total d u - (if ub \<and> u = o_user_id ord then o_pay_amount ord else 0)"
    and "orders d' = orders d"
    and "rows (users d') = map (\<lambda>u. if u_id u = o_user_id ord
      then u\<lparr>u_balance := u_balance u - (if ub then o_pay_amount ord else 0)\<rparr> else u) (rows (users d))"
    and "plans d' = plans d"
  using assms
  by (auto simp: charged_def entry_posted_wallet entry_posted_ledger entry_posted_frame
      entry_posted_users split: if_splits intro!: map_idI [symmetric])

lemma charged_sound:
  "charged ub ord d d' \<Longrightarrow> sound_db d \<Longrightarrow> sound_step d d'"
  using wallet_range [of d "o_user_id ord"]
  by (auto simp: charged_def intro: sound_step_refl entry_posted_sound split: if_splits)

lemma plan_activated_effect:
  assumes "plan_activated now ap ord d d'"
  shows "wallet d' u = wallet d u" and "ledger_total d' u = ledger_total d u"
    and "orders d' = upd_rows (\<lambda>r. o_id r = o_id ord) (\<lambda>r. if ap then set_fulfilled now r else r) (orders d)"
  using assms by (cases ap; auto simp: plan_activated_def)+

lemma plan_activated_sound:
  assumes "plan_activated now ap ord d d'" and d: "sound_db d"
  shows "sound_step d d'"
proof -
  have "sound_step d (d\<lparr>users := upd_rows p (set_plan plan pr ex) (users d),
        orders := upd_rows q (set_fulfilled now) (orders d)\<rparr>)" for p q plan pr ex
  proof -
    from d have a: "sound_step d (d\<lparr>users := upd_rows p (set_plan plan pr ex) (users d)\<rparr>)" (is "sound_step _ ?e")
      by (rule sound_step_user_frame) (simp_all add: set_plan_def)
    then have "sound_db ?e" by (simp add: sound_step_def)
    then have "sound_step ?e (?e\<lparr>orders := upd_rows q (set_fulfilled now) (orders d)\<rparr>)"
      by (intro sound_step_same)
         (auto simp: sound_db_def wf_db_def columns_ok_def table_simps set_fulfilled_def intro!: keyed_upd)
    from sound_step_trans [OF a this] show ?thesis by simp
  qed
  with assms show ?thesis by (auto simp: plan_activated_def intro: sound_step_refl split: if_splits)
qed

lemma payment_committed_effect:
  assumes "payment_committed now pno meth ub ap d d' ord"
  shows "wallet d' u = wallet d u - (if ub \<and> u = o_user_id ord then o_pay_amount ord else 0)"
    and "ledger_total d' u = ledger_total d u - (if ub \<and> u = o_user_id ord then o_pay_amount ord else 0)"
    and "orders d' = upd_rows (\<lambda>r. o_id r = o_id ord)
      (\<lambda>r. set_paid now pno meth (if ap then set_fulfilled now r else r)) (orders d)"
proof -
  from assms obtain d1 where d1: "charged ub ord
      (d\<lparr>orders := upd_rows (\<lambda>r. o_id r = o_id ord) (set_paid now pno meth) (orders d)\<rparr>) d1"
    "plan_activated now ap ord d1 d'" by (auto simp: payment_committed_def)
  note eff = charged_effect [OF d1(1)] plan_activated_effect [OF d1(2)]
  show "wallet d' u = wallet d u - (if ub \<and> u = o_user_id ord then o_pay_amount ord else 0)"
    "ledger_total d' u = ledger_total d u - (if ub \<and> u = o_user_id ord then o_pay_amount ord else 0)"
    "orders d' = upd_rows (\<lambda>r. o_id r = o_id ord)
      (\<lambda>r. set_paid now pno meth (if ap then set_fulfilled now r else r)) (orders d)"
    by (simp_all add: eff) (auto simp: upd_rows_def set_paid_def set_fulfilled_def)
qed

lemma payment_committed_found:
  assumes "payment_committed now pno meth ub ap d d' ord"
    and "find (\<lambda>r. o_order_no r = no) (rows (orders d)) = Some ord"
  shows "find (\<lambda>r. o_order_no r = no) (rows (orders d')) =
    Some (set_paid now pno meth (if ap then set_fulfilled now ord else ord))"
proof -
  have "find (\<lambda>r. o_order_no r = no) (map (\<lambda>r. if o_id r = o_id ord
      then set_paid now pno meth (if ap then set_fulfilled now r else r) else r) (rows (orders d)))
    = map_option (\<lambda>r. if o_id r = o_id ord
      then set_paid now pno meth (if ap then set_fulfilled now r else r) else r)
      (find (\<lambda>r. o_order_no r = no) (rows (orders d)))"
    by (rule find_map_key) (simp add: set_paid_def set_fulfilled_def)
  with assms(2) show ?thesis
    by (simp add: payment_committed_effect(3) [OF assms(1)] table_simps)
qed

lemma payment_committed_sound:
  assumes c: "payment_committed now pno meth ub ap d d' ord" and s: "sound_db d"
    and o: "ord \<in> set (rows (orders d))"
  shows "sound_step d d'"
proof -
  let ?d0 = "d\<lparr>orders := upd_rows (\<lambda>r. o_id r = o_id ord) (set_paid now pno meth) (orders d)\<rparr>"
  have s0: "sound_step d ?d0"
    using s by (intro sound_step_same)
      (auto simp: sound_db_def wf_db_def columns_ok_def table_simps set_paid_def intro!: keyed_upd)
  from c obtain d1 where "charged ub ord ?d0 d1" and act: "plan_activated now ap ord d1 d'"
    by (auto simp: payment_committed_def)
  then have s1: "sound_step ?d0 d1" using s0 by (auto simp: sound_step_def dest: charged_sound)
  with act have "sound_step d1 d'" by (auto simp: sound_step_def dest: plan_activated_sound)
  with s0 s1 show ?thesis by (blast intro: sound_step_trans)
qed

lemma PayAndApplyPlan_sound [sound_rules]: "sound_op (PayAndApplyPlan now no pno meth ub ap)"
  by (rule sound_opI, rule wpt_mono [OF PayAndApplyPlan_wpt])
     (auto intro: sound_step_refl payment_committed_sound dest: find_Some_iff_In)

text \<open>The subscriber's row after a payment that activates a plan.\<close>

lemma payment_committed_user:
  assumes "payment_committed now pno meth ub True d d' ord"
  obtains plan user where "find (\<lambda>p. p_id p = o_plan_id ord) (rows (plans d)) = Some plan"
    and "find (\<lambda>u. u_id u = o_user_id ord) (rows (users d)) = Some user"
    and "find (\<lambda>u. u_id u = o_user_id ord) (rows (users d')) =
      Some (set_plan plan (o_original_amount ord) (add_days (plan_base now user) (p_duration plan))
        (user\<lparr>u_balance := u_balance user - (if ub then o_pay_amount ord else 0)\<rparr>))"
proof -
  let ?id = "\<lambda>u. u_id u = o_user_id ord"
  let ?d0 = "d\<lparr>orders := upd_rows (\<lambda>r. o_id r = o_id ord) (set_paid now pno meth) (orders d)\<rparr>"
  from assms obtain d1 where ch: "charged ub ord ?d0 d1" and act: "plan_activated now True ord d1 d'"
    by (auto simp: payment_committed_def)
  from act obtain plan user1
    where p: "find (\<lambda>p. p_id p = o_plan_id ord) (rows (plans d1)) = Some plan"
      and u1: "find ?id (rows (users d1)) = Some user1"
      and d': "users d' = upd_rows ?id
          (set_plan plan (o_original_amount ord) (add_days (plan_base now user1) (p_duration plan))) (users d1)"
    by (auto simp: plan_activated_def)
  let ?deb = "\<lambda>u. u\<lparr>u_balance := u_balance u - (if ub then o_pay_amount ord else 0)\<rparr>"
  have us: "rows (users d1) = map (\<lambda>u. if ?id u then ?deb u else u) (rows (users d))"
    using charged_effect(4) [OF ch] by simp
  have "find ?id (rows (users d1)) = map_option (\<lambda>u. if ?id u then ?deb u else u) (find ?id (rows (users d)))"
    unfolding us by (rule find_map_key) simp
  then obtain user where u: "find ?id (rows (users d)) = Some user" and "user1 = ?deb user"
    using u1 by (cases "find ?id (rows (users d))") (auto dest: find_Some_iff_In)
  moreover have "find ?id (rows (users d')) = map_option (\<lambda>u. if ?id u then
      set_plan plan (o_original_amount ord) (add_days (plan_base now user1) (p_duration plan)) u else u)
      (find ?id (rows (users d1)))"
    unfolding d' rows_upd by (rule find_map_key) (simp add: set_plan_def)
  ultimately show thesis
    using u1 p charged_effect(5) [OF ch] by (intro that [OF _ u]) (auto simp: plan_base_def dest: find_Some_iff_In)
qed



text \<open>
  (C5) What the subscriber gets.  A payment of a pending order with plan activation sets the
  owner's plan to the ordered one: enabled, traffic reset to the plan's limit, expiry moved
  by the plan's duration from the later of now and the old expiry, the price recorded from
  the order; nothing else of the user's row changes but the balance a wallet payment takes.
\<close>

theorem pay_activates_plan:
  fixes w w' :: "db world"
  assumes "sound_db (tables w)"
    and "PayAndApplyPlan now no pno meth ub True w = (Inr x, w')"
    and "find (\<lambda>r. o_order_no r = no) (rows (orders (tables w))) = Some ord" and "o_status ord = StatusPending"
  shows "\<exists>plan user. find (\<lambda>p. p_id p = o_plan_id ord) (rows (plans (tables w))) = Some plan
     \<and> find (\<lambda>u. u_id u = o_user_id ord) (rows (users (tables w))) = Some user
     \<and> find (\<lambda>u. u_id u = o_user_id ord) (rows (users (tables w'))) = Some (user\<lparr>
          u_enabled := True, u_traffic_used := 0, u_traffic_limit := p_traffic_limit plan,
          u_expires_at := Some (add_days (case u_expires_at user of None \<Rightarrow> now | Some t \<Rightarrow> max now t) (p_duration plan)),
          u_current_plan_id := p_id plan, u_current_plan_price := o_original_amount ord,
          u_current_plan_duration := p_duration plan,
          u_balance := u_balance user - (if ub then o_pay_amount ord else 0)\<rparr>)"
proof -
  from wptD_Inr [OF PayAndApplyPlan_wpt [OF assms(1)] assms(2)] assms(3,4)
  have "payment_committed now pno meth ub True (tables w) (tables w') ord" by auto
  then obtain plan user where r: "find (\<lambda>p. p_id p = o_plan_id ord) (rows (plans (tables w))) = Some plan"
    "find (\<lambda>u. u_id u = o_user_id ord) (rows (users (tables w))) = Some user"
    "find (\<lambda>u. u_id u = o_user_id ord) (rows (users (tables w'))) =
      Some (set_plan plan (o_original_amount ord) (add_days (plan_base now user) (p_duration plan))
        (user\<lparr>u_balance := u_balance user - (if ub then o_pay_amount ord else 0)\<rparr>))"
    by (rule payment_committed_user)
  have "plan_base now user = (case u_expires_at user of None \<Rightarrow> now | Some t \<Rightarrow> max now t)"
    by (auto simp: plan_base_def split: option.split)
  with r show ?thesis by (intro exI [of _ plan] exI [of _ user]) (simp add: set_plan_def)
qed

theorem pay_activates_plan_witness:
  "let m = PayAndApplyPlan 7 ''ORD-1'' ''PAY-1'' ''alipay'' False True in
   map_option u_expires_at (find (\<lambda>u. u_id u = 1) (rows (users (tables (snd (m sample_world))))))
     = Some (Some (add_days 7 30))"
proof -
  let ?m = "PayAndApplyPlan 7 ''ORD-1'' ''PAY-1'' ''alipay'' False True"
  have ok: "\<not> isl (fst (?m sample_world))" by code_simp
  have o: "find (\<lambda>r. o_order_no r = ''ORD-1'') (rows (orders sample_db)) = Some (sample_order 1 300 ''pending'')"
    and p: "find (\<lambda>p. p_id p = 1) (rows (plans sample_db)) = Some (sample_plan 1 300)"
    and u: "find (\<lambda>u. u_id u = 1) (rows (users sample_db)) = Some (sample_user 1 500)"
    by (simp_all add: sample_defs)
  have "sound_db (tables sample_world)" by (simp add: sample_db_sound)
  from pay_activates_plan [OF this run_Inr [OF ok], of "sample_order 1 300 ''pending''"] o p u
  show ?thesis by (auto simp: Let_def sample_order_def sample_user_def sample_plan_def status_defs)
qed



section \<open>What a refund does\<close>

text \<open>
  A refund that changes something either recovers an order whose refund an older release
  already credited, or marks the order refunded, credits the wallet and cancels the
  commissions that are still pending for the order.
\<close>

definition refund_recovered :: "engine \<Rightarrow> db \<Rightarrow> db \<Rightarrow> order_row \<Rightarrow> bool" where
  "refund_recovered eng d d' ord \<longleftrightarrow>
     (let prev = sum_rows (legacy_refund eng (o_id ord)) t_amount (ledger d) in
      0 < prev \<and> d' = d\<lparr>orders := upd_rows (\<lambda>r. o_id r = o_id ord)
         (\<lambda>r. r\<lparr>o_status := StatusRefunded, o_refunded_amount := prev, o_fulfillment_pending := False\<rparr>)
         (orders d)\<rparr>)"

definition refund_credited :: "int \<Rightarrow> string \<Rightarrow> db \<Rightarrow> db \<Rightarrow> order_row \<Rightarrow> bool" where
  "refund_credited amt notes d d' ord \<longleftrightarrow>
     0 < amt \<and> amt \<le> o_pay_amount ord + o_balance_used ord \<and>
     wallet d (o_user_id ord) + amt \<le> maxI64 \<and>
     (\<exists>d1. entry_posted (d\<lparr>orders := upd_rows (\<lambda>r. o_id r = o_id ord) (set_refunded amt notes) (orders d)\<rparr>)
         d1 (o_user_id ord) amt
       \<and> d' = d1\<lparr>commissions := upd_rows (\<lambda>k. k_order_id k = o_id ord \<and> k_status k = ''pending'')
            (\<lambda>k. k\<lparr>k_status := ''cancelled''\<rparr>) (commissions d1)\<rparr>)"

lemma wrap64_total:
  assumes "price_ok a" and "price_ok b" and "0 < wrap64 (a + b)"
  shows "wrap64 (a + b) = a + b"
proof (cases "in_i64 (a + b)")
  case False
  with assms(1,2) have "wrap64 (a + b) = a + b - 2 ^ 64"
    by (intro wrap64_above) (auto simp: price_ok_def i64_defs)
  with assms show ?thesis by (simp add: price_ok_def maxI64_def)
qed simp

lemma RefundToBalance_wpt:
  assumes s: "sound_db d"
  shows "wpt (RefundToBalance eng now i amount reason)
     (\<lambda>x d'. \<exists>ord. find (\<lambda>r. o_id r = i) (rows (orders d)) = Some ord \<and> o_id ord = i \<and>
        o_status x = StatusRefunded \<and> 0 < o_refunded_amount x \<and>
        (if o_status ord = StatusRefunded then x = ord \<and> d' = d \<and> (amount = 0 \<or> amount = o_refunded_amount ord)
         else (o_status ord = StatusPaid \<or> o_status ord = StatusCompleted) \<and>
           (refund_recovered eng d d' ord \<or>
            (amount = 0 \<longrightarrow> o_refunded_amount x = o_pay_amount ord + o_balance_used ord) \<and>
            (amount \<noteq> 0 \<longrightarrow> o_refunded_amount x = amount) \<and>
            refund_credited (o_refunded_amount x) (refund_notes (o_refunded_amount x) reason) d d' ord)))
     (\<lambda>_ d'. d' = d) d"
proof -
  have k: "keyed o_id (orders d)" using s by (simp add: sound_db_def wf_db_def)
  have hit: "upd_rows (\<lambda>r. o_id r = o_id ord \<and> (o_status r = StatusPaid \<or> o_status r = StatusCompleted)) f (orders d)
      = upd_rows (\<lambda>r. o_id r = o_id ord) f (orders d)"
    if "ord \<in> set (rows (orders d))" "o_status ord = StatusPaid \<or> o_status ord = StatusCompleted" for ord f
    using that by (intro upd_rows_guarded [OF k]) (auto simp: count_rows_zero)
  have wf: "wf_db (d\<lparr>orders := upd_rows p (set_refunded a n) (orders d)\<rparr>)" for p a n
    using s by (auto simp: sound_db_def wf_db_def set_refunded_def intro!: keyed_upd)
  have amt: "price_ok (o_pay_amount ord)" "price_ok (o_balance_used ord)" if "ord \<in> set (rows (orders d))" for ord
    using s that by (auto simp add: sound_db_def columns_ok_def)
  show ?thesis
    unfolding RefundToBalance_def Let_def
    apply (intro wpt_rules credit_wpt wf)
    apply (simp_all add: refund_recovered_def Let_def)
    subgoal for r using wrap64_in_range [of "o_pay_amount r + o_balance_used r"] by (auto simp: in_i64_def i64_defs)
    subgoal for r d'
      using wrap64_total [OF amt [of r]] hit [of r]
      by (cases "amount = 0") (auto simp: refund_credited_def)
    done
qed

lemma refund_credited_effect:
  assumes "refund_credited amt notes d d' ord"
  shows "wallet d' u = wallet d u + (if u = o_user_id ord then amt else 0)"
    and "ledger_total d' u = ledger_total d u + (if u = o_user_id ord then amt else 0)"
    and "orders d' = upd_rows (\<lambda>r. o_id r = o_id ord) (set_refunded amt notes) (orders d)"
    and "k \<in> set (rows (commissions d')) \<Longrightarrow> k_order_id k = o_id ord \<Longrightarrow> k_status k \<noteq> ''pending''"
  using assms unfolding refund_credited_def
  by (auto simp: entry_posted_wallet entry_posted_ledger entry_posted_frame table_simps split: if_splits)

lemma refund_credited_sound:
  assumes c: "refund_credited amt notes d d' ord" and s: "sound_db d"
  shows "sound_step d d'"
proof -
  let ?d0 = "d\<lparr>orders := upd_rows (\<lambda>r. o_id r = o_id ord) (set_refunded amt notes) (orders d)\<rparr>"
  have s0: "sound_step d ?d0"
    using s by (intro sound_step_same)
      (auto simp: sound_db_def wf_db_def columns_ok_def table_simps set_refunded_def intro!: keyed_upd)
  from c obtain d1 where ep: "entry_posted ?d0 d1 (o_user_id ord) amt"
    and r: "0 \<le> wallet ?d0 (o_user_id ord) + amt" "wallet ?d0 (o_user_id ord) + amt \<le> maxI64"
    and d': "d' = d1\<lparr>commissions := upd_rows (\<lambda>k. k_order_id k = o_id ord \<and> k_status k = ''pending'')
        (\<lambda>k. k\<lparr>k_status := ''cancelled''\<rparr>) (commissions d1)\<rparr>"
    using wallet_range [OF s, of "o_user_id ord"] by (auto simp: refund_credited_def)
  then have s1: "sound_step ?d0 d1"
    using s0 by (intro entry_posted_sound [OF ep]) (simp_all add: sound_step_def)
  moreover have "sound_step d1 d'"
    unfolding d' using s1 by (intro sound_step_commissions) (simp_all add: sound_step_def)
  ultimately show ?thesis using s0 by (blast intro: sound_step_trans)
qed

lemma refund_recovered_sound:
  "refund_recovered eng d d' ord \<Longrightarrow> sound_db d \<Longrightarrow> sound_step d d'"
  by (auto simp: refund_recovered_def Let_def sound_db_def wf_db_def columns_ok_def table_simps
      intro!: sound_step_same keyed_upd)

lemma RefundToBalance_sound [sound_rules]: "sound_op (RefundToBalance eng now i amount reason)"
  by (rule sound_opI, rule wpt_mono [OF RefundToBalance_wpt])
     (auto intro: sound_step_refl refund_credited_sound refund_recovered_sound split: if_splits)

text \<open>The stored order after a refund.\<close>

lemma refund_found:
  assumes "refund_recovered eng d d' ord \<or> refund_credited amt notes d d' ord"
    and "find (\<lambda>r. o_id r = i) (rows (orders d)) = Some ord" and "o_id ord = i"
  shows "\<exists>y. find (\<lambda>r. o_id r = i) (rows (orders d')) = Some y \<and> o_status y = StatusRefunded"
proof -
  from assms(1) obtain f where f: "orders d' = upd_rows (\<lambda>r. o_id r = o_id ord) f (orders d)"
    and k: "\<And>r. o_id (f r) = o_id r" and st: "\<And>r. o_status (f r) = StatusRefunded"
  proof
    assume "refund_recovered eng d d' ord"
    then show ?thesis
      by (intro that [of "\<lambda>r. r\<lparr>o_status := StatusRefunded,
          o_refunded_amount := sum_rows (legacy_refund eng (o_id ord)) t_amount (ledger d),
          o_fulfillment_pending := False\<rparr>"])
         (simp_all add: refund_recovered_def Let_def)
  next
    assume "refund_credited amt notes d d' ord"
    then show ?thesis by (intro that [OF refund_credited_effect(3)]) (simp_all add: set_refunded_def)
  qed
  have "find (\<lambda>r. o_id r = i) (map (\<lambda>r. if o_id r = o_id ord then f r else r) (rows (orders d)))
      = map_option (\<lambda>r. if o_id r = o_id ord then f r else r) (find (\<lambda>r. o_id r = i) (rows (orders d)))"
    by (rule find_map_key) (simp add: k)
  with assms(2,3) st show ?thesis by (simp add: f table_simps)
qed



definition sample_paid_world :: "db world" where
  "sample_paid_world = fresh_world (sample_db\<lparr>orders := \<lparr>rows = [sample_order 1 300 ''paid''], seq = 1\<rparr>\<rparr>)"

lemma sample_paid_sound: "sound_db (tables sample_paid_world)"
  by (simp add: sample_paid_world_def sample_defs sound_db_def wf_db_def wallets_ok_def columns_ok_def
      price_ok_def keyed_def i64_defs)




section \<open>Status transitions\<close>

text \<open>
  \<open>order_moves d d'\<close>: the order table of \<open>d'\<close> has the orders of \<open>d\<close>, in
  place, each with its old status or one reached by a transition the order life cycle has.
\<close>

definition life_cycle :: "(string \<times> string) list" where
  "life_cycle = [(StatusPending, StatusPaid), (StatusPending, StatusCancelled),
     (StatusPaid, StatusCompleted), (StatusPaid, StatusRefunded), (StatusCompleted, StatusRefunded)]"

lemma allowed_from_life_cycle:
  "allowed_from s = Some frm \<Longrightarrow> a \<in> set frm \<Longrightarrow> (a, s) \<in> set life_cycle"
  unfolding allowed_from_def life_cycle_def
  by (auto split: if_split_asm)

text \<open>
  The guarded status update only takes an order along its life cycle: whatever the
  faults and the requested status, an order other than the named one keeps its status, and
  the named one keeps it or follows one edge of pending-paid, pending-cancelled,
  paid-completed, paid-refunded, completed-refunded.
\<close>

theorem update_status_life_cycle:
  fixes w w' :: "db world"
  assumes "OrderUpdateStatus i status w = (r, w')"
  shows "list_all2 (\<lambda>a b. b = a \<or> o_id a = i \<and> b = a\<lparr>o_status := status\<rparr> \<and> (o_status a, status) \<in> set life_cycle)
    (rows (orders (tables w))) (rows (orders (tables w')))"
proof -
  have keep: "list_all2 (\<lambda>a b. b = a \<or> P a b) xs xs" for P and xs :: "order_row list"
    by (simp add: list_all2_refl)
  have move: "list_all2 (\<lambda>a b. b = a \<or> o_id a = i \<and> b = a\<lparr>o_status := status\<rparr> \<and> (o_status a, status) \<in> set life_cycle)
      xs (map (\<lambda>r. if o_id r = i \<and> o_status r \<in> set frm then r\<lparr>o_status := status\<rparr> else r) xs)"
    if "allowed_from status = Some frm" for xs frm
    using allowed_from_life_cycle [OF that] by (simp add: list_all2_conv_all_nth)
  have "wpt (OrderUpdateStatus i status)
    (\<lambda>_ d. list_all2 (\<lambda>a b. b = a \<or> o_id a = i \<and> b = a\<lparr>o_status := status\<rparr> \<and> (o_status a, status) \<in> set life_cycle)
      (rows (orders (tables w))) (rows (orders d)))
    (\<lambda>_ d. list_all2 (\<lambda>a b. b = a \<or> o_id a = i \<and> b = a\<lparr>o_status := status\<rparr> \<and> (o_status a, status) \<in> set life_cycle)
      (rows (orders (tables w))) (rows (orders d))) (tables w)"
    unfolding OrderUpdateStatus_def by (intro wpt_rules) (simp_all add: keep move table_simps)
  from wpt_run [OF this assms] show ?thesis by (simp split: sum.splits)
qed

theorem update_status_life_cycle_witness:
  "let w' = snd (OrderUpdateStatus 1 StatusCompleted sample_paid_world) in
   map o_status (rows (orders (tables w'))) = [StatusCompleted]
   \<and> list_all2 (\<lambda>a b. b = a \<or> o_id a = 1 \<and> b = a\<lparr>o_status := StatusCompleted\<rparr>
        \<and> (o_status a, StatusCompleted) \<in> set life_cycle)
      (rows (orders (tables sample_paid_world))) (rows (orders (tables w')))"
  unfolding Let_def
  by (rule conjI, code_simp, rule update_status_life_cycle [OF surjective_pairing])

end
