(* ===== verification/OrderService.thy ===== *)
theory OrderService
  imports OrderRepo
begin

text \<open>
  \<open>internal/commercial/order/service.go\<close> and \<open>internal/commercial/refund/service.go\<close>.
  The order service is built with optional collaborators (user repository, trial marker,
  balance refunder, a hook that provisions the runtime); they are the fields of
  \<open>order_service\<close>.  The locale \<open>order_collaborators\<close> states what the service relies
  on from them.
\<close>

section \<open>The service and its collaborators\<close>

record order_service =
  os_user_repo :: bool
  os_trial :: "(int \<Rightarrow> unit dbop) option"
  os_after_plan :: "(int \<Rightarrow> unit dbop) option"
  os_refund :: "(int \<Rightarrow> int \<Rightarrow> int option \<Rightarrow> string \<Rightarrow> unit dbop) option"
  os_expiration :: int

definition OrderDefaultExpiration :: int where
  "OrderDefaultExpiration = 30 * minute"

definition NewOrderService :: "int option \<Rightarrow> order_service" where
  "NewOrderService config = \<lparr>os_user_repo = False, os_trial = None, os_after_plan = None, os_refund = None,
     os_expiration = (case config of None \<Rightarrow> OrderDefaultExpiration | Some e \<Rightarrow> e)\<rparr>"

definition WithUserRepository :: "order_service \<Rightarrow> order_service" where
  "WithUserRepository s = s\<lparr>os_user_repo := True\<rparr>"

definition WithTrialMarker :: "(int \<Rightarrow> unit dbop) \<Rightarrow> order_service \<Rightarrow> order_service" where
  "WithTrialMarker m s = s\<lparr>os_trial := Some m\<rparr>"

definition WithAfterPlanAppliedHook :: "(int \<Rightarrow> unit dbop) \<Rightarrow> order_service \<Rightarrow> order_service" where
  "WithAfterPlanAppliedHook h s = s\<lparr>os_after_plan := Some h\<rparr>"

definition WithBalanceRefunder ::
    "(int \<Rightarrow> int \<Rightarrow> int option \<Rightarrow> string \<Rightarrow> unit dbop) \<Rightarrow> order_service \<Rightarrow> order_service" where
  "WithBalanceRefunder f s = s\<lparr>os_refund := Some f\<rparr>"

record order_view =
  ov_id :: int
  ov_order_no :: string
  ov_user_id :: int
  ov_plan_id :: int
  ov_plan_name :: string
  ov_coupon_id :: "int option"
  ov_original_amount :: int
  ov_discount_amount :: int
  ov_balance_used :: int
  ov_pay_amount :: int
  ov_status :: string
  ov_payment_method :: string
  ov_payment_no :: string
  ov_paid_at :: "time option"
  ov_expired_at :: time
  ov_notes :: string
  ov_created_at :: time
  ov_fulfillment_pending :: bool

definition planName :: "plan_row option \<Rightarrow> string" where
  "planName p = (case p of None \<Rightarrow> [] | Some q \<Rightarrow> p_name q)"

definition toOrder :: "plan_row option \<Rightarrow> order_row \<Rightarrow> order_view" where
  "toOrder p r = \<lparr>ov_id = o_id r, ov_order_no = o_order_no r, ov_user_id = o_user_id r, ov_plan_id = o_plan_id r,
     ov_plan_name = planName p, ov_coupon_id = o_coupon_id r, ov_original_amount = o_original_amount
     r, ov_discount_amount = o_discount_amount r, ov_balance_used = o_balance_used r, ov_pay_amount
     = o_pay_amount r, ov_status = o_status r, ov_payment_method = o_payment_method r, ov_payment_no
     = o_payment_no r, ov_paid_at = o_paid_at r, ov_expired_at = o_expired_at r, ov_notes = o_notes
     r, ov_created_at = o_created_at r, ov_fulfillment_pending = o_fulfillment_pending r\<rparr>"

text \<open>\<open>Preload("Plan")\<close>: the plan an order refers to, if it is still there.\<close>

definition plan_of :: "db \<Rightarrow> order_row \<Rightarrow> plan_row option" where
  "plan_of d r = find (\<lambda>p. p_id p = o_plan_id r) (rows (plans d))"

section \<open>Creating and reading orders\<close>

text \<open>
  \<open>ORD-<date>-<8 hex digits>\<close>; when no random bytes can be read, the low digits of the
  clock.  The date text, the bytes and the clock come from outside.
\<close>

definition GenerateOrderNo :: "string \<Rightarrow> int \<Rightarrow> nat list option \<Rightarrow> string" where
  "GenerateOrderNo date nanos bytes = (case bytes of
      None \<Rightarrow> ''ORD-'' @ date @ ''-'' @ show_int (nanos mod 100000000)
    | Some bs \<Rightarrow> ''ORD-'' @ date @ ''-'' @ take 8 (hex_encode bs))"

record create_order_request =
  cr_user_id :: int
  cr_plan_id :: int
  cr_coupon_code :: string

definition OrderSvcCreate ::
    "order_service \<Rightarrow> time \<Rightarrow> string \<Rightarrow> int \<Rightarrow> nat list option \<Rightarrow> create_order_request \<Rightarrow> order_view dbop" where
  "OrderSvcCreate s now date nanos bytes req =
     (if cr_user_id req \<le> 0 then raise (Wrapped (OrderE ErrInvalidOrder) ''user ID is required'')
      else if cr_plan_id req \<le> 0 then raise (Wrapped (OrderE ErrInvalidOrder) ''plan ID is required'')
      else if cr_coupon_code req \<noteq> []
        then raise (Wrapped (OrderE ErrInvalidOrder) ''coupon_code is not supported in current order flow'')
      else
        bindE (map_err (\<lambda>_. OrderE ErrPlanNotFound) (first plans (\<lambda>p. p_id p = cr_plan_id req))) (\<lambda>plan.
        bindE (guardE (p_is_active plan) (OrderE ErrPlanInactive)) (\<lambda>_.
          let originalAmount = p_price plan; discountAmount = 0; balanceUsed = 0;
              payAmount = wrap64 (wrap64 (originalAmount - discountAmount) - balanceUsed)
          in bindE (OrderCreate \<lparr>o_id = 0, o_order_no = GenerateOrderNo date nanos bytes,
               o_user_id = cr_user_id req, o_plan_id = cr_plan_id req, o_coupon_id = None,
               o_original_amount = originalAmount, o_discount_amount = discountAmount,
               o_balance_used = balanceUsed, o_pay_amount = payAmount, o_status = StatusPending,
               o_payment_method = [], o_payment_no = [], o_paid_at = None, o_fulfilled_at = None,
               o_fulfillment_pending = False, o_refunded_amount = 0,
               o_expired_at = now + os_expiration s, o_notes = [], o_created_at = now\<rparr>)
             (\<lambda>r. ret (toOrder None r)))))"

definition OrderSvcGetByID :: "int \<Rightarrow> order_view dbop" where
  "OrderSvcGetByID i = map_err (\<lambda>_. OrderE ErrOrderNotFound)
     (bindE (OrderGetByID i) (\<lambda>r. bindE (query (\<lambda>d. plan_of d r)) (\<lambda>p. ret (toOrder p r))))"

definition OrderSvcGetByOrderNo :: "string \<Rightarrow> order_view dbop" where
  "OrderSvcGetByOrderNo no = map_err (\<lambda>_. OrderE ErrOrderNotFound)
     (bindE (OrderGetByOrderNo no) (\<lambda>r. bindE (query (\<lambda>d. plan_of d r)) (\<lambda>p. ret (toOrder p r))))"

definition OrderSvcListByUser :: "int \<Rightarrow> int \<Rightarrow> int \<Rightarrow> (order_view list \<times> int) dbop" where
  "OrderSvcListByUser u page pageSize = (let (limit, offset) = page_args page pageSize in
     bindE (OrderRepoListByUser u limit offset) (\<lambda>(rs, total).
     bindE (query (\<lambda>d. map (\<lambda>r. toOrder (plan_of d r) r) rs)) (\<lambda>vs. ret (vs, total))))"

definition OrderSvcList :: "engine \<Rightarrow> order_filter \<Rightarrow> int \<Rightarrow> int \<Rightarrow> (order_view list \<times> int) dbop" where
  "OrderSvcList eng f page pageSize = (let (limit, offset) = page_args page pageSize in
     bindE (OrderRepoList eng f limit offset) (\<lambda>(rs, total).
     bindE (query (\<lambda>d. map (\<lambda>r. toOrder (plan_of d r) r) rs)) (\<lambda>vs. ret (vs, total))))"

section \<open>Cancelling\<close>

text \<open>Best effort: a failed refund is logged and dropped.\<close>

definition refundCancelledBalance :: "order_service \<Rightarrow> order_row \<Rightarrow> string \<Rightarrow> unit dbop" where
  "refundCancelledBalance s ord reason =
     (if o_balance_used ord \<le> 0 then ret ()
      else case os_refund s of None \<Rightarrow> ret ()
      | Some refund \<Rightarrow>
          bindE (attempt (refund (o_user_id ord) (o_balance_used ord) (Some (o_id ord))
             (''Refund for cancelled order '' @ o_order_no ord @ '' ('' @ reason @ '')''))) (\<lambda>_. ret ()))"

definition Cancel :: "order_service \<Rightarrow> int \<Rightarrow> unit dbop" where
  "Cancel s i =
     bindE (map_err (\<lambda>_. OrderE ErrOrderNotFound) (OrderGetByID i)) (\<lambda>order.
     bindE (guardE (o_status order = StatusPending) (OrderE ErrOrderCannotCancel)) (\<lambda>_.
     bindE (OrderUpdateStatus i StatusCancelled) (\<lambda>_.
       refundCancelledBalance s order ''cancel'')))"

fun cancel_each :: "order_service \<Rightarrow> order_row list \<Rightarrow> int \<Rightarrow> int dbop" where
  "cancel_each s [] count = ret count"
| "cancel_each s (ord # rest) count =
     bindE (attempt (OrderUpdateStatus (o_id ord) StatusCancelled)) (\<lambda>res. case res of
         Inl _ \<Rightarrow> cancel_each s rest count
       | Inr _ \<Rightarrow> bindE (refundCancelledBalance s ord ''expired'') (\<lambda>_.
            cancel_each s rest (wrap64 (count + 1))))"

definition ExpirePendingOrders :: "order_service \<Rightarrow> time \<Rightarrow> int dbop" where
  "ExpirePendingOrders s now =
     bindE (GetExpiredPending now) (\<lambda>expired.
       if expired = [] then ret 0 else cancel_each s expired 0)"

section \<open>Paying\<close>

definition syncFulfillment :: "order_service \<Rightarrow> order_row \<Rightarrow> unit dbop" where
  "syncFulfillment s ord =
     (if \<not> o_fulfillment_pending ord then ret ()
      else bindE (case os_trial s of None \<Rightarrow> ret ()
          | Some mark \<Rightarrow> bindE (attempt (mark (o_user_id ord))) (\<lambda>r. case r of
              Inl e \<Rightarrow> if errors_is e (TrialE ErrTrialNotFound) then ret () else raise e
            | Inr _ \<Rightarrow> ret ())) (\<lambda>_.
        bindE (case os_after_plan s of None \<Rightarrow> ret () | Some hook \<Rightarrow> hook (o_user_id ord)) (\<lambda>_.
          MarkFulfillmentSynced (o_id ord))))"

definition pay_err :: "err \<Rightarrow> err" where
  "pay_err e =
     (if errors_is e (Gorm ErrRecordNotFound) then OrderE ErrOrderNotFound
      else if errors_is e (Repo ErrCommercialState) then OrderE ErrOrderAlreadyPaid
      else if errors_is e (Repo ErrCommercialExpired) then OrderE ErrOrderExpired
      else e)"

definition Pay :: "order_service \<Rightarrow> time \<Rightarrow> string \<Rightarrow> string \<Rightarrow> string \<Rightarrow> bool \<Rightarrow> unit dbop" where
  "Pay s now orderNo paymentNo meth useBalance =
     bindE (map_err pay_err (PayAndApplyPlan now orderNo paymentNo meth useBalance (os_user_repo s)))
       (syncFulfillment s)"

definition MarkPaid :: "order_service \<Rightarrow> time \<Rightarrow> string \<Rightarrow> string \<Rightarrow> unit dbop" where
  "MarkPaid s now orderNo paymentNo = Pay s now orderNo paymentNo [] False"

fun sync_each :: "order_service \<Rightarrow> order_row list \<Rightarrow> err list \<Rightarrow> err list dbop" where
  "sync_each s [] failures = ret failures"
| "sync_each s (ord # rest) failures =
     bindE (attempt (syncFulfillment s ord)) (\<lambda>r. case r of
         Inl e \<Rightarrow> sync_each s rest (failures @ [Wrapped e (''order '' @ show_int (o_id ord))])
       | Inr _ \<Rightarrow> sync_each s rest failures)"

definition RetryPendingFulfillments :: "order_service \<Rightarrow> unit dbop" where
  "RetryPendingFulfillments s =
     bindE (ListPendingFulfillments 100) (\<lambda>os.
     bindE (sync_each s os []) (\<lambda>failures.
       case join_failures failures of None \<Rightarrow> ret () | Some e \<Rightarrow> raise e))"

section \<open>Completion and admin status changes\<close>

definition Complete :: "int \<Rightarrow> unit dbop" where
  "Complete i =
     bindE (map_err (\<lambda>_. OrderE ErrOrderNotFound) (OrderGetByID i)) (\<lambda>order.
     bindE (guardE (o_status order = StatusPaid) (ErrText ''order must be paid before completing'')) (\<lambda>_.
       OrderUpdateStatus i StatusCompleted))"

definition validTransitions :: "string \<Rightarrow> string list option" where
  "validTransitions = [
     StatusPending \<mapsto> [StatusPaid, StatusCancelled],
     StatusPaid \<mapsto> [StatusCompleted, StatusRefunded],
     StatusCompleted \<mapsto> [StatusRefunded],
     StatusCancelled \<mapsto> [],
     StatusRefunded \<mapsto> []]"

definition isValidStatusTransition :: "string \<Rightarrow> string \<Rightarrow> bool" where
  "isValidStatusTransition frm to = (case validTransitions frm of
      None \<Rightarrow> False | Some allowed \<Rightarrow> to \<in> set allowed)"

definition UpdateStatus :: "order_service \<Rightarrow> time \<Rightarrow> int \<Rightarrow> string \<Rightarrow> unit dbop" where
  "UpdateStatus s now i status =
     bindE (map_err (\<lambda>_. OrderE ErrOrderNotFound) (OrderGetByID i)) (\<lambda>order.
     if \<not> isValidStatusTransition (o_status order) status
       then raise (ErrText (''invalid status transition from '' @ o_status order @ '' to '' @ status))
     else if status = StatusPaid then Pay s now (o_order_no order) (''ADMIN-'' @ show_int i) ''manual'' False
     else if status = StatusCancelled then Cancel s i
     else if status = StatusRefunded then raise (ErrText ''use the refund endpoint to refund an order'')
     else OrderUpdateStatus i status)"

section \<open>Statistics\<close>

definition GetRevenueByDateRange :: "time \<Rightarrow> time \<Rightarrow> int dbop" where
  "GetRevenueByDateRange start end = RepoRevenueByDateRange start end"

definition GetOrderCountByDateRange :: "time \<Rightarrow> time \<Rightarrow> int dbop" where
  "GetOrderCountByDateRange start end = RepoOrderCountByDateRange start end"

definition GetOrderCount :: "int dbop" where
  "GetOrderCount = OrderCount"

definition GetOrderCountByStatus :: "string \<Rightarrow> int dbop" where
  "GetOrderCountByStatus status = OrderCountByStatus status"

section \<open>The refund service\<close>

record refund_request =
  rq_order_id :: int
  rq_amount :: int
  rq_reason :: string

record refund_result =
  rr_order_id :: int
  rr_refund_amount :: int
  rr_balance_restored :: int
  rr_commission_cancelled :: int
  rr_status :: string

definition refund_error :: "err \<Rightarrow> err" where
  "refund_error e =
     (if errors_is e (Gorm ErrRecordNotFound) then RefundE ErrRefundOrderNotFound
      else if errors_is e (Repo ErrCommercialState) then RefundE ErrOrderNotRefundable
      else if errors_is e (Gorm ErrInvalidData) then RefundE ErrInvalidRefundAmount
      else e)"

definition ProcessRefund :: "engine \<Rightarrow> time \<Rightarrow> refund_request option \<Rightarrow> refund_result dbop" where
  "ProcessRefund eng now reqp = (case reqp of None \<Rightarrow> raise (RefundE ErrInvalidRefundAmount)
    | Some req \<Rightarrow>
        if rq_order_id req \<le> 0 \<or> rq_amount req < 0 then raise (RefundE ErrInvalidRefundAmount)
        else bindE (map_err refund_error (RefundToBalance eng now (rq_order_id req) (rq_amount req) (rq_reason req)))
          (\<lambda>ord. ret \<lparr>rr_order_id = o_id ord, rr_refund_amount = o_refunded_amount ord,
             rr_balance_restored = o_refunded_amount ord, rr_commission_cancelled = 0, rr_status = o_status ord\<rparr>))"

definition ProcessPartialRefund :: "engine \<Rightarrow> time \<Rightarrow> int \<Rightarrow> int \<Rightarrow> string \<Rightarrow> refund_result dbop" where
  "ProcessPartialRefund eng now i amount reason =
     (if amount \<le> 0 then raise (RefundE ErrInvalidRefundAmount)
      else ProcessRefund eng now (Some \<lparr>rq_order_id = i, rq_amount = amount, rq_reason = reason\<rparr>))"

definition ProcessFullRefund :: "engine \<Rightarrow> time \<Rightarrow> int \<Rightarrow> string \<Rightarrow> refund_result dbop" where
  "ProcessFullRefund eng now i reason =
     ProcessRefund eng now (Some \<lparr>rq_order_id = i, rq_amount = 0, rq_reason = reason\<rparr>)"

definition isRefundable :: "string \<Rightarrow> bool" where
  "isRefundable status \<longleftrightarrow> status = StatusPaid \<or> status = StatusCompleted"

definition CanRefund :: "int \<Rightarrow> bool dbop" where
  "CanRefund i = bindE (map_err (\<lambda>_. RefundE ErrRefundOrderNotFound) (OrderGetByID i))
     (\<lambda>order. ret (isRefundable (o_status order)))"

definition GetMaxRefundAmount :: "int \<Rightarrow> int dbop" where
  "GetMaxRefundAmount i =
     bindE (map_err (\<lambda>_. RefundE ErrRefundOrderNotFound) (OrderGetByID i)) (\<lambda>order.
     bindE (guardE (isRefundable (o_status order)) (RefundE ErrOrderNotRefundable)) (\<lambda>_.
       ret (wrap64 (o_pay_amount order + o_balance_used order))))"

section \<open>What the service relies on\<close>

definition money_frame :: "db \<Rightarrow> db \<Rightarrow> bool" where
  "money_frame d d' \<longleftrightarrow> orders d' = orders d \<and> ledger d' = ledger d \<and> (\<forall>u. wallet d' u = wallet d u)"

text \<open>
  \<open>order_collaborators\<close>: the trial marker, the runtime hook and the refunder keep the
  database sound, so every operation of the service does.  \<open>quiet_collaborators\<close>: in
  addition the trial marker and the hook do not touch orders, wallets or audit rows.
\<close>

locale order_collaborators =
  fixes s :: order_service
  assumes trial_sound: "os_trial s = Some m \<Longrightarrow> sound_op (m u)"
    and hook_sound: "os_after_plan s = Some h \<Longrightarrow> sound_op (h u)"
    and refund_sound: "os_refund s = Some f \<Longrightarrow> in_i64 a \<Longrightarrow> sound_op (f u a i desc)"
begin

lemma refundCancelledBalance_sound:
  "in_i64 (o_balance_used ord) \<Longrightarrow> sound_op (refundCancelledBalance s ord reason)"
  unfolding refundCancelledBalance_def
  by (intro sound_rules) (rule refund_sound)

lemma Cancel_sound: "sound_op (Cancel s i)"
  unfolding Cancel_def OrderGetByID_def
  by (intro sound_bind_first [where P = "\<lambda>r. in_i64 (o_balance_used r)"] sound_rules
      refundCancelledBalance_sound) (auto simp: sound_db_def columns_ok_def)

lemma cancel_each_sound:
  "(\<And>ord. ord \<in> set os \<Longrightarrow> in_i64 (o_balance_used ord)) \<Longrightarrow> sound_op (cancel_each s os count)"
proof (induction os arbitrary: count)
  case (Cons ord rest)
  then show ?case
    by (auto intro!: sound_rules refundCancelledBalance_sound split: sum.split)
qed (auto intro: sound_rules)

lemma ExpirePendingOrders_sound: "sound_op (ExpirePendingOrders s now)"
  unfolding ExpirePendingOrders_def GetExpiredPending_def
  by (intro sound_bind_query sound_rules cancel_each_sound)
     (auto simp: sound_db_def columns_ok_def)

lemma syncFulfillment_sound: "sound_op (syncFulfillment s ord)"
  unfolding syncFulfillment_def
  by (intro sound_rules) (auto dest: trial_sound hook_sound)

lemma Pay_sound: "sound_op (Pay s now no pno meth ub)"
  unfolding Pay_def by (intro sound_rules syncFulfillment_sound)

lemma sync_each_sound: "sound_op (sync_each s os fs)"
  by (induction os arbitrary: fs) (auto intro!: sound_rules syncFulfillment_sound)

lemma RetryPendingFulfillments_sound: "sound_op (RetryPendingFulfillments s)"
  unfolding RetryPendingFulfillments_def ListPendingFulfillments_def
  by (intro sound_rules sync_each_sound)

lemma UpdateStatus_sound: "sound_op (UpdateStatus s now i status)"
  unfolding UpdateStatus_def OrderGetByID_def by (intro sound_rules Pay_sound Cancel_sound)

end

lemma OrderSvcCreate_sound [sound_rules]: "sound_op (OrderSvcCreate s now date nanos bytes req)"
  unfolding OrderSvcCreate_def Let_def
  by (intro sound_rules sound_bind_first [where P = "\<lambda>p. price_ok (p_price p)"])
     (auto simp: sound_db_def columns_ok_def price_ok_def i64_defs)

lemma Complete_sound [sound_rules]: "sound_op (Complete i)"
  unfolding Complete_def OrderGetByID_def by (intro sound_rules)

lemma ProcessRefund_sound [sound_rules]: "sound_op (ProcessRefund eng now req)"
  unfolding ProcessRefund_def by (intro sound_rules)


definition synced :: "int set \<Rightarrow> db \<Rightarrow> db \<Rightarrow> bool" where
  "synced S d d' \<longleftrightarrow>
     orders d' = upd_rows (\<lambda>r. o_id r \<in> S) (\<lambda>r. r\<lparr>o_fulfillment_pending := False\<rparr>) (orders d)
   \<and> ledger d' = ledger d \<and> (\<forall>u. wallet d' u = wallet d u)"

lemma synced_empty [simp]: "synced {} d d' \<longleftrightarrow> money_frame d d'"
  by (simp add: synced_def money_frame_def upd_rows_def)

lemma synced_trans: "synced S d d1 \<Longrightarrow> synced T d1 d2 \<Longrightarrow> synced (S \<union> T) d d2"
  by (auto simp: synced_def upd_rows_def)

lemma money_frame_refl [simp]: "money_frame d d"
  by (simp add: money_frame_def)

lemma money_frame_trans: "money_frame d d1 \<Longrightarrow> money_frame d1 d2 \<Longrightarrow> money_frame d d2"
  by (simp add: money_frame_def)

lemma MarkFulfillmentSynced_wpt:
  assumes "money_frame d d1"
  shows "wpt (MarkFulfillmentSynced i) (\<lambda>_. synced {i} d) (\<lambda>_. money_frame d) d1"
  unfolding MarkFulfillmentSynced_def using assms
  by (auto intro!: wpt_rules simp: synced_def money_frame_def)

locale quiet_collaborators = order_collaborators +
  assumes trial_quiet: "os_trial s = Some m \<Longrightarrow> wpt (m u) (\<lambda>_. money_frame d) (\<lambda>_. money_frame d) d"
    and hook_quiet: "os_after_plan s = Some h \<Longrightarrow> wpt (h u) (\<lambda>_. money_frame d) (\<lambda>_. money_frame d) d"
begin

lemma trial_step:
  "os_trial s = Some m \<Longrightarrow> money_frame d d1 \<Longrightarrow> wpt (m u) (\<lambda>_. money_frame d) (\<lambda>_. money_frame d) d1"
  by (rule wpt_mono [OF trial_quiet]) (auto intro: money_frame_trans)

lemma hook_step:
  "os_after_plan s = Some h \<Longrightarrow> money_frame d d1 \<Longrightarrow> wpt (h u) (\<lambda>_. money_frame d) (\<lambda>_. money_frame d) d1"
  by (rule wpt_mono [OF hook_quiet]) (auto intro: money_frame_trans)

lemma syncFulfillment_wpt:
  assumes p: "o_fulfillment_pending ord"
  shows "wpt (syncFulfillment s ord) (\<lambda>_. synced {o_id ord} d) (\<lambda>_. money_frame d) d"
proof -
  let ?mark = "\<lambda>_. MarkFulfillmentSynced (o_id ord)"
  have mark: "wpt (?mark x) (\<lambda>_. synced {o_id ord} d) (\<lambda>_. money_frame d) d1" if "money_frame d d1" for x :: unit and d1
    using that by (rule MarkFulfillmentSynced_wpt)
  have hook: "wpt (case os_after_plan s of None \<Rightarrow> ret () | Some h \<Rightarrow> h (o_user_id ord))
      (\<lambda>x. wpt (?mark x) (\<lambda>_. synced {o_id ord} d) (\<lambda>_. money_frame d)) (\<lambda>_. money_frame d) d1"
    if f: "money_frame d d1" for d1
  proof (cases "os_after_plan s")
    case None with mark [OF f] show ?thesis by (auto intro: wpt_rules)
  next
    case (Some h)
    then show ?thesis using mark by (auto intro!: wpt_mono [OF hook_step [OF Some f]])
  qed
  show ?thesis
  proof (cases "os_trial s")
    case None with p hook [OF money_frame_refl] show ?thesis by (simp add: syncFulfillment_def bind_ret wpt_bind)
  next
    case (Some m)
    then show ?thesis using p hook unfolding syncFulfillment_def
      by (auto intro!: wpt_bind wpt_attempt wpt_mono [OF trial_step [OF Some money_frame_refl]] wpt_if wpt_ret wpt_raise)
  qed
qed

lemma sync_each_wpt:
  assumes "\<And>ord. ord \<in> set os \<Longrightarrow> o_fulfillment_pending ord"
  shows "wpt (sync_each s os fs)
     (\<lambda>fs' d'. \<exists>S. synced S d d' \<and> S \<subseteq> o_id ` set os \<and> (fs' = [] \<longrightarrow> fs = [] \<and> S = o_id ` set os))
     (\<lambda>_ _. False) d"
  using assms
proof (induction os arbitrary: fs d)
  case Nil
  then show ?case by (auto intro!: wpt_rules exI [of _ "{}"])
next
  case (Cons ord rest)
  let ?Q = "\<lambda>fs' d'. \<exists>S. synced S d d' \<and> S \<subseteq> o_id ` set (ord # rest) \<and> (fs' = [] \<longrightarrow> fs = [] \<and> S = o_id ` set (ord # rest))"
  have rest: "wpt (sync_each s rest gs) ?Q (\<lambda>_ _. False) d1"
    if S: "synced S d d1" "S \<subseteq> {o_id ord}" and gs: "gs = [] \<longrightarrow> fs = [] \<and> S = {o_id ord}" for gs d1 S
  proof (rule wpt_mono [OF Cons.IH])
    fix fs' d'
    assume "\<exists>T. synced T d1 d' \<and> T \<subseteq> o_id ` set rest \<and> (fs' = [] \<longrightarrow> gs = [] \<and> T = o_id ` set rest)"
    then show "?Q fs' d'" using S gs by (elim exE) (rule exI, auto intro: synced_trans)
  qed (use Cons.prems in auto)
  have err: "wpt (sync_each s rest (fs @ [e])) ?Q (\<lambda>_ _. False) d1" if "money_frame d d1" for e d1
    using that by (intro rest [of "{}"]) auto
  have ok: "wpt (sync_each s rest fs) ?Q (\<lambda>_ _. False) d1" if "synced {o_id ord} d d1" for d1
    using that by (intro rest [of "{o_id ord}"]) auto
  show ?case
    unfolding sync_each.simps
    by (intro wpt_bind wpt_attempt wpt_mono [OF syncFulfillment_wpt]) (use Cons.prems err ok in auto)
qed

lemma retry_wpt:
  "wpt (RetryPendingFulfillments s)
     (\<lambda>_. synced (o_id ` set (limit_rows 100 (filter (\<lambda>r. o_fulfillment_pending r \<and>
         (o_status r = StatusPaid \<or> o_status r = StatusCompleted)) (rows (orders d))))) d)
     (\<lambda>_ d'. \<exists>S. synced S d d') d"
proof -
  let ?os = "limit_rows 100 (filter (\<lambda>r. o_fulfillment_pending r \<and>
         (o_status r = StatusPaid \<or> o_status r = StatusCompleted)) (rows (orders d)))"
  have p: "\<And>ord. ord \<in> set ?os \<Longrightarrow> o_fulfillment_pending ord"
    by (auto simp: limit_rows_def dest: in_set_takeD)
  have "wpt (bindE (sync_each s ?os []) (\<lambda>fs. case join_failures fs of None \<Rightarrow> ret () | Some e \<Rightarrow> raise e))
      (\<lambda>_. synced (o_id ` set ?os) d) (\<lambda>_ d'. \<exists>S. synced S d d') d"
    by (intro wpt_bind wpt_mono [OF sync_each_wpt] wpt_case_option wpt_ret wpt_raise p)
       (auto simp: join_failures_def split: if_splits)
  then show ?thesis
    unfolding RetryPendingFulfillments_def ListPendingFulfillments_def
    by - (rule wpt_bind, rule wpt_query, auto intro: exI [of _ "{}"])
qed

end

text \<open>
  Retrying fulfilments.  When the trial marker and the runtime hook keep orders, wallets
  and audit rows as they are, a retry that returns without an error has cleared the pending
  flag of exactly the first hundred paid or completed orders that carried it, changed no
  other column of any order, and moved no money.
\<close>

theorem retry_clears_pending:
  fixes w w' :: "db world"
  assumes "quiet_collaborators s" and "RetryPendingFulfillments s w = (Inr x, w')"
  shows "let os = take 100 (filter (\<lambda>r. o_fulfillment_pending r \<and>
           (o_status r = StatusPaid \<or> o_status r = StatusCompleted)) (rows (orders (tables w))))
    in rows (orders (tables w')) = map (\<lambda>r. if o_id r \<in> o_id ` set os
           then r\<lparr>o_fulfillment_pending := False\<rparr> else r) (rows (orders (tables w)))
     \<and> ledger (tables w') = ledger (tables w) \<and> (\<forall>u. wallet (tables w') u = wallet (tables w) u)"
  using wptD_Inr [OF quiet_collaborators.retry_wpt [OF assms(1)] assms(2)]
  by (simp add: Let_def synced_def limit_rows_def table_simps)

definition sample_orders :: order_service where
  "sample_orders = WithBalanceRefunder (Refund 9) (WithUserRepository (NewOrderService None))"

lemma sample_orders_fields [simp]:
  "os_trial sample_orders = None" "os_after_plan sample_orders = None"
  "os_refund sample_orders = Some (Refund 9)" "os_user_repo sample_orders"
  by (simp_all add: sample_orders_def WithBalanceRefunder_def WithUserRepository_def NewOrderService_def)

interpretation plain_orders: quiet_collaborators sample_orders
  by unfold_locales (auto intro: sound_rules)

theorem retry_clears_pending_witness:
  "let w = snd (PayAndApplyPlan 7 ''ORD-1'' ''P'' ''alipay'' False True sample_world);
       w' = snd (RetryPendingFulfillments sample_orders w)
   in map o_fulfillment_pending (rows (orders (tables w))) = [True]
    \<and> map o_fulfillment_pending (rows (orders (tables w'))) = [False]
    \<and> wallet (tables w') 1 = wallet (tables w) 1"
proof -
  let ?w = "snd (PayAndApplyPlan 7 ''ORD-1'' ''P'' ''alipay'' False True sample_world)"
  have ok: "\<not> isl (fst (RetryPendingFulfillments sample_orders ?w))" by code_simp
  have "map o_fulfillment_pending (rows (orders (tables ?w))) = [True]"
    and "map o_fulfillment_pending (rows (orders (tables (snd (RetryPendingFulfillments sample_orders ?w))))) = [False]"
    by code_simp+
  with retry_clears_pending [OF plain_orders.quiet_collaborators_axioms run_Inr [OF ok]]
  show ?thesis by (simp add: Let_def)
qed

section \<open>Cancelling and the life cycle\<close>

text \<open>
  One life cycle.  The transition table of the order service and the guard of the
  repository's status update admit the same pairs of statuses, those of \<open>life_cycle\<close>.
\<close>

theorem transition_tables_agree:
  "(isValidStatusTransition a b \<longleftrightarrow> (a, b) \<in> set life_cycle)
   \<and> ((case allowed_from b of None \<Rightarrow> False | Some frm \<Rightarrow> a \<in> set frm) \<longleftrightarrow> (a, b) \<in> set life_cycle)"
  by (auto simp: isValidStatusTransition_def validTransitions_def allowed_from_def life_cycle_def split: if_splits)

lemma Refund_wpt:
  assumes "wf_db d" and "in_i64 a"
  shows "wpt (Refund now u a i desc) (\<lambda>_ d'. 0 < a \<and> entry_posted d d' u a) (\<lambda>_ d'. d' = d) d"
  unfolding Refund_def
  by (intro wpt_rules wpt_mono [OF wallet_ops.credit_law [OF assms]]) auto

lemma refundCancelledBalance_wpt:
  assumes "os_refund s = Some (Refund now)" and "wf_db d" and "in_i64 (o_balance_used ord)"
  shows "wpt (refundCancelledBalance s ord reason)
    (\<lambda>_ d'. d' = d \<or> 0 < o_balance_used ord \<and> entry_posted d d' (o_user_id ord) (o_balance_used ord))
    (\<lambda>_ _. False) d"
  unfolding refundCancelledBalance_def assms(1)
  by (auto intro!: wpt_if wpt_ret wpt_bind wpt_attempt wpt_mono [OF Refund_wpt [OF assms(2,3)]])

lemma Cancel_wpt:
  assumes s: "sound_db d" and r: "os_refund s = Some (Refund now)"
  shows "wpt (Cancel s i)
    (\<lambda>_ d'. \<exists>ord. find (\<lambda>r. o_id r = i) (rows (orders d)) = Some ord \<and> o_status ord = StatusPending \<and>
       (let d0 = d\<lparr>orders := upd_rows (\<lambda>r. o_id r = i) (\<lambda>r. r\<lparr>o_status := StatusCancelled\<rparr>) (orders d)\<rparr> in
        d' = d0 \<or> 0 < o_balance_used ord \<and> entry_posted d0 d' (o_user_id ord) (o_balance_used ord)))
    (\<lambda>_ d'. d' = d) d"
proof -
  have k: "keyed o_id (orders d)" using s by (simp add: sound_db_def wf_db_def)
  have one: "count_rows (\<lambda>r. o_id r = i \<and> o_status r = StatusPending) (orders d) = 1"
    and hit: "upd_rows (\<lambda>r. o_id r = i \<and> o_status r = StatusPending) f (orders d) = upd_rows (\<lambda>r. o_id r = i) f (orders d)"
    if "ord \<in> set (rows (orders d))" "o_id ord = i" "o_status ord = StatusPending" for ord f
  proof -
    show "count_rows (\<lambda>r. o_id r = i \<and> o_status r = StatusPending) (orders d) = 1"
      using that by (auto simp: count_key_one [OF k])
    then show "upd_rows (\<lambda>r. o_id r = i \<and> o_status r = StatusPending) f (orders d) = upd_rows (\<lambda>r. o_id r = i) f (orders d)"
      by (intro upd_rows_guarded [OF k]) simp
  qed
  have wf: "wf_db (d\<lparr>orders := upd_rows p (\<lambda>r. r\<lparr>o_status := StatusCancelled\<rparr>) (orders d)\<rparr>)" for p
    using s by (auto simp: sound_db_def wf_db_def intro!: keyed_upd)
  have amt: "in_i64 (o_balance_used ord)" if "ord \<in> set (rows (orders d))" for ord
    using s that by (simp add: sound_db_def columns_ok_def)
  show ?thesis
    unfolding Cancel_def OrderGetByID_def OrderUpdateStatus_def allowed_from_def Let_def
    apply simp
    apply (intro wpt_rules wpt_mono [OF refundCancelledBalance_wpt [OF r wf]])
    apply (simp_all add: amt one hit)
    done
qed


text \<open>
  Cancelling an order, with the balance service as refunder.  Under every fault schedule,
  a cancellation that returns an error leaves every table unchanged.  One that succeeds found
  the order pending, marks exactly it cancelled, and either returns the balance it had used to
  the owner with one audit row or (nothing was used, or the best-effort refund failed) moves
  no money; no third outcome exists.
\<close>

theorem cancel_outcome:
  fixes w w' :: "db world"
  assumes "sound_db (tables w)" and "os_refund s = Some (Refund now)"
    and "Cancel s i w = (r, w')"
  shows "case r of Inl _ \<Rightarrow> tables w' = tables w
    | Inr _ \<Rightarrow> \<exists>ord \<in> set (rows (orders (tables w))). o_id ord = i \<and> o_status ord = StatusPending
       \<and> orders (tables w') = upd_rows (\<lambda>r. o_id r = i) (\<lambda>r. r\<lparr>o_status := StatusCancelled\<rparr>) (orders (tables w))
       \<and> (\<exists>back \<in> {0, o_balance_used ord}. 0 \<le> back
          \<and> (\<forall>u. wallet (tables w') u = wallet (tables w) u + (if u = o_user_id ord then back else 0))
          \<and> (\<forall>u. ledger_total (tables w') u = ledger_total (tables w) u + (if u = o_user_id ord then back else 0)))"
proof (cases r)
  case (Inl e)
  with wptD_Inl [OF Cancel_wpt [OF assms(1,2)]] assms(3) show ?thesis by simp
next
  case (Inr x)
  let ?d0 = "(tables w)\<lparr>orders := upd_rows (\<lambda>r. o_id r = i) (\<lambda>r. r\<lparr>o_status := StatusCancelled\<rparr>) (orders (tables w))\<rparr>"
  from wptD_Inr [OF Cancel_wpt [OF assms(1,2)] assms(3) [unfolded Inr]]
  obtain ord where o: "ord \<in> set (rows (orders (tables w)))" "o_id ord = i" "o_status ord = StatusPending"
    and c: "tables w' = ?d0 \<or> 0 < o_balance_used ord \<and> entry_posted ?d0 (tables w') (o_user_id ord) (o_balance_used ord)"
    by (auto simp: Let_def dest: find_Some_iff_In)
  from c show ?thesis
  proof
    assume "tables w' = ?d0"
    with o Inr show ?thesis by (auto intro!: bexI [of _ ord])
  next
    assume e: "0 < o_balance_used ord \<and> entry_posted ?d0 (tables w') (o_user_id ord) (o_balance_used ord)"
    note eff = entry_posted_wallet [OF conjunct2 [OF e]] entry_posted_ledger [OF conjunct2 [OF e]]
      entry_posted_frame(1) [OF conjunct2 [OF e]]
    show ?thesis unfolding Inr sum.case
      using o e by (intro bexI [of _ ord] conjI bexI [of _ "o_balance_used ord"]) (auto simp: eff)
  qed
qed

definition sample_reserved_world :: "db world" where
  "sample_reserved_world = fresh_world (sample_db\<lparr>orders :=
     \<lparr>rows = [(sample_order 1 260 ''pending'')\<lparr>o_balance_used := 40\<rparr>], seq = 1\<rparr>\<rparr>)"

lemma sample_reserved_sound: "sound_db (tables sample_reserved_world)"
  by (simp add: sample_reserved_world_def sample_defs sound_db_def wf_db_def wallets_ok_def columns_ok_def
      price_ok_def keyed_def i64_defs)

theorem cancel_outcome_witness:
  "let w' = snd (Cancel sample_orders 1 sample_reserved_world) in
   map o_status (rows (orders (tables w'))) = [StatusCancelled] \<and> wallet (tables w') 1 = 540
   \<and> wallet (tables w') 2 = wallet sample_db 2"
proof -
  let ?m = "Cancel sample_orders 1 sample_reserved_world"
  have ok: "\<not> isl (fst ?m)" and "map o_status (rows (orders (tables (snd ?m)))) = [StatusCancelled]"
    and "wallet (tables (snd ?m)) 1 = 540" by code_simp+
  moreover have "\<forall>ord \<in> set (rows (orders (tables sample_reserved_world))). o_user_id ord = 1"
    and "wallet (tables sample_reserved_world) 2 = wallet sample_db 2"
    by (simp_all add: sample_reserved_world_def sample_defs wallet_def)
  ultimately show ?thesis
    using cancel_outcome [OF sample_reserved_sound sample_orders_fields(3) run_Inr [OF ok]] ok
    by (auto simp: Let_def split: sum.splits)
qed

end
