(* ===== verification/Coupons.thy ===== *)
theory Coupons
  imports BalanceService
begin

text \<open>
  \<open>internal/commercial/coupon/service.go\<close> and
  \<open>internal/database/repository/coupon_repository.go\<close>: coupons, their validation and
  discounts, usage records and batch codes.  Random bytes come from outside; the loop that
  collects distinct batch codes is modelled over the sequence of byte strings it draws.
\<close>

section \<open>The repository\<close>

text \<open>
  \<open>Create\<close>: gorm inserts the column default for a field that has one and holds its zero
  value, so a per-user limit of 0 is stored as 1 and an inactive coupon as an active one.
\<close>

definition coupon_defaults :: "coupon_row \<Rightarrow> coupon_row" where
  "coupon_defaults c = c\<lparr>c_per_user_limit := (if c_per_user_limit c = 0 then 1 else c_per_user_limit c),
     c_is_active := (if \<not> c_is_active c then True else c_is_active c)\<rparr>"

definition CouponCreate :: "coupon_row \<Rightarrow> coupon_row dbop" where
  "CouponCreate c = create coupons coupons_update (\<lambda>a b. c_code a = c_code b)
     (\<lambda>i. coupon_defaults (c\<lparr>c_id := i\<rparr>))"

definition CouponGetByID :: "int \<Rightarrow> coupon_row dbop" where
  "CouponGetByID i = first coupons (\<lambda>c. c_id c = i)"

definition CouponGetByCode :: "string \<Rightarrow> coupon_row dbop" where
  "CouponGetByCode code = first coupons (\<lambda>c. c_code c = code)"

definition CouponUpdate :: "coupon_row \<Rightarrow> unit dbop" where
  "CouponUpdate c = save coupons coupons_update (\<lambda>a b. c_code a = c_code b) c_id c"

definition CouponDelete :: "int \<Rightarrow> unit dbop" where
  "CouponDelete i = bindE (delete_where coupons coupons_update (\<lambda>c. c_id c = i)) (\<lambda>_. ret ())"

record coupon_filter =
  cf_is_active :: "bool option"
  cf_type :: string
  cf_start :: "time option"
  cf_end :: "time option"

definition coupon_matches :: "coupon_filter \<Rightarrow> coupon_row \<Rightarrow> bool" where
  "coupon_matches f c \<longleftrightarrow>
     opt_holds (\<lambda>a. c_is_active c = a) (cf_is_active f)
   \<and> (cf_type f = [] \<or> c_type c = cf_type f)
   \<and> opt_holds (\<lambda>s. s \<le> c_start_at c) (cf_start f)
   \<and> opt_holds (\<lambda>e. c_expire_at c \<le> e) (cf_end f)"

definition CouponRepoList :: "coupon_filter \<Rightarrow> int \<Rightarrow> int \<Rightarrow> (coupon_row list \<times> int) dbop" where
  "CouponRepoList f limit offset =
     bindE (query (\<lambda>d. count_rows (coupon_matches f) (coupons d))) (\<lambda>total.
     bindE (query (\<lambda>d. page_desc c_created_at limit offset (filter (coupon_matches f) (rows (coupons d)))))
       (\<lambda>cs. ret (cs, total)))"

definition IncrementUsedCount :: "int \<Rightarrow> unit dbop" where
  "IncrementUsedCount i =
     bindE (update_where coupons coupons_update (\<lambda>c. c_id c = i) (\<lambda>c. c\<lparr>c_used_count := c_used_count c + 1\<rparr>))
       (\<lambda>_. ret ())"

definition CouponRepoSetActive :: "int \<Rightarrow> bool \<Rightarrow> unit dbop" where
  "CouponRepoSetActive i active =
     bindE (update_where coupons coupons_update (\<lambda>c. c_id c = i) (\<lambda>c. c\<lparr>c_is_active := active\<rparr>)) (\<lambda>_. ret ())"

definition CreateUsage :: "coupon_usage_row \<Rightarrow> coupon_usage_row dbop" where
  "CreateUsage u = create coupon_usages coupon_usages_update (\<lambda>_ _. False) (\<lambda>i. u\<lparr>cu_id := i\<rparr>)"

definition GetUsageCount :: "int \<Rightarrow> int dbop" where
  "GetUsageCount couponID = query (\<lambda>d. count_rows (\<lambda>u. cu_coupon_id u = couponID) (coupon_usages d))"

definition GetUserUsageCount :: "int \<Rightarrow> int \<Rightarrow> int dbop" where
  "GetUserUsageCount couponID userID =
     query (\<lambda>d. count_rows (\<lambda>u. cu_coupon_id u = couponID \<and> cu_user_id u = userID) (coupon_usages d))"

definition ListUsages :: "int \<Rightarrow> int \<Rightarrow> int \<Rightarrow> (coupon_usage_row list \<times> int) dbop" where
  "ListUsages couponID limit offset =
     bindE (query (\<lambda>d. count_rows (\<lambda>u. cu_coupon_id u = couponID) (coupon_usages d))) (\<lambda>total.
     bindE (query (\<lambda>d. page_desc cu_used_at limit offset
              (filter (\<lambda>u. cu_coupon_id u = couponID) (rows (coupon_usages d))))) (\<lambda>us. ret (us, total)))"

definition CouponCount :: "int dbop" where
  "CouponCount = query (\<lambda>d. count_rows (\<lambda>_. True) (coupons d))"

definition CouponCountActive :: "time \<Rightarrow> int dbop" where
  "CouponCountActive now =
     query (\<lambda>d. count_rows (\<lambda>c. c_is_active c \<and> c_start_at c \<le> now \<and> now \<le> c_expire_at c) (coupons d))"

definition GetTotalDiscountAmount :: "int \<Rightarrow> int dbop" where
  "GetTotalDiscountAmount couponID =
     query (\<lambda>d. sum_rows (\<lambda>u. cu_coupon_id u = couponID) cu_discount (coupon_usages d))"

section \<open>The service\<close>

definition TypeFixed :: string where "TypeFixed = ''fixed''"
definition TypePercentage :: string where "TypePercentage = ''percentage''"

record coupon =
  cp_id :: int
  cp_code :: string
  cp_name :: string
  cp_type :: string
  cp_value :: int
  cp_min_order_amount :: int
  cp_max_discount :: int
  cp_total_limit :: int
  cp_per_user_limit :: int
  cp_used_count :: int
  cp_plan_ids :: "int list"
  cp_start_at :: time
  cp_expire_at :: time
  cp_is_active :: bool
  cp_created_at :: time

definition planIDsToString :: "int list \<Rightarrow> string" where
  "planIDsToString ids = (if ids = [] then [] else join_char (CHR '','') (map show_int ids))"

definition stringToPlanIDs :: "string \<Rightarrow> int list" where
  "stringToPlanIDs str = (if str = [] then [] else List.map_filter scan_int64 (split_char (CHR '','') str))"

definition toCoupon :: "coupon_row \<Rightarrow> coupon" where
  "toCoupon rc = \<lparr>cp_id = c_id rc, cp_code = c_code rc, cp_name = c_name rc, cp_type = c_type rc,
     cp_value = c_value rc, cp_min_order_amount = c_min_order_amount rc,
     cp_max_discount = c_max_discount rc, cp_total_limit = c_total_limit rc,
     cp_per_user_limit = c_per_user_limit rc, cp_used_count = c_used_count rc,
     cp_plan_ids = stringToPlanIDs (c_plan_ids rc), cp_start_at = c_start_at rc,
     cp_expire_at = c_expire_at rc, cp_is_active = c_is_active rc, cp_created_at = c_created_at rc\<rparr>"

definition CouponGenerateCode :: "nat list \<Rightarrow> string \<Rightarrow> string" where
  "CouponGenerateCode bytes pre = (let suffix = to_upper (hex_encode bytes) in
     if pre \<noteq> [] then to_upper pre @ ''-'' @ suffix else suffix)"

record create_coupon_request =
  cq_code :: string
  cq_name :: string
  cq_type :: string
  cq_value :: int
  cq_min_order_amount :: int
  cq_max_discount :: int
  cq_total_limit :: int
  cq_per_user_limit :: int
  cq_plan_ids :: "int list"
  cq_start_at :: time
  cq_expire_at :: time
  cq_is_active :: bool

definition coupon_request_check :: "create_coupon_request \<Rightarrow> unit dbop" where
  "coupon_request_check req =
     (if cq_name req = [] then raise (Wrapped (CouponE ErrInvalidCoupon) ''name is required'')
      else if cq_type req \<noteq> TypeFixed \<and> cq_type req \<noteq> TypePercentage
        then raise (Wrapped (CouponE ErrInvalidCoupon) ''invalid coupon type'')
      else if cq_value req \<le> 0 then raise (Wrapped (CouponE ErrInvalidCoupon) ''value must be positive'')
      else if cq_expire_at req < cq_start_at req
        then raise (Wrapped (CouponE ErrInvalidCoupon) ''expire date must be after start date'')
      else ret ())"

definition CouponSvcCreate :: "time \<Rightarrow> nat list \<Rightarrow> create_coupon_request \<Rightarrow> coupon dbop" where
  "CouponSvcCreate now bytes req =
     bindE (coupon_request_check req) (\<lambda>_.
       let code = (if cq_code req = [] then CouponGenerateCode bytes [] else cq_code req) in
       bindE (CouponCreate \<lparr>c_id = 0, c_code = to_upper code, c_name = cq_name req, c_type = cq_type req,
          c_value = cq_value req, c_min_order_amount = cq_min_order_amount req,
          c_max_discount = cq_max_discount req, c_total_limit = cq_total_limit req,
          c_per_user_limit = cq_per_user_limit req, c_used_count = 0,
          c_plan_ids = planIDsToString (cq_plan_ids req), c_start_at = cq_start_at req,
          c_expire_at = cq_expire_at req, c_is_active = cq_is_active req, c_created_at = now\<rparr>)
        (\<lambda>rc. ret (toCoupon rc)))"

definition CouponSvcUpdate :: "int \<Rightarrow> create_coupon_request \<Rightarrow> coupon dbop" where
  "CouponSvcUpdate i req =
     bindE (map_err (\<lambda>_. CouponE ErrCouponNotFound) (CouponGetByID i)) (\<lambda>rc.
     bindE (coupon_request_check req) (\<lambda>_.
       let rc' = rc\<lparr>c_code := (if cq_code req \<noteq> [] then to_upper (cq_code req) else c_code rc),
          c_name := cq_name req, c_type := cq_type req, c_value := cq_value req,
          c_min_order_amount := cq_min_order_amount req, c_max_discount := cq_max_discount req,
          c_total_limit := cq_total_limit req, c_per_user_limit := cq_per_user_limit req,
          c_plan_ids := planIDsToString (cq_plan_ids req), c_start_at := cq_start_at req,
          c_expire_at := cq_expire_at req, c_is_active := cq_is_active req\<rparr>
       in bindE (CouponUpdate rc') (\<lambda>_. ret (toCoupon rc'))))"

definition CouponSvcGetByID :: "int \<Rightarrow> coupon dbop" where
  "CouponSvcGetByID i =
     bindE (map_err (\<lambda>_. CouponE ErrCouponNotFound) (CouponGetByID i)) (\<lambda>rc. ret (toCoupon rc))"

definition CouponSvcGetByCode :: "string \<Rightarrow> coupon dbop" where
  "CouponSvcGetByCode code =
     bindE (map_err (\<lambda>_. CouponE ErrCouponNotFound) (CouponGetByCode (to_upper code))) (\<lambda>rc. ret (toCoupon rc))"

definition CalculateDiscount :: "coupon \<Rightarrow> int \<Rightarrow> int" where
  "CalculateDiscount c orderAmount =
     (let discount = (if cp_type c = TypeFixed then cp_value c
           else if cp_type c = TypePercentage then
             (let d = wrap64 (orderAmount * cp_value c) sdiv 10000 in
              if 0 < cp_max_discount c \<and> cp_max_discount c < d then cp_max_discount c else d)
           else 0)
      in if orderAmount < discount then orderAmount else discount)"

definition Validate :: "time \<Rightarrow> string \<Rightarrow> int \<Rightarrow> int \<Rightarrow> int \<Rightarrow> (coupon \<times> int) dbop" where
  "Validate now code userID planID orderAmount =
     bindE (CouponSvcGetByCode code) (\<lambda>c.
     if \<not> cp_is_active c then raise (CouponE ErrCouponInactive)
     else if now < cp_start_at c then raise (CouponE ErrCouponNotStarted)
     else if cp_expire_at c < now then raise (CouponE ErrCouponExpired)
     else if 0 < cp_total_limit c \<and> cp_total_limit c \<le> cp_used_count c then raise (CouponE ErrCouponLimitReached)
     else bindE (if 0 < cp_per_user_limit c then
             bindE (GetUserUsageCount (cp_id c) userID) (\<lambda>userUsage.
               guardE (userUsage < cp_per_user_limit c) (CouponE ErrCouponUserLimit))
           else ret ()) (\<lambda>_.
       if 0 < cp_min_order_amount c \<and> orderAmount < cp_min_order_amount c
         then raise (CouponE ErrCouponMinAmount)
       else if cp_plan_ids c \<noteq> [] \<and> planID \<notin> set (cp_plan_ids c) then raise (CouponE ErrCouponPlanMismatch)
       else ret (c, CalculateDiscount c orderAmount)))"

definition Use :: "time \<Rightarrow> int \<Rightarrow> int \<Rightarrow> int \<Rightarrow> int \<Rightarrow> unit dbop" where
  "Use now couponID userID orderID discount =
     bindE (CreateUsage \<lparr>cu_id = 0, cu_coupon_id = couponID, cu_user_id = userID, cu_order_id = orderID,
        cu_discount = discount, cu_used_at = now\<rparr>) (\<lambda>_. IncrementUsedCount couponID)"

definition CouponSvcList :: "coupon_filter \<Rightarrow> int \<Rightarrow> int \<Rightarrow> (coupon list \<times> int) dbop" where
  "CouponSvcList f page pageSize = (let (limit, offset) = page_args page pageSize in
     bindE (CouponRepoList f limit offset) (\<lambda>(cs, total). ret (map toCoupon cs, total)))"

definition CouponSvcSetActive :: "int \<Rightarrow> bool \<Rightarrow> unit dbop" where
  "CouponSvcSetActive i active = CouponRepoSetActive i active"

definition CouponSvcDelete :: "int \<Rightarrow> unit dbop" where
  "CouponSvcDelete i = CouponDelete i"

definition CouponGetStatistics :: "int \<Rightarrow> (int \<times> int) dbop" where
  "CouponGetStatistics couponID =
     bindE (GetUsageCount couponID) (\<lambda>usageCount.
     bindE (GetTotalDiscountAmount couponID) (\<lambda>totalDiscount. ret (usageCount, totalDiscount)))"

text \<open>
  The loop of \<open>GenerateBatchCodes\<close>, over the byte strings the random source delivers;
  \<open>None\<close> means the loop is still drawing when they are used up.
\<close>

fun batch_codes :: "string \<Rightarrow> nat \<Rightarrow> nat list list \<Rightarrow> string list \<Rightarrow> string list option" where
  "batch_codes pre count rnd codes =
     (if count \<le> length codes then Some codes
      else case rnd of [] \<Rightarrow> None
        | bytes # rest \<Rightarrow> let code = CouponGenerateCode bytes pre in
            batch_codes pre count rest (if code \<in> set codes then codes else codes @ [code]))"

declare batch_codes.simps [simp del]

definition GenerateBatchCodes :: "nat list list \<Rightarrow> string \<Rightarrow> int \<Rightarrow> (err + string list) option" where
  "GenerateBatchCodes rnd pre count =
     (if count \<le> 0 \<or> 1000 < count then Some (Inl (ErrText ''count must be between 1 and 1000''))
      else map_option Inr (batch_codes pre (nat count) rnd []))"

section \<open>Coupon operations move no money\<close>

lemma sound_step_coupons:
  "sound_db d \<Longrightarrow> sound_step d (d\<lparr>coupons := x\<rparr>)" "sound_db d \<Longrightarrow> sound_step d (d\<lparr>coupon_usages := y\<rparr>)"
  by (auto intro!: sound_step_same simp: sound_db_def wf_db_def columns_ok_def)

lemma coupon_statements_sound [sound_rules]:
  "sound_op (CouponCreate c)" "sound_op (CouponUpdate c)" "sound_op (CouponDelete i)"
  "sound_op (IncrementUsedCount i)" "sound_op (CouponRepoSetActive i b)" "sound_op (CreateUsage u)"
  unfolding CouponCreate_def CouponUpdate_def CouponDelete_def IncrementUsedCount_def
    CouponRepoSetActive_def CreateUsage_def
  by (auto intro!: sound_opI wpt_rules sound_step_coupons sound_step_refl)

lemma coupon_request_check_sound [sound_rules]: "sound_op (coupon_request_check req)"
  unfolding coupon_request_check_def by (intro sound_rules)

lemma CouponSvc_sound [sound_rules]:
  "sound_op (CouponSvcCreate now bytes req)" "sound_op (CouponSvcUpdate i req)" "sound_op (Use now c u ord disc)"
  unfolding CouponSvcCreate_def CouponSvcUpdate_def Use_def CouponGetByID_def Let_def by (intro sound_rules)+

section \<open>Discounts\<close>

text \<open>
  The discount of a coupon, as long as amount times value fits in int64: a fixed coupon
  takes its value, a percentage coupon the hundredths of a percent of the amount (rounded
  down, and capped by a positive maximum discount), never more than the order amount and
  never a negative amount.
\<close>

theorem discount_exact:
  assumes "0 \<le> amount" and "0 < cp_value c" and "amount * cp_value c \<le> maxI64"
  shows "CalculateDiscount c amount =
      min amount (if cp_type c = TypeFixed then cp_value c
        else if cp_type c = TypePercentage
        then (let d = amount * cp_value c div 10000 in if 0 < cp_max_discount c then min d (cp_max_discount c) else d)
        else 0)
    \<and> 0 \<le> CalculateDiscount c amount \<and> CalculateDiscount c amount \<le> amount"
proof -
  have p: "0 \<le> amount * cp_value c" using assms by simp
  then have w: "wrap64 (amount * cp_value c) = amount * cp_value c"
    using assms(3) by (intro wrap64_id) (simp add: i64_defs)
  have d: "amount * cp_value c sdiv 10000 = amount * cp_value c div 10000" using p by simp
  have "0 \<le> amount * cp_value c div 10000" using p by (simp add: pos_imp_zdiv_nonneg_iff)
  with assms show ?thesis
    unfolding CalculateDiscount_def Let_def w d by (auto simp: min_def)
qed

definition sample_coupon :: coupon_row where
  "sample_coupon = \<lparr>c_id = 1, c_code = ''SAVE'', c_name = ''save'', c_type = TypePercentage, c_value = 1500,
     c_min_order_amount = 100, c_max_discount = 60, c_total_limit = 10, c_per_user_limit = 1,
     c_used_count = 3, c_plan_ids = ''1,2'', c_start_at = 0, c_expire_at = 100, c_is_active = True, c_created_at = 0\<rparr>"

theorem discount_exact_witness:
  "CalculateDiscount (toCoupon sample_coupon) 300 = 45 \<and> CalculateDiscount (toCoupon sample_coupon) 300 \<le> 300"
proof -
  have "cp_value (toCoupon sample_coupon) = 1500" "cp_type (toCoupon sample_coupon) = TypePercentage"
    "cp_max_discount (toCoupon sample_coupon) = 60" "TypePercentage \<noteq> TypeFixed"
    by (simp_all add: toCoupon_def sample_coupon_def TypePercentage_def TypeFixed_def)
  with discount_exact [of 300 "toCoupon sample_coupon"] show ?thesis by (simp add: Let_def maxI64_def)
qed

text \<open>
  Without that bound the product wraps around: a full discount on a large enough order is
  computed as a negative one.
\<close>

lemma discount_wraps:
  assumes "cp_type c = TypePercentage" and "cp_value c = 10000" and "cp_max_discount c = 0"
  shows "CalculateDiscount c 922337203685478 < 0"
  using assms by (simp add: CalculateDiscount_def Let_def wrap64_def signed_divide_int_def TypePercentage_def TypeFixed_def)

section \<open>Validation\<close>

definition coupon_usable :: "db \<Rightarrow> time \<Rightarrow> int \<Rightarrow> int \<Rightarrow> int \<Rightarrow> coupon_row \<Rightarrow> bool" where
  "coupon_usable d now userID planID amount c \<longleftrightarrow>
     c_is_active c \<and> c_start_at c \<le> now \<and> now \<le> c_expire_at c
   \<and> (0 < c_total_limit c \<longrightarrow> c_used_count c < c_total_limit c)
   \<and> (0 < c_per_user_limit c \<longrightarrow>
        count_rows (\<lambda>u. cu_coupon_id u = c_id c \<and> cu_user_id u = userID) (coupon_usages d) < c_per_user_limit c)
   \<and> (0 < c_min_order_amount c \<longrightarrow> c_min_order_amount c \<le> amount)
   \<and> (stringToPlanIDs (c_plan_ids c) = [] \<or> planID \<in> set (stringToPlanIDs (c_plan_ids c)))"

lemma Validate_wpt:
  "wpt (Validate now code userID planID amount)
    (\<lambda>(c, disc) d'. d' = d \<and> (\<exists>rc. find (\<lambda>r. c_code r = to_upper code) (rows (coupons d)) = Some rc
        \<and> coupon_usable d now userID planID amount rc \<and> c = toCoupon rc \<and> disc = CalculateDiscount c amount))
    (\<lambda>e d'. d' = d) d"
  unfolding Validate_def CouponSvcGetByCode_def CouponGetByCode_def GetUserUsageCount_def
  by (intro wpt_rules) (simp_all add: toCoupon_def coupon_usable_def not_less not_le, auto)

lemma Validate_accepts:
  fixes w :: "db world"
  assumes "faults w = []" and "find (\<lambda>r. c_code r = to_upper code) (rows (coupons (tables w))) = Some rc"
    and "coupon_usable (tables w) now userID planID amount rc"
  shows "Validate now code userID planID amount w = (Inr (toCoupon rc, CalculateDiscount (toCoupon rc) amount), w)"
  using assms
  by (auto simp: Validate_def CouponSvcGetByCode_def CouponGetByCode_def GetUserUsageCount_def coupon_usable_def
      bindE_def map_err_def first_def query_def stmt_run guardE_def ret_def raise_def toCoupon_def split: if_splits)

text \<open>
  (C37) Coupon validation, with no engine fault, accepts a code exactly when a coupon with the
  upper-cased code exists, is active, within its dates, below its total and per-user limits,
  the order reaches its minimum and the plan is one of its plans (any plan, when it names
  none); it returns that coupon with its discount, and never changes a table.
\<close>

theorem validate_iff:
  fixes w :: "db world"
  assumes "faults w = []"
  shows "(\<exists>w'. Validate now code userID planID amount w = (Inr (c, disc), w')) \<longleftrightarrow>
     (\<exists>rc. find (\<lambda>r. c_code r = to_upper code) (rows (coupons (tables w))) = Some rc
        \<and> coupon_usable (tables w) now userID planID amount rc
        \<and> c = toCoupon rc \<and> disc = CalculateDiscount c amount)"
proof
  assume "\<exists>w'. Validate now code userID planID amount w = (Inr (c, disc), w')"
  then obtain w' where run: "Validate now code userID planID amount w = (Inr (c, disc), w')" by blast
  from wptD_Inr [OF Validate_wpt run] show "\<exists>rc. find (\<lambda>r. c_code r = to_upper code) (rows (coupons (tables w))) = Some rc
        \<and> coupon_usable (tables w) now userID planID amount rc
        \<and> c = toCoupon rc \<and> disc = CalculateDiscount c amount" by simp
qed (use Validate_accepts [OF assms] in auto)

definition sample_coupon_world :: "db world" where
  "sample_coupon_world = fresh_world (sample_db\<lparr>coupons := \<lparr>rows = [sample_coupon], seq = 1\<rparr>\<rparr>)"

theorem validate_iff_witness:
  "\<exists>w'. Validate 50 ''save'' 1 2 300 sample_coupon_world = (Inr (toCoupon sample_coupon, 45), w')"
proof -
  have "faults sample_coupon_world = []" by (simp add: sample_coupon_world_def fresh_world_def)
  moreover have "find (\<lambda>r. c_code r = to_upper ''save'') (rows (coupons (tables sample_coupon_world))) = Some sample_coupon"
    by code_simp
  moreover have "coupon_usable (tables sample_coupon_world) 50 1 2 300 sample_coupon" by code_simp
  moreover have "CalculateDiscount (toCoupon sample_coupon) 300 = 45" by code_simp
  ultimately show ?thesis
    using validate_iff [of sample_coupon_world 50 "''save''" 1 2 300 "toCoupon sample_coupon" 45] by auto
qed

section \<open>Stored plan lists and generated codes\<close>

text \<open>
  Storing a coupon's plan list and reading it back gives the same list, for all plan
  identifiers of the int64 range.
\<close>

theorem plan_ids_round_trip:
  assumes "\<forall>i \<in> set ids. in_i64 i"
  shows "stringToPlanIDs (planIDsToString ids) = ids"
proof (cases "ids = []")
  case False
  have ne: "join_char (CHR '','') (map show_int ids) \<noteq> []"
    using False by (cases ids rule: remdups_adj.cases) (auto simp: show_int_def)
  have "split_char (CHR '','') (join_char (CHR '','') (map show_int ids)) = map show_int ids"
    using False by (intro split_join) (auto simp: show_int_no_comma)
  moreover have "List.map_filter scan_int64 (map show_int ids) = ids"
    using assms by (induction ids) (simp_all add: List.map_filter_simps scan_show_int)
  ultimately show ?thesis using False ne by (simp add: planIDsToString_def stringToPlanIDs_def)
qed (simp add: planIDsToString_def stringToPlanIDs_def)

theorem plan_ids_round_trip_witness:
  "stringToPlanIDs (planIDsToString [3, 12, - 7]) = [3, 12, - 7]"
  by (rule plan_ids_round_trip) (simp add: i64_defs)

lemma batch_codes_inv:
  "batch_codes pre count rnd codes = Some out \<Longrightarrow> distinct codes \<Longrightarrow> length codes \<le> count \<Longrightarrow>
     (\<forall>c \<in> set codes. \<exists>b. c = CouponGenerateCode b pre) \<Longrightarrow>
     distinct out \<and> length out = count \<and> (\<forall>c \<in> set out. \<exists>b. c = CouponGenerateCode b pre)"
proof (induction pre count rnd codes rule: batch_codes.induct)
  case (1 pre count rnd codes)
  show ?case
  proof (cases "count \<le> length codes")
    case True
    with 1(2) have "out = codes" by (subst (asm) batch_codes.simps) simp
    with 1(3-5) True show ?thesis by simp
  next
    case False
    with 1(2) obtain b rest where r: "rnd = b # rest" by (subst (asm) batch_codes.simps) (cases rnd, auto)
    with 1(2) False have "batch_codes pre count rest (if CouponGenerateCode b pre \<in> set codes then codes
        else codes @ [CouponGenerateCode b pre]) = Some out"
      by (subst (asm) batch_codes.simps) (simp add: Let_def)
    then show ?thesis
      by (rule 1(1) [OF False r refl]) (use 1(3-5) False in \<open>simp_all split: if_split\<close>, blast)
  qed
qed

lemma batch_codes_progress:
  "count \<le> card (set codes \<union> (\<lambda>b. CouponGenerateCode b pre) ` set rnd) \<Longrightarrow> distinct codes
    \<Longrightarrow> \<exists>out. batch_codes pre count rnd codes = Some out"
proof (induction pre count rnd codes rule: batch_codes.induct)
  case (1 pre count rnd codes)
  show ?case
  proof (cases "count \<le> length codes")
    case True then show ?thesis by (subst batch_codes.simps) simp
  next
    case False
    with 1(2,3) have "rnd \<noteq> []" by (auto simp: distinct_card)
    then obtain b rest where r: "rnd = b # rest" by (cases rnd) auto
    let ?code = "CouponGenerateCode b pre"
    let ?next = "if ?code \<in> set codes then codes else codes @ [?code]"
    have "set ?next \<union> (\<lambda>b. CouponGenerateCode b pre) ` set rest = set codes \<union> (\<lambda>b. CouponGenerateCode b pre) ` set rnd"
      using r by auto
    then have "\<exists>out. batch_codes pre count rest ?next = Some out"
      using 1 False r by auto
    then show ?thesis using False r by (subst batch_codes.simps) (simp add: Let_def)
  qed
qed

text \<open>
  (C38) Batch codes: for a count between 1 and 1000 the loop ends as soon as the random source
  has delivered that many different codes, and the result is exactly that many pairwise
  different codes, each of the generator's form.
\<close>

theorem batch_codes_complete:
  assumes "1 \<le> count" and "count \<le> 1000"
    and "nat count \<le> card ((\<lambda>b. CouponGenerateCode b pre) ` set rnd)"
  shows "\<exists>codes. GenerateBatchCodes rnd pre count = Some (Inr codes) \<and> distinct codes
     \<and> int (length codes) = count \<and> (\<forall>c \<in> set codes. \<exists>b. c = CouponGenerateCode b pre)"
proof -
  obtain out where o: "batch_codes pre (nat count) rnd [] = Some out"
    using batch_codes_progress [of "nat count" "[]" pre rnd] assms(3) by auto
  with batch_codes_inv [OF o] assms(1,2) show ?thesis
    by (auto simp: GenerateBatchCodes_def)
qed

theorem batch_codes_complete_witness:
  "\<exists>codes. GenerateBatchCodes [[1], [1], [2]] ''vip'' 2 = Some (Inr codes) \<and> distinct codes
     \<and> codes = [''VIP-01'', ''VIP-02'']"
proof -
  have v: "GenerateBatchCodes [[1], [1], [2]] ''vip'' 2 = Some (Inr [''VIP-01'', ''VIP-02''])" by code_simp
  have "card ((\<lambda>b. CouponGenerateCode b ''vip'') ` set [[1], [1], [2::nat]]) = 2" by code_simp
  with batch_codes_complete [of 2 "''vip''" "[[1], [1], [2]]"] v show ?thesis by auto
qed

text \<open>
  A coupon the administrator creates as inactive is stored as active, because the column's
  default replaces the zero value on insert.
\<close>

lemma created_coupon_active:
  "wpt (CouponSvcCreate now bytes req) (\<lambda>c _. cp_is_active c \<and> cp_per_user_limit c \<noteq> 0) (\<lambda>_ _. True) d"
  unfolding CouponSvcCreate_def coupon_request_check_def CouponCreate_def Let_def
  by (intro wpt_rules) (simp_all add: toCoupon_def coupon_defaults_def)

end
