(* ===== verification/GiftCards.thy ===== *)
theory GiftCards
  imports BalanceService
begin

text \<open>
  \<open>internal/commercial/giftcard/service.go\<close>,
  \<open>internal/database/repository/giftcard_repository.go\<close> and \<open>RedeemAndCredit\<close> of
  \<open>commercial_atomic.go\<close>: batches of gift cards, purchase and redemption.
\<close>

section \<open>The repository\<close>

definition GiftActive :: string where "GiftActive = ''active''"
definition GiftRedeemed :: string where "GiftRedeemed = ''redeemed''"
definition GiftExpired :: string where "GiftExpired = ''expired''"
definition GiftDisabled :: string where "GiftDisabled = ''disabled''"

lemmas gift_status_defs = GiftActive_def GiftRedeemed_def GiftExpired_def GiftDisabled_def

definition GiftCreate :: "gift_card_row \<Rightarrow> gift_card_row dbop" where
  "GiftCreate g = create gift_cards gift_cards_update (\<lambda>a b. g_code a = g_code b) (\<lambda>i. g\<lparr>g_id := i\<rparr>)"

text \<open>
  \<open>CreateInBatches(giftCards, 100)\<close>: one multi-row INSERT per hundred cards, all of them
  in one transaction.  An INSERT fails as a whole when a code is already stored or repeated.
\<close>

fun add_cards :: "gift_card_row list \<Rightarrow> gift_card_row table \<Rightarrow> (gift_card_row list \<times> gift_card_row table) option" where
  "add_cards [] t = Some ([], t)"
| "add_cards (g # gs) t =
     (if \<exists>r \<in> set (rows t). g_code r = g_code g then None
      else case add_cards gs (add_row (\<lambda>i. g\<lparr>g_id := i\<rparr>) t) of
          None \<Rightarrow> None
        | Some (rs, t') \<Rightarrow> Some (g\<lparr>g_id := seq t + 1\<rparr> # rs, t'))"

definition insert_cards :: "gift_card_row list \<Rightarrow> gift_card_row list dbop" where
  "insert_cards gs = stmt (\<lambda>d. case add_cards gs (gift_cards d) of
      None \<Rightarrow> Inl (Gorm ErrDuplicatedKey) | Some (rs, t) \<Rightarrow> Inr (rs, d\<lparr>gift_cards := t\<rparr>))"

fun insert_chunks :: "nat \<Rightarrow> gift_card_row list \<Rightarrow> gift_card_row list dbop" where
  "insert_chunks n gs =
     (if gs = [] \<or> n = 0 then ret []
      else bindE (insert_cards (take n gs)) (\<lambda>rs.
           bindE (insert_chunks n (drop n gs)) (\<lambda>rest. ret (rs @ rest))))"

declare insert_chunks.simps [simp del]

definition GiftRepoCreateBatch :: "gift_card_row list \<Rightarrow> gift_card_row list dbop" where
  "GiftRepoCreateBatch gs = transaction (insert_chunks 100 gs)"

definition GiftGetByID :: "int \<Rightarrow> gift_card_row dbop" where
  "GiftGetByID i = first gift_cards (\<lambda>g. g_id g = i)"

definition GiftGetByCode :: "string \<Rightarrow> gift_card_row dbop" where
  "GiftGetByCode code = first gift_cards (\<lambda>g. g_code g = code)"

definition GiftUpdate :: "gift_card_row \<Rightarrow> unit dbop" where
  "GiftUpdate g = save gift_cards gift_cards_update (\<lambda>a b. g_code a = g_code b) g_id g"

definition GiftRepoDelete :: "int \<Rightarrow> unit dbop" where
  "GiftRepoDelete i = bindE (delete_where gift_cards gift_cards_update (\<lambda>g. g_id g = i)) (\<lambda>_. ret ())"

record gift_filter =
  gf_status :: string
  gf_batch_id :: string
  gf_created_by :: "int option"
  gf_min :: "int option"
  gf_max :: "int option"

definition gift_matches :: "gift_filter \<Rightarrow> gift_card_row \<Rightarrow> bool" where
  "gift_matches f g \<longleftrightarrow>
     (gf_status f = [] \<or> g_status g = gf_status f)
   \<and> (gf_batch_id f = [] \<or> g_batch_id g = gf_batch_id f)
   \<and> opt_holds (\<lambda>u. g_created_by g = Some u) (gf_created_by f)
   \<and> opt_holds (\<lambda>m. m \<le> g_value g) (gf_min f)
   \<and> opt_holds (\<lambda>m. g_value g \<le> m) (gf_max f)"

definition GiftRepoList :: "gift_filter \<Rightarrow> int \<Rightarrow> int \<Rightarrow> (gift_card_row list \<times> int) dbop" where
  "GiftRepoList f limit offset =
     bindE (query (\<lambda>d. count_rows (gift_matches f) (gift_cards d))) (\<lambda>total.
     bindE (query (\<lambda>d. page_desc g_created_at limit offset (filter (gift_matches f) (rows (gift_cards d)))))
       (\<lambda>gs. ret (gs, total)))"

definition GiftRepoSetStatus :: "int \<Rightarrow> string \<Rightarrow> unit dbop" where
  "GiftRepoSetStatus i status =
     bindE (update_where gift_cards gift_cards_update (\<lambda>g. g_id g = i) (\<lambda>g. g\<lparr>g_status := status\<rparr>)) (\<lambda>_. ret ())"

definition set_redeemed :: "time \<Rightarrow> int \<Rightarrow> gift_card_row \<Rightarrow> gift_card_row" where
  "set_redeemed now userID g = g\<lparr>g_status := GiftRedeemed, g_redeemed_by := Some userID, g_redeemed_at := Some now\<rparr>"

definition MarkRedeemed :: "time \<Rightarrow> int \<Rightarrow> int \<Rightarrow> unit dbop" where
  "MarkRedeemed now i userID =
     bindE (update_where gift_cards gift_cards_update (\<lambda>g. g_id g = i \<and> g_status g = GiftActive)
         (set_redeemed now userID))
       (\<lambda>n. guardE (n \<noteq> 0) (Gorm ErrRecordNotFound))"

definition MarkPurchased :: "time \<Rightarrow> int \<Rightarrow> int \<Rightarrow> unit dbop" where
  "MarkPurchased now i userID =
     bindE (update_where gift_cards gift_cards_update (\<lambda>g. g_id g = i)
         (\<lambda>g. g\<lparr>g_purchased_by := Some userID, g_purchased_at := Some now\<rparr>)) (\<lambda>_. ret ())"

text \<open>\<open>ORDER BY redeemed_at DESC\<close>: a missing time sorts as the smallest.\<close>

definition GiftRepoListByUser :: "int \<Rightarrow> int \<Rightarrow> int \<Rightarrow> (gift_card_row list \<times> int) dbop" where
  "GiftRepoListByUser userID limit offset =
     bindE (query (\<lambda>d. count_rows (\<lambda>g. g_redeemed_by g = Some userID) (gift_cards d))) (\<lambda>total.
     bindE (query (\<lambda>d. page_desc (\<lambda>g. case g_redeemed_at g of Some t \<Rightarrow> t | None \<Rightarrow> zero_time) limit offset
         (filter (\<lambda>g. g_redeemed_by g = Some userID) (rows (gift_cards d)))))
       (\<lambda>gs. ret (gs, total)))"

definition ListByBatch :: "string \<Rightarrow> int \<Rightarrow> int \<Rightarrow> (gift_card_row list \<times> int) dbop" where
  "ListByBatch batchID limit offset =
     bindE (query (\<lambda>d. count_rows (\<lambda>g. g_batch_id g = batchID) (gift_cards d))) (\<lambda>total.
     bindE (query (\<lambda>d. page_desc g_created_at limit offset
         (filter (\<lambda>g. g_batch_id g = batchID) (rows (gift_cards d))))) (\<lambda>gs. ret (gs, total)))"

definition GetExpiredActive :: "time \<Rightarrow> gift_card_row list dbop" where
  "GetExpiredActive now = query (\<lambda>d. filter (\<lambda>g. g_status g = GiftActive
     \<and> (case g_expires_at g of None \<Rightarrow> False | Some t \<Rightarrow> t < now)) (rows (gift_cards d)))"

definition GiftCount :: "int dbop" where
  "GiftCount = query (\<lambda>d. count_rows (\<lambda>_. True) (gift_cards d))"

definition GiftCountByStatus :: "string \<Rightarrow> int dbop" where
  "GiftCountByStatus status = query (\<lambda>d. count_rows (\<lambda>g. g_status g = status) (gift_cards d))"

definition GetTotalValue :: "string \<Rightarrow> int dbop" where
  "GetTotalValue status = query (\<lambda>d. sum_rows (\<lambda>g. g_status g = status) g_value (gift_cards d))"

definition RepoGetBatchStats :: "string \<Rightarrow> (int \<times> int \<times> int \<times> int) dbop" where
  "RepoGetBatchStats batchID =
     bindE (query (\<lambda>d. (count_rows (\<lambda>g. g_batch_id g = batchID) (gift_cards d),
                        sum_rows (\<lambda>g. g_batch_id g = batchID) g_value (gift_cards d)))) (\<lambda>(n, v).
     bindE (query (\<lambda>d. (count_rows (\<lambda>g. g_batch_id g = batchID \<and> g_status g = GiftRedeemed) (gift_cards d),
                        sum_rows (\<lambda>g. g_batch_id g = batchID \<and> g_status g = GiftRedeemed) g_value (gift_cards d))))
       (\<lambda>(rn, rv). ret (n, rn, v, rv)))"

definition redeemable :: "time \<Rightarrow> int \<Rightarrow> gift_card_row \<Rightarrow> bool" where
  "redeemable now userID g \<longleftrightarrow> g_status g = GiftActive
     \<and> (case g_expires_at g of None \<Rightarrow> True | Some t \<Rightarrow> now < t)
     \<and> (case g_purchased_by g of None \<Rightarrow> True | Some u \<Rightarrow> u \<noteq> userID)"

definition RedeemAndCredit :: "time \<Rightarrow> int \<Rightarrow> int \<Rightarrow> gift_card_row dbop" where
  "RedeemAndCredit now i userID = transaction (
     bindE (update_where gift_cards gift_cards_update (\<lambda>g. g_id g = i \<and> redeemable now userID g)
         (set_redeemed now userID)) (\<lambda>n.
     bindE (guardE (n = 1) (Gorm ErrRecordNotFound)) (\<lambda>_.
     bindE (first gift_cards (\<lambda>g. g_id g = i)) (\<lambda>card.
     bindE (CreditAtomic now userID (g_value card)
         (Some (new_tx TxTypeRecharge None (''Gift card redemption #'' @ show_int i) ''system''))) (\<lambda>_.
       ret card)))))"

section \<open>The service\<close>

definition GiftGenerateCode :: "nat list \<Rightarrow> string \<Rightarrow> string" where
  "GiftGenerateCode bytes pre =
     (let code = to_upper (hex_encode bytes);
          formatted = take 4 code @ ''-'' @ take 4 (drop 4 code) @ ''-'' @ take 4 (drop 8 code) @ ''-''
            @ take 4 (drop 12 code)
      in if pre \<noteq> [] then to_upper pre @ ''-'' @ formatted else formatted)"

definition generateBatchID :: "string \<Rightarrow> nat list \<Rightarrow> string" where
  "generateBatchID date bytes = ''BATCH-'' @ date @ ''-'' @ to_upper (hex_encode bytes)"

record create_batch_request =
  br_count :: int
  br_value :: int
  br_expires_at :: "time option"
  br_prefix :: string

text \<open>
  The codes of a batch, drawn from the byte strings the random source delivers and redrawn
  while a code repeats; \<open>None\<close> when they are used up first.
\<close>

fun draw_codes :: "string \<Rightarrow> nat \<Rightarrow> nat list list \<Rightarrow> string list \<Rightarrow> string list option" where
  "draw_codes pre 0 rnd codes = Some codes"
| "draw_codes pre (Suc n) [] codes = None"
| "draw_codes pre (Suc n) (bytes # rest) codes =
     (let code = GiftGenerateCode bytes pre in
      if code \<in> set codes then draw_codes pre (Suc n) rest codes
      else draw_codes pre n rest (codes @ [code]))"

definition new_card :: "time \<Rightarrow> create_batch_request \<Rightarrow> int \<Rightarrow> string \<Rightarrow> string \<Rightarrow> gift_card_row" where
  "new_card now req createdBy batchID code = \<lparr>g_id = 0, g_code = code, g_value = br_value req,
     g_status = GiftActive, g_created_by = Some createdBy, g_purchased_by = None, g_redeemed_by = None,
     g_batch_id = batchID, g_expires_at = br_expires_at req, g_redeemed_at = None,
     g_purchased_at = None, g_created_at = now\<rparr>"

definition CreateBatch :: "time \<Rightarrow> string \<Rightarrow> nat list \<Rightarrow> nat list list \<Rightarrow> create_batch_request \<Rightarrow> int
    \<Rightarrow> (gift_card_row list \<times> string) dbop option" where
  "CreateBatch now date idBytes rnd req createdBy =
     (if br_count req \<le> 0 \<or> 1000 < br_count req
        then Some (raise (Wrapped (GiftCardE ErrInvalidCount) ''count must be between 1 and 1000''))
      else if br_value req \<le> 0
        then Some (raise (Wrapped (GiftCardE ErrGiftInvalidAmount) ''value must be positive''))
      else map_option (\<lambda>codes. let batchID = generateBatchID date idBytes in
          bindE (GiftRepoCreateBatch (map (new_card now req createdBy batchID) codes)) (\<lambda>gs. ret (gs, batchID)))
        (draw_codes (br_prefix req) (nat (br_count req)) rnd []))"

definition GiftSvcGetByID :: "int \<Rightarrow> gift_card_row dbop" where
  "GiftSvcGetByID i = map_err (\<lambda>_. GiftCardE ErrGiftCardNotFound) (GiftGetByID i)"

definition GiftSvcGetByCode :: "string \<Rightarrow> gift_card_row dbop" where
  "GiftSvcGetByCode code = map_err (\<lambda>_. GiftCardE ErrGiftCardNotFound) (GiftGetByCode (to_upper code))"

definition Redeem :: "time \<Rightarrow> string \<Rightarrow> int \<Rightarrow> gift_card_row dbop" where
  "Redeem now code userID =
     bindE (map_err (\<lambda>_. GiftCardE ErrGiftCardNotFound) (GiftGetByCode (to_upper code))) (\<lambda>gc.
     if g_status gc = GiftRedeemed then raise (GiftCardE ErrGiftCardAlreadyUsed)
     else if g_status gc = GiftDisabled then raise (GiftCardE ErrGiftCardDisabled)
     else if g_status gc = GiftExpired then raise (GiftCardE ErrGiftCardExpired)
     else if (case g_expires_at gc of None \<Rightarrow> False | Some t \<Rightarrow> t < now) then
       bindE (attempt (GiftRepoSetStatus (g_id gc) GiftExpired)) (\<lambda>_. raise (GiftCardE ErrGiftCardExpired))
     else if g_purchased_by gc = Some userID then raise (GiftCardE ErrSelfRedeem)
     else map_err (\<lambda>e. if errors_is e (Gorm ErrRecordNotFound) then GiftCardE ErrGiftCardAlreadyUsed else e)
        (RedeemAndCredit now (g_id gc) userID))"

text \<open>\<open>Purchase\<close> ignores the error of its second read and dereferences the card it returned.\<close>

definition Purchase :: "time \<Rightarrow> int \<Rightarrow> int \<Rightarrow> gift_card_row dbop" where
  "Purchase now i userID =
     bindE (map_err (\<lambda>_. GiftCardE ErrGiftCardNotFound) (GiftGetByID i)) (\<lambda>gc.
     bindE (guardE (g_status gc = GiftActive) (GiftCardE ErrGiftCardInvalid)) (\<lambda>_.
     bindE (MarkPurchased now i userID) (\<lambda>_.
     bindE (attempt (GiftGetByID i)) (\<lambda>r. case r of Inl _ \<Rightarrow> raise NilDereference | Inr g \<Rightarrow> ret g))))"

definition GiftSvcList :: "gift_filter \<Rightarrow> int \<Rightarrow> int \<Rightarrow> (gift_card_row list \<times> int) dbop" where
  "GiftSvcList f page pageSize = (let (limit, offset) = page_args page pageSize in GiftRepoList f limit offset)"

definition GiftSvcListByUser :: "int \<Rightarrow> int \<Rightarrow> int \<Rightarrow> (gift_card_row list \<times> int) dbop" where
  "GiftSvcListByUser userID page pageSize =
     (let (limit, offset) = page_args page pageSize in GiftRepoListByUser userID limit offset)"

definition GiftSetStatus :: "int \<Rightarrow> string \<Rightarrow> unit dbop" where
  "GiftSetStatus i status =
     (if status \<noteq> GiftActive \<and> status \<noteq> GiftDisabled then raise (Wrapped (GiftCardE ErrGiftCardInvalid) ''invalid status'')
      else GiftRepoSetStatus i status)"

definition GiftDelete :: "int \<Rightarrow> unit dbop" where
  "GiftDelete i =
     bindE (map_err (\<lambda>_. GiftCardE ErrGiftCardNotFound) (GiftGetByID i)) (\<lambda>gc.
     if g_status gc = GiftRedeemed
       then raise (Wrapped (GiftCardE ErrGiftCardInvalid) ''cannot delete redeemed gift card'')
     else GiftRepoDelete i)"

record batch_stats =
  bs_batch_id :: string
  bs_total :: int
  bs_redeemed :: int
  bs_total_value :: int
  bs_redeemed_value :: int

definition GetBatchStats :: "string \<Rightarrow> batch_stats dbop" where
  "GetBatchStats batchID = bindE (RepoGetBatchStats batchID) (\<lambda>(n, rn, v, rv).
     ret \<lparr>bs_batch_id = batchID, bs_total = n, bs_redeemed = rn, bs_total_value = v, bs_redeemed_value = rv\<rparr>)"

record gift_stats =
  gs_total_cards :: int
  gs_active_cards :: int
  gs_redeemed_cards :: int
  gs_expired_cards :: int
  gs_total_value :: int
  gs_active_value :: int
  gs_redeemed_value :: int

definition GetStats :: "gift_stats dbop" where
  "GetStats =
     bindE GiftCount (\<lambda>totalCards.
     bindE (GiftCountByStatus GiftActive) (\<lambda>activeCards.
     bindE (GiftCountByStatus GiftRedeemed) (\<lambda>redeemedCards.
     bindE (GiftCountByStatus GiftExpired) (\<lambda>expiredCards.
     bindE (GetTotalValue GiftActive) (\<lambda>activeValue.
     bindE (GetTotalValue GiftRedeemed) (\<lambda>redeemedValue.
       ret \<lparr>gs_total_cards = totalCards, gs_active_cards = activeCards, gs_redeemed_cards = redeemedCards,
         gs_expired_cards = expiredCards, gs_total_value = wrap64 (activeValue + redeemedValue),
         gs_active_value = activeValue, gs_redeemed_value = redeemedValue\<rparr>))))))"

fun expire_each :: "gift_card_row list \<Rightarrow> int \<Rightarrow> int dbop" where
  "expire_each [] count = ret count"
| "expire_each (gc # rest) count =
     bindE (attempt (GiftRepoSetStatus (g_id gc) GiftExpired)) (\<lambda>r. case r of
         Inl _ \<Rightarrow> expire_each rest count | Inr _ \<Rightarrow> expire_each rest (count + 1))"

definition ExpireOldCards :: "time \<Rightarrow> int dbop" where
  "ExpireOldCards now = bindE (GetExpiredActive now) (\<lambda>gs. expire_each gs 0)"

section \<open>Redemption\<close>

lemma gift_status_distinct [simp]:
  "GiftActive \<noteq> GiftRedeemed" "GiftRedeemed \<noteq> GiftActive" "GiftActive \<noteq> GiftExpired" "GiftExpired \<noteq> GiftActive"
  "GiftActive \<noteq> GiftDisabled" "GiftDisabled \<noteq> GiftActive"
  by (simp_all add: gift_status_defs)

text \<open>\<open>card_redeemed now u d d' g\<close>: card \<open>g\<close> was redeemable, is redeemed, its value credited.\<close>

definition card_redeemed :: "time \<Rightarrow> int \<Rightarrow> db \<Rightarrow> db \<Rightarrow> gift_card_row \<Rightarrow> bool" where
  "card_redeemed now u d d' g \<longleftrightarrow> g \<in> set (rows (gift_cards d)) \<and> redeemable now u g \<and> 0 < g_value g
     \<and> wallet d u + g_value g \<le> maxI64
     \<and> entry_posted (d\<lparr>gift_cards := upd_rows (\<lambda>r. g_id r = g_id g) (set_redeemed now u) (gift_cards d)\<rparr>) d' u (g_value g)"

lemma RedeemAndCredit_wpt:
  assumes s: "sound_db d"
  shows "wpt (RedeemAndCredit now i u)
     (\<lambda>card d'. \<exists>g. g_id g = i \<and> card = set_redeemed now u g \<and> card_redeemed now u d d' g)
     (\<lambda>_ d'. d' = d) d"
proof -
  have k: "keyed g_id (gift_cards d)" using s by (simp add: sound_db_def wf_db_def)
  let ?p = "\<lambda>g. g_id g = i \<and> redeemable now u g"
  let ?t = "upd_rows ?p (set_redeemed now u) (gift_cards d)"
  have wf: "wf_db (d\<lparr>gift_cards := ?t\<rparr>)"
    using s by (auto simp: sound_db_def wf_db_def set_redeemed_def intro!: keyed_upd)
  have card: "\<exists>g. g_id g = i \<and> card = set_redeemed now u g \<and> g \<in> set (rows (gift_cards d)) \<and> redeemable now u g
      \<and> g_value g = g_value card \<and> in_i64 (g_value card)
      \<and> ?t = upd_rows (\<lambda>r. g_id r = g_id g) (set_redeemed now u) (gift_cards d)"
    if n: "count_rows ?p (gift_cards d) = 1" and c: "card \<in> set (rows ?t)" "g_id card = i" for card
  proof -
    have "0 < count_rows ?p (gift_cards d)" using n by simp
    then obtain g where g: "g \<in> set (rows (gift_cards d))" "?p g"
      by (auto simp only: count_rows_pos)
    from c obtain h where h: "h \<in> set (rows (gift_cards d))" "card = (if ?p h then set_redeemed now u h else h)"
      by (auto simp: table_simps)
    with c have "g_id h = i" by (auto simp: set_redeemed_def split: if_splits)
    with g h k have "h = g" by (auto intro: keyed_unique)
    moreover have "?t = upd_rows (\<lambda>r. g_id r = i) (set_redeemed now u) (gift_cards d)"
      using n by (intro upd_rows_guarded [OF k]) simp
    moreover have "in_i64 (g_value g)" using s g by (simp add: sound_db_def columns_ok_def)
    ultimately show ?thesis using g h by (intro exI [of _ g]) (auto simp: set_redeemed_def)
  qed
  show ?thesis
    unfolding RedeemAndCredit_def
    apply (intro wpt_rules credit_wpt wf)
    apply (simp_all)
    subgoal for card using card [of card] by auto
    subgoal premises p for card d'
      using card [OF p(1) p(4,3)] p(5-) by (auto simp: card_redeemed_def)
    done
qed

lemma card_redeemed_effect:
  assumes "card_redeemed now u d d' g"
  shows "wallet d' v = wallet d v + (if v = u then g_value g else 0)"
    and "ledger_total d' v = ledger_total d v + (if v = u then g_value g else 0)"
    and "gift_cards d' = upd_rows (\<lambda>r. g_id r = g_id g) (set_redeemed now u) (gift_cards d)"
  using assms unfolding card_redeemed_def
  by (auto simp: entry_posted_wallet entry_posted_ledger entry_posted_frame)

lemma sound_upd_gift_cards [sound_rules]:
  assumes "\<And>g. g_id (f g) = g_id g" and "\<And>g. g_value (f g) = g_value g"
  shows "sound_op (update_where gift_cards gift_cards_update p f)"
  by (auto intro!: sound_opI wpt_rules sound_step_refl sound_step_same keyed_upd
      simp: sound_db_def wf_db_def columns_ok_def table_simps assms)

lemma card_redeemed_sound:
  assumes c: "card_redeemed now u d d' g" and s: "sound_db d"
  shows "sound_step d d'"
proof -
  let ?d0 = "d\<lparr>gift_cards := upd_rows (\<lambda>r. g_id r = g_id g) (set_redeemed now u) (gift_cards d)\<rparr>"
  have s0: "sound_step d ?d0"
    using s by (intro sound_step_same)
      (auto simp: sound_db_def wf_db_def columns_ok_def table_simps set_redeemed_def intro!: keyed_upd)
  moreover have "sound_step ?d0 d'"
    using c s0 wallet_range [OF s, of u]
    by (intro entry_posted_sound [of ?d0 d' u "g_value g"]) (auto simp: card_redeemed_def sound_step_def)
  ultimately show ?thesis by (rule sound_step_trans)
qed

lemma RedeemAndCredit_sound [sound_rules]: "sound_op (RedeemAndCredit now i u)"
  by (rule sound_opI, rule wpt_mono [OF RedeemAndCredit_wpt])
     (auto intro: sound_step_refl card_redeemed_sound)

lemma GiftRepoSetStatus_sound [sound_rules]: "sound_op (GiftRepoSetStatus i status)"
  unfolding GiftRepoSetStatus_def by (intro sound_rules) simp_all

lemma Redeem_sound [sound_rules]: "sound_op (Redeem now code u)"
  unfolding Redeem_def GiftGetByCode_def by (intro sound_rules)

lemma gift_ops_sound [sound_rules]:
  "sound_op (MarkPurchased now i u)" "sound_op (MarkRedeemed now i u)" "sound_op (GiftSetStatus i status)"
  unfolding MarkPurchased_def MarkRedeemed_def GiftSetStatus_def set_redeemed_def
  by (intro sound_rules; simp)+

lemma Purchase_sound [sound_rules]: "sound_op (Purchase now i u)"
  unfolding Purchase_def GiftGetByID_def by (intro sound_rules)

lemma GiftDelete_sound [sound_rules]: "sound_op (GiftDelete i)"
proof -
  have "sound_op (GiftRepoDelete i)"
    unfolding GiftRepoDelete_def
    by (auto intro!: sound_opI wpt_rules sound_step_refl sound_step_same keyed_del
        simp: sound_db_def wf_db_def columns_ok_def table_simps)
  then show ?thesis unfolding GiftDelete_def GiftGetByID_def by (intro sound_rules)
qed

lemma expire_each_sound [sound_rules]: "sound_op (expire_each gs n)"
  by (induction gs arbitrary: n) (auto intro!: sound_rules)

lemma ExpireOldCards_sound [sound_rules]: "sound_op (ExpireOldCards now)"
  unfolding ExpireOldCards_def GetExpiredActive_def by (intro sound_rules)

lemma Redeem_wpt:
  assumes s: "sound_db d"
  shows "wpt (Redeem now code u)
    (\<lambda>card d'. \<exists>g. find (\<lambda>r. g_code r = to_upper code) (rows (gift_cards d)) = Some g
        \<and> card = set_redeemed now u g \<and> card_redeemed now u d d' g)
    (\<lambda>_ d'. d' = d \<or> (\<exists>g. find (\<lambda>r. g_code r = to_upper code) (rows (gift_cards d)) = Some g
        \<and> (\<exists>t. g_expires_at g = Some t \<and> t < now)
        \<and> d' = d\<lparr>gift_cards := upd_rows (\<lambda>r. g_id r = g_id g) (\<lambda>r. r\<lparr>g_status := GiftExpired\<rparr>) (gift_cards d)\<rparr>)) d"
proof -
  have uni: "g = h" if "g \<in> set (rows (gift_cards d))" "h \<in> set (rows (gift_cards d))" "g_id g = g_id h" for g h
    using s that by (auto simp: sound_db_def wf_db_def intro: keyed_unique)
  show ?thesis
    unfolding Redeem_def GiftGetByCode_def GiftRepoSetStatus_def
    apply (intro wpt_rules wpt_mono [OF RedeemAndCredit_wpt [OF s]])
    apply (simp_all)
    subgoal for r by (auto split: option.splits)
    subgoal for r card t' using uni by (auto simp: card_redeemed_def)
    done
qed





text \<open>
  The administrator's status change has no guard: setting a redeemed card active again makes
  it redeemable again, and its value is credited a second time.
\<close>

lemma reactivated_card_pays_twice:
  "let w1 = snd (Redeem 7 ''gift'' 1 sample_world);
       w2 = snd (GiftSetStatus 1 GiftActive w1);
       w3 = snd (Redeem 8 ''gift'' 1 w2)
   in wallet (tables sample_world) 1 = 500 \<and> wallet (tables w1) 1 = 550 \<and> wallet (tables w3) 1 = 600"
  by code_simp

section \<open>Batches\<close>

lemma draw_codes_inv:
  "draw_codes pre n rnd codes = Some out \<Longrightarrow> distinct codes \<Longrightarrow> distinct out \<and> length out = length codes + n"
  by (induction pre n rnd codes rule: draw_codes.induct) (auto simp: Let_def split: if_splits)

lemma draw_codes_progress:
  "n \<le> card ((\<lambda>b. GiftGenerateCode b pre) ` set rnd - set codes) \<Longrightarrow> \<exists>out. draw_codes pre n rnd codes = Some out"
proof (induction pre n rnd codes rule: draw_codes.induct)
  case (3 pre n bytes rest codes)
  let ?code = "GiftGenerateCode bytes pre" and ?S = "(\<lambda>b. GiftGenerateCode b pre) ` set rest"
  have eq: "(\<lambda>b. GiftGenerateCode b pre) ` set (bytes # rest) - set codes
      = (if ?code \<in> set codes then ?S - set codes else insert ?code (?S - set (codes @ [?code])))"
    by auto
  show ?case
  proof (cases "?code \<in> set codes")
    case True
    with 3 eq show ?thesis by (simp add: Let_def)
  next
    case False
    then have "Suc n \<le> Suc (card (?S - set (codes @ [?code])))"
      using "3.prems" eq by (metis card_insert_disjoint finite_Diff finite_imageI finite_set Diff_iff in_set_conv_decomp)
    with 3(2) [OF refl False] show ?thesis using False by (simp add: Let_def)
  qed
qed auto

lemma add_cards_codes:
  "add_cards gs t = Some (rs, t') \<Longrightarrow> map g_code rs = map g_code gs \<and> rows t' = rows t @ rs
     \<and> map g_value rs = map g_value gs"
  by (induction gs arbitrary: t rs) (fastforce simp: add_row_def split: if_splits option.splits)+

lemma add_cards_keyed: "add_cards gs t = Some (rs, t') \<Longrightarrow> keyed g_id t \<Longrightarrow> keyed g_id t'"
proof (induction gs arbitrary: t rs)
  case (Cons g gs)
  have "keyed g_id (add_row (\<lambda>i. g\<lparr>g_id := i\<rparr>) t)" using Cons.prems(2) by (rule keyed_add) simp
  with Cons show ?case by (auto split: if_splits option.splits)
qed auto

lemma insert_cards_wpt:
  "wpt (insert_cards gs)
    (\<lambda>rs d'. \<exists>t. add_cards gs (gift_cards d) = Some (rs, t) \<and> d' = d\<lparr>gift_cards := t\<rparr>) (\<lambda>_ d'. d' = d) d"
  unfolding insert_cards_def by (rule wpt_stmt) (auto split: option.splits)

lemma insert_cards_sound:
  assumes "\<And>g. g \<in> set gs \<Longrightarrow> in_i64 (g_value g)"
  shows "sound_op (insert_cards gs)"
proof (rule sound_opI, rule wpt_mono [OF insert_cards_wpt])
  fix d rs d'
  assume d: "sound_db d" and "\<exists>t. add_cards gs (gift_cards d) = Some (rs, t) \<and> d' = d\<lparr>gift_cards := t\<rparr>"
  then obtain t where t: "add_cards gs (gift_cards d) = Some (rs, t)" "d' = d\<lparr>gift_cards := t\<rparr>" by blast
  have "set (map g_value rs) = set (map g_value gs)" using add_cards_codes [OF t(1)] by simp
  then have "g_value ` set rs = g_value ` set gs" by simp
  then have "in_i64 (g_value r)" if "r \<in> set rs" for r
    using that assms by (metis (no_types, lifting) image_iff)
  then show "sound_step d d'"
    using d t add_cards_codes [OF t(1)] add_cards_keyed [OF t(1)]
    by (auto intro!: sound_step_same simp: sound_db_def wf_db_def columns_ok_def)
qed (auto intro: sound_step_refl)

lemma insert_chunks_sound:
  "(\<And>g. g \<in> set gs \<Longrightarrow> in_i64 (g_value g)) \<Longrightarrow> sound_op (insert_chunks n gs)"
proof (induction n gs rule: insert_chunks.induct)
  case (1 n gs)
  then show ?case
    by (subst insert_chunks.simps)
       (auto intro!: sound_rules insert_cards_sound dest: in_set_takeD in_set_dropD)
qed


lemma CreateBatch_sound:
  assumes "in_i64 (br_value req)" and "CreateBatch now date ids rnd req u = Some m"
  shows "sound_op m"
proof -
  have "sound_op (GiftRepoCreateBatch (map (new_card now req u b) codes))" for b codes
    unfolding GiftRepoCreateBatch_def using assms(1)
    by (intro sound_rules insert_chunks_sound) (auto simp: new_card_def)
  with assms(2) show ?thesis
    by (auto simp: CreateBatch_def Let_def split: if_splits intro!: sound_rules)
qed

lemma insert_chunks_wpt:
  "0 < n \<Longrightarrow> wpt (insert_chunks n gs)
     (\<lambda>rs d'. map g_code rs = map g_code gs \<and> map g_value rs = map g_value gs
        \<and> rows (gift_cards d') = rows (gift_cards d) @ rs \<and> d' = d\<lparr>gift_cards := gift_cards d'\<rparr>)
     (\<lambda>_ _. True) d"
proof (induction n gs arbitrary: d rule: insert_chunks.induct)
  case (1 n gs)
  show ?case
  proof (cases "gs = []")
    case True
    then show ?thesis by (subst insert_chunks.simps) (simp add: wpt_ret)
  next
    case False
    let ?Q = "\<lambda>gs d rs d'. map g_code rs = map g_code gs \<and> map g_value rs = map g_value gs
        \<and> rows (gift_cards d') = rows (gift_cards d) @ rs \<and> d' = d\<lparr>gift_cards := gift_cards d'\<rparr>"
    have IH: "wpt (insert_chunks n (drop n gs)) (?Q (drop n gs) d1) (\<lambda>_ _. True) d1" for d1
      using 1 False by auto
    have "wpt (bindE (insert_chunks n (drop n gs)) (\<lambda>rest. ret (rs @ rest))) (?Q gs d) (\<lambda>_ _. True)
        (d\<lparr>gift_cards := t\<rparr>)" if t: "add_cards (take n gs) (gift_cards d) = Some (rs, t)" for rs t
    proof (rule wpt_bind, rule wpt_mono [OF IH])
      fix rest d'
      assume q: "?Q (drop n gs) (d\<lparr>gift_cards := t\<rparr>) rest d'"
      have "map g_code (rs @ rest) = map g_code (take n gs @ drop n gs)"
        "map g_value (rs @ rest) = map g_value (take n gs @ drop n gs)"
        using add_cards_codes [OF t] q by (simp_all only: map_append)
      moreover have "d' = d\<lparr>gift_cards := gift_cards d'\<rparr>" using q by (metis db.surjective db.update_convs(6))
      ultimately show "wpt (ret (rs @ rest)) (?Q gs d) (\<lambda>_ _. True) d'"
        using q add_cards_codes [OF t] by (intro wpt_ret) simp
    qed simp
    then have "wpt (bindE (insert_cards (take n gs)) (\<lambda>rs. bindE (insert_chunks n (drop n gs)) (\<lambda>rest. ret (rs @ rest))))
        (?Q gs d) (\<lambda>_ _. True) d"
      by - (rule wpt_bind, rule wpt_mono [OF insert_cards_wpt], auto)
    with False 1(2) show ?thesis by (subst insert_chunks.simps) simp
  qed
qed

text \<open>
  A batch of gift cards.  Under every fault schedule, creating a batch either fails and
  leaves every table unchanged, or stores exactly the requested number of new active cards
  with pairwise different codes, each of the requested value, and changes nothing else.
\<close>

theorem create_batch_outcome:
  fixes w w' :: "db world"
  assumes "CreateBatch now date ids rnd req u = Some m" and "m w = (r, w')"
  shows "case r of Inl _ \<Rightarrow> tables w' = tables w
    | Inr (cards, batch) \<Rightarrow> 1 \<le> br_count req \<and> br_count req \<le> 1000 \<and> int (length cards) = br_count req
        \<and> distinct (map g_code cards) \<and> (\<forall>g \<in> set cards. g_value g = br_value req)
        \<and> rows (gift_cards (tables w')) = rows (gift_cards (tables w)) @ cards
        \<and> tables w' = (tables w)\<lparr>gift_cards := gift_cards (tables w')\<rparr>"
proof -
  let ?Q = "\<lambda>x d'. case x of (cards, batch) \<Rightarrow> 1 \<le> br_count req \<and> br_count req \<le> 1000 \<and> int (length cards) = br_count req
        \<and> distinct (map g_code cards) \<and> (\<forall>g \<in> set cards. g_value g = br_value req)
        \<and> rows (gift_cards d') = rows (gift_cards (tables w)) @ cards
        \<and> d' = (tables w)\<lparr>gift_cards := gift_cards d'\<rparr>"
  have "wpt m ?Q (\<lambda>_ d'. d' = tables w) (tables w)"
  proof (cases "br_count req \<le> 0 \<or> 1000 < br_count req \<or> br_value req \<le> 0")
    case True
    with assms(1) show ?thesis by (auto simp: CreateBatch_def intro!: wpt_raise split: if_splits)
  next
    case False
    let ?b = "generateBatchID date ids"
    from False assms(1) obtain codes where c: "draw_codes (br_prefix req) (nat (br_count req)) rnd [] = Some codes"
      and m: "m = bindE (GiftRepoCreateBatch (map (new_card now req u ?b) codes)) (\<lambda>gs. ret (gs, ?b))"
      by (auto simp: CreateBatch_def Let_def)
    have d: "distinct codes" "length codes = nat (br_count req)" using draw_codes_inv [OF c] by auto
    let ?gs = "map (new_card now req u ?b) codes"
    have nc: "map g_code ?gs = codes" "map g_value ?gs = map (\<lambda>_. br_value req) codes"
      by (simp_all add: comp_def new_card_def)
    show ?thesis
      unfolding m GiftRepoCreateBatch_def
    proof (intro wpt_bind wpt_transaction refl, rule wpt_mono [OF insert_chunks_wpt])
      fix rs d'
      assume q: "map g_code rs = map g_code ?gs \<and> map g_value rs = map g_value ?gs
        \<and> rows (gift_cards d') = rows (gift_cards (tables w)) @ rs \<and> d' = (tables w)\<lparr>gift_cards := gift_cards d'\<rparr>"
      then have "length rs = length codes" by (metis length_map nc(1))
      moreover have "set (map g_value rs) \<subseteq> {br_value req}" using q unfolding nc by auto
      ultimately show "wpt (ret (rs, ?b)) ?Q (\<lambda>_ d'. d' = tables w) d'"
        using q d False unfolding nc by (intro wpt_ret) auto
    qed simp_all
  qed
  from wpt_run [OF this assms(2)] show ?thesis by (cases r) auto
qed

definition sample_batch :: create_batch_request where
  "sample_batch = \<lparr>br_count = 2, br_value = 500, br_expires_at = None, br_prefix = ''xm''\<rparr>"

theorem create_batch_outcome_witness:
  "case CreateBatch 5 ''20260101'' [1,2,3,4] [[1,2,3,4,5,6,7,8], [1,2,3,4,5,6,7,8], [9,9,9,9,9,9,9,9]] sample_batch 1 of
     None \<Rightarrow> False
   | Some m \<Rightarrow> (case fst (m sample_world) of Inl _ \<Rightarrow> False
       | Inr (cards, batch) \<Rightarrow> length cards = 2 \<and> distinct (map g_code cards))"
proof -
  let ?c = "CreateBatch 5 ''20260101'' [1,2,3,4] [[1,2,3,4,5,6,7,8], [1,2,3,4,5,6,7,8], [9,9,9,9,9,9,9,9]] sample_batch 1"
  have ok: "\<not> isl (fst (the ?c sample_world))" by code_simp
  have "?c \<noteq> None \<longleftrightarrow> draw_codes ''xm'' 2 [[1,2,3,4,5,6,7,8], [1,2,3,4,5,6,7,8], [9,9,9,9,9,9,9,9]] [] \<noteq> None"
    by (simp add: CreateBatch_def sample_batch_def)
  moreover have "draw_codes ''xm'' 2 [[1,2,3,4,5,6,7,8], [1,2,3,4,5,6,7,8], [9,9,9,9,9,9,9,9]] [] \<noteq> None" by code_simp
  ultimately have c: "?c = Some (the ?c)" by simp
  from create_batch_outcome [OF c run_Inr [OF ok]] ok c show ?thesis
    by (cases "fst (the ?c sample_world)") (auto simp: sample_batch_def split: option.splits)
qed

end
