(* ===== verification/Users.thy ===== *)
theory Users
  imports BalanceRepo
begin

text \<open>
  The operations of \<open>internal/database/repository/user_repository.go\<close> the commercial
  services use.  \<open>UserUpdate\<close> is gorm's \<open>Save\<close>: it writes every column of the row it
  is given, the balance included.
\<close>

definition UserGetByID :: "int \<Rightarrow> user_row dbop" where
  "UserGetByID i = map_err (\<lambda>e. if e = Gorm ErrRecordNotFound then NotFoundError ''user'' i
       else DatabaseError ''failed to get user'' e)
     (first users (\<lambda>u. u_id u = i))"

definition normalizeUsername :: "string \<Rightarrow> string" where
  "normalizeUsername name = trim_space name"

definition UserUpdate :: "user_row \<Rightarrow> unit dbop" where
  "UserUpdate user = map_err (DatabaseError ''failed to update user'')
     (save users users_update (\<lambda>a b. u_username a = u_username b) u_id
       (user\<lparr>u_username := normalizeUsername (u_username user)\<rparr>))"

lemma UserGetByID_sound [sound_rules]: "sound_op (UserGetByID i)"
  unfolding UserGetByID_def by (intro sound_rules)

end
