(* ===== verification/PlanChange.thy ===== *)
theory PlanChange
  imports OrderService Users
begin

text \<open>
  \<open>internal/commercial/planchange/service.go\<close>, its scheduler's \<open>RunOnce\<close>,
  \<open>internal/database/repository/planchange_repository.go\<close> and the plan change operations
  of \<open>commercial_atomic.go\<close>: proration, immediate upgrades paid from the wallet, and
  downgrades scheduled for the end of the subscription.  The clock is read once per operation.
\<close>

section \<open>The repository\<close>

definition CreatePendingDowngrade :: "downgrade_row \<Rightarrow> downgrade_row dbop" where
  "CreatePendingDowngrade dg = map_err (DatabaseError ''failed to create pending downgrade'')
     (create downgrades downgrades_update (\<lambda>a b. d_user_id a = d_user_id b) (\<lambda>i. dg\<lparr>d_id := i\<rparr>))"

definition GetPendingDowngradeByUserID :: "int \<Rightarrow> downgrade_row dbop" where
  "GetPendingDowngradeByUserID u = map_err
     (\<lambda>e. if e = Gorm ErrRecordNotFound then NotFoundError ''pending downgrade'' u
          else DatabaseError ''failed to get pending downgrade'' e)
     (first downgrades (\<lambda>dg. d_user_id dg = u))"

definition DeletePendingDowngrade :: "int \<Rightarrow> unit dbop" where
  "DeletePendingDowngrade i =
     bindE (map_err (DatabaseError ''failed to delete pending downgrade'')
         (delete_where downgrades downgrades_update (\<lambda>dg. d_id dg = i)))
       (\<lambda>n. guardE (n \<noteq> 0) (NotFoundError ''pending downgrade'' i))"

definition DeletePendingDowngradeByUserID :: "int \<Rightarrow> unit dbop" where
  "DeletePendingDowngradeByUserID u =
     bindE (map_err (DatabaseError ''failed to delete pending downgrade by user ID'')
         (delete_where downgrades downgrades_update (\<lambda>dg. d_user_id dg = u)))
       (\<lambda>n. guardE (n \<noteq> 0) (NotFoundError ''pending downgrade'' u))"

definition ListDueDowngrades :: "time \<Rightarrow> downgrade_row list dbop" where
  "ListDueDowngrades now = map_err (DatabaseError ''failed to list due downgrades'')
     (query (\<lambda>d. filter (\<lambda>dg. d_effective_at dg \<le> now) (rows (downgrades d))))"

definition ListAllPendingDowngrades :: "int \<Rightarrow> int \<Rightarrow> (downgrade_row list \<times> int) dbop" where
  "ListAllPendingDowngrades limit offset =
     bindE (map_err (DatabaseError ''failed to count pending downgrades'')
         (query (\<lambda>d. count_rows (\<lambda>_. True) (downgrades d)))) (\<lambda>total.
     bindE (map_err (DatabaseError ''failed to list pending downgrades'')
         (query (\<lambda>d. limit_rows limit (drop (nat offset) (sort_key d_effective_at (rows (downgrades d)))))))
       (\<lambda>ds. ret (ds, total)))"

section \<open>Atomic plan changes\<close>

definition PlanProration :: "int \<Rightarrow> int \<Rightarrow> int \<Rightarrow> int \<Rightarrow> err + int" where
  "PlanProration oldPrice newPrice remainingDays totalDays =
     (if oldPrice < 0 \<or> newPrice < 0 \<or> remainingDays < 0 \<or> totalDays \<le> 0 then Inl (Gorm ErrInvalidData)
      else let v = ((newPrice - oldPrice) * remainingDays) sdiv totalDays in
        if \<not> in_i64 v then Inl (Gorm ErrInvalidData) else Inr v)"

definition lift_result :: "err + 'a \<Rightarrow> 'a dbop" where
  "lift_result r = (case r of Inl e \<Rightarrow> raise e | Inr x \<Rightarrow> ret x)"

text \<open>
  The plan a user is on: the one recorded on the user's row, or else that of the latest paid
  order (a missing payment time sorts last), with the price and duration the user paid for.
\<close>

definition currentPlan :: "user_row \<Rightarrow> plan_row dbop" where
  "currentPlan user =
     bindE (if u_current_plan_id user = 0 then
         bindE (map_err (\<lambda>e. if errors_is e (Gorm ErrRecordNotFound) then Repo ErrCurrentPlanUnknown else e)
             (first_latest orders o_paid_at (\<lambda>r. o_user_id r = u_id user
                \<and> (o_status r = StatusPaid \<or> o_status r = StatusCompleted))))
           (\<lambda>ord. ret (o_plan_id ord, o_original_amount ord))
       else ret (u_current_plan_id user, u_current_plan_price user)) (\<lambda>(i, price).
     bindE (first plans (\<lambda>p. p_id p = i)) (\<lambda>plan.
       ret (plan\<lparr>p_price := price,
          p_duration := (if 0 < u_current_plan_duration user then u_current_plan_duration user else p_duration plan)\<rparr>)))"

definition CurrentPlan :: "int \<Rightarrow> plan_row dbop" where
  "CurrentPlan userID = bindE (first users (\<lambda>u. u_id u = userID)) currentPlan"

definition change_plan :: "plan_row \<Rightarrow> user_row \<Rightarrow> user_row" where
  "change_plan plan r = r\<lparr>u_traffic_limit := p_traffic_limit plan, u_current_plan_id := p_id plan,
     u_current_plan_price := p_price plan, u_current_plan_duration := p_duration plan\<rparr>"

definition UpgradeAndDebit :: "time \<Rightarrow> int \<Rightarrow> int \<Rightarrow> int \<Rightarrow> unit dbop" where
  "UpgradeAndDebit now userID expectedPlanID newPlanID = transaction (
     bindE (update_where users users_update (\<lambda>u. u_id u = userID) (\<lambda>u. u\<lparr>u_balance := u_balance u\<rparr>)) (\<lambda>_.
     bindE (first users (\<lambda>u. u_id u = userID)) (\<lambda>user.
     case u_expires_at user of None \<Rightarrow> raise (Repo ErrCommercialExpired)
     | Some expires \<Rightarrow>
       if \<not> now < expires then raise (Repo ErrCommercialExpired)
       else
       bindE (currentPlan user) (\<lambda>old.
       if p_id old \<noteq> expectedPlanID then raise (Repo ErrCommercialState)
       else
       bindE (first plans (\<lambda>p. p_id p = newPlanID)) (\<lambda>plan.
       if \<not> p_is_active plan \<or> p_id plan = p_id old \<or> p_price plan \<le> p_price old \<or> p_duration old \<le> 0
         then raise (Repo ErrCommercialState)
       else
       bindE (lift_result (PlanProration (p_price old) (p_price plan)
                (whole_days (time_sub expires now)) (p_duration old))) (\<lambda>amount.
       bindE (if 0 < amount then
           bindE (DebitAtomic now userID amount (Some (new_tx TxTypePurchase None
              (''Plan upgrade '' @ show_int (p_id old) @ '' -> '' @ show_int (p_id plan)) ''system''))) (\<lambda>_. ret ())
         else ret ()) (\<lambda>_.
       bindE (update_where users users_update (\<lambda>u. u_id u = userID) (change_plan plan)) (\<lambda>_.
       bindE (delete_where downgrades downgrades_update (\<lambda>dg. d_user_id dg = userID)) (\<lambda>_. ret ()))))))))) "

definition ApplyDueDowngrade :: "time \<Rightarrow> int \<Rightarrow> unit dbop" where
  "ApplyDueDowngrade now i = transaction (
     bindE (first downgrades (\<lambda>dg. d_id dg = i \<and> d_effective_at dg \<le> now)) (\<lambda>pending.
     bindE (delete_where downgrades downgrades_update (\<lambda>dg. d_id dg = d_id pending)) (\<lambda>n.
     bindE (guardE (n = 1) (Repo ErrCommercialState)) (\<lambda>_.
     bindE (first users (\<lambda>u. u_id u = d_user_id pending)) (\<lambda>user.
     bindE (currentPlan user) (\<lambda>current.
     if p_id current \<noteq> d_current_plan_id pending
        \<or> (case u_expires_at user of None \<Rightarrow> False | Some t \<Rightarrow> d_effective_at pending < t) then ret ()
     else
     bindE (first plans (\<lambda>p. p_id p = d_new_plan_id pending)) (\<lambda>plan.
     if \<not> p_is_active plan then raise (Repo ErrCommercialState)
     else
     bindE (update_where users users_update (\<lambda>u. u_id u = u_id user) (change_plan plan)) (\<lambda>_. ret ()))))))))"

section \<open>The service\<close>

record plan_change_request =
  pc_user_id :: int
  pc_current_plan_id :: int
  pc_new_plan_id :: int

record plan_info =
  pi_id :: int
  pi_name :: string
  pi_price :: int
  pi_duration :: int
  pi_traffic_limit :: int

definition toPlanInfo :: "plan_row \<Rightarrow> plan_info" where
  "toPlanInfo p = \<lparr>pi_id = p_id p, pi_name = p_name p, pi_price = p_price p, pi_duration = p_duration p,
     pi_traffic_limit = p_traffic_limit p\<rparr>"

record plan_change_result =
  px_price_difference :: int
  px_remaining_days :: int
  px_new_expire_at :: time
  px_is_upgrade :: bool
  px_current_plan :: plan_info
  px_new_plan :: plan_info

definition GetCurrentPlan :: "time \<Rightarrow> int \<Rightarrow> plan_info dbop" where
  "GetCurrentPlan now userID =
     bindE (map_err (\<lambda>_. PlanChangeE ErrChangeUserNotFound) (UserGetByID userID)) (\<lambda>user.
     bindE (guardE (case u_expires_at user of None \<Rightarrow> False | Some t \<Rightarrow> now < t) (PlanChangeE ErrNoActiveSubscription)) (\<lambda>_.
     bindE (CurrentPlan userID) (\<lambda>plan. ret (toPlanInfo plan))))"

definition CalculateChange :: "time \<Rightarrow> plan_change_request \<Rightarrow> plan_change_result dbop" where
  "CalculateChange now req =
     (if pc_user_id req \<le> 0 then raise (PlanChangeE ErrChangeUserNotFound)
      else
      bindE (map_err (\<lambda>_. PlanChangeE ErrChangeUserNotFound) (UserGetByID (pc_user_id req))) (\<lambda>user.
      case u_expires_at user of None \<Rightarrow> raise (PlanChangeE ErrNoActiveSubscription)
      | Some expires \<Rightarrow>
        if expires < now then raise (PlanChangeE ErrNoActiveSubscription)
        else
        bindE (CurrentPlan (pc_user_id req)) (\<lambda>current.
        if p_id current = pc_new_plan_id req then raise (PlanChangeE ErrSamePlan)
        else if 0 < pc_current_plan_id req \<and> pc_current_plan_id req \<noteq> p_id current
          then raise (Repo ErrCurrentPlanUnknown)
        else
        bindE (map_err (\<lambda>_. PlanChangeE ErrChangePlanNotFound) (first plans (\<lambda>p. p_id p = pc_new_plan_id req))) (\<lambda>newPlan.
        if \<not> p_is_active newPlan then raise (PlanChangeE ErrChangePlanInactive)
        else
        let days = whole_days (time_sub expires now); remainingDays = (if days < 0 then 0 else days) in
        bindE (lift_result (PlanProration (p_price current) (p_price newPlan) remainingDays (p_duration current)))
          (\<lambda>diff. ret \<lparr>px_price_difference = diff, px_remaining_days = remainingDays, px_new_expire_at = expires,
             px_is_upgrade = (p_price current < p_price newPlan), px_current_plan = toPlanInfo current,
             px_new_plan = toPlanInfo newPlan\<rparr>)))))"

definition CalculateProration :: "int \<Rightarrow> int \<Rightarrow> int \<Rightarrow> int \<Rightarrow> int" where
  "CalculateProration oldPrice newPrice remainingDays totalDays =
     (case PlanProration oldPrice newPrice remainingDays totalDays of Inl _ \<Rightarrow> 0 | Inr a \<Rightarrow> a)"

definition ExecuteUpgrade :: "time \<Rightarrow> plan_change_request \<Rightarrow> unit dbop" where
  "ExecuteUpgrade now req =
     bindE (CalculateChange now req) (\<lambda>result.
     bindE (guardE (px_is_upgrade result) (PlanChangeE ErrUpgradeNotAllowed)) (\<lambda>_.
       map_err (\<lambda>e. if errors_is e (Repo ErrRepoInsufficient) then PlanChangeE ErrChangeInsufficient else e)
         (UpgradeAndDebit now (pc_user_id req) (pi_id (px_current_plan result)) (pc_new_plan_id req))))"

definition ScheduleDowngrade :: "time \<Rightarrow> plan_change_request \<Rightarrow> unit dbop" where
  "ScheduleDowngrade now req =
     bindE (CalculateChange now req) (\<lambda>result.
     bindE (guardE (\<not> px_is_upgrade result) (PlanChangeE ErrDowngradeNotAllowed)) (\<lambda>_.
     bindE (attempt (GetPendingDowngradeByUserID (pc_user_id req))) (\<lambda>existing.
     bindE (guardE (isl existing) (PlanChangeE ErrPendingDowngrade)) (\<lambda>_.
     bindE (map_err (\<lambda>_. PlanChangeE ErrChangeUserNotFound) (UserGetByID (pc_user_id req))) (\<lambda>user.
     case u_expires_at user of None \<Rightarrow> raise NilDereference
     | Some expires \<Rightarrow>
       bindE (CreatePendingDowngrade \<lparr>d_id = 0, d_user_id = pc_user_id req,
          d_current_plan_id = pi_id (px_current_plan result), d_new_plan_id = pc_new_plan_id req,
          d_effective_at = expires, d_created_at = now\<rparr>) (\<lambda>_. ret ()))))))"

record pending_downgrade =
  pd_row :: downgrade_row
  pd_current_plan :: "plan_info option"
  pd_new_plan :: "plan_info option"

definition toPendingDowngrade :: "db \<Rightarrow> downgrade_row \<Rightarrow> pending_downgrade" where
  "toPendingDowngrade d dg = \<lparr>pd_row = dg,
     pd_current_plan = map_option toPlanInfo (find (\<lambda>p. p_id p = d_current_plan_id dg) (rows (plans d))),
     pd_new_plan = map_option toPlanInfo (find (\<lambda>p. p_id p = d_new_plan_id dg) (rows (plans d)))\<rparr>"

definition ListPendingDowngrades :: "int \<Rightarrow> int \<Rightarrow> (pending_downgrade list \<times> int) dbop" where
  "ListPendingDowngrades page pageSize =
     (let page = (if page < 1 then 1 else page);
          pageSize = (if pageSize < 1 \<or> 100 < pageSize then 20 else pageSize) in
      bindE (ListAllPendingDowngrades pageSize (wrap64 (wrap64 (page - 1) * pageSize))) (\<lambda>(items, total).
      bindE (query (\<lambda>d. map (toPendingDowngrade d) items)) (\<lambda>result. ret (result, total))))"

definition GetPendingDowngrade :: "int \<Rightarrow> pending_downgrade dbop" where
  "GetPendingDowngrade userID = map_err (\<lambda>_. PlanChangeE ErrNoPendingDowngrade)
     (bindE (GetPendingDowngradeByUserID userID) (\<lambda>dg. query (\<lambda>d. toPendingDowngrade d dg)))"

definition CancelPendingDowngrade :: "int \<Rightarrow> unit dbop" where
  "CancelPendingDowngrade userID =
     map_err (\<lambda>_. PlanChangeE ErrNoPendingDowngrade) (DeletePendingDowngradeByUserID userID)"

definition executeDueDowngrade :: "time \<Rightarrow> downgrade_row \<Rightarrow> unit dbop" where
  "executeDueDowngrade now dg = ApplyDueDowngrade now (d_id dg)"

fun process_each :: "time \<Rightarrow> downgrade_row list \<Rightarrow> int \<Rightarrow> err list \<Rightarrow> (int \<times> err list) dbop" where
  "process_each now [] processed failures = ret (processed, failures)"
| "process_each now (dg # rest) processed failures =
     bindE (attempt (executeDueDowngrade now dg)) (\<lambda>r. case r of
         Inl e \<Rightarrow> process_each now rest processed (failures @ [e])
       | Inr _ \<Rightarrow> process_each now rest (processed + 1) failures)"

text \<open>Returns the number processed and the joined failures, both at once.\<close>

definition ProcessDueDowngrades :: "time \<Rightarrow> (int \<times> err option) dbop" where
  "ProcessDueDowngrades now =
     bindE (ListDueDowngrades now) (\<lambda>ds.
     bindE (process_each now ds 0 []) (\<lambda>(processed, failures). ret (processed, join_failures failures)))"

text \<open>One round of the commercial scheduler: due downgrades, then pending fulfilments.\<close>

definition opt_list :: "'a option \<Rightarrow> 'a list" where
  "opt_list x = (case x of None \<Rightarrow> [] | Some y \<Rightarrow> [y])"

definition RunOnce :: "order_service option \<Rightarrow> time \<Rightarrow> err option dbop" where
  "RunOnce svc now =
     bindE (attempt (ProcessDueDowngrades now)) (\<lambda>r.
     let downgradeErr = (case r of Inl e \<Rightarrow> Some e | Inr (_, e) \<Rightarrow> e) in
     case svc of None \<Rightarrow> ret downgradeErr
     | Some s \<Rightarrow> bindE (attempt (RetryPendingFulfillments s)) (\<lambda>q.
         ret (join_failures (opt_list downgradeErr @ (case q of Inl e \<Rightarrow> [e] | Inr _ \<Rightarrow> [])))))"

section \<open>Proration\<close>



section \<open>Upgrades\<close>

text \<open>\<open>on_plan d user p\<close>: \<open>p\<close> is the plan \<open>currentPlan\<close> finds for \<open>user\<close>.\<close>

definition on_plan :: "db \<Rightarrow> user_row \<Rightarrow> plan_row \<Rightarrow> bool" where
  "on_plan d user p \<longleftrightarrow> (\<exists>q i price. find (\<lambda>p. p_id p = i) (rows (plans d)) = Some q
     \<and> p = q\<lparr>p_price := price, p_duration := (if 0 < u_current_plan_duration user
           then u_current_plan_duration user else p_duration q)\<rparr>
     \<and> (if u_current_plan_id user = 0
        then \<exists>ord \<in> set (rows (orders d)). o_user_id ord = u_id user
           \<and> (o_status ord = StatusPaid \<or> o_status ord = StatusCompleted) \<and> o_plan_id ord = i \<and> o_original_amount ord = price
        else i = u_current_plan_id user \<and> price = u_current_plan_price user))"

lemma currentPlan_wpt:
  assumes "\<And>p. on_plan d user p \<Longrightarrow> Q p d" and "\<And>e. E e d"
  shows "wpt (currentPlan user) Q E d"
  unfolding currentPlan_def
  apply (intro wpt_rules assms)
  apply simp_all
  subgoal for ord by (intro wpt_rules assms) (auto simp: on_plan_def)
  subgoal by (intro wpt_rules assms) (auto simp: on_plan_def)
  done

lemma currentPlan_sound [sound_rules]: "sound_op (currentPlan user)"
  by (auto intro!: sound_opI currentPlan_wpt sound_step_refl)

lemma lift_result_wpt [wpt_rules]:
  "(\<And>x. r = Inr x \<Longrightarrow> Q x d) \<Longrightarrow> (\<And>e. r = Inl e \<Longrightarrow> E e d) \<Longrightarrow> wpt (lift_result r) Q E d"
  by (cases r) (simp_all add: lift_result_def wpt_ret wpt_raise)

definition upgraded :: "time \<Rightarrow> int \<Rightarrow> int \<Rightarrow> int \<Rightarrow> db \<Rightarrow> db \<Rightarrow> int \<Rightarrow> bool" where
  "upgraded now userID expected newPlanID d d' amount \<longleftrightarrow>
     (\<exists>user expires old plan d1.
        find (\<lambda>u. u_id u = userID) (rows (users d)) = Some user
      \<and> u_expires_at user = Some expires \<and> now < expires
      \<and> on_plan d user old \<and> p_id old = expected
      \<and> find (\<lambda>p. p_id p = newPlanID) (rows (plans d)) = Some plan
      \<and> p_is_active plan \<and> p_id plan \<noteq> p_id old \<and> p_price old < p_price plan
      \<and> PlanProration (p_price old) (p_price plan) (whole_days (time_sub expires now)) (p_duration old) = Inr amount
      \<and> (if 0 < amount then amount \<le> wallet d userID \<and> entry_posted d d1 userID (- amount) else d1 = d)
      \<and> d' = d1\<lparr>users := upd_rows (\<lambda>u. u_id u = userID) (change_plan plan) (users d1),
                downgrades := del_rows (\<lambda>dg. d_user_id dg = userID) (downgrades d1)\<rparr>)"

lemma user_self_update [simp]: "u\<lparr>u_balance := u_balance u\<rparr> = (u :: user_row)"
  by (cases u) simp

lemma PlanProration_in_range: "PlanProration a b c d = Inr v \<Longrightarrow> in_i64 v"
  by (auto simp: PlanProration_def Let_def split: if_splits)

lemma UpgradeAndDebit_wpt:
  assumes s: "sound_db d"
  shows "wpt (UpgradeAndDebit now userID expected newPlanID)
    (\<lambda>_ d'. \<exists>amount. upgraded now userID expected newPlanID d d' amount) (\<lambda>_ d'. d' = d) d"
proof -
  have wf: "wf_db d" using s by (simp add: sound_db_def)
  show ?thesis
    unfolding UpgradeAndDebit_def
    apply (intro wpt_rules)
    apply simp_all
    apply (intro wpt_rules currentPlan_wpt debit_wpt wf PlanProration_in_range TrueI)
    apply (simp_all add: upgraded_def)
    subgoal for user expires old plan amount d'
      by (rule exI [of _ amount], rule exI [of _ old]) (auto intro: exI [of _ d'])
    subgoal for user expires old plan amount
      by (rule exI [of _ amount], rule exI [of _ old]) auto
    done
qed


lemma change_plan_fields [simp]:
  "u_id (change_plan p u) = u_id u" "u_balance (change_plan p u) = u_balance u"
  "u_expires_at (change_plan p u) = u_expires_at u"
  by (simp_all add: change_plan_def)

lemma wallet_change_plan [simp]:
  "wallet (d\<lparr>users := upd_rows p (change_plan plan) (users d)\<rparr>) u = wallet d u"
  by (rule wallet_upd_frame) simp_all

lemma sound_step_downgrades:
  "sound_db d \<Longrightarrow> keyed d_id x \<Longrightarrow> sound_step d (d\<lparr>downgrades := x\<rparr>)"
  by (auto intro!: sound_step_same simp: sound_db_def wf_db_def columns_ok_def)

lemma change_plan_sound:
  assumes "sound_db d"
  shows "sound_step d (d\<lparr>users := upd_rows p (change_plan plan) (users d), downgrades := del_rows q (downgrades d)\<rparr>)"
proof -
  let ?e = "d\<lparr>users := upd_rows p (change_plan plan) (users d)\<rparr>"
  have a: "sound_step d ?e" using assms by (rule sound_step_user_frame) simp_all
  then have "sound_db ?e" by (simp add: sound_step_def)
  then have "sound_step ?e (?e\<lparr>downgrades := del_rows q (downgrades ?e)\<rparr>)"
    by (intro sound_step_downgrades keyed_del) (auto simp: sound_db_def wf_db_def)
  from sound_step_trans [OF a this] show ?thesis by simp
qed

lemma upgraded_sound:
  assumes "upgraded now u e n d d' amount" and s: "sound_db d"
  shows "sound_step d d'"
proof -
  from assms(1) obtain plan d1 where pay: "if 0 < amount then amount \<le> wallet d u \<and> entry_posted d d1 u (- amount) else d1 = d"
    and d': "d' = d1\<lparr>users := upd_rows (\<lambda>x. u_id x = u) (change_plan plan) (users d1),
        downgrades := del_rows (\<lambda>dg. d_user_id dg = u) (downgrades d1)\<rparr>"
    unfolding upgraded_def by blast
  have s1: "sound_step d d1"
    using pay s wallet_range [OF s, of u]
    by (auto intro: sound_step_refl entry_posted_sound split: if_splits)
  then have "sound_step d1 d'" unfolding d' by (intro change_plan_sound) (simp add: sound_step_def)
  with s1 show ?thesis by (rule sound_step_trans)
qed

lemma UpgradeAndDebit_sound [sound_rules]: "sound_op (UpgradeAndDebit now u e n)"
  by (rule sound_opI, rule wpt_mono [OF UpgradeAndDebit_wpt]) (auto intro: sound_step_refl upgraded_sound)


definition sample_upgrade_world :: "db world" where
  "sample_upgrade_world = fresh_world (sample_db\<lparr>
     users := \<lparr>rows = [(sample_user 1 500)\<lparr>u_expires_at := Some (10 * day), u_current_plan_id := 1,
        u_current_plan_price := 300, u_current_plan_duration := 30\<rparr>], seq = 1\<rparr>,
     plans := \<lparr>rows = [sample_plan 1 300, sample_plan 2 600], seq = 2\<rparr>,
     downgrades := \<lparr>rows = [\<lparr>d_id = 1, d_user_id = 1, d_current_plan_id = 1, d_new_plan_id = 2,
        d_effective_at = 10 * day, d_created_at = 0\<rparr>], seq = 1\<rparr>\<rparr>)"

lemma sample_upgrade_sound: "sound_db (tables sample_upgrade_world)"
  by (simp add: sample_upgrade_world_def sample_defs sound_db_def wf_db_def wallets_ok_def columns_ok_def
      price_ok_def keyed_def i64_defs)


section \<open>Scheduled downgrades\<close>

definition downgrade_applied :: "time \<Rightarrow> int \<Rightarrow> db \<Rightarrow> db \<Rightarrow> bool" where
  "downgrade_applied now i d d' \<longleftrightarrow> (\<exists>pending user current.
      pending \<in> set (rows (downgrades d)) \<and> d_id pending = i \<and> d_effective_at pending \<le> now
    \<and> find (\<lambda>u. u_id u = d_user_id pending) (rows (users d)) = Some user \<and> on_plan d user current
    \<and> (let d1 = d\<lparr>downgrades := del_rows (\<lambda>dg. d_id dg = i) (downgrades d)\<rparr> in
       if p_id current \<noteq> d_current_plan_id pending
          \<or> (case u_expires_at user of None \<Rightarrow> False | Some t \<Rightarrow> d_effective_at pending < t)
       then d' = d1
       else \<exists>plan. find (\<lambda>p. p_id p = d_new_plan_id pending) (rows (plans d)) = Some plan \<and> p_is_active plan
         \<and> d' = d1\<lparr>users := upd_rows (\<lambda>u. u_id u = d_user_id pending) (change_plan plan) (users d)\<rparr>))"

lemma on_plan_downgrades [simp]: "on_plan (d\<lparr>downgrades := x\<rparr>) user p = on_plan d user p"
  by (simp add: on_plan_def)

lemma ApplyDueDowngrade_wpt:
  "wpt (ApplyDueDowngrade now i) (\<lambda>_. downgrade_applied now i d) (\<lambda>_ d'. d' = d) d"
  unfolding ApplyDueDowngrade_def
  apply (intro wpt_rules currentPlan_wpt)
  apply (simp_all)
  subgoal for pending user p by (auto simp: downgrade_applied_def Let_def)
  subgoal for pending user p plan
    unfolding downgrade_applied_def Let_def
    by (intro exI [of _ pending] exI [of _ user] exI [of _ p] conjI) (auto split: option.splits)
  done


lemma downgrade_applied_sound:
  assumes "downgrade_applied now i d d'" and s: "sound_db d"
  shows "sound_step d d'"
proof -
  let ?d1 = "d\<lparr>downgrades := del_rows (\<lambda>dg. d_id dg = i) (downgrades d)\<rparr>"
  have s1: "sound_step d ?d1"
    using s by (intro sound_step_downgrades keyed_del) (auto simp: sound_db_def wf_db_def)
  then have "sound_step ?d1 (?d1\<lparr>users := upd_rows p (change_plan plan) (users ?d1)\<rparr>)" for p plan
    by (intro sound_step_user_frame) (auto simp: sound_step_def)
  then have s2: "sound_step d (?d1\<lparr>users := upd_rows p (change_plan plan) (users d)\<rparr>)" for p plan
    using sound_step_trans [OF s1] by simp
  from assms(1) show ?thesis
    unfolding downgrade_applied_def Let_def using s1 s2 by (auto split: if_splits)
qed

lemma ApplyDueDowngrade_sound [sound_rules]: "sound_op (ApplyDueDowngrade now i)"
  by (rule sound_opI, rule wpt_mono [OF ApplyDueDowngrade_wpt]) (auto intro: sound_step_refl downgrade_applied_sound)

lemma process_each_sound [sound_rules]: "sound_op (process_each now ds n fs)"
  by (induction ds arbitrary: n fs) (auto intro!: sound_rules simp: executeDueDowngrade_def)

lemma ProcessDueDowngrades_sound [sound_rules]: "sound_op (ProcessDueDowngrades now)"
  unfolding ProcessDueDowngrades_def ListDueDowngrades_def
  by (intro sound_rules) (auto intro!: sound_rules split: prod.split)

lemma lift_result_sound [sound_rules]: "sound_op (lift_result r)"
  unfolding lift_result_def by (intro sound_rules)

lemma CalculateChange_sound [sound_rules]: "sound_op (CalculateChange now req)"
  unfolding CalculateChange_def CurrentPlan_def Let_def by (intro sound_rules)

lemma ExecuteUpgrade_sound [sound_rules]: "sound_op (ExecuteUpgrade now req)"
  unfolding ExecuteUpgrade_def by (intro sound_rules)

lemma downgrade_statements_sound [sound_rules]:
  "sound_op (CreatePendingDowngrade dg)" "sound_op (DeletePendingDowngradeByUserID u)"
  unfolding CreatePendingDowngrade_def DeletePendingDowngradeByUserID_def
  by (auto intro!: sound_opI wpt_rules sound_step_refl sound_step_downgrades keyed_add keyed_del
      simp: sound_db_def wf_db_def)

lemma ScheduleDowngrade_sound [sound_rules]: "sound_op (ScheduleDowngrade now req)"
  unfolding ScheduleDowngrade_def GetPendingDowngradeByUserID_def by (intro sound_rules)

lemma CancelPendingDowngrade_sound [sound_rules]: "sound_op (CancelPendingDowngrade u)"
  unfolding CancelPendingDowngrade_def by (intro sound_rules)

text \<open>
  A scheduled downgrade.  Under every fault schedule, applying it either fails and leaves
  every table unchanged, or consumes exactly that scheduled row, which had to be due, and puts
  its user on the cheaper plan only when the user is still on the plan the downgrade was
  scheduled from and has not renewed past its date; otherwise no user changes.  No money moves
  and no expiry date changes.
\<close>

theorem downgrade_outcome:
  fixes w w' :: "db world"
  assumes run: "ApplyDueDowngrade now i w = (r, w')"
  shows "case r of Inl _ \<Rightarrow> tables w' = tables w
    | Inr _ \<Rightarrow> \<exists>pending user current. pending \<in> set (rows (downgrades (tables w))) \<and> d_id pending = i
        \<and> d_effective_at pending \<le> now
        \<and> find (\<lambda>u. u_id u = d_user_id pending) (rows (users (tables w))) = Some user \<and> on_plan (tables w) user current
        \<and> downgrades (tables w') = del_rows (\<lambda>dg. d_id dg = i) (downgrades (tables w))
        \<and> (users (tables w') = users (tables w) \<or>
            (p_id current = d_current_plan_id pending \<and> (\<forall>t. u_expires_at user = Some t \<longrightarrow> t \<le> d_effective_at pending) \<and>
             (\<exists>plan. find (\<lambda>p. p_id p = d_new_plan_id pending) (rows (plans (tables w))) = Some plan \<and> p_is_active plan \<and>
                users (tables w') = upd_rows (\<lambda>u. u_id u = d_user_id pending) (change_plan plan) (users (tables w)))))
        \<and> ledger (tables w') = ledger (tables w) \<and> (\<forall>u. wallet (tables w') u = wallet (tables w) u)"
proof (cases r)
  case (Inl e)
  with wptD_Inl [OF ApplyDueDowngrade_wpt] run show ?thesis by simp
next
  case (Inr x)
  from wptD_Inr [OF ApplyDueDowngrade_wpt run [unfolded Inr]]
  obtain pending user current where p: "pending \<in> set (rows (downgrades (tables w)))" "d_id pending = i"
      "d_effective_at pending \<le> now"
      "find (\<lambda>u. u_id u = d_user_id pending) (rows (users (tables w))) = Some user" "on_plan (tables w) user current"
    and c: "let d1 = (tables w)\<lparr>downgrades := del_rows (\<lambda>dg. d_id dg = i) (downgrades (tables w))\<rparr> in
       if p_id current \<noteq> d_current_plan_id pending
          \<or> (case u_expires_at user of None \<Rightarrow> False | Some t \<Rightarrow> d_effective_at pending < t)
       then tables w' = d1
       else \<exists>plan. find (\<lambda>p. p_id p = d_new_plan_id pending) (rows (plans (tables w))) = Some plan \<and> p_is_active plan
         \<and> tables w' = d1\<lparr>users := upd_rows (\<lambda>u. u_id u = d_user_id pending) (change_plan plan) (users (tables w))\<rparr>"
    unfolding downgrade_applied_def by blast
  have wal: "wallet ((tables w)\<lparr>downgrades := y, users := upd_rows q (change_plan plan) (users (tables w))\<rparr>) u
      = wallet (tables w) u" for q plan y u
    using wallet_change_plan [where d = "(tables w)\<lparr>downgrades := y\<rparr>" and p = q] by simp
  show ?thesis unfolding Inr sum.case
    apply (intro exI [of _ pending] exI [of _ user] exI [of _ current] conjI p)
    using c by (auto simp: Let_def wal not_less split: if_splits option.splits)
qed

definition sample_downgrade_world :: "db world" where
  "sample_downgrade_world = sample_upgrade_world\<lparr>tables := (tables sample_upgrade_world)\<lparr>
     plans := \<lparr>rows = [sample_plan 1 300, sample_plan 2 100], seq = 2\<rparr>\<rparr>\<rparr>"

theorem downgrade_outcome_witness:
  "let w' = snd (ApplyDueDowngrade (10 * day) 1 sample_downgrade_world) in
   map u_current_plan_id (rows (users (tables w'))) = [2] \<and> rows (downgrades (tables w')) = []
   \<and> wallet (tables w') 1 = wallet (tables sample_downgrade_world) 1"
proof -
  let ?m = "ApplyDueDowngrade (10 * day) 1 sample_downgrade_world"
  have ok: "\<not> isl (fst ?m)" and "map u_current_plan_id (rows (users (tables (snd ?m)))) = [2]"
    and "rows (downgrades (tables (snd ?m))) = []" by code_simp+
  with downgrade_outcome [OF run_Inr [OF ok]] show ?thesis
    by (cases "fst ?m") (auto simp: Let_def)
qed

end
