(* ===== verification/Trials.thy ===== *)
theory Trials
  imports OrderService Users
begin

text \<open>
  \<open>internal/commercial/trial/service.go\<close> and
  \<open>internal/database/repository/trial_repository.go\<close>: trial subscriptions, at most one per
  user.  The service's configuration is a parameter; the clock is read once per operation.
\<close>

section \<open>The repository\<close>

definition TrialCreate :: "trial_row \<Rightarrow> trial_row dbop" where
  "TrialCreate tr = create trials trials_update (\<lambda>a b. tr_user_id a = tr_user_id b) (\<lambda>i. tr\<lparr>tr_id := i\<rparr>)"

definition TrialGetByID :: "int \<Rightarrow> trial_row dbop" where
  "TrialGetByID i = first trials (\<lambda>tr. tr_id tr = i)"

definition TrialGetByUserID :: "int \<Rightarrow> trial_row dbop" where
  "TrialGetByUserID u = first trials (\<lambda>tr. tr_user_id tr = u)"

definition TrialUpdate :: "trial_row \<Rightarrow> unit dbop" where
  "TrialUpdate tr = save trials trials_update (\<lambda>a b. tr_user_id a = tr_user_id b) tr_id tr"

definition TrialUpdateStatus :: "int \<Rightarrow> string \<Rightarrow> unit dbop" where
  "TrialUpdateStatus i status =
     bindE (update_where trials trials_update (\<lambda>tr. tr_id tr = i) (\<lambda>tr. tr\<lparr>tr_status := status\<rparr>)) (\<lambda>_. ret ())"

definition RepoUpdateTrafficUsed :: "int \<Rightarrow> int \<Rightarrow> unit dbop" where
  "RepoUpdateTrafficUsed i used =
     bindE (update_where trials trials_update (\<lambda>tr. tr_id tr = i) (\<lambda>tr. tr\<lparr>tr_traffic_used := used\<rparr>)) (\<lambda>_. ret ())"

definition RepoMarkConverted :: "time \<Rightarrow> int \<Rightarrow> unit dbop" where
  "RepoMarkConverted now u =
     bindE (update_where trials trials_update (\<lambda>tr. tr_user_id tr = u)
         (\<lambda>tr. tr\<lparr>tr_status := ''converted'', tr_converted_at := Some now\<rparr>)) (\<lambda>_. ret ())"

definition ListExpired :: "time \<Rightarrow> trial_row list dbop" where
  "ListExpired now = query (\<lambda>d. filter (\<lambda>tr. tr_status tr = ''active'' \<and> tr_expire_at tr < now) (rows (trials d)))"

definition ListActive :: "trial_row list dbop" where
  "ListActive = query (\<lambda>d. filter (\<lambda>tr. tr_status tr = ''active'') (rows (trials d)))"

definition TrialCountByStatus :: "string \<Rightarrow> int dbop" where
  "TrialCountByStatus status = query (\<lambda>d. count_rows (\<lambda>tr. tr_status tr = status) (trials d))"

definition CountConverted :: "int dbop" where
  "CountConverted = TrialCountByStatus ''converted''"

definition CountTotal :: "int dbop" where
  "CountTotal = query (\<lambda>d. count_rows (\<lambda>_. True) (trials d))"

definition ExistsByUserID :: "int \<Rightarrow> bool dbop" where
  "ExistsByUserID u =
     bindE (query (\<lambda>d. count_rows (\<lambda>tr. tr_user_id tr = u) (trials d))) (\<lambda>n. ret (0 < n))"

section \<open>The service\<close>

record trial_config =
  tc_enabled :: bool
  tc_duration :: int
  tc_traffic_limit :: int
  tc_require_email_verify :: bool
  tc_auto_activate :: bool
  tc_feature_restrictions :: "string list"

definition TrialDefaultConfig :: trial_config where
  "TrialDefaultConfig = \<lparr>tc_enabled = True, tc_duration = 7, tc_traffic_limit = 107374182400,
     tc_require_email_verify = False, tc_auto_activate = True, tc_feature_restrictions = []\<rparr>"

record trial_view =
  tv_id :: int
  tv_user_id :: int
  tv_status :: string
  tv_start_at :: time
  tv_expire_at :: time
  tv_traffic_used :: int
  tv_converted_at :: "time option"
  tv_created_at :: time
  tv_remaining_days :: int
  tv_remaining_traffic :: int
  tv_traffic_limit :: int

definition toTrial :: "trial_config \<Rightarrow> time \<Rightarrow> trial_row \<Rightarrow> trial_view" where
  "toTrial c now rt =
     (let days = \<lceil>f64 (hours (time_sub (tr_expire_at rt) now) / 24)\<rceil>;
          traffic = wrap64 (tc_traffic_limit c - tr_traffic_used rt)
      in \<lparr>tv_id = tr_id rt, tv_user_id = tr_user_id rt, tv_status = tr_status rt, tv_start_at = tr_start_at rt,
        tv_expire_at = tr_expire_at rt, tv_traffic_used = tr_traffic_used rt, tv_converted_at = tr_converted_at rt,
        tv_created_at = tr_created_at rt,
        tv_remaining_days = (if tr_status rt = ''active'' \<and> now < tr_expire_at rt
           then (if days < 1 then 1 else days) else 0),
        tv_remaining_traffic = (if traffic < 0 then 0 else traffic),
        tv_traffic_limit = tc_traffic_limit c\<rparr>)"

definition userHasActiveSubscription :: "user_row \<Rightarrow> time \<Rightarrow> bool" where
  "userHasActiveSubscription user now \<longleftrightarrow> u_enabled user \<and> (case u_expires_at user of
      Some t \<Rightarrow> \<not> t < now | None \<Rightarrow> 0 < u_traffic_limit user)"

definition new_trial :: "time \<Rightarrow> int \<Rightarrow> int \<Rightarrow> trial_row" where
  "new_trial now userID days = \<lparr>tr_id = 0, tr_user_id = userID, tr_status = ''active'', tr_start_at = now,
     tr_expire_at = add_days now days, tr_traffic_used = 0, tr_converted_at = None, tr_created_at = now\<rparr>"

definition ActivateTrial :: "trial_config \<Rightarrow> time \<Rightarrow> int \<Rightarrow> trial_view dbop" where
  "ActivateTrial c now userID =
     (if \<not> tc_enabled c then raise (TrialE ErrTrialDisabled)
      else
      bindE (UserGetByID userID) (\<lambda>user.
      bindE (guardE (\<not> userHasActiveSubscription user now) (TrialE ErrActiveSubscription)) (\<lambda>_.
      bindE (ExistsByUserID userID) (\<lambda>ex.
      bindE (guardE (\<not> ex) (TrialE ErrTrialAlreadyUsed)) (\<lambda>_.
      bindE (guardE (\<not> (tc_require_email_verify c \<and> \<not> u_email_verified user)) (TrialE ErrEmailNotVerified)) (\<lambda>_.
      bindE (TrialCreate (new_trial now userID (tc_duration c))) (\<lambda>rt. ret (toTrial c now rt))))))))"

text \<open>
  A trial read back: active ones are shown as converted when the user has a subscription by
  now, as expired when their time is over; the stored row follows, best effort.
\<close>

definition normalizeTrialState :: "time \<Rightarrow> trial_row \<Rightarrow> trial_row dbop" where
  "normalizeTrialState now rt =
     (if tr_status rt \<noteq> ''active'' then ret rt
      else
      bindE (attempt (UserGetByID (tr_user_id rt))) (\<lambda>r.
      if (case r of Inl _ \<Rightarrow> False | Inr user \<Rightarrow> userHasActiveSubscription user now) then
        bindE (attempt (RepoMarkConverted now (tr_user_id rt))) (\<lambda>_.
          ret (rt\<lparr>tr_status := ''converted'', tr_converted_at := Some now\<rparr>))
      else if \<not> tr_expire_at rt < now then ret rt
      else
        bindE (attempt (TrialUpdateStatus (tr_id rt) ''expired'')) (\<lambda>_. ret (rt\<lparr>tr_status := ''expired''\<rparr>))))"

definition GetTrial :: "trial_config \<Rightarrow> time \<Rightarrow> int \<Rightarrow> trial_view dbop" where
  "GetTrial c now userID =
     bindE (map_err (\<lambda>_. TrialE ErrTrialNotFound) (TrialGetByUserID userID)) (\<lambda>rt.
     bindE (normalizeTrialState now rt) (\<lambda>rt. ret (toTrial c now rt)))"

definition GetTrialByID :: "trial_config \<Rightarrow> time \<Rightarrow> int \<Rightarrow> trial_view dbop" where
  "GetTrialByID c now i =
     bindE (map_err (\<lambda>_. TrialE ErrTrialNotFound) (TrialGetByID i)) (\<lambda>rt.
     bindE (normalizeTrialState now rt) (\<lambda>rt. ret (toTrial c now rt)))"

definition HasUsedTrial :: "int \<Rightarrow> bool dbop" where
  "HasUsedTrial userID = bindE (attempt (ExistsByUserID userID)) (\<lambda>r. ret (case r of Inl _ \<Rightarrow> False | Inr b \<Rightarrow> b))"

definition IsTrialActive :: "time \<Rightarrow> int \<Rightarrow> bool dbop" where
  "IsTrialActive now userID = bindE (attempt (TrialGetByUserID userID)) (\<lambda>r.
     ret (case r of Inl _ \<Rightarrow> False | Inr tr \<Rightarrow> tr_status tr = ''active'' \<and> now < tr_expire_at tr))"

definition UpdateTrafficUsed :: "int \<Rightarrow> int \<Rightarrow> unit dbop" where
  "UpdateTrafficUsed userID used =
     bindE (map_err (\<lambda>_. TrialE ErrTrialNotFound) (TrialGetByUserID userID)) (\<lambda>tr.
     bindE (guardE (tr_status tr = ''active'') (TrialE ErrTrialNotActive)) (\<lambda>_.
       RepoUpdateTrafficUsed (tr_id tr) used))"

definition MarkConverted :: "time \<Rightarrow> int \<Rightarrow> unit dbop" where
  "MarkConverted now userID =
     bindE (map_err (\<lambda>_. TrialE ErrTrialNotFound) (TrialGetByUserID userID)) (\<lambda>tr.
       if tr_status tr = ''converted'' then ret () else RepoMarkConverted now userID)"

fun expire_trials_each :: "trial_row list \<Rightarrow> int \<Rightarrow> int dbop" where
  "expire_trials_each [] count = ret count"
| "expire_trials_each (tr # rest) count =
     bindE (attempt (TrialUpdateStatus (tr_id tr) ''expired'')) (\<lambda>r. case r of
         Inl _ \<Rightarrow> expire_trials_each rest count | Inr _ \<Rightarrow> expire_trials_each rest (count + 1))"

definition ExpireTrials :: "time \<Rightarrow> int dbop" where
  "ExpireTrials now = bindE (ListExpired now) (\<lambda>trs. expire_trials_each trs 0)"

record trial_stats =
  ts_total :: int
  ts_active :: int
  ts_expired :: int
  ts_converted :: int
  ts_conversion_rate :: rat

definition TrialGetStats :: "trial_stats dbop" where
  "TrialGetStats =
     bindE CountTotal (\<lambda>n.
     bindE (TrialCountByStatus ''active'') (\<lambda>active.
     bindE (TrialCountByStatus ''expired'') (\<lambda>expired.
     bindE CountConverted (\<lambda>converted.
       ret \<lparr>ts_total = n, ts_active = active, ts_expired = expired, ts_converted = converted,
         ts_conversion_rate = (if 0 < n then f64 (f64 (f64 (of_int converted) / f64 (of_int n)) * 100) else 0)\<rparr>))))"

definition GetConversionRate :: "rat dbop" where
  "GetConversionRate = bindE TrialGetStats (\<lambda>st. ret (ts_conversion_rate st))"

definition CanActivateTrial :: "trial_config \<Rightarrow> time \<Rightarrow> int \<Rightarrow> (bool \<times> string) dbop" where
  "CanActivateTrial c now userID =
     (if \<not> tc_enabled c then ret (False, ''Trial feature is disabled'')
      else
      bindE (attempt (UserGetByID userID)) (\<lambda>r. case r of
        Inl _ \<Rightarrow> ret (False, ''Failed to get user information'')
      | Inr user \<Rightarrow>
        if userHasActiveSubscription user now then ret (False, utf8 [229, 189, 147, 229, 137, 141, 229, 183, 178, 230, 156, 137, 230, 156, 137, 230, 149, 136,
       232, 174, 162, 233, 152, 133, 239, 188, 140, 230, 151, 160, 233, 156, 128, 232, 175, 149,
       231, 148, 168])
        else
        bindE (attempt (ExistsByUserID userID)) (\<lambda>q. case q of
          Inl _ \<Rightarrow> ret (False, ''Failed to check trial status'')
        | Inr ex \<Rightarrow>
          if ex then ret (False, ''You have already used your trial'')
          else if tc_require_email_verify c \<and> \<not> u_email_verified user then ret (False, ''Email verification required'')
          else ret (True, []))))"

definition GrantTrial :: "trial_config \<Rightarrow> time \<Rightarrow> int \<Rightarrow> int \<Rightarrow> trial_view dbop" where
  "GrantTrial c now userID durationDays =
     bindE (attempt (TrialGetByUserID userID)) (\<lambda>r.
     let fresh = bindE (TrialCreate (new_trial now userID durationDays)) (\<lambda>rt. ret (toTrial c now rt)) in
     case r of Inl _ \<Rightarrow> fresh
     | Inr tr \<Rightarrow>
        if tr_status tr = ''active'' then
          let tr' = tr\<lparr>tr_expire_at := add_days (tr_expire_at tr) durationDays\<rparr> in
          bindE (TrialUpdate tr') (\<lambda>_. ret (toTrial c now tr'))
        else fresh)"

section \<open>Trials move no money\<close>

lemma sound_step_trials: "sound_db d \<Longrightarrow> sound_step d (d\<lparr>trials := x\<rparr>)"
  by (auto intro!: sound_step_same simp: sound_db_def wf_db_def columns_ok_def)

lemma money_frame_trials [simp]: "money_frame d (d\<lparr>trials := x\<rparr>)"
  by (simp add: money_frame_def)

lemma trial_statements_sound [sound_rules]:
  "sound_op (TrialCreate tr)" "sound_op (TrialUpdate tr)" "sound_op (TrialUpdateStatus i st)"
  "sound_op (RepoUpdateTrafficUsed i used)" "sound_op (RepoMarkConverted now u)" "sound_op (ExistsByUserID u)"
  unfolding TrialCreate_def TrialUpdate_def TrialUpdateStatus_def RepoUpdateTrafficUsed_def RepoMarkConverted_def ExistsByUserID_def
  by (auto intro!: sound_opI wpt_rules sound_step_trials sound_step_refl)

lemma trial_service_sound [sound_rules]:
  "sound_op (ActivateTrial c now u)" "sound_op (GrantTrial c now u days)" "sound_op (MarkConverted now u)"
  "sound_op (UpdateTrafficUsed u used)" "sound_op (normalizeTrialState now rt)"
  unfolding ActivateTrial_def GrantTrial_def MarkConverted_def UpdateTrafficUsed_def normalizeTrialState_def
    TrialGetByUserID_def Let_def
  by (intro sound_rules)+

lemma GetTrial_sound [sound_rules]: "sound_op (GetTrial c now u)" "sound_op (GetTrialByID c now i)"
  unfolding GetTrial_def GetTrialByID_def TrialGetByUserID_def TrialGetByID_def by (intro sound_rules)+

lemma expire_trials_each_sound [sound_rules]: "sound_op (expire_trials_each trs n)"
  by (induction trs arbitrary: n) (auto intro!: sound_rules)

lemma ExpireTrials_sound [sound_rules]: "sound_op (ExpireTrials now)"
  unfolding ExpireTrials_def ListExpired_def by (intro sound_rules)

text \<open>
  As the trial marker of the order service, \<open>MarkConverted\<close> meets the contract the service
  relies on.  \<open>commercial_orders\<close> is the order service as \<open>internal/api/routes.go\<close>
  wires it up to the runtime hook, \<open>hooked_orders\<close> with that hook (which provisions
  proxies through the entitlement service) as a parameter; the hook's contract is
  \<open>quiet_hook\<close>: it moves no money and writes no order.
\<close>

lemma MarkConverted_quiet: "wpt (MarkConverted now u) (\<lambda>_. money_frame d) (\<lambda>_. money_frame d) d"
  unfolding MarkConverted_def TrialGetByUserID_def RepoMarkConverted_def
  by (auto intro!: wpt_rules)

definition commercial_orders :: "time \<Rightarrow> order_service" where
  "commercial_orders now = WithTrialMarker (MarkConverted now)
     (WithBalanceRefunder (Refund now) (WithUserRepository (NewOrderService None)))"

lemma commercial_orders_fields [simp]:
  "os_trial (commercial_orders now) = Some (MarkConverted now)" "os_after_plan (commercial_orders now) = None"
  "os_refund (commercial_orders now) = Some (Refund now)" "os_user_repo (commercial_orders now)"
  by (simp_all add: commercial_orders_def WithTrialMarker_def WithBalanceRefunder_def WithUserRepository_def
      NewOrderService_def)

interpretation wired_orders: quiet_collaborators "commercial_orders now" for now
  by unfold_locales (auto intro: sound_rules MarkConverted_quiet)

definition hooked_orders :: "(int \<Rightarrow> unit dbop) \<Rightarrow> time \<Rightarrow> order_service" where
  "hooked_orders hook now = WithAfterPlanAppliedHook hook (commercial_orders now)"

definition quiet_hook :: "(int \<Rightarrow> unit dbop) \<Rightarrow> bool" where
  "quiet_hook hook \<longleftrightarrow> (\<forall>u. sound_op (hook u)
     \<and> (\<forall>d. wpt (hook u) (\<lambda>_. money_frame d) (\<lambda>_. money_frame d) d))"

lemma hooked_quiet: "quiet_hook hook \<Longrightarrow> quiet_collaborators (hooked_orders hook now)"
  by unfold_locales
     (auto simp: hooked_orders_def WithAfterPlanAppliedHook_def quiet_hook_def
        intro: sound_rules MarkConverted_quiet)

lemma hooked_sound: "quiet_hook hook \<Longrightarrow> order_collaborators (hooked_orders hook now)"
  by (rule quiet_collaborators.axioms, rule hooked_quiet)

section \<open>One trial per user\<close>

definition trials_ok :: "db \<Rightarrow> bool" where
  "trials_ok d \<longleftrightarrow> keyed tr_id (trials d) \<and> distinct (map tr_user_id (rows (trials d)))"

lemma trials_ok_upd:
  assumes "trials_ok d" and "\<And>r. tr_id (f r) = tr_id r" and "\<And>r. tr_user_id (f r) = tr_user_id r"
  shows "trials_ok (d\<lparr>trials := upd_rows p f (trials d)\<rparr>)"
  using assms by (auto simp: trials_ok_def map_key_upd intro!: keyed_upd)

lemma trial_statements_keep [keep_rules]:
  "preserves trials_ok (TrialCreate tr)" "preserves trials_ok (TrialUpdateStatus i st)"
  "preserves trials_ok (RepoUpdateTrafficUsed i used)" "preserves trials_ok (RepoMarkConverted now u)"
  "preserves trials_ok (ExistsByUserID u)" "preserves trials_ok (UserGetByID u)"
proof -
  show "preserves trials_ok (TrialCreate tr)"
    unfolding TrialCreate_def
    by (auto intro!: preservesI wpt_rules keyed_add simp: trials_ok_def table_simps)
qed (unfold TrialUpdateStatus_def RepoUpdateTrafficUsed_def RepoMarkConverted_def ExistsByUserID_def UserGetByID_def,
     auto intro!: preservesI wpt_rules trials_ok_upd)

text \<open>Saving a stored trial with a changed expiry keeps its keys.\<close>

lemma TrialUpdate_keep:
  assumes "trials_ok d" and "tr \<in> set (rows (trials d))"
  shows "wpt (TrialUpdate (tr\<lparr>tr_expire_at := t\<rparr>)) (\<lambda>_. trials_ok) (\<lambda>_. trials_ok) d"
proof -
  have uni: "x = tr" if "x \<in> set (rows (trials d))" "tr_id x = tr_id tr" for x
    using assms that by (auto simp: trials_ok_def intro: keyed_unique)
  have "upd_rows (\<lambda>r. tr_id r = tr_id tr) (\<lambda>_. tr\<lparr>tr_expire_at := t\<rparr>) (trials d)
      = upd_rows (\<lambda>r. tr_id r = tr_id tr) (\<lambda>r. r\<lparr>tr_expire_at := t\<rparr>) (trials d)"
    by (rule upd_rows_eq) (drule (1) uni, simp)
  then have "trials_ok (d\<lparr>trials := upd_rows (\<lambda>r. tr_id r = tr_id tr) (\<lambda>_. tr\<lparr>tr_expire_at := t\<rparr>) (trials d)\<rparr>)"
    using trials_ok_upd [OF assms(1)] by simp
  with assms show ?thesis
    unfolding TrialUpdate_def by (intro wpt_rules) auto
qed

lemma GrantTrial_keep [keep_rules]: "preserves trials_ok (GrantTrial c now u days)"
proof (rule preservesI)
  fix d assume ok: "trials_ok d"
  have fresh: "wpt (bindE (TrialCreate (new_trial now u days)) (\<lambda>rt. ret (toTrial c now rt))) (\<lambda>_. trials_ok) (\<lambda>_. trials_ok) d"
    using ok preserves_bind [OF trial_statements_keep(1) preserves_basic(1)] by (auto simp: preserves_def)
  show "wpt (GrantTrial c now u days) (\<lambda>_. trials_ok) (\<lambda>_. trials_ok) d"
    unfolding GrantTrial_def TrialGetByUserID_def Let_def
    apply (rule wpt_bind, rule wpt_attempt, rule wpt_first)
    using fresh ok by (auto intro!: wpt_bind wpt_ret wpt_mono [OF TrialUpdate_keep])
qed

lemma trial_service_keep [keep_rules]:
  "preserves trials_ok (ActivateTrial c now u)" "preserves trials_ok (MarkConverted now u)"
  "preserves trials_ok (UpdateTrafficUsed u used)" "preserves trials_ok (normalizeTrialState now rt)"
  unfolding ActivateTrial_def MarkConverted_def UpdateTrafficUsed_def normalizeTrialState_def TrialGetByUserID_def
  by (intro keep_rules)+

lemma GetTrial_keep [keep_rules]:
  "preserves trials_ok (GetTrial c now u)" "preserves trials_ok (GetTrialByID c now i)"
  unfolding GetTrial_def GetTrialByID_def TrialGetByUserID_def TrialGetByID_def by (intro keep_rules)+

lemma expire_trials_each_keep [keep_rules]: "preserves trials_ok (expire_trials_each trs n)"
  by (induction trs arbitrary: n) (auto intro!: keep_rules)

lemma ExpireTrials_keep [keep_rules]: "preserves trials_ok (ExpireTrials now)"
  unfolding ExpireTrials_def ListExpired_def by (intro keep_rules)

text \<open>The operations on trials as a step relation; arguments, clock and faults are arbitrary.\<close>

inductive trial_step :: "db \<Rightarrow> db \<Rightarrow> bool" where
  activate: "ActivateTrial c now u w = (r1, w') \<Longrightarrow> trial_step (tables w) (tables w')"
| grant: "GrantTrial c now u days w = (r1, w') \<Longrightarrow> trial_step (tables w) (tables w')"
| read: "GetTrial c now u w = (r1, w') \<Longrightarrow> trial_step (tables w) (tables w')"
| read_id: "GetTrialByID c now i w = (r1, w') \<Longrightarrow> trial_step (tables w) (tables w')"
| traffic: "UpdateTrafficUsed u used w = (r2, w') \<Longrightarrow> trial_step (tables w) (tables w')"
| convert: "MarkConverted now u w = (r2, w') \<Longrightarrow> trial_step (tables w) (tables w')"
| expire: "ExpireTrials now w = (r3, w') \<Longrightarrow> trial_step (tables w) (tables w')"

lemma trial_step_keep: "trial_step d d' \<Longrightarrow> trials_ok d \<Longrightarrow> trials_ok d'"
  by (induction rule: trial_step.induct) (auto elim: preserves_run [rotated 2] intro: keep_rules)



section \<open>Activation\<close>

lemma ActivateTrial_wpt:
  "wpt (ActivateTrial c now u)
    (\<lambda>v d'. tc_enabled c \<and> (\<exists>user \<in> set (rows (users d)). u_id user = u \<and> \<not> userHasActiveSubscription user now
         \<and> (tc_require_email_verify c \<longrightarrow> u_email_verified user))
       \<and> (\<forall>tr \<in> set (rows (trials d)). tr_user_id tr \<noteq> u)
       \<and> v = toTrial c now ((new_trial now u (tc_duration c))\<lparr>tr_id := seq (trials d) + 1\<rparr>)
       \<and> d' = d\<lparr>trials := add_row (\<lambda>i. (new_trial now u (tc_duration c))\<lparr>tr_id := i\<rparr>) (trials d)\<rparr>)
    (\<lambda>_ d'. d' = d) d"
  unfolding ActivateTrial_def UserGetByID_def ExistsByUserID_def TrialCreate_def
  apply (intro wpt_rules)
  apply (simp_all add: count_rows_pos)
  apply (auto simp: new_trial_def)
  done

text \<open>
  Activating a trial.  Under every fault schedule, an activation that is refused or fails
  leaves every table unchanged.  One that succeeds is for an existing user without a running
  subscription, without any earlier trial and with a verified address where one is required;
  it stores exactly one new active trial that ends the configured number of days from now.
\<close>

theorem activate_outcome:
  fixes w w' :: "db world"
  assumes "ActivateTrial c now u w = (r, w')"
  shows "case r of Inl _ \<Rightarrow> tables w' = tables w
    | Inr v \<Rightarrow> (\<exists>user \<in> set (rows (users (tables w))). u_id user = u \<and> \<not> userHasActiveSubscription user now
           \<and> (tc_require_email_verify c \<longrightarrow> u_email_verified user))
       \<and> (\<forall>tr \<in> set (rows (trials (tables w))). tr_user_id tr \<noteq> u)
       \<and> (\<exists>tr t. tables w' = (tables w)\<lparr>trials := t\<rparr> \<and> rows t = rows (trials (tables w)) @ [tr]
            \<and> tr_user_id tr = u \<and> tr_status tr = ''active''
            \<and> tr_expire_at tr = add_days now (tc_duration c) \<and> v = toTrial c now tr)"
  using wpt_run [OF ActivateTrial_wpt assms]
  by (cases r) (auto simp: table_simps new_trial_def
      intro!: exI [of _ "(new_trial now u (tc_duration c))\<lparr>tr_id := seq (trials (tables w)) + 1\<rparr>"]
        exI [of _ "add_row (\<lambda>i. (new_trial now u (tc_duration c))\<lparr>tr_id := i\<rparr>) (trials (tables w))"])

definition sample_trial_world :: "db world" where
  "sample_trial_world = fresh_world (sample_db\<lparr>users := \<lparr>rows = [(sample_user 1 500)\<lparr>u_enabled := False\<rparr>], seq = 1\<rparr>\<rparr>)"

theorem activate_outcome_witness:
  "let r = ActivateTrial TrialDefaultConfig 100 1 sample_trial_world in
   \<not> isl (fst r) \<and> length (rows (trials (tables (snd r)))) = 1
   \<and> users (tables (snd r)) = users (tables sample_trial_world)"
proof -
  let ?r = "ActivateTrial TrialDefaultConfig 100 1 sample_trial_world"
  have ok: "\<not> isl (fst ?r)" and "length (rows (trials (tables (snd ?r)))) = 1"
    by (simp_all add: ActivateTrial_def UserGetByID_def ExistsByUserID_def TrialCreate_def run_defs count_rows_def add_row_def
        TrialDefaultConfig_def sample_trial_world_def sample_defs userHasActiveSubscription_def new_trial_def)
  moreover obtain t where "tables (snd ?r) = (tables sample_trial_world)\<lparr>trials := t\<rparr>"
    using activate_outcome [OF run_Inr [OF ok]] by (simp only: sum.case) blast
  ultimately show ?thesis by (simp add: Let_def)
qed

text \<open>
  What a trial shows.  The remaining traffic is never negative and never above the
  configured limit, for traffic counters that are not negative; the remaining days are at
  least one exactly while the trial is active and unexpired, and zero otherwise.
\<close>

theorem trial_view_bounds:
  assumes "0 \<le> tr_traffic_used rt" and "tr_traffic_used rt \<le> maxI64"
    and "0 \<le> tc_traffic_limit c" and "tc_traffic_limit c \<le> maxI64"
  shows "0 \<le> tv_remaining_traffic (toTrial c now rt) \<and> tv_remaining_traffic (toTrial c now rt) \<le> tc_traffic_limit c
     \<and> (if tr_status rt = ''active'' \<and> now < tr_expire_at rt then 1 \<le> tv_remaining_days (toTrial c now rt)
        else tv_remaining_days (toTrial c now rt) = 0)"
proof -
  have "wrap64 (tc_traffic_limit c - tr_traffic_used rt) = tc_traffic_limit c - tr_traffic_used rt"
    using assms by (intro wrap64_id) (simp add: i64_defs)
  with assms show ?thesis by (auto simp: toTrial_def Let_def)
qed

theorem trial_view_bounds_witness:
  "tv_remaining_traffic (toTrial TrialDefaultConfig 5 (new_trial 0 1 7)) \<le> 107374182400"
  using trial_view_bounds [of "new_trial 0 1 7" TrialDefaultConfig 5]
  by (simp add: new_trial_def TrialDefaultConfig_def maxI64_def)

text \<open>
  An administrator cannot grant a new trial to a user whose trial is over: the unique index
  on the user refuses the insert.
\<close>

lemma grant_refused_after_expiry:
  assumes "tr \<in> set (rows (trials d))" and "tr_user_id tr = u"
    and "\<And>tr. tr \<in> set (rows (trials d)) \<Longrightarrow> tr_user_id tr = u \<Longrightarrow> tr_status tr \<noteq> ''active''"
  shows "wpt (GrantTrial c now u days) (\<lambda>_ _. False) (\<lambda>_ d'. d' = d) d"
  unfolding GrantTrial_def TrialGetByUserID_def TrialCreate_def Let_def
  using assms by (intro wpt_rules) (auto simp: new_trial_def)

end
