(* ===== verification/Pauses.thy ===== *)
theory Pauses
  imports OrderService Users
begin

text \<open>
  \<open>internal/commercial/pause/service.go\<close> and
  \<open>internal/database/repository/pause_repository.go\<close>: pausing a subscription (its expiry
  is set to now and the remaining days and traffic are recorded) and resuming it, by the user
  or automatically.  Each step is a statement of its own; there is no transaction.
\<close>

section \<open>The repository\<close>

definition PauseCreate :: "pause_row \<Rightarrow> pause_row dbop" where
  "PauseCreate ps = map_err (DatabaseError ''failed to create pause'')
     (create pauses pauses_update (\<lambda>_ _. False) (\<lambda>i. ps\<lparr>ps_id := i\<rparr>))"

definition PauseGetByID :: "int \<Rightarrow> pause_row dbop" where
  "PauseGetByID i = map_err (\<lambda>e. if e = Gorm ErrRecordNotFound then NotFoundError ''pause'' i
       else DatabaseError ''failed to get pause'' e)
     (first pauses (\<lambda>ps. ps_id ps = i))"

definition GetActivePause :: "int \<Rightarrow> pause_row option dbop" where
  "GetActivePause u =
     bindE (attempt (first_desc pauses ps_paused_at (\<lambda>ps. ps_user_id ps = u \<and> ps_resumed_at ps = None))) (\<lambda>r.
       case r of Inr ps \<Rightarrow> ret (Some ps)
       | Inl e \<Rightarrow> if e = Gorm ErrRecordNotFound then ret None
                 else raise (DatabaseError ''failed to get active pause'' e))"

definition PauseGetByUserID :: "int \<Rightarrow> int \<Rightarrow> int \<Rightarrow> (pause_row list \<times> int) dbop" where
  "PauseGetByUserID u limit offset =
     bindE (map_err (DatabaseError ''failed to count pauses'')
         (query (\<lambda>d. count_rows (\<lambda>ps. ps_user_id ps = u) (pauses d)))) (\<lambda>n.
     bindE (map_err (DatabaseError ''failed to list pauses'')
         (query (\<lambda>d. page_desc ps_paused_at limit offset (filter (\<lambda>ps. ps_user_id ps = u) (rows (pauses d))))))
       (\<lambda>pss. ret (pss, n)))"

definition PauseUpdate :: "pause_row \<Rightarrow> unit dbop" where
  "PauseUpdate ps = map_err (DatabaseError ''failed to update pause'')
     (save pauses pauses_update (\<lambda>_ _. False) ps_id ps)"

definition CountPausesInPeriod :: "int \<Rightarrow> time \<Rightarrow> time \<Rightarrow> int dbop" where
  "CountPausesInPeriod u start end = map_err (DatabaseError ''failed to count pauses in period'')
     (query (\<lambda>d. count_rows (\<lambda>ps. ps_user_id ps = u \<and> start \<le> ps_paused_at ps \<and> ps_paused_at ps \<le> end) (pauses d)))"

definition GetPausesToAutoResume :: "time \<Rightarrow> pause_row list dbop" where
  "GetPausesToAutoResume before = map_err (DatabaseError ''failed to get pauses to auto-resume'')
     (query (\<lambda>d. filter (\<lambda>ps. ps_resumed_at ps = None \<and> ps_auto_resume_at ps \<le> before) (rows (pauses d))))"

section \<open>The service\<close>

definition permanentPauseRemainingDays :: int where
  "permanentPauseRemainingDays = - 1"

record pause_config =
  pz_enabled :: bool
  pz_max_duration :: int
  pz_max_per_cycle :: int

definition PauseDefaultConfig :: pause_config where
  "PauseDefaultConfig = \<lparr>pz_enabled = True, pz_max_duration = 30, pz_max_per_cycle = 1\<rparr>"

definition getRemainingPausesInCycle :: "pause_config \<Rightarrow> time \<Rightarrow> int \<Rightarrow> int dbop" where
  "getRemainingPausesInCycle c now userID =
     bindE (UserGetByID userID) (\<lambda>user.
     let cycleStart = (case u_expires_at user of
            Some t \<Rightarrow> (if add_days t (- 30) < u_created_at user then u_created_at user else add_days t (- 30))
          | None \<Rightarrow> u_created_at user) in
     bindE (CountPausesInPeriod userID cycleStart now) (\<lambda>pauseCount.
     let remaining = wrap64 (pz_max_per_cycle c - pauseCount) in
       ret (if remaining < 0 then 0 else remaining)))"

definition msg_disabled :: string where
  "msg_disabled = utf8 [230, 154, 130, 229, 129, 156, 229, 138, 159, 232, 131, 189, 230, 156, 170, 229, 188, 128,
       229, 144, 175]"

definition msg_user_check :: string where
  "msg_user_check = utf8 [231, 148, 168, 230, 136, 183, 230, 160, 161, 233, 170, 140, 229, 164, 177, 232, 180, 165]"

definition msg_no_subscription :: string where
  "msg_no_subscription = utf8 [229, 189, 147, 229, 137, 141, 230, 151, 160, 230, 156, 137, 230, 149, 136, 232, 174, 162,
       233, 152, 133]"

definition msg_pause_check :: string where
  "msg_pause_check = utf8 [230, 154, 130, 229, 129, 156, 231, 138, 182, 230, 128, 129, 230, 163, 128, 230, 159, 165,
       229, 164, 177, 232, 180, 165]"

definition msg_already_paused :: string where
  "msg_already_paused = utf8 [232, 174, 162, 233, 152, 133, 229, 183, 178, 229, 164, 132, 228, 186, 142, 230, 154, 130,
       229, 129, 156, 231, 138, 182, 230, 128, 129]"

definition msg_count_check :: string where
  "msg_count_check = utf8 [230, 154, 130, 229, 129, 156, 230, 172, 161, 230, 149, 176, 230, 163, 128, 230, 159, 165,
       229, 164, 177, 232, 180, 165]"

definition msg_limit :: "int \<Rightarrow> string" where
  "msg_limit n = utf8 [229, 189, 147, 229, 137, 141, 232, 174, 161, 232, 180, 185, 229, 145, 168, 230, 156, 159,
       230, 156, 128, 229, 164, 154, 229, 143, 175, 230, 154, 130, 229, 129, 156, 32] @ show_int n @ utf8 [32, 230, 172, 161, 239, 188, 140, 229, 183, 178, 232, 190, 190, 229, 136, 176, 228, 184,
       138, 233, 153, 144]"

definition CanPause :: "pause_config \<Rightarrow> time \<Rightarrow> int \<Rightarrow> (bool \<times> string) dbop" where
  "CanPause c now userID =
     (if \<not> pz_enabled c then ret (False, msg_disabled)
      else
      bindE (attempt (UserGetByID userID)) (\<lambda>r. case r of Inl _ \<Rightarrow> ret (False, msg_user_check)
      | Inr user \<Rightarrow>
        if (case u_expires_at user of None \<Rightarrow> False | Some t \<Rightarrow> t < now) then ret (False, msg_no_subscription)
        else
        bindE (attempt (GetActivePause userID)) (\<lambda>q. case q of Inl _ \<Rightarrow> ret (False, msg_pause_check)
        | Inr active \<Rightarrow>
          if active \<noteq> None then ret (False, msg_already_paused)
          else
          bindE (attempt (getRemainingPausesInCycle c now userID)) (\<lambda>p. case p of Inl _ \<Rightarrow> ret (False, msg_count_check)
          | Inr remaining \<Rightarrow>
            if remaining \<le> 0 then ret (False, msg_limit (pz_max_per_cycle c)) else ret (True, [])))))"

record pause_status =
  pt_is_paused :: bool
  pt_pause :: "pause_row option"
  pt_can_pause :: bool
  pt_reason :: string
  pt_remaining_pauses :: int
  pt_max_duration :: int

definition GetPauseStatus :: "pause_config \<Rightarrow> time \<Rightarrow> int \<Rightarrow> pause_status dbop" where
  "GetPauseStatus c now userID =
     (let status = \<lparr>pt_is_paused = False, pt_pause = None, pt_can_pause = False, pt_reason = [],
            pt_remaining_pauses = 0, pt_max_duration = pz_max_duration c\<rparr> in
      if \<not> pz_enabled c then ret (status\<lparr>pt_can_pause := False, pt_reason := msg_disabled\<rparr>)
      else
      bindE (GetActivePause userID) (\<lambda>active.
      if active \<noteq> None then ret (status\<lparr>pt_is_paused := True, pt_pause := active, pt_can_pause := False,
          pt_reason := msg_already_paused\<rparr>)
      else
      bindE (CanPause c now userID) (\<lambda>(can, reason).
      bindE (attempt (getRemainingPausesInCycle c now userID)) (\<lambda>r.
        ret (status\<lparr>pt_can_pause := can, pt_reason := reason,
          pt_remaining_pauses := (case r of Inl _ \<Rightarrow> 0 | Inr n \<Rightarrow> n)\<rparr>)))))"

text \<open>Whole days left (at least one), none for an expired and -1 for a permanent subscription.\<close>

definition remaining_days :: "time \<Rightarrow> user_row \<Rightarrow> int" where
  "remaining_days now user = (case u_expires_at user of
      None \<Rightarrow> permanentPauseRemainingDays
    | Some t \<Rightarrow> if now < t then (let n = whole_days (time_sub t now) in if n < 1 then 1 else n) else 0)"

definition remaining_traffic :: "user_row \<Rightarrow> int" where
  "remaining_traffic user = (let n = wrap64 (u_traffic_limit user - u_traffic_used user) in if n < 0 then 0 else n)"

record pause_result =
  pr_pause :: pause_row
  pr_auto_resume_at :: time
  pr_max_duration :: int

definition Pause :: "pause_config \<Rightarrow> time \<Rightarrow> int \<Rightarrow> pause_result dbop" where
  "Pause c now userID =
     bindE (CanPause c now userID) (\<lambda>(can, reason).
     bindE (guardE can (ValidationError ''cannot_pause'' reason)) (\<lambda>_.
     bindE (UserGetByID userID) (\<lambda>user.
     bindE (PauseCreate \<lparr>ps_id = 0, ps_user_id = userID, ps_paused_at = now, ps_resumed_at = None,
        ps_remaining_days = remaining_days now user, ps_remaining_traffic = remaining_traffic user,
        ps_auto_resume_at = add_days now (pz_max_duration c), ps_created_at = now\<rparr>) (\<lambda>pause.
     bindE (map_err (DatabaseError ''failed to pause subscription'')
         (UserUpdate (user\<lparr>u_expires_at := Some now\<rparr>))) (\<lambda>_.
       ret \<lparr>pr_pause = pause, pr_auto_resume_at = add_days now (pz_max_duration c),
         pr_max_duration = pz_max_duration c\<rparr>)))))"

definition resumed_user :: "time \<Rightarrow> pause_row \<Rightarrow> user_row \<Rightarrow> user_row" where
  "resumed_user now pause user =
     (let user = user\<lparr>u_expires_at := (if 0 \<le> ps_remaining_days pause
             then Some (add_days now (ps_remaining_days pause)) else None)\<rparr>;
          used = wrap64 (u_traffic_limit user - ps_remaining_traffic pause)
      in if 0 < u_traffic_limit user then user\<lparr>u_traffic_used := (if used < 0 then 0 else used)\<rparr> else user)"

definition Resume :: "time \<Rightarrow> int \<Rightarrow> unit dbop" where
  "Resume now userID =
     bindE (GetActivePause userID) (\<lambda>active. case active of
       None \<Rightarrow> raise (ValidationError ''not_paused'' ''Subscription is not paused'')
     | Some pause \<Rightarrow>
       bindE (UserGetByID userID) (\<lambda>user.
       bindE (map_err (DatabaseError ''failed to resume subscription'') (UserUpdate (resumed_user now pause user))) (\<lambda>_.
       bindE (attempt (PauseUpdate (pause\<lparr>ps_resumed_at := Some now\<rparr>))) (\<lambda>_. ret ()))))"

definition GetPauseHistory :: "int \<Rightarrow> int \<Rightarrow> int \<Rightarrow> (pause_row list \<times> int) dbop" where
  "GetPauseHistory userID page pageSize =
     PauseGetByUserID userID pageSize (wrap64 (wrap64 (page - 1) * pageSize))"

fun resume_each :: "time \<Rightarrow> pause_row list \<Rightarrow> int \<Rightarrow> int dbop" where
  "resume_each now [] resumed = ret resumed"
| "resume_each now (pause # rest) resumed =
     bindE (attempt (Resume now (ps_user_id pause))) (\<lambda>r. case r of
         Inl _ \<Rightarrow> resume_each now rest resumed | Inr _ \<Rightarrow> resume_each now rest (resumed + 1))"

definition AutoResumePaused :: "time \<Rightarrow> int dbop" where
  "AutoResumePaused now = bindE (GetPausesToAutoResume now) (\<lambda>pss. resume_each now pss 0)"

section \<open>What saving a user that was just read does\<close>

definition stored_user :: "user_row \<Rightarrow> user_row" where
  "stored_user user = user\<lparr>u_username := normalizeUsername (u_username user)\<rparr>"

definition put_user :: "user_row \<Rightarrow> db \<Rightarrow> db" where
  "put_user user d = d\<lparr>users := upd_rows (\<lambda>u. u_id u = u_id user) (\<lambda>_. stored_user user) (users d)\<rparr>"

lemma UserUpdate_wpt:
  assumes "\<exists>u \<in> set (rows (users d)). u_id u = u_id user"
  shows "wpt (UserUpdate user) (\<lambda>_ d'. d' = put_user user d) (\<lambda>_ d'. d' = d) d"
  unfolding UserUpdate_def
  by (intro wpt_rules) (use assms in \<open>auto simp: put_user_def stored_user_def\<close>)

lemma put_user_sound:
  assumes "sound_db d" and "old \<in> set (rows (users d))"
    and "u_id user = u_id old" and "u_balance user = u_balance old"
  shows "sound_step d (put_user user d)"
proof -
  have "put_user user d = d\<lparr>users := upd_rows (\<lambda>u. u_id u = u_id user)
      (\<lambda>u. (stored_user user)\<lparr>u_id := u_id u, u_balance := u_balance u\<rparr>) (users d)\<rparr>"
    unfolding put_user_def
  proof (intro arg_cong [where f = "\<lambda>t. d\<lparr>users := t\<rparr>"] upd_rows_eq)
    fix u assume "u \<in> set (rows (users d))" and "u_id u = u_id user"
    then have "u = old"
      using assms keyed_unique [of u_id "users d" u old] by (simp add: sound_db_def wf_db_def)
    then show "stored_user user = (stored_user user)\<lparr>u_id := u_id u, u_balance := u_balance u\<rparr>"
      using assms(3,4) by (simp add: stored_user_def)
  qed
  then show ?thesis using sound_step_user_frame [OF assms(1)] by simp
qed

lemma put_user_fields [simp]:
  "pauses (put_user user d) = pauses d" "rows (users (d\<lparr>pauses := x\<rparr>)) = rows (users d)"
  by (simp_all add: put_user_def)

lemma sound_step_pauses: "sound_db d \<Longrightarrow> sound_step d (d\<lparr>pauses := x\<rparr>)"
  by (auto intro!: sound_step_same simp: sound_db_def wf_db_def columns_ok_def)

section \<open>Pausing and resuming\<close>

lemma CanPause_wpt:
  "wpt (CanPause c now u)
     (\<lambda>(can, _) d'. d' = d \<and> (can \<longrightarrow> pz_enabled c
        \<and> (\<forall>user t. find (\<lambda>v. u_id v = u) (rows (users d)) = Some user \<longrightarrow> u_expires_at user = Some t \<longrightarrow> now \<le> t)
        \<and> (\<forall>ps \<in> set (rows (pauses d)). ps_user_id ps = u \<longrightarrow> ps_resumed_at ps \<noteq> None)))
     (\<lambda>_ _. False) d"
  unfolding CanPause_def UserGetByID_def GetActivePause_def getRemainingPausesInCycle_def
    CountPausesInPeriod_def Let_def
  apply (intro wpt_rules)
  apply (simp_all split: option.splits)
  done

definition new_pause :: "pause_config \<Rightarrow> time \<Rightarrow> user_row \<Rightarrow> int \<Rightarrow> pause_row" where
  "new_pause c now user i = \<lparr>ps_id = i, ps_user_id = u_id user, ps_paused_at = now, ps_resumed_at = None,
     ps_remaining_days = remaining_days now user, ps_remaining_traffic = remaining_traffic user,
     ps_auto_resume_at = add_days now (pz_max_duration c), ps_created_at = now\<rparr>"

definition pause_recorded :: "pause_config \<Rightarrow> time \<Rightarrow> user_row \<Rightarrow> db \<Rightarrow> db" where
  "pause_recorded c now user d = d\<lparr>pauses := add_row (new_pause c now user) (pauses d)\<rparr>"

lemma Pause_wpt:
  "wpt (Pause c now u)
    (\<lambda>v d'. \<exists>user \<in> set (rows (users d)). u_id user = u \<and> (\<forall>t. u_expires_at user = Some t \<longrightarrow> now \<le> t)
       \<and> (\<forall>ps \<in> set (rows (pauses d)). ps_user_id ps = u \<longrightarrow> ps_resumed_at ps \<noteq> None)
       \<and> pr_pause v = new_pause c now user (seq (pauses d) + 1)
       \<and> d' = put_user (user\<lparr>u_expires_at := Some now\<rparr>) (pause_recorded c now user d))
    (\<lambda>_ d'. d' = d \<or> (\<exists>user \<in> set (rows (users d)). u_id user = u \<and> d' = pause_recorded c now user d)) d"
  unfolding Pause_def UserGetByID_def PauseCreate_def
  apply (rule wpt_bind, rule wpt_mono [OF CanPause_wpt])
   apply (clarsimp, intro wpt_rules)
       apply (simp_all)
  subgoal for _ user
    apply (rule wpt_mono [OF UserUpdate_wpt])
      apply force
     apply (rule wpt_ret, rule bexI [of _ user])
      apply (auto simp: pause_recorded_def new_pause_def [abs_def])
    done
  done

lemma GetActivePause_wpt:
  "wpt (GetActivePause u)
     (\<lambda>r d'. d' = d \<and> (case r of
         None \<Rightarrow> \<forall>ps \<in> set (rows (pauses d)). ps_user_id ps = u \<longrightarrow> ps_resumed_at ps \<noteq> None
       | Some ps \<Rightarrow> ps \<in> set (rows (pauses d)) \<and> ps_user_id ps = u \<and> ps_resumed_at ps = None))
     (\<lambda>_ d'. d' = d) d"
  unfolding GetActivePause_def by (intro wpt_rules) auto

definition pause_closed :: "time \<Rightarrow> pause_row \<Rightarrow> db \<Rightarrow> db" where
  "pause_closed now ps d = d\<lparr>pauses := upd_rows (\<lambda>q. ps_id q = ps_id ps) (\<lambda>_. ps\<lparr>ps_resumed_at := Some now\<rparr>) (pauses d)\<rparr>"

lemma resumed_user_key [simp]:
  "u_id (resumed_user now ps user) = u_id user" "u_balance (resumed_user now ps user) = u_balance user"
  by (simp_all add: resumed_user_def Let_def)

lemma Resume_wpt:
  "wpt (Resume now u)
    (\<lambda>_ d'. \<exists>ps \<in> set (rows (pauses d)). \<exists>user \<in> set (rows (users d)).
        ps_user_id ps = u \<and> ps_resumed_at ps = None \<and> u_id user = u
        \<and> (let d1 = put_user (resumed_user now ps user) d in d' = pause_closed now ps d1 \<or> d' = d1))
    (\<lambda>_ d'. d' = d) d"
  unfolding Resume_def UserGetByID_def
proof (rule wpt_bind, rule wpt_mono [OF GetActivePause_wpt], goal_cases)
  case (1 r d')
  then show ?case
    apply (cases r)
     apply (simp add: wpt_raise)
    subgoal for ps
      apply simp
      apply (intro wpt_rules)
        apply simp_all
      apply (rule wpt_mono [OF UserUpdate_wpt], force)
       apply (unfold PauseUpdate_def, intro wpt_rules)
         apply (auto simp: pause_closed_def Let_def)
      done
    done
qed simp

section \<open>The money invariant\<close>

lemma pause_recorded_sound: "sound_db d \<Longrightarrow> sound_step d (pause_recorded c now user d)"
  unfolding pause_recorded_def by (rule sound_step_pauses)

lemma pause_closed_sound: "sound_db d \<Longrightarrow> sound_step d (pause_closed now ps d)"
  unfolding pause_closed_def by (rule sound_step_pauses)

lemma Pause_sound [sound_rules]: "sound_op (Pause c now u)"
proof (rule sound_opI, rule wpt_mono [OF Pause_wpt], goal_cases)
  case (1 d v d')
  then obtain user where user: "user \<in> set (rows (users d))"
    and d': "d' = put_user (user\<lparr>u_expires_at := Some now\<rparr>) (pause_recorded c now user d)" by blast
  have s: "sound_step d (pause_recorded c now user d)" using 1(1) by (rule pause_recorded_sound)
  moreover have "sound_step (pause_recorded c now user d) d'"
    unfolding d' by (rule put_user_sound [of _ user]) (use s user in \<open>auto simp: sound_step_def pause_recorded_def\<close>)
  ultimately show ?case by (rule sound_step_trans)
qed (auto intro: pause_recorded_sound sound_step_refl)

lemma Resume_sound [sound_rules]: "sound_op (Resume now u)"
proof (rule sound_opI, rule wpt_mono [OF Resume_wpt], goal_cases)
  case (1 d v d')
  then obtain ps user where user: "user \<in> set (rows (users d))"
    and d': "d' = pause_closed now ps (put_user (resumed_user now ps user) d)
      \<or> d' = put_user (resumed_user now ps user) d" by (auto simp: Let_def)
  have s: "sound_step d (put_user (resumed_user now ps user) d)"
    by (rule put_user_sound [OF 1(1) user]) simp_all
  then have "sound_step d (pause_closed now ps (put_user (resumed_user now ps user) d))"
    by (rule sound_step_trans) (use s in \<open>simp add: pause_closed_sound sound_step_def [of d]\<close>)
  with s d' show ?case by blast
qed (auto intro: sound_step_refl)

lemma resume_each_sound [sound_rules]: "sound_op (resume_each now pss n)"
  by (induction pss arbitrary: n) (auto intro!: sound_rules)

lemma AutoResumePaused_sound [sound_rules]: "sound_op (AutoResumePaused now)"
  unfolding AutoResumePaused_def GetPausesToAutoResume_def by (intro sound_rules)

section \<open>What a pause preserves\<close>

definition restored_user :: "time \<Rightarrow> time \<Rightarrow> user_row \<Rightarrow> user_row" where
  "restored_user now now' user = user\<lparr>
     u_expires_at := map_option (\<lambda>t. add_days now' (if now < t then max 1 (whole_days (time_sub t now)) else 0))
        (u_expires_at user),
     u_traffic_used := (if 0 < u_traffic_limit user then min (u_traffic_used user) (u_traffic_limit user)
        else u_traffic_used user)\<rparr>"

lemma resumed_restored:
  assumes "0 \<le> u_traffic_used user" and "u_traffic_used user \<le> maxI64"
    and "u_traffic_limit user \<le> maxI64"
    and "normalizeUsername (u_username user) = u_username user"
  shows "stored_user (resumed_user now' (new_pause c now user i)
       (stored_user (user\<lparr>u_expires_at := Some now\<rparr>))) = restored_user now now' user"
proof -
  have days: "(if 0 \<le> remaining_days now user then Some (add_days now' (remaining_days now user)) else None)
      = map_option (\<lambda>t. add_days now' (if now < t then max 1 (whole_days (time_sub t now)) else 0)) (u_expires_at user)"
    by (auto simp: remaining_days_def permanentPauseRemainingDays_def Let_def split: option.split)
  have traffic: "(let n = wrap64 (u_traffic_limit user - remaining_traffic user) in if n < 0 then 0 else n)
      = min (u_traffic_used user) (u_traffic_limit user)" if "0 < u_traffic_limit user"
  proof -
    have "wrap64 (u_traffic_limit user - u_traffic_used user) = u_traffic_limit user - u_traffic_used user"
      using assms that by (intro wrap64_id) (simp add: i64_defs)
    then have r: "remaining_traffic user = max 0 (u_traffic_limit user - u_traffic_used user)"
      by (simp add: remaining_traffic_def)
    have "wrap64 (u_traffic_limit user - remaining_traffic user) = u_traffic_limit user - remaining_traffic user"
      using assms that unfolding r by (intro wrap64_id) (simp add: i64_defs max_def)
    then show ?thesis using assms that by (simp add: r min_def max_def)
  qed
  show ?thesis
    by (cases "0 < u_traffic_limit user")
       (simp_all add: stored_user_def resumed_user_def new_pause_def restored_user_def
          assms(4) days traffic [unfolded Let_def] Let_def cong: if_cong split del: if_split)
qed

lemma find_put_user:
  assumes "keyed u_id (users d)" and "user \<in> set (rows (users d))" and "u_id r = u_id user"
  shows "find (\<lambda>v. u_id v = u_id user) (rows (users (put_user r d))) = Some (stored_user r)"
proof -
  have "find (\<lambda>v. u_id v = i) (map (\<lambda>v. if u_id v = i then s else v) xs)
      = (if i \<in> u_id ` set xs then Some s else None)" if "u_id s = i" for i s and xs :: "user_row list"
    using that by (induction xs) auto
  with assms show ?thesis by (auto simp: put_user_def table_simps stored_user_def)
qed

text \<open>
  (C40) Pausing and resuming.  When a pause at \<open>now\<close> and the following resume at
  \<open>now'\<close> both succeed, under whatever faults in between, the user's row is the one before
  the pause, except that a dated subscription ends the recorded whole days (at least one
  while any time was left) after the resumption and that a traffic counter above the limit is
  cut to it; a permanent subscription is permanent again.
\<close>

theorem pause_resume_round_trip:
  fixes w w1 w2 :: "db world"
  assumes "keyed u_id (users (tables w))" and "user \<in> set (rows (users (tables w)))"
    and "0 \<le> u_traffic_used user" and "u_traffic_used user \<le> maxI64" and "u_traffic_limit user \<le> maxI64"
    and "normalizeUsername (u_username user) = u_username user"
    and pause: "Pause c now (u_id user) w = (Inr p, w1)"
    and resume: "Resume now' (u_id user) w1 = (Inr (), w2)"
  shows "find (\<lambda>v. u_id v = u_id user) (rows (users (tables w2))) = Some (restored_user now now' user)"
proof -
  let ?d = "tables w" and ?paused = "user\<lparr>u_expires_at := Some now\<rparr>"
  obtain v where "v \<in> set (rows (users ?d))" "u_id v = u_id user"
    and none: "\<forall>ps \<in> set (rows (pauses ?d)). ps_user_id ps = u_id user \<longrightarrow> ps_resumed_at ps \<noteq> None"
    and d1: "tables w1 = put_user (v\<lparr>u_expires_at := Some now\<rparr>) (pause_recorded c now v ?d)"
    using wpt_run [OF Pause_wpt pause] by auto
  then have "v = user" using keyed_unique [OF assms(1)] assms(2) by blast
  with d1 have d1: "tables w1 = put_user ?paused (pause_recorded c now user ?d)" by simp
  have keyed1: "keyed u_id (users (tables w1))"
    using assms(1) keyed_save [of u_id "users ?d" "stored_user ?paused"]
    by (simp add: d1 put_user_def pause_recorded_def stored_user_def)
  obtain ps u1 where ps: "ps \<in> set (rows (pauses (tables w1)))" "ps_user_id ps = u_id user" "ps_resumed_at ps = None"
    and u1: "u1 \<in> set (rows (users (tables w1)))" "u_id u1 = u_id user"
    and d2: "users (tables w2) = users (put_user (resumed_user now' ps u1) (tables w1))"
    using wpt_run [OF Resume_wpt resume] by (auto simp: Let_def pause_closed_def)
  have "ps = new_pause c now user (seq (pauses ?d) + 1)"
    using ps none by (auto simp: d1 pause_recorded_def table_simps)
  moreover have "u1 = stored_user ?paused"
    using u1 by (auto simp: d1 put_user_def pause_recorded_def table_simps split: if_splits)
  ultimately show ?thesis
    using find_put_user [OF keyed1 u1(1), of "resumed_user now' ps u1"] assms(3-6) u1(2)
    by (simp add: d2 resumed_restored)
qed

theorem pause_resume_round_trip_witness:
  "let user = (sample_user 1 500)\<lparr>u_expires_at := None\<rparr>;
       w = fresh_world (sample_db\<lparr>users := \<lparr>rows = [user], seq = 1\<rparr>\<rparr>);
       w1 = snd (Pause PauseDefaultConfig 5 1 w)
   in find (\<lambda>v. u_id v = 1) (rows (users (tables (snd (Resume 9 1 w1))))) = Some (restored_user 5 9 user)"
proof -
  let ?user = "(sample_user 1 500)\<lparr>u_expires_at := None\<rparr>"
  let ?w = "fresh_world (sample_db\<lparr>users := \<lparr>rows = [?user], seq = 1\<rparr>\<rparr>)"
  let ?w1 = "snd (Pause PauseDefaultConfig 5 1 ?w)"
  have ok1: "\<not> isl (fst (Pause PauseDefaultConfig 5 1 ?w))" by code_simp
  have ok2: "\<not> isl (fst (Resume 9 1 ?w1))" by code_simp
  have "normalizeUsername (u_username ?user) = u_username ?user" by code_simp
  moreover have "u_id ?user = 1" by (simp add: sample_defs)
  ultimately show ?thesis
    using pause_resume_round_trip [of ?w ?user PauseDefaultConfig 5 _ ?w1 9 "snd (Resume 9 1 ?w1)"]
      run_Inr [OF ok1] run_Inr [OF ok2]
    by (simp add: Let_def keyed_def sample_defs maxI64_def)
qed

text \<open>
  The two writes of a pause are separate statements.  When the second one fails, the caller
  gets an error and keeps the subscription, yet the recorded pause stays active: the
  automatic resumption later grants the recorded days once more.
\<close>

lemma failed_pause_extends:
  "let user = (sample_user 1 500)\<lparr>u_expires_at := Some (3 * day)\<rparr>;
       w = \<lparr>tables = sample_db\<lparr>users := \<lparr>rows = [user], seq = 1\<rparr>\<rparr>,
            faults = [False, False, False, False, False, False, True], in_tx = False\<rparr>;
       (r, w1) = Pause PauseDefaultConfig 0 1 w;
       (r', w2) = AutoResumePaused (30 * day) w1
   in isl r \<and> map u_expires_at (rows (users (tables w1))) = [Some (3 * day)]
      \<and> r' = Inr 1 \<and> map u_expires_at (rows (users (tables w2))) = [Some (33 * day)]"
  by code_simp

text \<open>
  A plan bought while the subscription is paused is lost: resuming replaces the expiry the
  purchase has set by the days recorded at the pause.
\<close>

lemma resume_drops_purchase:
  "let user = (sample_user 1 500)\<lparr>u_expires_at := Some (3 * day)\<rparr>;
       w = fresh_world (sample_db\<lparr>users := \<lparr>rows = [user], seq = 1\<rparr>\<rparr>);
       (_, w1) = Pause PauseDefaultConfig 0 1 w;
       (r, w2) = PayAndApplyPlan 10 ''ORD-1'' ''BAL-1'' ''balance'' True True w1;
       (r', w3) = Resume 20 1 w2
   in \<not> isl r \<and> map u_expires_at (rows (users (tables w2))) = [Some (30 * day + 10)]
      \<and> \<not> isl r' \<and> map u_expires_at (rows (users (tables w3))) = [Some (3 * day + 20)]"
  by code_simp

end
