(* ===== verification/Invites.thy ===== *)
theory Invites
  imports BalanceService
begin

text \<open>
  \<open>internal/commercial/invite/service.go\<close>, \<open>internal/commercial/commission/service.go\<close>
  and \<open>internal/database/repository/invite_repository.go\<close>: invite codes, the referral of an
  invited user, and the commissions a referral earns.  The invite service remembers the codes
  it has drawn; the memory is an argument and a result of the operations that use it, like the
  bytes of the random source.
\<close>

section \<open>The repository\<close>

definition ReferralRegistered :: string where "ReferralRegistered = ''registered''"
definition ReferralConverted :: string where "ReferralConverted = ''converted''"
definition CommissionPending :: string where "CommissionPending = ''pending''"
definition CommissionConfirmed :: string where "CommissionConfirmed = ''confirmed''"
definition CommissionCancelled :: string where "CommissionCancelled = ''cancelled''"

lemmas commission_status_defs = CommissionPending_def CommissionConfirmed_def CommissionCancelled_def

definition CreateInviteCode :: "time \<Rightarrow> invite_code_row \<Rightarrow> invite_code_row dbop" where
  "CreateInviteCode now c = create invite_codes invite_codes_update
     (\<lambda>a b. ic_user_id a = ic_user_id b \<or> ic_code a = ic_code b) (\<lambda>i. c\<lparr>ic_id := i, ic_created_at := now\<rparr>)"

definition GetInviteCodeByUserID :: "int \<Rightarrow> invite_code_row dbop" where
  "GetInviteCodeByUserID u = first invite_codes (\<lambda>c. ic_user_id c = u)"

definition GetInviteCodeByCode :: "string \<Rightarrow> invite_code_row dbop" where
  "GetInviteCodeByCode code = first invite_codes (\<lambda>c. ic_code c = code)"

definition IncrementInviteCount :: "int \<Rightarrow> unit dbop" where
  "IncrementInviteCount u = bindE (update_where invite_codes invite_codes_update (\<lambda>c. ic_user_id c = u)
     (\<lambda>c. c\<lparr>ic_invite_count := ic_invite_count c + 1\<rparr>)) (\<lambda>_. ret ())"

definition CreateReferral :: "time \<Rightarrow> referral_row \<Rightarrow> referral_row dbop" where
  "CreateReferral now rl = create referrals referrals_update
     (\<lambda>a b. rl_invitee_id a = rl_invitee_id b) (\<lambda>i. rl\<lparr>rl_id := i, rl_created_at := now\<rparr>)"

definition GetReferralByInviteeID :: "int \<Rightarrow> referral_row dbop" where
  "GetReferralByInviteeID u = first referrals (\<lambda>rl. rl_invitee_id rl = u)"

definition ListReferralsByInviter :: "int \<Rightarrow> int \<Rightarrow> int \<Rightarrow> (referral_row list \<times> int) dbop" where
  "ListReferralsByInviter u limit offset =
     bindE (query (\<lambda>d. count_rows (\<lambda>rl. rl_inviter_id rl = u) (referrals d))) (\<lambda>total.
     bindE (query (\<lambda>d. page_desc rl_created_at limit offset (filter (\<lambda>rl. rl_inviter_id rl = u) (rows (referrals d)))))
       (\<lambda>rs. ret (rs, total)))"

definition MarkReferralConverted :: "time \<Rightarrow> int \<Rightarrow> unit dbop" where
  "MarkReferralConverted now u = bindE (update_where referrals referrals_update (\<lambda>rl. rl_invitee_id rl = u)
     (\<lambda>rl. rl\<lparr>rl_status := ReferralConverted, rl_converted_at := Some now\<rparr>)) (\<lambda>_. ret ())"

text \<open>The column \<open>level\<close> has the default 1, which gorm writes for a zero value.\<close>

definition CreateCommission :: "time \<Rightarrow> commission_row \<Rightarrow> commission_row dbop" where
  "CreateCommission now k = create commissions commissions_update (\<lambda>_ _. False)
     (\<lambda>i. k\<lparr>k_id := i, k_level := (if k_level k = 0 then 1 else k_level k), k_created_at := now\<rparr>)"

definition GetCommissionByID :: "int \<Rightarrow> commission_row dbop" where
  "GetCommissionByID i = first commissions (\<lambda>k. k_id k = i)"

definition ListCommissionsByUser :: "int \<Rightarrow> string \<Rightarrow> int \<Rightarrow> int \<Rightarrow> (commission_row list \<times> int) dbop" where
  "ListCommissionsByUser u status limit offset =
     (let p = (\<lambda>k. k_user_id k = u \<and> (status = [] \<or> k_status k = status)) in
      bindE (query (\<lambda>d. count_rows p (commissions d))) (\<lambda>total.
      bindE (query (\<lambda>d. page_desc k_created_at limit offset (filter p (rows (commissions d)))))
        (\<lambda>ks. ret (ks, total))))"

definition set_commission_status :: "time \<Rightarrow> string \<Rightarrow> commission_row \<Rightarrow> commission_row" where
  "set_commission_status now status k =
     (let k = k\<lparr>k_status := status\<rparr> in
      if status = CommissionConfirmed then k\<lparr>k_confirm_at := Some now\<rparr> else k)"

definition UpdateCommissionStatus :: "time \<Rightarrow> int \<Rightarrow> string \<Rightarrow> unit dbop" where
  "UpdateCommissionStatus now i status = bindE (update_where commissions commissions_update (\<lambda>k. k_id k = i)
     (set_commission_status now status)) (\<lambda>_. ret ())"

definition RepoConfirmPendingCommissions :: "time \<Rightarrow> time \<Rightarrow> int dbop" where
  "RepoConfirmPendingCommissions now beforeDate = update_where commissions commissions_update
     (\<lambda>k. k_status k = CommissionPending \<and> k_created_at k < beforeDate)
     (\<lambda>k. k\<lparr>k_status := CommissionConfirmed, k_confirm_at := Some now\<rparr>)"

definition CancelCommissionsByOrder :: "int \<Rightarrow> unit dbop" where
  "CancelCommissionsByOrder orderID = bindE (update_where commissions commissions_update
     (\<lambda>k. k_order_id k = orderID \<and> k_status k = CommissionPending)
     (\<lambda>k. k\<lparr>k_status := CommissionCancelled\<rparr>)) (\<lambda>_. ret ())"

record invite_stats =
  is_total :: int
  is_converted :: int
  is_pending :: int
  is_confirmed :: int
  is_commission :: int

definition commission_sum :: "int \<Rightarrow> string list \<Rightarrow> db \<Rightarrow> int" where
  "commission_sum u statuses d = sum_rows (\<lambda>k. k_user_id k = u \<and> k_status k \<in> set statuses) k_amount (commissions d)"

definition GetInviteStats :: "int \<Rightarrow> invite_stats dbop" where
  "GetInviteStats u =
     bindE (query (\<lambda>d. count_rows (\<lambda>rl. rl_inviter_id rl = u) (referrals d))) (\<lambda>n.
     bindE (query (\<lambda>d. count_rows (\<lambda>rl. rl_inviter_id rl = u \<and> rl_status rl = ReferralConverted) (referrals d))) (\<lambda>conv.
     bindE (query (commission_sum u [CommissionPending])) (\<lambda>pend.
     bindE (query (commission_sum u [CommissionConfirmed])) (\<lambda>conf.
       ret \<lparr>is_total = n, is_converted = conv, is_pending = pend, is_confirmed = conf,
         is_commission = wrap64 (pend + conf)\<rparr>))))"

definition GetTotalCommissionByUser :: "int \<Rightarrow> int dbop" where
  "GetTotalCommissionByUser u = query (commission_sum u [CommissionPending, CommissionConfirmed])"

definition GetPendingCommissionByUser :: "int \<Rightarrow> int dbop" where
  "GetPendingCommissionByUser u = query (commission_sum u [CommissionPending])"

section \<open>The invite service\<close>

text \<open>
  \<open>rand.Read\<close> supplies four bytes per attempt; \<open>None\<close>: the loop has not ended when
  the supply does.
\<close>

fun InviteGenerateCode :: "string list \<Rightarrow> nat list list \<Rightarrow> (string \<times> string list) option" where
  "InviteGenerateCode codes [] = None"
| "InviteGenerateCode codes (bytes # rest) =
     (let code = to_upper (hex_encode bytes) in
      if code \<in> set codes then InviteGenerateCode codes rest else Some (code, code # codes))"

definition GetOrCreateCode :: "string list \<Rightarrow> nat list list \<Rightarrow> time \<Rightarrow> int
    \<Rightarrow> (invite_code_row \<times> string list) option dbop" where
  "GetOrCreateCode codes rnd now userID =
     bindE (attempt (GetInviteCodeByUserID userID)) (\<lambda>r. case r of
       Inr c \<Rightarrow> ret (Some (c, codes))
     | Inl _ \<Rightarrow> (case InviteGenerateCode codes rnd of
         None \<Rightarrow> ret None
       | Some (code, codes') \<Rightarrow>
           bindE (CreateInviteCode now \<lparr>ic_id = 0, ic_user_id = userID, ic_code = code, ic_invite_count = 0,
             ic_created_at = now\<rparr>) (\<lambda>c. ret (Some (c, codes')))))"

definition InviteGetByCode :: "string \<Rightarrow> invite_code_row dbop" where
  "InviteGetByCode code = map_err (\<lambda>_. InviteE ErrInviteCodeNotFound) (GetInviteCodeByCode (to_upper code))"

definition RecordReferral :: "time \<Rightarrow> string \<Rightarrow> int \<Rightarrow> unit dbop" where
  "RecordReferral now inviteCode inviteeID =
     bindE (InviteGetByCode inviteCode) (\<lambda>code.
     bindE (guardE (ic_user_id code \<noteq> inviteeID) (InviteE ErrSelfReferral)) (\<lambda>_.
     bindE (attempt (GetReferralByInviteeID inviteeID)) (\<lambda>r.
     bindE (guardE (isl r) (InviteE ErrAlreadyReferred)) (\<lambda>_.
     bindE (CreateReferral now \<lparr>rl_id = 0, rl_inviter_id = ic_user_id code, rl_invitee_id = inviteeID,
        rl_invite_code = ic_code code, rl_status = ReferralRegistered, rl_converted_at = None,
        rl_created_at = now\<rparr>) (\<lambda>_.
     bindE (attempt (IncrementInviteCount (ic_user_id code))) (\<lambda>_. ret ()))))))"

definition InviteMarkConverted :: "time \<Rightarrow> int \<Rightarrow> unit dbop" where
  "InviteMarkConverted now inviteeID = MarkReferralConverted now inviteeID"

definition GetReferrer :: "int \<Rightarrow> referral_row option dbop" where
  "GetReferrer inviteeID = bindE (attempt (GetReferralByInviteeID inviteeID)) (\<lambda>r.
     ret (case r of Inl _ \<Rightarrow> None | Inr rl \<Rightarrow> Some rl))"

definition GetReferrals :: "int \<Rightarrow> int \<Rightarrow> int \<Rightarrow> (referral_row list \<times> int) dbop" where
  "GetReferrals userID page pageSize =
     (let (limit, offset) = page_args page pageSize in ListReferralsByInviter userID limit offset)"

definition InviteGetStats :: "int \<Rightarrow> (invite_stats \<times> rat) dbop" where
  "InviteGetStats userID = bindE (GetInviteStats userID) (\<lambda>st.
     ret (st, if 0 < is_total st
       then f64 (f64 (f64 (of_int (is_converted st)) / f64 (of_int (is_total st))) * 100) else 0))"

definition GenerateInviteLink :: "string \<Rightarrow> string \<Rightarrow> string" where
  "GenerateInviteLink baseURL code = baseURL @ ''/user/register?ref='' @ code"

section \<open>The commission service\<close>

record commission_config =
  kc_enabled :: bool
  kc_rate :: rat
  kc_fixed_bonus :: int
  kc_settlement_delay :: int
  kc_min_withdraw :: int
  kc_multi_level :: bool
  kc_max_level :: int

definition CommissionDefaultConfig :: commission_config where
  "CommissionDefaultConfig = \<lparr>kc_enabled = True, kc_rate = f64 (1 / 10), kc_fixed_bonus = 0,
     kc_settlement_delay = 7, kc_min_withdraw = 1000, kc_multi_level = False, kc_max_level = 1\<rparr>"

definition Calculate :: "commission_config \<Rightarrow> int \<Rightarrow> int" where
  "Calculate c orderAmount =
     (if \<not> kc_enabled c then 0 else if orderAmount \<le> 0 then 0
      else f64_to_int (f64 (f64 (of_int orderAmount) * kc_rate c)))"

definition CommissionCreate :: "commission_config \<Rightarrow> time \<Rightarrow> int \<Rightarrow> int \<Rightarrow> int \<Rightarrow> int \<Rightarrow> rat \<Rightarrow> int
    \<Rightarrow> commission_row option dbop" where
  "CommissionCreate c now userID fromUserID orderID amount rate level =
     (if \<not> kc_enabled c then ret None
      else if amount \<le> 0 then raise (CommissionE ErrInvalidCommission)
      else bindE (CreateCommission now \<lparr>k_id = 0, k_user_id = userID, k_from_user_id = fromUserID,
          k_order_id = orderID, k_amount = amount, k_rate = rate, k_level = level,
          k_status = CommissionPending, k_confirm_at = None, k_created_at = now\<rparr>) (\<lambda>k. ret (Some k)))"

text \<open>The two early returns \<open>Confirm\<close> and \<open>Cancel\<close> share.\<close>

definition open_commission :: "int \<Rightarrow> commission_row dbop" where
  "open_commission i =
     bindE (map_err (\<lambda>_. CommissionE ErrCommissionNotFound) (GetCommissionByID i)) (\<lambda>k.
     bindE (guardE (k_status k \<noteq> CommissionConfirmed) (CommissionE ErrAlreadyConfirmed)) (\<lambda>_.
     bindE (guardE (k_status k \<noteq> CommissionCancelled) (CommissionE ErrAlreadyCancelled)) (\<lambda>_.
       ret k)))"

definition Confirm :: "bool \<Rightarrow> time \<Rightarrow> int \<Rightarrow> unit dbop" where
  "Confirm balanceService now i =
     bindE (open_commission i) (\<lambda>k.
     bindE (UpdateCommissionStatus now i CommissionConfirmed) (\<lambda>_.
     if balanceService then
       bindE (attempt (AddCommission now (k_user_id k) (k_amount k) ''Commission confirmed'')) (\<lambda>_. ret ())
     else ret ()))"

definition CommissionCancel :: "time \<Rightarrow> int \<Rightarrow> unit dbop" where
  "CommissionCancel now i =
     bindE (open_commission i) (\<lambda>_. UpdateCommissionStatus now i CommissionCancelled)"

definition CancelByOrder :: "int \<Rightarrow> unit dbop" where
  "CancelByOrder orderID = CancelCommissionsByOrder orderID"

definition ConfirmPendingCommissions :: "commission_config \<Rightarrow> time \<Rightarrow> int dbop" where
  "ConfirmPendingCommissions c now =
     RepoConfirmPendingCommissions now (add_days now (- kc_settlement_delay c))"

definition CommissionGetByID :: "int \<Rightarrow> commission_row dbop" where
  "CommissionGetByID i = map_err (\<lambda>_. CommissionE ErrCommissionNotFound) (GetCommissionByID i)"

definition listByStatus :: "int \<Rightarrow> string \<Rightarrow> int \<Rightarrow> int \<Rightarrow> (commission_row list \<times> int) dbop" where
  "listByStatus userID status page pageSize =
     (let (limit, offset) = page_args page pageSize in ListCommissionsByUser userID status limit offset)"

definition CommissionListPending :: "int \<Rightarrow> int \<Rightarrow> int \<Rightarrow> (commission_row list \<times> int) dbop" where
  "CommissionListPending userID page pageSize = listByStatus userID CommissionPending page pageSize"

definition CommissionListConfirmed :: "int \<Rightarrow> int \<Rightarrow> int \<Rightarrow> (commission_row list \<times> int) dbop" where
  "CommissionListConfirmed userID page pageSize = listByStatus userID CommissionConfirmed page pageSize"

definition CommissionListAll :: "int \<Rightarrow> int \<Rightarrow> int \<Rightarrow> (commission_row list \<times> int) dbop" where
  "CommissionListAll userID page pageSize = listByStatus userID [] page pageSize"

definition GetTotalEarnings :: "int \<Rightarrow> int dbop" where
  "GetTotalEarnings userID = GetTotalCommissionByUser userID"

definition GetPendingEarnings :: "int \<Rightarrow> int dbop" where
  "GetPendingEarnings userID = GetPendingCommissionByUser userID"

section \<open>Soundness\<close>

lemma sound_step_invites:
  "sound_db d \<Longrightarrow> sound_step d (d\<lparr>invite_codes := x\<rparr>)" "sound_db d \<Longrightarrow> sound_step d (d\<lparr>referrals := y\<rparr>)"
  by (auto intro!: sound_step_same simp: sound_db_def wf_db_def columns_ok_def)

lemma invite_statements_sound [sound_rules]:
  "sound_op (CreateInviteCode now c)" "sound_op (IncrementInviteCount u)" "sound_op (CreateReferral now rl)"
  "sound_op (MarkReferralConverted now u)"
  unfolding CreateInviteCode_def IncrementInviteCount_def CreateReferral_def MarkReferralConverted_def
  by (auto intro!: sound_opI wpt_rules sound_step_invites sound_step_refl)

lemma invite_service_sound [sound_rules]:
  "sound_op (RecordReferral now code u)" "sound_op (InviteMarkConverted now u)"
  unfolding RecordReferral_def InviteMarkConverted_def InviteGetByCode_def GetInviteCodeByCode_def
    GetReferralByInviteeID_def by (intro sound_rules)+

lemma GetOrCreateCode_sound [sound_rules]: "sound_op (GetOrCreateCode codes rnd now u)"
  unfolding GetOrCreateCode_def GetInviteCodeByUserID_def
  by (intro sound_rules) (auto split: option.split prod.split intro!: sound_rules)

lemma set_commission_status_fields [simp]:
  "k_id (set_commission_status now st k) = k_id k" "k_amount (set_commission_status now st k) = k_amount k"
  "k_status (set_commission_status now st k) = st" "k_user_id (set_commission_status now st k) = k_user_id k"
  by (simp_all add: set_commission_status_def Let_def)

lemma commission_statements_sound [sound_rules]:
  "sound_op (UpdateCommissionStatus now i st)" "sound_op (RepoConfirmPendingCommissions now t)"
  "sound_op (CancelCommissionsByOrder i)"
  unfolding UpdateCommissionStatus_def RepoConfirmPendingCommissions_def CancelCommissionsByOrder_def
  by (auto intro!: sound_opI wpt_rules sound_step_commissions sound_step_refl)

lemma CreateCommission_sound [sound_rules]: "in_i64 (k_amount k) \<Longrightarrow> sound_op (CreateCommission now k)"
  unfolding CreateCommission_def
  by (auto intro!: sound_opI wpt_rules sound_step_refl sound_step_same keyed_add
      simp: sound_db_def wf_db_def columns_ok_def table_simps)

lemma open_commission_wpt:
  "wpt (open_commission i)
     (\<lambda>k d'. d' = d \<and> find (\<lambda>k. k_id k = i) (rows (commissions d)) = Some k \<and> k \<in> set (rows (commissions d)) \<and> k_id k = i
        \<and> k_status k \<noteq> CommissionConfirmed \<and> k_status k \<noteq> CommissionCancelled)
     (\<lambda>_ d'. d' = d) d"
  unfolding open_commission_def GetCommissionByID_def by (intro wpt_rules) auto

lemma sound_bind_open:
  assumes "\<And>k. in_i64 (k_amount k) \<Longrightarrow> sound_op (f k)"
  shows "sound_op (bindE (open_commission i) f)"
  using assms
  by (auto intro!: sound_opI wpt_bind wpt_mono [OF open_commission_wpt] sound_step_refl
      simp: sound_op_def sound_db_def columns_ok_def)

lemma commission_service_sound [sound_rules]:
  "sound_op (Confirm b now i)" "sound_op (CommissionCancel now i)" "sound_op (CancelByOrder j)"
  "sound_op (ConfirmPendingCommissions c now)"
  "in_i64 a \<Longrightarrow> sound_op (CommissionCreate c now u v j a rate level)"
  unfolding Confirm_def CommissionCancel_def CancelByOrder_def ConfirmPendingCommissions_def CommissionCreate_def
  by (intro sound_rules sound_bind_open; simp)+

section \<open>Confirming a commission\<close>

lemma AddCommission_wpt:
  assumes "wf_db d" and "in_i64 a"
  shows "wpt (AddCommission now u a desc) (\<lambda>_ d'. 0 < a \<and> entry_posted d d' u a) (\<lambda>_ d'. d' = d) d"
  unfolding AddCommission_def
  by (intro wpt_rules wpt_mono [OF wallet_ops.credit_law [OF assms]]) auto

definition commission_confirmed :: "time \<Rightarrow> int \<Rightarrow> db \<Rightarrow> db" where
  "commission_confirmed now i d = d\<lparr>commissions := upd_rows (\<lambda>k. k_id k = i)
     (set_commission_status now CommissionConfirmed) (commissions d)\<rparr>"

lemma Confirm_wpt:
  assumes "sound_db d"
  shows "wpt (Confirm b now i)
    (\<lambda>_ d'. \<exists>k \<in> set (rows (commissions d)). k_id k = i \<and> k_status k \<noteq> CommissionConfirmed
       \<and> k_status k \<noteq> CommissionCancelled
       \<and> (d' = commission_confirmed now i d
          \<or> b \<and> 0 < k_amount k \<and> entry_posted (commission_confirmed now i d) d' (k_user_id k) (k_amount k)))
    (\<lambda>_ d'. d' = d) d"
proof -
  have wf: "wf_db (commission_confirmed now i d)"
    using assms by (auto simp: commission_confirmed_def sound_db_def wf_db_def intro!: keyed_upd)
  have amt: "in_i64 (k_amount k)" if "k \<in> set (rows (commissions d))" for k
    using assms that by (simp add: sound_db_def columns_ok_def)
  have upd: "wpt (UpdateCommissionStatus now i CommissionConfirmed)
      (\<lambda>_ d'. d' = commission_confirmed now i d) (\<lambda>_ d'. d' = d) d"
    unfolding UpdateCommissionStatus_def commission_confirmed_def by (intro wpt_rules) auto
  have credit: "wpt (bindE (attempt (AddCommission now (k_user_id k) (k_amount k) ''Commission confirmed'')) (\<lambda>_. ret ()))
      (\<lambda>_ d'. d' = commission_confirmed now i d
         \<or> 0 < k_amount k \<and> entry_posted (commission_confirmed now i d) d' (k_user_id k) (k_amount k))
      (\<lambda>_ _. False) (commission_confirmed now i d)" if "k \<in> set (rows (commissions d))" for k
    by (intro wpt_bind wpt_attempt wpt_mono [OF AddCommission_wpt [OF wf amt [OF that]]] wpt_ret) auto
  show ?thesis
    unfolding Confirm_def
  proof (rule wpt_bind, rule wpt_mono [OF open_commission_wpt], goal_cases)
    case (1 k d')
    then have d': "d' = d" and k: "k \<in> set (rows (commissions d))" "k_id k = i"
      "k_status k \<noteq> CommissionConfirmed" "k_status k \<noteq> CommissionCancelled" by auto
    have "wpt (if b then bindE (attempt (AddCommission now (k_user_id k) (k_amount k) ''Commission confirmed'')) (\<lambda>_. ret ())
          else ret ())
        (\<lambda>_ d'. d' = commission_confirmed now i d
           \<or> b \<and> 0 < k_amount k \<and> entry_posted (commission_confirmed now i d) d' (k_user_id k) (k_amount k))
        (\<lambda>_ _. False) (commission_confirmed now i d)"
      using credit [OF k(1)] by (cases b) (auto intro: wpt_ret)
    then show ?case unfolding d'
      by (intro wpt_bind wpt_mono [OF upd]) (use k in \<open>auto elim!: wpt_mono\<close>)
  qed
qed


definition sample_commission :: "int \<Rightarrow> string \<Rightarrow> commission_row" where
  "sample_commission a st = \<lparr>k_id = 1, k_user_id = 1, k_from_user_id = 2, k_order_id = 1, k_amount = a,
     k_rate = 0, k_level = 1, k_status = st, k_confirm_at = None, k_created_at = 0\<rparr>"

definition sample_commission_world :: "db world" where
  "sample_commission_world = fresh_world (sample_db\<lparr>commissions := \<lparr>rows = [sample_commission 30 ''pending''], seq = 1\<rparr>\<rparr>)"

lemma sample_commission_sound: "sound_db (tables sample_commission_world)"
  by (simp add: sample_commission_world_def sample_commission_def sample_defs sound_db_def wf_db_def
      wallets_ok_def columns_ok_def price_ok_def keyed_def i64_defs)


lemma Confirm_commissions:
  assumes "sound_db (tables w)" and "Confirm b now i w = (Inr x, w1)"
  shows "commissions (tables w1) = commissions (commission_confirmed now i (tables w))"
proof -
  from wptD_Inr [OF Confirm_wpt [OF assms(1)] assms(2)]
  consider "tables w1 = commission_confirmed now i (tables w)"
    | k :: commission_row where "entry_posted (commission_confirmed now i (tables w)) (tables w1) (k_user_id k) (k_amount k)"
    by blast
  then show ?thesis by cases (simp_all add: entry_posted_frame)
qed

lemma open_commission_refused:
  assumes "\<And>k. k \<in> set (rows (commissions d)) \<Longrightarrow> k_id k = i \<Longrightarrow> k_status k \<in> {CommissionConfirmed, CommissionCancelled}"
  shows "wpt (open_commission i) (\<lambda>_ _. False) (\<lambda>_ d'. d' = d) d"
  using assms by (intro wpt_mono [OF open_commission_wpt]) auto

lemma closed_commission_refused:
  assumes "\<And>k. k \<in> set (rows (commissions d)) \<Longrightarrow> k_id k = i \<Longrightarrow> k_status k \<in> {CommissionConfirmed, CommissionCancelled}"
  shows "wpt (Confirm b now i) (\<lambda>_ _. False) (\<lambda>_ d'. d' = d) d"
    and "wpt (CommissionCancel now i) (\<lambda>_ _. False) (\<lambda>_ d'. d' = d) d"
  unfolding Confirm_def CommissionCancel_def
  by (intro wpt_bind wpt_mono [OF open_commission_refused [OF assms]]; simp)+

text \<open>
  A commission is paid at most once: after a successful confirmation every later
  confirmation or cancellation of it fails and leaves every table as it was, as long as nothing
  else has touched the commissions in between.
\<close>

theorem confirm_at_most_once:
  fixes w w1 w2 w3 :: "db world"
  assumes "sound_db (tables w)" and "Confirm b now i w = (Inr x, w1)"
    and "commissions (tables w2) = commissions (tables w1)"
    and "(m, w3) \<in> {Confirm b' now' i w2, CommissionCancel now' i w2}"
  shows "isl m \<and> tables w3 = tables w2"
proof -
  have closed: "k_status k \<in> {CommissionConfirmed, CommissionCancelled}"
    if "k \<in> set (rows (commissions (tables w2)))" and "k_id k = i" for k
    using that upd_rows_hit [of k k_id i "set_commission_status now CommissionConfirmed" "commissions (tables w)"]
    unfolding assms(3) Confirm_commissions [OF assms(1,2)] by (auto simp: commission_confirmed_def)
  from assms(4) consider "Confirm b' now' i w2 = (m, w3)" | "CommissionCancel now' i w2 = (m, w3)" by auto
  then show ?thesis
  proof cases
    case 1
    from wpt_run [OF closed_commission_refused(1) [OF closed] this] show ?thesis by (cases m) auto
  next
    case 2
    from wpt_run [OF closed_commission_refused(2) [OF closed] this] show ?thesis by (cases m) auto
  qed
qed

theorem confirm_at_most_once_witness:
  "let w1 = snd (Confirm True 9 1 sample_commission_world) in
   isl (fst (Confirm True 10 1 w1)) \<and> wallet (tables (snd (Confirm True 10 1 w1))) 1 = 530"
proof -
  let ?w1 = "snd (Confirm True 9 1 sample_commission_world)"
  have ok: "\<not> isl (fst (Confirm True 9 1 sample_commission_world))" and "wallet (tables ?w1) 1 = 530" by code_simp+
  then show ?thesis
    using confirm_at_most_once [OF sample_commission_sound run_Inr [OF ok] refl,
        of "fst (Confirm True 10 1 ?w1)" "snd (Confirm True 10 1 ?w1)" True 10]
    by (simp add: Let_def)
qed

text \<open>
  The periodic settlement confirms commissions without crediting them, and a confirmed
  commission can no longer be confirmed by hand: no wallet ever receives its amount.
\<close>

lemma settlement_never_pays:
  "wpt (ConfirmPendingCommissions c now) (\<lambda>_ d'. users d' = users d \<and> ledger d' = ledger d) (\<lambda>_ d'. d' = d) d"
  unfolding ConfirmPendingCommissions_def RepoConfirmPendingCommissions_def by (intro wpt_rules) auto

lemma settled_commission_lost:
  "let (r, w1) = ConfirmPendingCommissions CommissionDefaultConfig (8 * day) sample_commission_world;
       (r', w2) = Confirm True (8 * day) 1 w1
   in r = Inr 1 \<and> r' = Inl (CommissionE ErrAlreadyConfirmed) \<and> wallet (tables w2) 1 = 500"
  by code_simp

section \<open>Referrals\<close>

definition new_referral :: "time \<Rightarrow> invite_code_row \<Rightarrow> int \<Rightarrow> int \<Rightarrow> referral_row" where
  "new_referral now c u i = \<lparr>rl_id = i, rl_inviter_id = ic_user_id c, rl_invitee_id = u, rl_invite_code = ic_code c,
     rl_status = ReferralRegistered, rl_converted_at = None, rl_created_at = now\<rparr>"

definition bump_count :: "int \<Rightarrow> invite_code_row table \<Rightarrow> invite_code_row table" where
  "bump_count u = upd_rows (\<lambda>k. ic_user_id k = u) (\<lambda>k. k\<lparr>ic_invite_count := ic_invite_count k + 1\<rparr>)"

lemma RecordReferral_wpt:
  "wpt (RecordReferral now code u)
    (\<lambda>_ d'. \<exists>c \<in> set (rows (invite_codes d)). ic_code c = to_upper code \<and> ic_user_id c \<noteq> u
       \<and> (\<forall>rl \<in> set (rows (referrals d)). rl_invitee_id rl \<noteq> u)
       \<and> referrals d' = add_row (new_referral now c u) (referrals d)
       \<and> (invite_codes d' = invite_codes d \<or> invite_codes d' = bump_count (ic_user_id c) (invite_codes d))
       \<and> users d' = users d \<and> ledger d' = ledger d \<and> commissions d' = commissions d)
    (\<lambda>_ d'. d' = d) d"
  unfolding RecordReferral_def InviteGetByCode_def GetInviteCodeByCode_def GetReferralByInviteeID_def
    CreateReferral_def IncrementInviteCount_def
  apply (intro wpt_rules)
  apply (simp_all)
  subgoal for c by (rule bexI [of _ c]) (auto simp: new_referral_def [abs_def])
  subgoal for c by (rule bexI [of _ c]) (auto simp: new_referral_def [abs_def] bump_count_def)
  subgoal for c by (rule bexI [of _ c]) (auto simp: new_referral_def [abs_def])
  subgoal for c by (rule bexI [of _ c]) (auto simp: new_referral_def [abs_def] bump_count_def)
  done

text \<open>
  Recording a referral.  Under every fault schedule, a referral that is refused or fails
  leaves every table unchanged.  One that succeeds names the owner of the upper-cased code, who
  is not the invited user, for a user that had no referrer; it appends exactly one referral and
  touches no wallet, audit row or commission (the counter of the code follows, best effort).
\<close>

theorem referral_outcome:
  fixes w w' :: "db world"
  assumes "RecordReferral now code u w = (r, w')"
  shows "case r of Inl _ \<Rightarrow> tables w' = tables w
    | Inr _ \<Rightarrow> (\<forall>rl \<in> set (rows (referrals (tables w))). rl_invitee_id rl \<noteq> u)
       \<and> (\<exists>c \<in> set (rows (invite_codes (tables w))). ic_code c = to_upper code \<and> ic_user_id c \<noteq> u
          \<and> (\<exists>rl. rows (referrals (tables w')) = rows (referrals (tables w)) @ [rl]
              \<and> rl_inviter_id rl = ic_user_id c \<and> rl_invitee_id rl = u \<and> rl_status rl = ''registered''))
       \<and> users (tables w') = users (tables w) \<and> ledger (tables w') = ledger (tables w)
       \<and> commissions (tables w') = commissions (tables w)"
  using wpt_run [OF RecordReferral_wpt assms]
  by (cases r) (auto simp: table_simps new_referral_def ReferralRegistered_def)

definition sample_invite_world :: "db world" where
  "sample_invite_world = fresh_world (sample_db\<lparr>invite_codes :=
     \<lparr>rows = [\<lparr>ic_id = 1, ic_user_id = 1, ic_code = ''AB12'', ic_invite_count = 0, ic_created_at = 0\<rparr>], seq = 1\<rparr>\<rparr>)"

theorem referral_outcome_witness:
  "let m = RecordReferral 5 ''ab12'' 2 sample_invite_world in
   \<not> isl (fst m) \<and> map rl_invitee_id (rows (referrals (tables (snd m)))) = [2]
   \<and> users (tables (snd m)) = users sample_db"
proof -
  let ?m = "RecordReferral 5 ''ab12'' 2 sample_invite_world"
  have ok: "\<not> isl (fst ?m)" by code_simp
  have "users (tables sample_invite_world) = users sample_db" "rows (referrals (tables sample_invite_world)) = []"
    by (simp_all add: sample_invite_world_def sample_defs)
  with referral_outcome [OF run_Inr [OF ok]] ok show ?thesis by (auto simp: Let_def)
qed

lemma sum_list_filter_split:
  fixes f :: "'a \<Rightarrow> int"
  assumes "\<And>x. p x \<Longrightarrow> \<not> q x"
  shows "sum_list (map f (filter (\<lambda>x. p x \<or> q x) xs)) = sum_list (map f (filter p xs)) + sum_list (map f (filter q xs))"
  using assms by (induction xs) auto

lemma commission_sum_split:
  "commission_sum u [CommissionPending, CommissionConfirmed] d
     = commission_sum u [CommissionPending] d + commission_sum u [CommissionConfirmed] d"
proof -
  have "sum_list (map k_amount (filter (\<lambda>k. (k_user_id k = u \<and> k_status k = CommissionPending)
        \<or> (k_user_id k = u \<and> k_status k = CommissionConfirmed)) (rows (commissions d))))
    = sum_list (map k_amount (filter (\<lambda>k. k_user_id k = u \<and> k_status k = CommissionPending) (rows (commissions d))))
    + sum_list (map k_amount (filter (\<lambda>k. k_user_id k = u \<and> k_status k = CommissionConfirmed) (rows (commissions d))))"
    by (rule sum_list_filter_split) (auto simp: commission_status_defs)
  then show ?thesis by (simp add: commission_sum_def sum_rows_def conj_disj_distribL)
qed

text \<open>
  Two views of a user's earnings agree: the total in the invite statistics (the sum of the
  pending and the confirmed amounts) is what the commission service reports as total earnings,
  whenever that total is an int64 value.
\<close>

lemma earnings_views_agree:
  fixes w w1 w2 :: "db world"
  assumes "GetInviteStats u w = (Inr st, w1)" and "GetTotalEarnings u w1 = (Inr earned, w2)" and "in_i64 earned"
  shows "is_commission st = earned \<and> tables w2 = tables w"
proof -
  have "wpt (GetInviteStats u) (\<lambda>st d'. d' = d
      \<and> is_commission st = wrap64 (commission_sum u [CommissionPending, CommissionConfirmed] d)) (\<lambda>_ d'. d' = d) d" for d
    unfolding GetInviteStats_def by (intro wpt_rules) (auto simp: commission_sum_split)
  from wptD_Inr [OF this assms(1)]
  have st: "tables w1 = tables w" "is_commission st = wrap64 (commission_sum u [CommissionPending, CommissionConfirmed] (tables w))"
    by auto
  have "wpt (GetTotalEarnings u) (\<lambda>t d'. d' = d \<and> t = commission_sum u [CommissionPending, CommissionConfirmed] d)
      (\<lambda>_ d'. d' = d) d" for d
    unfolding GetTotalEarnings_def GetTotalCommissionByUser_def by (intro wpt_rules) auto
  from wptD_Inr [OF this assms(2)] st assms(3) show ?thesis by (simp add: wrap64_id)
qed

lemma earnings_views_agree_witness:
  "is_commission (projr (fst (GetInviteStats 1 sample_commission_world))) = 30"
proof -
  let ?s = "GetInviteStats 1 sample_commission_world"
  let ?t = "GetTotalEarnings 1 (snd ?s)"
  have "\<not> isl (fst ?s)" and "\<not> isl (fst ?t)" and "projr (fst ?t) = 30" by code_simp+
  with earnings_views_agree [OF run_Inr [of ?s] run_Inr [of ?t]] show ?thesis
    by (simp add: i64_defs)
qed

end
