(* ===== verification/Payments.thy ===== *)
theory Payments
  imports OrderService "HOL-Library.AList" "HOL-Library.Char_ord" "HOL-Library.List_Lexorder"
begin

text \<open>
  \<open>internal/commercial/payment\<close>: amounts as decimal text (\<open>amount.go\<close>), the payment
  service (\<open>service.go\<close>) and the retry service (\<open>retry.go\<close>).  A gateway is the
  interface of \<open>gateway.go\<close>: its four operations are fields of a record and may answer
  anything; the two implementations talk to Alipay and WeChat over the network.
\<close>

section \<open>Amounts\<close>

definition parseCents :: "string \<Rightarrow> err + int" where
  "parseCents value =
     (let parts = split_char CHR ''.'' value; bad = Inl (ErrText ''invalid payment amount'') in
      if 2 < length parts \<or> parts ! 0 = [] then bad
      else if length parts = 2 \<and> (length (parts ! 1) = 0 \<or> 2 < length (parts ! 1)) then bad
      else
        let fraction = (if length parts = 2
               then (if length (parts ! 1) = 1 then parts ! 1 @ ''0'' else parts ! 1) else ''00'');
            digits = parts ! 0 @ fraction
        in if \<not> list_all is_digit digits then bad
        else (case parse_int64 digits of None \<Rightarrow> Inl (ErrText ''value out of range'') | Some n \<Rightarrow> Inr n))"

definition pad2 :: "int \<Rightarrow> string" where
  "pad2 n = (if length (show_int n) < 2 then ''0'' @ show_int n else show_int n)"

definition formatCents :: "int \<Rightarrow> string" where
  "formatCents amount = show_int (amount sdiv 100) @ ''.'' @ pad2 (amount smod 100)"

section \<open>The payment service\<close>

record payment_order =
  po_order_no :: string
  po_amount :: int
  po_subject :: string
  po_description :: string
  po_client_ip :: string
  po_notify_url :: string
  po_return_url :: string

record payment_request =
  pq_payment_url :: string
  pq_qrcode_url :: string
  pq_qrcode_data :: string
  pq_expire_time :: time
  pq_extra :: "(string \<times> string) list"

record payment_result =
  pr_success :: bool
  pr_order_no :: string
  pr_payment_no :: string
  pr_amount :: int
  pr_paid_at :: time
  pr_error :: string

record gateway_refund =
  gr_success :: bool
  gr_refund_no :: string
  gr_amount :: int
  gr_refund_at :: time
  gr_error :: string

text \<open>
  The \<open>PaymentGateway\<close> interface; \<open>gw_error_text\<close> is the \<open>Error()\<close> text
  of the errors a gateway returns, which the service wraps with \<open>%v\<close>.
\<close>

record gateway =
  gw_name :: string
  gw_create :: "payment_order \<Rightarrow> err + payment_request"
  gw_verify :: "string \<Rightarrow> string \<Rightarrow> err + payment_result"
  gw_query :: "string \<Rightarrow> err + payment_result"
  gw_refund :: "string \<Rightarrow> int \<Rightarrow> string \<Rightarrow> err + gateway_refund"
  gw_error_text :: "err \<Rightarrow> string"

text \<open>
  The service: its gateways by name, the order service, and whether the balance service and
  the recharge handler (the balance service again, with its recharge repository) are wired.
\<close>

record payment_service =
  py_gateways :: "(string \<times> gateway) list"
  py_orders :: order_service
  py_balance :: bool
  py_recharge :: bool

definition NewPaymentService :: "order_service \<Rightarrow> payment_service" where
  "NewPaymentService svc = \<lparr>py_gateways = [], py_orders = svc, py_balance = False, py_recharge = False\<rparr>"

definition WithBalanceService :: "payment_service \<Rightarrow> payment_service" where
  "WithBalanceService s = s\<lparr>py_balance := True\<rparr>"

definition WithRechargeHandler :: "payment_service \<Rightarrow> payment_service" where
  "WithRechargeHandler s = s\<lparr>py_recharge := True\<rparr>"

definition RegisterGateway :: "gateway \<Rightarrow> payment_service \<Rightarrow> payment_service" where
  "RegisterGateway g s = s\<lparr>py_gateways := AList.update (gw_name g) g (py_gateways s)\<rparr>"

definition ReplaceGateways :: "(string \<times> gateway) list \<Rightarrow> payment_service \<Rightarrow> payment_service" where
  "ReplaceGateways gs s = s\<lparr>py_gateways := gs\<rparr>"

definition GetGateway :: "payment_service \<Rightarrow> string \<Rightarrow> err + gateway" where
  "GetGateway s name = (case map_of (py_gateways s) (trim_space name) of
      None \<Rightarrow> Inl (PaymentE ErrGatewayNotFound) | Some g \<Rightarrow> Inr g)"

definition ListGateways :: "payment_service \<Rightarrow> string list" where
  "ListGateways s = sort (map fst (py_gateways s)) @ (if py_balance s then [''balance''] else [])"

text \<open>A computed result of the service as an operation.\<close>

definition lift_sum :: "err + 'a \<Rightarrow> 'a dbop" where
  "lift_sum r = (case r of Inl e \<Rightarrow> raise e | Inr x \<Rightarrow> ret x)"

definition CreateGatewayPayment :: "payment_service \<Rightarrow> string \<Rightarrow> payment_order option \<Rightarrow> err + payment_request" where
  "CreateGatewayPayment s meth paymentOrder = (case paymentOrder of
      None \<Rightarrow> Inl (Wrapped (PaymentE ErrPaymentFailed) ''invalid payment order'')
    | Some po \<Rightarrow>
      if trim_space (po_order_no po) = [] \<or> po_amount po \<le> 0
        then Inl (Wrapped (PaymentE ErrPaymentFailed) ''invalid payment order'')
      else let meth = trim_space meth in
      if meth = ''balance'' then Inl (PaymentE ErrGatewayNotFound)
      else (case GetGateway s meth of Inl e \<Rightarrow> Inl e
        | Inr g \<Rightarrow>
          let req = (if po_client_ip po = [] then po\<lparr>po_client_ip := ''127.0.0.1''\<rparr> else po) in
          (case gw_create g req of Inl e \<Rightarrow> Inl (Wrapped (PaymentE ErrPaymentFailed) (gw_error_text g e)) | Inr q \<Rightarrow> Inr q)))"

definition createBalancePayment :: "payment_service \<Rightarrow> time \<Rightarrow> int \<Rightarrow> order_view \<Rightarrow> payment_request dbop" where
  "createBalancePayment s now nanos ord =
     (if \<not> py_balance s then raise (PaymentE ErrGatewayNotFound)
      else
      let paymentNo = ''BALANCE-'' @ show_int nanos in
      bindE (Pay (py_orders s) now (ov_order_no ord) paymentNo ''balance'' True) (\<lambda>_.
      bindE (attempt (OrderSvcGetByOrderNo (ov_order_no ord))) (\<lambda>r.
      bindE (case r of Inl _ \<Rightarrow> ret () | Inr o' \<Rightarrow> bindE (attempt (Complete (ov_id o'))) (\<lambda>_. ret ())) (\<lambda>_.
        ret \<lparr>pq_payment_url = [], pq_qrcode_url = [], pq_qrcode_data = [], pq_expire_time = now,
          pq_extra = [(''method'', ''balance''), (''payment_no'', paymentNo), (''status'', StatusCompleted)]\<rparr>))))"

definition CreatePayment :: "payment_service \<Rightarrow> time \<Rightarrow> int \<Rightarrow> string \<Rightarrow> string \<Rightarrow> string \<Rightarrow> payment_request dbop" where
  "CreatePayment s now nanos orderNo meth clientIP =
     bindE (map_err (\<lambda>_. PaymentE ErrPaymentOrderNotFound) (OrderSvcGetByOrderNo orderNo)) (\<lambda>ord.
     bindE (guardE (ov_status ord = StatusPending) (PaymentE ErrOrderNotPending)) (\<lambda>_.
     if meth = ''balance'' then createBalancePayment s now nanos ord
     else lift_sum (CreateGatewayPayment s meth (Some \<lparr>po_order_no = ov_order_no ord, po_amount = ov_pay_amount ord,
        po_subject = ''Order '' @ ov_order_no ord, po_description = ''Payment for order '' @ ov_order_no ord,
        po_client_ip = clientIP, po_notify_url = [], po_return_url = []\<rparr>))))"

text \<open>The part of a callback that concerns an order, and the part for a recharge order.\<close>

definition order_callback :: "payment_service \<Rightarrow> time \<Rightarrow> string \<Rightarrow> payment_result \<Rightarrow> string \<Rightarrow> string \<Rightarrow> order_view \<Rightarrow> unit dbop" where
  "order_callback s now meth result orderNo paymentNo ord =
     (if 0 < pr_amount result \<and> ov_pay_amount ord \<noteq> pr_amount result then raise (PaymentE ErrAmountMismatch)
      else if ov_payment_no ord = paymentNo \<and> \<not> ov_fulfillment_pending ord
          \<and> (ov_status ord = StatusPaid \<or> ov_status ord = StatusCompleted) then ret ()
      else Pay (py_orders s) now orderNo paymentNo meth False)"

definition recharge_callback :: "payment_service \<Rightarrow> engine \<Rightarrow> time \<Rightarrow> payment_result \<Rightarrow> string \<Rightarrow> string \<Rightarrow> unit dbop" where
  "recharge_callback s eng now result orderNo paymentNo =
     (if \<not> py_recharge s then raise (PaymentE ErrPaymentOrderNotFound)
      else
      bindE (map_err (\<lambda>_. PaymentE ErrPaymentOrderNotFound) (GetRechargePaymentDetails True orderNo))
        (\<lambda>(amount, persistedPaymentNo, status).
        if 0 < pr_amount result \<and> amount \<noteq> pr_amount result then raise (PaymentE ErrAmountMismatch)
        else if persistedPaymentNo = paymentNo \<and> status = StatusPaid then ret ()
        else MarkRechargePaid True eng now orderNo paymentNo (pr_paid_at result)))"

definition HandleCallback :: "payment_service \<Rightarrow> engine \<Rightarrow> time \<Rightarrow> string \<Rightarrow> string \<Rightarrow> string \<Rightarrow> unit dbop" where
  "HandleCallback s eng now meth data signature =
     bindE (lift_sum (GetGateway s meth)) (\<lambda>g.
     bindE (lift_sum (gw_verify g data signature)) (\<lambda>result.
     if \<not> pr_success result then ret ()
     else
       let orderNo = trim_space (pr_order_no result); paymentNo = trim_space (pr_payment_no result) in
       if orderNo = [] \<or> paymentNo = [] then raise (PaymentE ErrInvalidCallback)
       else
       bindE (attempt (OrderSvcGetByOrderNo orderNo)) (\<lambda>r. case r of
         Inr ord \<Rightarrow> order_callback s now meth result orderNo paymentNo ord
       | Inl _ \<Rightarrow> recharge_callback s eng now result orderNo paymentNo)))"

definition QueryPayment :: "payment_service \<Rightarrow> string \<Rightarrow> string \<Rightarrow> err + payment_result" where
  "QueryPayment s meth paymentNo = (case GetGateway s meth of Inl e \<Rightarrow> Inl e | Inr g \<Rightarrow> gw_query g paymentNo)"

definition GatewayProcessRefund :: "payment_service \<Rightarrow> time \<Rightarrow> int \<Rightarrow> int \<Rightarrow> string \<Rightarrow> gateway_refund dbop" where
  "GatewayProcessRefund s now orderID amount reason =
     bindE (map_err (\<lambda>_. PaymentE ErrPaymentOrderNotFound) (OrderSvcGetByID orderID)) (\<lambda>ord.
     bindE (guardE (\<not> (ov_payment_no ord = [] \<or> ov_payment_method ord = []))
        (ErrText ''order has no payment information'')) (\<lambda>_.
     bindE (lift_sum (GetGateway s (ov_payment_method ord))) (\<lambda>g.
     case gw_refund g (ov_payment_no ord) amount reason of
       Inl e \<Rightarrow> raise (Wrapped (PaymentE ErrRefundFailed) (gw_error_text g e))
     | Inr result \<Rightarrow>
         if \<not> gr_success result then ret result
         else bindE (attempt (UpdateStatus (py_orders s) now orderID StatusRefunded)) (\<lambda>_. ret result))))"

definition IsCallbackProcessed :: "string \<Rightarrow> string \<Rightarrow> bool" where
  "IsCallbackProcessed meth paymentNo = False"

definition GetPaymentStatus :: "string \<Rightarrow> string dbop" where
  "GetPaymentStatus orderNo =
     bindE (map_err (\<lambda>_. PaymentE ErrPaymentOrderNotFound) (OrderSvcGetByOrderNo orderNo)) (\<lambda>ord. ret (ov_status ord))"

section \<open>Amounts are exact\<close>

lemma show_int_nonneg: "0 \<le> n \<Longrightarrow> show_int n = show_nat (nat n)"
  by (simp add: show_int_def)

lemma is_digit_show_nat [simp]: "list_all is_digit (show_nat n)"
  by (auto simp: list_all_iff dest!: show_nat_digits)

lemma no_dot_show_nat: "CHR ''.'' \<notin> set (show_nat n)"
proof
  assume "CHR ''.'' \<in> set (show_nat n)"
  then have "is_digit CHR ''.''" using is_digit_show_nat [of n] by (auto simp: list_all_iff)
  then show False by (simp add: is_digit_def)
qed

lemma show_nat_two: "n < 100 \<Longrightarrow> pad2 (int n) = [digit_char (n div 10), digit_char (n mod 10)]"
proof -
  assume n: "n < 100"
  have one: "show_nat k = [digit_char k]" if "k < 10" for k using that by (subst show_nat.simps) simp
  show ?thesis
  proof (cases "n < 10")
    case True
    moreover have "digit_char 0 = CHR ''0''" by code_simp
    ultimately show ?thesis by (simp add: pad2_def show_int_nonneg one)
  next
    case False
    then have "show_nat n = [digit_char (n div 10), digit_char (n mod 10)]"
      using n by (subst show_nat.simps) (simp add: one)
    then show ?thesis by (simp add: pad2_def show_int_nonneg)
  qed
qed

lemma parse_int64_digits:
  assumes "ds \<noteq> []" and "list_all is_digit ds"
  shows "parse_int64 ds = (if in_i64 (int (read_nat ds)) then Some (int (read_nat ds)) else None)"
proof -
  obtain c cs where ds: "ds = c # cs" using assms(1) by (cases ds) auto
  then have "c \<noteq> CHR ''-''" "c \<noteq> CHR ''+''" using assms(2) by (auto simp: is_digit_def)
  with assms(2) show ?thesis by (simp add: parse_int64_def ds Let_def)
qed

lemma horner: "10 * b + c = m \<Longrightarrow> 100 * a + m = k \<Longrightarrow> 10 * (10 * a + b) + c = (k :: nat)"
  by (auto simp: algebra_simps)

text \<open>
  Amounts are never rounded.  Every amount of cents an int64 can hold that is not
  negative is read back exactly from the text it is printed as.
\<close>

theorem cents_round_trip:
  assumes "0 \<le> amount" and "amount \<le> maxI64"
  shows "parseCents (formatCents amount) = Inr amount"
proof -
  obtain n where n: "amount = int n" using assms(1) by (metis nonneg_int_cases)
  have q: "amount sdiv 100 = int (n div 100)" and r: "amount smod 100 = int (n mod 100)"
    by (cases "n = 0"; simp add: n signed_divide_int_def signed_modulo_int_def zdiv_int zmod_int)+
  let ?f = "[digit_char (n mod 100 div 10), digit_char (n mod 100 mod 10)]"
  have fmt: "formatCents amount = show_nat (n div 100) @ CHR ''.'' # ?f"
    using show_nat_two [of "n mod 100"] by (simp add: formatCents_def q r show_int_nonneg)
  have dig: "n mod 100 div 10 < 10" "n mod 100 mod 10 < 10" by simp_all
  have nodot: "CHR ''.'' \<notin> set ?f" using dig by (auto dest!: sym [of "CHR ''.''"])
  have parts: "split_char CHR ''.'' (formatCents amount) = [show_nat (n div 100), ?f]"
    unfolding fmt split_char_app [OF no_dot_show_nat] split_char_no [OF nodot] ..
  have val: "read_nat (show_nat (n div 100) @ ?f) = n"
  proof -
    have "read_nat (show_nat (n div 100) @ ?f) = 10 * (10 * (n div 100) + n mod 100 div 10) + n mod 100 mod 10"
      using dig read_nat_snoc [of "show_nat (n div 100) @ [digit_char (n mod 100 div 10)]" "digit_char (n mod 100 mod 10)"]
        read_nat_snoc [of "show_nat (n div 100)" "digit_char (n mod 100 div 10)"] by simp
    also have "\<dots> = n"
      by (rule horner) (rule mult_div_mod_eq)+
    finally show ?thesis .
  qed
  have digits: "list_all is_digit (show_nat (n div 100) @ ?f)" using dig by simp
  have "parse_int64 (show_nat (n div 100) @ ?f) = Some amount"
    using assms by (subst parse_int64_digits [OF _ digits]) (simp_all add: val n i64_defs)
  then show ?thesis using digits by (simp add: parseCents_def parts Let_def)
qed

theorem cents_round_trip_witness: "parseCents (formatCents 1205) = Inr 1205"
  by (rule cents_round_trip) (simp_all add: maxI64_def)

section \<open>Callbacks\<close>

lemma wpt_any: "wpt m (\<lambda>_ _. True) (\<lambda>_ _. True) t"
  by (auto simp: wpt_def split: sum.split prod.split)

lemma wpt_lift_sum [wpt_rules]:
  "(\<And>x. r = Inr x \<Longrightarrow> Q x t) \<Longrightarrow> (\<And>e. r = Inl e \<Longrightarrow> E e t) \<Longrightarrow> wpt (lift_sum r) Q E t"
  by (auto simp: lift_sum_def split: sum.split intro!: wpt_rules)

lemma sound_lift_sum [sound_rules]: "sound_op (lift_sum r)"
  by (auto intro!: sound_opI wpt_rules sound_step_refl)

text \<open>
  What a callback must show before anything is written: a gateway registered for the method
  accepted the data and its signature and reports success, the order and payment numbers are not
  blank, and there is an order (or a recharge order) with that number whose amount is the
  reported one, if the gateway reports an amount.
\<close>

definition authentic :: "payment_service \<Rightarrow> string \<Rightarrow> string \<Rightarrow> string \<Rightarrow> db \<Rightarrow> bool" where
  "authentic s meth data signature d \<longleftrightarrow> (\<exists>g result. GetGateway s meth = Inr g
     \<and> gw_verify g data signature = Inr result \<and> pr_success result
     \<and> trim_space (pr_order_no result) \<noteq> [] \<and> trim_space (pr_payment_no result) \<noteq> []
     \<and> ((\<exists>ord \<in> set (rows (orders d)). o_order_no ord = trim_space (pr_order_no result)
            \<and> (0 < pr_amount result \<longrightarrow> o_pay_amount ord = pr_amount result))
       \<or> (\<exists>rc \<in> set (rows (recharges d)). r_order_no rc = trim_space (trim_space (pr_order_no result))
            \<and> (0 < pr_amount result \<longrightarrow> r_amount rc = pr_amount result))))"

lemma OrderSvcGetByOrderNo_wpt:
  "wpt (OrderSvcGetByOrderNo no)
     (\<lambda>v d'. d' = d \<and> (\<exists>ord p. ord \<in> set (rows (orders d)) \<and> o_order_no ord = no \<and> v = toOrder p ord))
     (\<lambda>_ d'. d' = d) d"
  unfolding OrderSvcGetByOrderNo_def OrderGetByOrderNo_def by (intro wpt_rules) auto

lemma toOrder_fields [simp]:
  "ov_pay_amount (toOrder p r) = o_pay_amount r" "ov_order_no (toOrder p r) = o_order_no r"
  "ov_status (toOrder p r) = o_status r" "ov_payment_no (toOrder p r) = o_payment_no r" "ov_id (toOrder p r) = o_id r"
  "ov_payment_method (toOrder p r) = o_payment_method r"
  by (simp_all add: toOrder_def)

lemma order_callback_wpt:
  assumes "0 < pr_amount result \<longrightarrow> ov_pay_amount ord = pr_amount result \<Longrightarrow> P"
  shows "wpt (order_callback s now meth result no pno ord) (\<lambda>_ d'. d' = d \<or> P) (\<lambda>_ d'. d' = d \<or> P) d"
  unfolding order_callback_def
  by (intro wpt_rules) (use assms in \<open>auto intro: wpt_mono [OF wpt_any]\<close>)

lemma recharge_callback_wpt:
  assumes "\<And>rc. rc \<in> set (rows (recharges d)) \<Longrightarrow> r_order_no rc = trim_space no
      \<Longrightarrow> 0 < pr_amount result \<longrightarrow> r_amount rc = pr_amount result \<Longrightarrow> P"
  shows "wpt (recharge_callback s eng now result no pno) (\<lambda>_ d'. d' = d \<or> P) (\<lambda>_ d'. d' = d \<or> P) d"
  unfolding recharge_callback_def GetRechargePaymentDetails_def GetRechargeOrderByOrderNo_def RechargeGetByOrderNo_def
  apply (intro wpt_rules)
  apply (simp_all split: prod.split)
  apply (intro conjI impI wpt_rules wpt_mono [OF wpt_any]; use assms in auto)
  done

lemma HandleCallback_wpt:
  "wpt (HandleCallback s eng now meth data sig)
     (\<lambda>_ d'. d' = d \<or> authentic s meth data sig d) (\<lambda>_ d'. d' = d \<or> authentic s meth data sig d) d"
  unfolding HandleCallback_def Let_def
  by (intro wpt_rules wpt_mono [OF OrderSvcGetByOrderNo_wpt])
     (auto simp: authentic_def intro!: order_callback_wpt recharge_callback_wpt)

text \<open>
  (C34) Only authentic callbacks have an effect.  Whatever the faults, a callback that changes any
  table, whether it reports success or an error, is one that a gateway registered for the
  method has verified, with a reported success, for an existing order or recharge order, and
  with the amount of that order when the gateway reports one.
\<close>

theorem callback_needs_verification:
  fixes w w' :: "db world"
  assumes "HandleCallback s eng now meth data sig w = (r, w')" and "tables w' \<noteq> tables w"
  shows "\<exists>g result. map_of (py_gateways s) (trim_space meth) = Some g
     \<and> gw_verify g data sig = Inr result \<and> pr_success result
     \<and> ((\<exists>ord \<in> set (rows (orders (tables w))). o_order_no ord = trim_space (pr_order_no result)
            \<and> (0 < pr_amount result \<longrightarrow> o_pay_amount ord = pr_amount result))
       \<or> (\<exists>rc \<in> set (rows (recharges (tables w))). r_order_no rc = trim_space (trim_space (pr_order_no result))
            \<and> (0 < pr_amount result \<longrightarrow> r_amount rc = pr_amount result)))"
proof -
  have "authentic s meth data sig (tables w)"
    using wpt_run [OF HandleCallback_wpt assms(1)] assms(2) by (auto split: sum.splits)
  then obtain g result where "GetGateway s meth = Inr g" "gw_verify g data sig = Inr result" "pr_success result"
    "(\<exists>ord \<in> set (rows (orders (tables w))). o_order_no ord = trim_space (pr_order_no result)
            \<and> (0 < pr_amount result \<longrightarrow> o_pay_amount ord = pr_amount result))
       \<or> (\<exists>rc \<in> set (rows (recharges (tables w))). r_order_no rc = trim_space (trim_space (pr_order_no result))
            \<and> (0 < pr_amount result \<longrightarrow> r_amount rc = pr_amount result))"
    unfolding authentic_def by blast
  then show ?thesis by (intro exI [of _ g] exI [of _ result]) (auto simp: GetGateway_def split: option.splits)
qed

definition sample_gateway :: gateway where
  "sample_gateway = \<lparr>gw_name = ''alipay'',
     gw_create = (\<lambda>_. Inl (ErrText ''unused'')),
     gw_verify = (\<lambda>data sig. if sig = ''ok'' then Inr \<lparr>pr_success = True, pr_order_no = ''ORD-1'',
        pr_payment_no = data, pr_amount = 300, pr_paid_at = 9, pr_error = []\<rparr> else Inl (ErrText ''bad signature'')),
     gw_query = (\<lambda>_. Inl (ErrText ''unused'')),
     gw_refund = (\<lambda>no a _. Inr \<lparr>gr_success = True, gr_refund_no = no, gr_amount = a, gr_refund_at = 9, gr_error = []\<rparr>),
     gw_error_text = (\<lambda>_. ''gateway error'')\<rparr>"

definition sample_payments :: payment_service where
  "sample_payments = RegisterGateway sample_gateway (WithRechargeHandler (WithBalanceService (NewPaymentService sample_orders)))"

theorem callback_needs_verification_witness:
  "map o_status (rows (orders (tables (snd (HandleCallback sample_payments sample_engine 9 ''alipay'' ''P1'' ''ok'' sample_world)))))
      = [''paid'']
   \<and> (\<exists>g. map_of (py_gateways sample_payments) (trim_space ''alipay'') = Some g)"
proof -
  let ?m = "HandleCallback sample_payments sample_engine 9 ''alipay'' ''P1'' ''ok'' sample_world"
  have st: "map o_status (rows (orders (tables (snd ?m)))) = [''paid'']" by code_simp
  have "map o_status (rows (orders (tables sample_world))) = [''pending'']" by code_simp
  with st have "tables (snd ?m) \<noteq> tables sample_world" by auto
  from callback_needs_verification [OF surjective_pairing this] st show ?thesis by blast
qed

text \<open>
  A refund through the gateway leaves no trace: the status update it ends with is one the order
  service always refuses, so the order stays paid and can be refunded again.
\<close>

lemma gateway_refund_unrecorded:
  "wpt (GatewayProcessRefund s now i a reason) (\<lambda>_ d'. d' = d) (\<lambda>_ d'. d' = d) d"
proof -
  have get: "wpt (OrderSvcGetByID i) (\<lambda>_ d'. d' = d) (\<lambda>_ d'. d' = d) d"
    unfolding OrderSvcGetByID_def OrderGetByID_def by (intro wpt_rules) auto
  have upd: "wpt (UpdateStatus sv now i StatusRefunded) (\<lambda>_ _. False) (\<lambda>_ d'. d' = d) d" for sv
    unfolding UpdateStatus_def OrderGetByID_def by (intro wpt_rules) auto
  show ?thesis
    unfolding GatewayProcessRefund_def
    by (intro wpt_rules wpt_mono [OF get]) (auto intro!: wpt_mono [OF upd] wpt_ret)
qed

lemma gateway_refund_repeats:
  "let w = fresh_world (sample_db\<lparr>orders := \<lparr>rows = [(sample_order 1 300 ''paid'')\<lparr>o_payment_no := ''P1'',
         o_payment_method := ''alipay''\<rparr>], seq = 1\<rparr>\<rparr>);
       (r, w1) = GatewayProcessRefund sample_payments 9 1 300 ''x'' w;
       (r', w2) = GatewayProcessRefund sample_payments 10 1 300 ''x'' w1
   in map_sum id gr_success r = Inr True \<and> map_sum id gr_success r' = Inr True
      \<and> map o_status (rows (orders (tables w2))) = [''paid'']"
  by code_simp

section \<open>Payments keep the books\<close>

lemma OrderSvcGet_sound [sound_rules]: "sound_op (OrderSvcGetByOrderNo no)" "sound_op (OrderSvcGetByID i)"
  unfolding OrderSvcGetByOrderNo_def OrderGetByOrderNo_def OrderSvcGetByID_def OrderGetByID_def by (intro sound_rules)+

lemma HandleCallback_sound:
  assumes "order_collaborators (py_orders s)" and "strict_engine eng"
  shows "sound_op (HandleCallback s eng now meth data sig)"
  unfolding HandleCallback_def Let_def order_callback_def recharge_callback_def GetRechargePaymentDetails_def
    GetRechargeOrderByOrderNo_def RechargeGetByOrderNo_def
  by (intro sound_rules order_collaborators.Pay_sound assms) (auto split: prod.split intro!: sound_rules assms)

lemma CreatePayment_sound:
  assumes "order_collaborators (py_orders s)"
  shows "sound_op (CreatePayment s now nanos no meth ip)"
  unfolding CreatePayment_def createBalancePayment_def Let_def
  by (intro sound_rules order_collaborators.Pay_sound assms)

lemma GatewayProcessRefund_sound [sound_rules]: "sound_op (GatewayProcessRefund s now i a reason)"
  by (rule sound_opI, rule wpt_mono [OF gateway_refund_unrecorded]) (auto intro: sound_step_refl)

section \<open>The retry service\<close>

record retry_config =
  rc_max_retries :: int
  rc_intervals :: "int list"
  rc_enabled :: bool

definition DefaultRetryConfig :: retry_config where
  "DefaultRetryConfig = \<lparr>rc_max_retries = 3, rc_intervals = [hour, 4 * hour, 24 * hour], rc_enabled = True\<rparr>"

definition RetryPending :: string where "RetryPending = ''pending''"
definition RetryRetrying :: string where "RetryRetrying = ''retrying''"
definition RetryExhausted :: string where "RetryExhausted = ''exhausted''"
definition RetrySucceeded :: string where "RetrySucceeded = ''succeeded''"
definition RetryCancelled :: string where "RetryCancelled = ''cancelled''"

lemmas retry_status_defs = RetryPending_def RetryRetrying_def RetryExhausted_def RetrySucceeded_def RetryCancelled_def

record payment_retry =
  rt_id :: int
  rt_order_id :: int
  rt_order_no :: string
  rt_attempts :: int
  rt_last_attempt :: "time option"
  rt_next_retry :: "time option"
  rt_last_error :: string
  rt_status :: string
  rt_created_at :: time
  rt_updated_at :: time

text \<open>
  The records are a Go map keyed by order; a list of pairs stands for it, in the order in which
  a \<open>range\<close> loop happens to visit it.  A panic of \<open>RecordFailure\<close> (an index into an
  empty list of intervals) is the error \<open>IndexOutOfRange\<close>.
\<close>

type_synonym retry_records = "(int \<times> payment_retry) list"

definition RecordFailure :: "retry_config \<Rightarrow> time \<Rightarrow> int \<Rightarrow> string \<Rightarrow> string \<Rightarrow> retry_records
    \<Rightarrow> err + (retry_records \<times> payment_retry \<times> err option)" where
  "RecordFailure c now orderID orderNo errorMsg recs =
     (let r = (case map_of recs orderID of Some r \<Rightarrow> r
          | None \<Rightarrow> \<lparr>rt_id = orderID, rt_order_id = orderID, rt_order_no = orderNo, rt_attempts = 0,
              rt_last_attempt = None, rt_next_retry = None, rt_last_error = [], rt_status = RetryPending,
              rt_created_at = now, rt_updated_at = zero_time\<rparr>);
          r = r\<lparr>rt_attempts := wrap64 (rt_attempts r + 1), rt_last_attempt := Some now,
              rt_last_error := errorMsg, rt_updated_at := now\<rparr>
      in if rc_max_retries c \<le> rt_attempts r then
           let r = r\<lparr>rt_status := RetryExhausted, rt_next_retry := None\<rparr>
           in Inr (AList.update orderID r recs, r, Some (PaymentE ErrMaxRetriesExceeded))
         else
           let i = wrap64 (rt_attempts r - 1);
               i = (if int (length (rc_intervals c)) \<le> i then int (length (rc_intervals c)) - 1 else i)
           in if i < 0 then Inl IndexOutOfRange
           else let r = r\<lparr>rt_next_retry := Some (now + rc_intervals c ! nat i), rt_status := RetryPending\<rparr>
           in Inr (AList.update orderID r recs, r, None))"

definition GetRetryRecord :: "retry_records \<Rightarrow> int \<Rightarrow> payment_retry option" where
  "GetRetryRecord recs orderID = map_of recs orderID"

definition GetPendingRetries :: "time \<Rightarrow> retry_records \<Rightarrow> payment_retry list" where
  "GetPendingRetries now recs = filter (\<lambda>r. rt_status r = RetryPending
     \<and> (case rt_next_retry r of None \<Rightarrow> False | Some t \<Rightarrow> t < now)) (map snd recs)"

definition set_retry_status :: "int \<Rightarrow> string \<Rightarrow> retry_records \<Rightarrow> retry_records" where
  "set_retry_status orderID st recs = (case map_of recs orderID of None \<Rightarrow> recs
     | Some r \<Rightarrow> AList.update orderID (r\<lparr>rt_status := st\<rparr>) recs)"

text \<open>\<open>err.Error()\<close> is an argument; the text is only recorded.\<close>

definition record_then :: "retry_config \<Rightarrow> time \<Rightarrow> int \<Rightarrow> string \<Rightarrow> string \<Rightarrow> retry_records \<Rightarrow> err
    \<Rightarrow> (retry_records \<times> err option) dbop" where
  "record_then c now orderID orderNo msg recs e = (case RecordFailure c now orderID orderNo msg recs of
      Inl p \<Rightarrow> raise p | Inr (recs', _, _) \<Rightarrow> ret (recs', Some e))"

definition ExecuteRetry :: "retry_config \<Rightarrow> payment_service \<Rightarrow> (err \<Rightarrow> string) \<Rightarrow> time \<Rightarrow> int \<Rightarrow> int \<Rightarrow> string
    \<Rightarrow> retry_records \<Rightarrow> (retry_records \<times> err option) dbop" where
  "ExecuteRetry c s msg now nanos orderID paymentMethod recs = (case map_of recs orderID of
      None \<Rightarrow> ret (recs, Some (PaymentE ErrOrderNotRetryable))
    | Some r \<Rightarrow>
      if rt_status r \<noteq> RetryPending then ret (recs, Some (PaymentE ErrOrderNotRetryable))
      else if (case rt_next_retry r of None \<Rightarrow> False | Some t \<Rightarrow> now < t)
        then ret (recs, Some (PaymentE ErrRetryTooSoon))
      else
      let recs = set_retry_status orderID RetryRetrying recs in
      bindE (attempt (OrderGetByID orderID)) (\<lambda>q. case q of
        Inl e \<Rightarrow> record_then c now orderID (rt_order_no r) ''order not found'' recs e
      | Inr order \<Rightarrow>
        if o_status order \<noteq> StatusPending
          then ret (set_retry_status orderID RetryCancelled recs, Some (PaymentE ErrOrderNotRetryable))
        else
        bindE (attempt (CreatePayment s now nanos (o_order_no order)
            (if paymentMethod = [] then o_payment_method order else paymentMethod) [])) (\<lambda>p. case p of
          Inl e \<Rightarrow> record_then c now orderID (o_order_no order) (msg e) recs e
        | Inr _ \<Rightarrow> ret (set_retry_status orderID RetryPending recs, None))))"

definition MarkSucceeded :: "time \<Rightarrow> int \<Rightarrow> retry_records \<Rightarrow> retry_records" where
  "MarkSucceeded now orderID recs = (case map_of recs orderID of None \<Rightarrow> recs
     | Some r \<Rightarrow> AList.update orderID (r\<lparr>rt_status := RetrySucceeded, rt_updated_at := now\<rparr>) recs)"

definition CancelRetry :: "time \<Rightarrow> int \<Rightarrow> retry_records \<Rightarrow> retry_records" where
  "CancelRetry now orderID recs = (case map_of recs orderID of None \<Rightarrow> recs
     | Some r \<Rightarrow> AList.update orderID (r\<lparr>rt_status := RetryCancelled, rt_updated_at := now\<rparr>) recs)"

fun retry_each :: "retry_config \<Rightarrow> payment_service \<Rightarrow> (err \<Rightarrow> string) \<Rightarrow> time \<Rightarrow> int \<Rightarrow> payment_retry list
    \<Rightarrow> retry_records \<Rightarrow> int \<Rightarrow> int \<Rightarrow> (retry_records \<times> int \<times> int) dbop" where
  "retry_each c s msg now nanos [] recs succeeded failed = ret (recs, succeeded, failed)"
| "retry_each c s msg now nanos (r # rest) recs succeeded failed =
     bindE (attempt (OrderGetByID (rt_order_id r))) (\<lambda>q. case q of
       Inl _ \<Rightarrow> retry_each c s msg now nanos rest recs succeeded (failed + 1)
     | Inr order \<Rightarrow>
       bindE (ExecuteRetry c s msg now nanos (rt_order_id r) (o_payment_method order) recs) (\<lambda>(recs, e).
       case e of Some _ \<Rightarrow> retry_each c s msg now nanos rest recs succeeded (failed + 1)
       | None \<Rightarrow> retry_each c s msg now nanos rest recs (succeeded + 1) failed))"

definition ProcessPendingRetries :: "retry_config \<Rightarrow> payment_service \<Rightarrow> (err \<Rightarrow> string) \<Rightarrow> time \<Rightarrow> int
    \<Rightarrow> retry_records \<Rightarrow> (retry_records \<times> int \<times> int) dbop" where
  "ProcessPendingRetries c s msg now nanos recs =
     retry_each c s msg now nanos (GetPendingRetries now recs) recs 0 0"

definition SwitchPaymentMethod :: "payment_service \<Rightarrow> int \<Rightarrow> string \<Rightarrow> unit dbop" where
  "SwitchPaymentMethod s orderID newMethod =
     bindE (map_err (\<lambda>_. PaymentE ErrPaymentOrderNotFound) (OrderGetByID orderID)) (\<lambda>order.
     bindE (guardE (o_status order = StatusPending) (PaymentE ErrOrderNotRetryable)) (\<lambda>_.
     bindE (lift_sum (GetGateway s newMethod)) (\<lambda>_.
       OrderUpdate (order\<lparr>o_payment_method := newMethod\<rparr>))))"

definition CanRetry :: "retry_config \<Rightarrow> retry_records \<Rightarrow> int \<Rightarrow> bool" where
  "CanRetry c recs orderID = (case map_of recs orderID of None \<Rightarrow> True
     | Some r \<Rightarrow> rt_status r = RetryPending \<and> rt_attempts r < rc_max_retries c)"

definition GetRetryInfo :: "retry_records \<Rightarrow> int \<Rightarrow> payment_retry option" where
  "GetRetryInfo recs orderID = map_of recs orderID"

section \<open>Retries are bounded\<close>

definition active_retry :: "payment_retry \<Rightarrow> bool" where
  "active_retry r \<longleftrightarrow> rt_status r = RetryPending \<or> rt_status r = RetryRetrying"

definition retry_ok :: "retry_config \<Rightarrow> retry_records \<Rightarrow> bool" where
  "retry_ok c recs \<longleftrightarrow> distinct (map fst recs)
     \<and> (\<forall>i r. map_of recs i = Some r \<longrightarrow> active_retry r \<longrightarrow> rt_attempts r < rc_max_retries c)"

lemma retry_okD: "retry_ok c recs \<Longrightarrow> map_of recs i = Some r \<Longrightarrow> active_retry r \<Longrightarrow> rt_attempts r < rc_max_retries c"
  unfolding retry_ok_def by blast

lemma retry_ok_update:
  "retry_ok c recs \<Longrightarrow> (active_retry r \<Longrightarrow> rt_attempts r < rc_max_retries c) \<Longrightarrow> retry_ok c (AList.update i r recs)"
  by (auto simp: retry_ok_def update_conv' distinct_update split: if_splits)

lemma RecordFailure_ok:
  "RecordFailure c now i no msg recs = Inr (recs', r, e) \<Longrightarrow> retry_ok c recs \<Longrightarrow> retry_ok c recs'"
  by (auto simp: RecordFailure_def Let_def active_retry_def retry_status_defs split: if_splits intro!: retry_ok_update)

lemma set_retry_status_ok:
  assumes "retry_ok c recs" and "\<And>r. map_of recs i = Some r \<Longrightarrow> active_retry r \<or> \<not> active_retry (r\<lparr>rt_status := st\<rparr>)"
  shows "retry_ok c (set_retry_status i st recs)"
proof (cases "map_of recs i")
  case (Some r)
  have "rt_attempts r < rc_max_retries c" if "active_retry (r\<lparr>rt_status := st\<rparr>)"
    using that assms(2) [OF Some] retry_okD [OF assms(1) Some] by blast
  with assms(1) show ?thesis by (simp add: set_retry_status_def Some retry_ok_update)
qed (simp add: set_retry_status_def assms(1))

lemma mark_retry_ok:
  "retry_ok c recs \<Longrightarrow> retry_ok c (MarkSucceeded now i recs)" "retry_ok c recs \<Longrightarrow> retry_ok c (CancelRetry now i recs)"
  by (auto simp: MarkSucceeded_def CancelRetry_def active_retry_def retry_status_defs split: option.split
      intro!: retry_ok_update)

lemma record_then_wpt:
  "retry_ok c recs \<Longrightarrow> wpt (record_then c now i no msg recs e) (\<lambda>(recs', _) _. retry_ok c recs') (\<lambda>_ _. True) d"
  unfolding record_then_def
  by (cases "RecordFailure c now i no msg recs") (auto split: prod.split intro: wpt_ret wpt_raise RecordFailure_ok)

lemma wpt_attempt_any: "(\<And>r d. wpt (f r) Q E d) \<Longrightarrow> wpt (bindE (attempt m) f) Q E t"
  by (rule wpt_bind, rule wpt_attempt, rule wpt_mono [OF wpt_any])

lemma ExecuteRetry_wpt:
  assumes ok: "retry_ok c recs"
  shows "wpt (ExecuteRetry c s msg now nanos i meth recs) (\<lambda>(recs', _) _. retry_ok c recs') (\<lambda>_ _. True) d"
proof (cases "map_of recs i")
  case None
  with ok show ?thesis by (simp add: ExecuteRetry_def wpt_ret)
next
  case (Some r)
  let ?run = "set_retry_status i RetryRetrying recs"
  show ?thesis
  proof (cases "rt_status r = RetryPending")
    case True
    then have run: "retry_ok c ?run"
      by (intro set_retry_status_ok [OF ok]) (simp add: Some active_retry_def)
    have fin: "retry_ok c (set_retry_status i st ?run)" for st
      by (intro set_retry_status_ok [OF run]) (auto simp: set_retry_status_def Some update_conv' active_retry_def)
    show ?thesis
      unfolding ExecuteRetry_def Some option.case Let_def OrderGetByID_def
      by (intro wpt_attempt_any wpt_if wpt_ret wpt_case_sum record_then_wpt run) (simp_all add: ok fin True)
  next
    case False
    with ok Some show ?thesis by (simp add: ExecuteRetry_def wpt_ret)
  qed
qed

lemma retry_each_wpt:
  "retry_ok c recs \<Longrightarrow> wpt (retry_each c s msg now nanos rs recs a b) (\<lambda>(recs', _) _. retry_ok c recs') (\<lambda>_ _. True) d"
proof (induction rs arbitrary: recs a b d)
  case Nil
  then show ?case by (simp add: wpt_ret)
next
  case (Cons r rs)
  show ?case
    unfolding retry_each.simps OrderGetByID_def
    by (intro wpt_rules wpt_mono [OF ExecuteRetry_wpt [OF Cons.prems]])
       (auto intro!: Cons.IH Cons.prems split: option.split)
qed

text \<open>The calls that change the records, with the database they run against.\<close>

inductive retry_step :: "retry_config \<Rightarrow> payment_service \<Rightarrow> retry_records \<Rightarrow> retry_records \<Rightarrow> bool" for c s where
  failure: "RecordFailure c now i no msg recs = Inr (recs', r, e) \<Longrightarrow> retry_step c s recs recs'"
| execute: "ExecuteRetry c s render now nanos i meth recs w = (Inr (recs', e), w') \<Longrightarrow> retry_step c s recs recs'"
| sweep: "ProcessPendingRetries c s render now nanos recs w = (Inr (recs', n), w') \<Longrightarrow> retry_step c s recs recs'"
| succeeded: "retry_step c s recs (MarkSucceeded now i recs)"
| cancelled: "retry_step c s recs (CancelRetry now i recs)"

lemma retry_step_ok: "retry_step c s recs recs' \<Longrightarrow> retry_ok c recs \<Longrightarrow> retry_ok c recs'"
proof (induction rule: retry_step.induct)
  case (execute render now nanos i meth recs w recs' e w')
  from wptD_Inr [OF ExecuteRetry_wpt [OF execute(2)] execute(1)] show ?case by simp
next
  case (sweep render now nanos recs w recs' n w')
  from wptD_Inr [OF retry_each_wpt [OF sweep(2)] sweep(1) [unfolded ProcessPendingRetries_def]] show ?case by simp
qed (auto intro: RecordFailure_ok mark_retry_ok)

text \<open>
  (C35) Retries are bounded.  Starting with no records, after any sequence of recorded failures,
  executed retries, sweeps, successes and cancellations, against any database and gateways,
  every record that is still pending or being retried has fewer attempts than the configured
  maximum; so an order can be retried exactly when it has no record or a pending one.
\<close>

theorem retries_bounded:
  assumes "(retry_step c s)\<^sup>*\<^sup>* [] recs"
  shows "distinct (map fst recs)
     \<and> (\<forall>i r. map_of recs i = Some r \<longrightarrow> rt_status r \<in> {''pending'', ''retrying''} \<longrightarrow> rt_attempts r < rc_max_retries c)
     \<and> (\<forall>i. CanRetry c recs i \<longleftrightarrow> (case map_of recs i of None \<Rightarrow> True | Some r \<Rightarrow> rt_status r = ''pending''))"
proof -
  have "retry_ok c recs"
    using assms by (induction rule: rtranclp_induct) (auto simp: retry_ok_def [of c "[]"] intro: retry_step_ok)
  then show ?thesis
    by (auto simp: retry_ok_def active_retry_def retry_status_defs CanRetry_def split: option.split)
qed

theorem retries_bounded_witness:
  "let recs = fst (projr (RecordFailure DefaultRetryConfig 5 1 ''ORD-1'' ''declined'' [])) in
   CanRetry DefaultRetryConfig recs 1 \<and> (\<forall>r. map_of recs 1 = Some r \<longrightarrow> rt_attempts r < 3)"
proof -
  let ?f = "RecordFailure DefaultRetryConfig 5 1 ''ORD-1'' ''declined'' []"
  have f: "?f = Inr (fst (projr ?f), snd (projr ?f))" by code_simp
  have "retry_step DefaultRetryConfig sample_payments [] (fst (projr ?f))"
    by (rule retry_step.failure [where r = "fst (snd (projr ?f))" and e = "snd (snd (projr ?f))"]) (use f in simp)
  then have "(retry_step DefaultRetryConfig sample_payments)\<^sup>*\<^sup>* [] (fst (projr ?f))" by blast
  note b = retries_bounded [OF this]
  have st: "map (rt_status \<circ> snd) (fst (projr ?f)) = [''pending'']" "map fst (fst (projr ?f)) = [1]"
    "rc_max_retries DefaultRetryConfig = 3" by code_simp+
  then show ?thesis using b by (auto simp: Let_def map_eq_Cons_conv)
qed

text \<open>
  The retry schedule.  With at least one interval, recording a failure of an order never
  panics.  With the failure counted, an order that has reached the maximum is exhausted, with no
  next attempt and the limit error; otherwise it is pending, and the next attempt comes after
  the interval of this attempt, or the last interval when there are more attempts than intervals.
\<close>

theorem record_failure_schedule:
  assumes "rc_intervals c \<noteq> []" and "attempts = (case map_of recs i of None \<Rightarrow> 0 | Some r \<Rightarrow> rt_attempts r)"
    and "0 \<le> attempts" and "attempts < maxI64"
  shows "\<exists>r recs'. RecordFailure c now i no msg recs
      = Inr (recs', r, if rc_max_retries c \<le> attempts + 1 then Some (PaymentE ErrMaxRetriesExceeded) else None)
    \<and> map_of recs' i = Some r \<and> (\<forall>j. j \<noteq> i \<longrightarrow> map_of recs' j = map_of recs j)
    \<and> rt_attempts r = attempts + 1 \<and> rt_last_error r = msg
    \<and> (if rc_max_retries c \<le> attempts + 1 then rt_status r = ''exhausted'' \<and> rt_next_retry r = None
       else rt_status r = ''pending''
         \<and> rt_next_retry r = Some (now + rc_intervals c ! min (nat attempts) (length (rc_intervals c) - 1)))"
proof -
  have w: "wrap64 (attempts + 1) = attempts + 1" "wrap64 attempts = attempts"
    using assms(3,4) by (auto intro!: wrap64_id simp: i64_defs)
  have i: "(if int (length (rc_intervals c)) \<le> attempts then int (length (rc_intervals c)) - 1 else attempts)
      = int (min (nat attempts) (length (rc_intervals c) - 1))"
    using assms(1,3) by (cases "rc_intervals c") (auto simp: min_def)
  have last: "nat (int (length (rc_intervals c)) - 1) = length (rc_intervals c) - 1" by arith
  have "\<exists>r recs'. RecordFailure c now i no msg recs
      = Inr (recs', r, if rc_max_retries c \<le> attempts + 1 then Some (PaymentE ErrMaxRetriesExceeded) else None)
    \<and> recs' = AList.update i r recs \<and> rt_attempts r = attempts + 1 \<and> rt_last_error r = msg
    \<and> (if rc_max_retries c \<le> attempts + 1 then rt_status r = ''exhausted'' \<and> rt_next_retry r = None
       else rt_status r = ''pending''
         \<and> rt_next_retry r = Some (now + rc_intervals c ! min (nat attempts) (length (rc_intervals c) - 1)))"
    using w i assms(1-3) last
    by (cases "map_of recs i") (simp_all add: RecordFailure_def Let_def retry_status_defs)
  then show ?thesis by (auto simp: update_conv')
qed

theorem record_failure_schedule_witness:
  "\<exists>r recs'. RecordFailure DefaultRetryConfig 5 1 ''ORD-1'' ''declined'' [] = Inr (recs', r, None)
     \<and> rt_next_retry r = Some (5 + hour)"
  using record_failure_schedule [of DefaultRetryConfig 0 "[]" 1 5 "''ORD-1''" "''declined''"]
  by (auto simp: DefaultRetryConfig_def maxI64_def)

end
