(* ===== verification/Cache.thy ===== *)
theory Cache
  imports Errors "HOL-Library.AList"
begin

text \<open>
  The in-memory cache of \<open>internal/cache/memory.go\<close>, its configuration
  (\<open>cache.go\<close>, \<open>factory.go\<close>) and the domain invalidation of
  \<open>strategy.go\<close>, which reaches a cache through the \<open>Cache\<close> interface.

  A Go map is an association list with distinct keys.  The order in which \<open>range\<close> visits a
  map is chosen by the runtime; where the code's result depends on it (eviction) the order is an
  argument, any function that permutes the keys.  A call reads the clock once, at \<open>now\<close>;
  the lock makes each call atomic.

  The memory cache is shown to implement a map with expiring entries: it never serves an
  entry the map does not hold, serves every entry of the map as long as no \<open>Set\<close> met a full
  cache, and stays within its capacity if only \<open>Set\<close> adds entries.
\<close>

section \<open>Configuration\<close>

record cache_config =
  cc_type :: string
  cc_redis_addr :: string
  cc_redis_password :: string
  cc_redis_db :: int
  cc_default_ttl :: int
  cc_max_items :: int
  cc_prefix :: string

definition CacheDefaultConfig :: cache_config where
  "CacheDefaultConfig = \<lparr>cc_type = ''memory'', cc_redis_addr = ''localhost:6379'', cc_redis_password = [],
     cc_redis_db = 0, cc_default_ttl = 5 * minute, cc_max_items = 10000, cc_prefix = ''vpanel:''\<rparr>"

definition CacheValidate :: "cache_config \<Rightarrow> err option" where
  "CacheValidate c =
     (let t = to_lower (cc_type c);
          ttl = (if cc_default_ttl c < 0 then Some (ErrText ''default_ttl must be non-negative'') else None) in
      if t = ''memory'' \<or> t = [] then
        (if cc_max_items c < 0 then Some (ErrText ''max_memory_items must be non-negative'') else ttl)
      else if t = ''redis'' then
        (if cc_redis_addr c = [] then Some (ErrText ''redis_addr is required for redis cache'')
         else if cc_redis_db c < 0 \<or> 15 < cc_redis_db c then Some (ErrText ''redis_db must be between 0 and 15'')
         else ttl)
      else Some (ErrText (''unsupported cache type: '' @ cc_type c)))"

definition IsMemory :: "cache_config \<Rightarrow> bool" where
  "IsMemory c \<longleftrightarrow> to_lower (cc_type c) = ''memory'' \<or> cc_type c = []"

definition IsRedis :: "cache_config \<Rightarrow> bool" where
  "IsRedis c \<longleftrightarrow> to_lower (cc_type c) = ''redis''"

section \<open>The memory cache\<close>

record memory_item =
  mi_value :: string
  mi_expires :: time

record memory_cache =
  mc_config :: cache_config
  mc_items :: "(string \<times> memory_item) list"
  mc_closed :: bool
  mc_hits :: int
  mc_misses :: int
  mc_sets :: int
  mc_deletes :: int

type_synonym 'a cacheop = "memory_cache \<Rightarrow> (err + 'a) \<times> memory_cache"

definition isExpired :: "time \<Rightarrow> memory_item \<Rightarrow> bool" where
  "isExpired now i \<longleftrightarrow> mi_expires i \<noteq> zero_time \<and> mi_expires i < now"

definition NewMemoryCache :: "cache_config \<Rightarrow> memory_cache" where
  "NewMemoryCache config =
     (let config = (if cc_default_ttl config \<le> 0 then config\<lparr>cc_default_ttl := 5 * minute\<rparr> else config);
          config = (if cc_max_items config \<le> 0 then config\<lparr>cc_max_items := 10000\<rparr> else config) in
      \<lparr>mc_config = config, mc_items = [], mc_closed = False, mc_hits = 0, mc_misses = 0, mc_sets = 0,
        mc_deletes = 0\<rparr>)"

definition removeExpired :: "time \<Rightarrow> memory_cache \<Rightarrow> memory_cache" where
  "removeExpired now mc = mc\<lparr>mc_items := filter (\<lambda>(k, i). \<not> isExpired now i) (mc_items mc)\<rparr>"

definition prefixKey :: "memory_cache \<Rightarrow> string \<Rightarrow> string" where
  "prefixKey mc key = (if cc_prefix (mc_config mc) = [] then key else cc_prefix (mc_config mc) @ key)"

definition count_hit :: "memory_cache \<Rightarrow> memory_cache" where
  "count_hit mc = mc\<lparr>mc_hits := wrap64 (mc_hits mc + 1)\<rparr>"

definition count_miss :: "memory_cache \<Rightarrow> memory_cache" where
  "count_miss mc = mc\<lparr>mc_misses := wrap64 (mc_misses mc + 1)\<rparr>"

definition CacheGet :: "time \<Rightarrow> string \<Rightarrow> string cacheop" where
  "CacheGet now key mc =
     (if mc_closed mc then (Inl (CacheE ErrCacheClosed), mc)
      else if key = [] then (Inl (CacheE ErrInvalidKey), mc)
      else (case map_of (mc_items mc) (prefixKey mc key) of
          None \<Rightarrow> (Inl (CacheE ErrCacheMiss), count_miss mc)
        | Some item \<Rightarrow>
            if isExpired now item then (Inl (CacheE ErrCacheMiss), count_miss mc)
            else (Inr (mi_value item), count_hit mc)))"

text \<open>
  Eviction: the expired entries go first; if the cache is still full, the loop deletes the
  keys it visits until it has deleted a tenth of the capacity.
\<close>

fun evict_loop :: "int \<Rightarrow> int \<Rightarrow> string list \<Rightarrow> (string \<times> memory_item) list \<Rightarrow> (string \<times> memory_item) list" where
  "evict_loop toRemove cnt [] items = items"
| "evict_loop toRemove cnt (key # keys) items =
     (let items = AList.delete key items; cnt = cnt + 1 in
      if toRemove \<le> cnt then items else evict_loop toRemove cnt keys items)"

definition evictOldest :: "time \<Rightarrow> (string list \<Rightarrow> string list) \<Rightarrow> memory_cache \<Rightarrow> memory_cache" where
  "evictOldest now visit mc =
     (let mc = removeExpired now mc in
      if cc_max_items (mc_config mc) \<le> int (length (mc_items mc)) then
        mc\<lparr>mc_items := evict_loop (cc_max_items (mc_config mc) sdiv 10) 0
          (visit (map fst (mc_items mc))) (mc_items mc)\<rparr>
      else mc)"

definition entry_ttl :: "memory_cache \<Rightarrow> int \<Rightarrow> int" where
  "entry_ttl mc ttl = (if ttl \<le> 0 then cc_default_ttl (mc_config mc) else ttl)"

definition CacheSet :: "time \<Rightarrow> (string list \<Rightarrow> string list) \<Rightarrow> string \<Rightarrow> string \<Rightarrow> int \<Rightarrow> unit cacheop" where
  "CacheSet now visit key val ttl mc =
     (if mc_closed mc then (Inl (CacheE ErrCacheClosed), mc)
      else if key = [] then (Inl (CacheE ErrInvalidKey), mc)
      else
      let item = \<lparr>mi_value = val, mi_expires = now + entry_ttl mc ttl\<rparr>;
          mc = (if cc_max_items (mc_config mc) \<le> int (length (mc_items mc)) then evictOldest now visit mc else mc) in
      (Inr (), mc\<lparr>mc_items := AList.update (prefixKey mc key) item (mc_items mc),
                 mc_sets := wrap64 (mc_sets mc + 1)\<rparr>))"

definition CacheDelete :: "string \<Rightarrow> unit cacheop" where
  "CacheDelete key mc =
     (if mc_closed mc then (Inl (CacheE ErrCacheClosed), mc)
      else if key = [] then (Inl (CacheE ErrInvalidKey), mc)
      else (Inr (), mc\<lparr>mc_items := AList.delete (prefixKey mc key) (mc_items mc),
                      mc_deletes := wrap64 (mc_deletes mc + 1)\<rparr>))"

definition CacheExists :: "time \<Rightarrow> string \<Rightarrow> bool cacheop" where
  "CacheExists now key mc =
     (if mc_closed mc then (Inl (CacheE ErrCacheClosed), mc)
      else if key = [] then (Inl (CacheE ErrInvalidKey), mc)
      else (Inr (case map_of (mc_items mc) (prefixKey mc key) of None \<Rightarrow> False
                 | Some item \<Rightarrow> \<not> isExpired now item), mc))"

fun mget_loop :: "time \<Rightarrow> string list \<Rightarrow> (string \<times> string) list \<Rightarrow> memory_cache \<Rightarrow> (string \<times> string) list \<times> memory_cache" where
  "mget_loop now [] result mc = (result, mc)"
| "mget_loop now (key # keys) result mc =
     (if key = [] then mget_loop now keys result mc
      else (case map_of (mc_items mc) (prefixKey mc key) of
          None \<Rightarrow> mget_loop now keys result (count_miss mc)
        | Some item \<Rightarrow>
            if \<not> isExpired now item then mget_loop now keys (AList.update key (mi_value item) result) (count_hit mc)
            else mget_loop now keys result (count_miss mc)))"

definition CacheMGet :: "time \<Rightarrow> string list \<Rightarrow> (string \<times> string) list cacheop" where
  "CacheMGet now keys mc =
     (if mc_closed mc then (Inl (CacheE ErrCacheClosed), mc)
      else (let (result, mc) = mget_loop now keys [] mc in (Inr result, mc)))"

fun mset_loop :: "time \<Rightarrow> (string \<times> string) list \<Rightarrow> memory_cache \<Rightarrow> memory_cache" where
  "mset_loop expiresAt [] mc = mc"
| "mset_loop expiresAt ((key, val) # items) mc =
     (if key = [] then mset_loop expiresAt items mc
      else mset_loop expiresAt items (mc\<lparr>mc_items := AList.update (prefixKey mc key)
             \<lparr>mi_value = val, mi_expires = expiresAt\<rparr> (mc_items mc), mc_sets := wrap64 (mc_sets mc + 1)\<rparr>))"

definition CacheMSet :: "time \<Rightarrow> (string \<times> string) list \<Rightarrow> int \<Rightarrow> unit cacheop" where
  "CacheMSet now items ttl mc =
     (if mc_closed mc then (Inl (CacheE ErrCacheClosed), mc)
      else (Inr (), mset_loop (now + entry_ttl mc ttl) items mc))"

definition has_prefix :: "string \<Rightarrow> string \<Rightarrow> bool" where
  "has_prefix s p \<longleftrightarrow> take (length p) s = p"

definition has_suffix :: "string \<Rightarrow> string \<Rightarrow> bool" where
  "has_suffix s p \<longleftrightarrow> length p \<le> length s \<and> drop (length s - length p) s = p"

definition matchPattern :: "string \<Rightarrow> string \<Rightarrow> bool" where
  "matchPattern pattern key =
     (if pattern = ''*'' then True
      else if has_suffix pattern ''*'' then has_prefix key (butlast pattern)
      else if has_prefix pattern ''*'' then has_suffix key (tl pattern)
      else pattern = key)"

definition CacheInvalidatePattern :: "string \<Rightarrow> unit cacheop" where
  "CacheInvalidatePattern pattern mc =
     (if mc_closed mc then (Inl (CacheE ErrCacheClosed), mc)
      else
      let hit = (\<lambda>(k, i). matchPattern (prefixKey mc pattern) k) in
      (Inr (), mc\<lparr>mc_items := filter (\<lambda>e. \<not> hit e) (mc_items mc),
                 mc_deletes := wrap64 (mc_deletes mc + int (length (filter hit (mc_items mc))))\<rparr>))"

definition CachePing :: "unit cacheop" where
  "CachePing mc = (if mc_closed mc then (Inl (CacheE ErrCacheClosed), mc) else (Inr (), mc))"

definition CacheClose :: "unit cacheop" where
  "CacheClose mc = (Inr (), if mc_closed mc then mc else mc\<lparr>mc_closed := True, mc_items := []\<rparr>)"

definition CacheClear :: "memory_cache \<Rightarrow> memory_cache" where
  "CacheClear mc = mc\<lparr>mc_items := []\<rparr>"

record cache_stats =
  cs_hits :: int
  cs_misses :: int
  cs_sets :: int
  cs_deletes :: int
  cs_item_count :: int
  cs_memory_used :: int

definition CacheStats :: "memory_cache \<Rightarrow> cache_stats" where
  "CacheStats mc = \<lparr>cs_hits = mc_hits mc, cs_misses = mc_misses mc, cs_sets = mc_sets mc,
     cs_deletes = mc_deletes mc, cs_item_count = int (length (mc_items mc)), cs_memory_used = 0\<rparr>"

section \<open>The abstract map with expiring entries\<close>

record expiring_map =
  em_entries :: "string \<rightharpoonup> string \<times> time"
  em_open :: bool

definition em_lookup :: "time \<Rightarrow> string \<Rightarrow> expiring_map \<Rightarrow> string option" where
  "em_lookup now key em = (case em_entries em key of None \<Rightarrow> None
     | Some (v, t) \<Rightarrow> if t \<noteq> zero_time \<and> t < now then None else Some v)"

definition em_put :: "string \<Rightarrow> string \<Rightarrow> time \<Rightarrow> expiring_map \<Rightarrow> expiring_map" where
  "em_put key val t em = em\<lparr>em_entries := (em_entries em)(key \<mapsto> (val, t))\<rparr>"

text \<open>The calls a user of the cache makes, and the sweep of its background goroutine.\<close>

datatype cache_call =
    CallGet string | CallExists string | CallMGet "string list" | CallSet string string int
  | CallMSet "(string \<times> string) list" int | CallDelete string | CallInvalidate string
  | CallSweep | CallClear | CallClose

fun cache_exec :: "time \<Rightarrow> (string list \<Rightarrow> string list) \<Rightarrow> cache_call \<Rightarrow> memory_cache \<Rightarrow> memory_cache" where
  "cache_exec now visit (CallGet key) mc = snd (CacheGet now key mc)"
| "cache_exec now visit (CallExists key) mc = snd (CacheExists now key mc)"
| "cache_exec now visit (CallMGet keys) mc = snd (CacheMGet now keys mc)"
| "cache_exec now visit (CallSet key val ttl) mc = snd (CacheSet now visit key val ttl mc)"
| "cache_exec now visit (CallMSet items ttl) mc = snd (CacheMSet now items ttl mc)"
| "cache_exec now visit (CallDelete key) mc = snd (CacheDelete key mc)"
| "cache_exec now visit (CallInvalidate pat) mc = snd (CacheInvalidatePattern pat mc)"
| "cache_exec now visit CallSweep mc = removeExpired now mc"
| "cache_exec now visit CallClear mc = CacheClear mc"
| "cache_exec now visit CallClose mc = snd (CacheClose mc)"

definition spec_ttl :: "cache_config \<Rightarrow> int \<Rightarrow> int" where
  "spec_ttl c ttl = (if ttl \<le> 0 then cc_default_ttl c else ttl)"

fun spec_exec :: "cache_config \<Rightarrow> time \<Rightarrow> cache_call \<Rightarrow> expiring_map \<Rightarrow> expiring_map" where
  "spec_exec c now (CallSet key val ttl) em =
     (if em_open em \<and> key \<noteq> [] then em_put key val (now + spec_ttl c ttl) em else em)"
| "spec_exec c now (CallMSet items ttl) em =
     (if em_open em then fold (\<lambda>(key, val) em. if key = [] then em else em_put key val (now + spec_ttl c ttl) em) items em else em)"
| "spec_exec c now (CallDelete key) em =
     (if em_open em \<and> key \<noteq> [] then em\<lparr>em_entries := (em_entries em)(key := None)\<rparr> else em)"
| "spec_exec c now (CallInvalidate pat) em =
     (if em_open em then em\<lparr>em_entries := (\<lambda>k. if matchPattern (cc_prefix c @ pat) (cc_prefix c @ k) then None
        else em_entries em k)\<rparr> else em)"
| "spec_exec c now CallClear em = em\<lparr>em_entries := Map.empty\<rparr>"
| "spec_exec c now CallClose em = (if em_open em then \<lparr>em_entries = Map.empty, em_open = False\<rparr> else em)"
| "spec_exec c now _ em = em"

type_synonym schedule = "(time \<times> (string list \<Rightarrow> string list) \<times> cache_call) list"

fun cache_run :: "schedule \<Rightarrow> memory_cache \<Rightarrow> memory_cache" where
  "cache_run [] mc = mc"
| "cache_run ((now, visit, call) # s) mc = cache_run s (cache_exec now visit call mc)"

fun spec_run :: "cache_config \<Rightarrow> schedule \<Rightarrow> expiring_map \<Rightarrow> expiring_map" where
  "spec_run c [] em = em"
| "spec_run c ((now, visit, call) # s) em = spec_run c s (spec_exec c now call em)"

text \<open>No \<open>Set\<close> of the schedule meets a full cache.\<close>

fun never_full :: "schedule \<Rightarrow> memory_cache \<Rightarrow> bool" where
  "never_full [] mc = True"
| "never_full ((now, visit, call) # s) mc \<longleftrightarrow>
     (case call of CallSet _ _ _ \<Rightarrow> int (length (mc_items mc)) < cc_max_items (mc_config mc) | _ \<Rightarrow> True)
     \<and> never_full s (cache_exec now visit call mc)"

section \<open>The memory cache implements the map\<close>

lemma prefixKey_app [simp]: "prefixKey mc key = cc_prefix (mc_config mc) @ key"
  by (simp add: prefixKey_def)

lemma map_of_filter_distinct:
  "distinct (map fst xs) \<Longrightarrow>
     map_of (filter (\<lambda>(k, i). P k i) xs) k = (case map_of xs k of None \<Rightarrow> None | Some i \<Rightarrow> if P k i then Some i else None)"
  by (induction xs) (auto split: option.splits simp: map_of_eq_None_iff)

lemma map_of_filter_keys: "map_of (filter (\<lambda>e. P (fst e)) xs) k = (if P k then map_of xs k else None)"
  by (induction xs) auto

lemma distinct_keys_filter: "distinct (map fst xs) \<Longrightarrow> distinct (map fst (filter P xs))"
  by (induction xs) auto

lemma evict_loop_sub: "map_of (evict_loop n c ks items) k = Some i \<Longrightarrow> map_of items k = Some i"
proof (induction n c ks items rule: evict_loop.induct)
  case (2 n c key keys items)
  then have "map_of (AList.delete key items) k = Some i" by (auto simp: Let_def split: if_splits)
  then show ?case by (simp add: delete_conv' split: if_splits)
qed simp

lemma evict_loop_distinct: "distinct (map fst items) \<Longrightarrow> distinct (map fst (evict_loop n c ks items))"
  by (induction n c ks items rule: evict_loop.induct) (auto simp: Let_def distinct_delete)

lemma removeExpired_fields [simp]:
  "mc_config (removeExpired now mc) = mc_config mc" "mc_closed (removeExpired now mc) = mc_closed mc"
  by (simp_all add: removeExpired_def)

lemma removeExpired_lookup:
  "distinct (map fst (mc_items mc)) \<Longrightarrow> map_of (mc_items (removeExpired now mc)) k
     = (case map_of (mc_items mc) k of None \<Rightarrow> None | Some i \<Rightarrow> if isExpired now i then None else Some i)"
  by (auto simp: removeExpired_def map_of_filter_distinct split: option.splits)

lemma removeExpired_distinct:
  "distinct (map fst (mc_items mc)) \<Longrightarrow> distinct (map fst (mc_items (removeExpired now mc)))"
  by (simp add: removeExpired_def distinct_keys_filter)

lemma evictOldest_fields [simp]:
  "mc_config (evictOldest now visit mc) = mc_config mc" "mc_closed (evictOldest now visit mc) = mc_closed mc"
  by (simp_all add: evictOldest_def Let_def)

lemma evictOldest_sub:
  assumes "distinct (map fst (mc_items mc))" and "map_of (mc_items (evictOldest now visit mc)) k = Some i"
  shows "map_of (mc_items mc) k = Some i"
  using assms removeExpired_lookup [OF assms(1), of now k]
  by (auto simp: evictOldest_def Let_def split: if_splits option.splits dest!: evict_loop_sub)

lemma evictOldest_distinct:
  "distinct (map fst (mc_items mc)) \<Longrightarrow> distinct (map fst (mc_items (evictOldest now visit mc)))"
  by (simp add: evictOldest_def Let_def removeExpired_distinct evict_loop_distinct)

lemma count_fields [simp]:
  "mc_items (count_hit mc) = mc_items mc" "mc_config (count_hit mc) = mc_config mc" "mc_closed (count_hit mc) = mc_closed mc"
  "mc_items (count_miss mc) = mc_items mc" "mc_config (count_miss mc) = mc_config mc" "mc_closed (count_miss mc) = mc_closed mc"
  by (simp_all add: count_hit_def count_miss_def)

lemma mget_loop_fields:
  "mc_items (snd (mget_loop now keys res mc)) = mc_items mc"
  "mc_config (snd (mget_loop now keys res mc)) = mc_config mc"
  "mc_closed (snd (mget_loop now keys res mc)) = mc_closed mc"
  by (induction now keys res mc rule: mget_loop.induct) (auto split: option.splits)

text \<open>
  \<open>serves now mc em\<close>: what the cache holds is what the map holds; \<open>complete\<close>: and every
  entry of the map that is alive at \<open>now\<close> is held.
\<close>

definition serves :: "memory_cache \<Rightarrow> expiring_map \<Rightarrow> bool" where
  "serves mc em \<longleftrightarrow> mc_closed mc = (\<not> em_open em) \<and> distinct (map fst (mc_items mc))
     \<and> (\<forall>k i. map_of (mc_items mc) (cc_prefix (mc_config mc) @ k) = Some i
          \<longrightarrow> em_entries em k = Some (mi_value i, mi_expires i))"

definition complete :: "time \<Rightarrow> memory_cache \<Rightarrow> expiring_map \<Rightarrow> bool" where
  "complete now mc em \<longleftrightarrow> (\<forall>k v t. em_entries em k = Some (v, t) \<longrightarrow> t = zero_time \<or> now \<le> t
     \<longrightarrow> map_of (mc_items mc) (cc_prefix (mc_config mc) @ k) = Some \<lparr>mi_value = v, mi_expires = t\<rparr>)"

lemma CacheGet_state [simp]:
  "mc_items (snd (CacheGet now key mc)) = mc_items mc" "mc_config (snd (CacheGet now key mc)) = mc_config mc"
  "mc_closed (snd (CacheGet now key mc)) = mc_closed mc"
  by (simp_all add: CacheGet_def split: option.split)

lemma CacheExists_state [simp]: "snd (CacheExists now key mc) = mc"
  by (simp add: CacheExists_def)

lemma CacheMGet_state [simp]:
  "mc_items (snd (CacheMGet now keys mc)) = mc_items mc" "mc_config (snd (CacheMGet now keys mc)) = mc_config mc"
  "mc_closed (snd (CacheMGet now keys mc)) = mc_closed mc"
  by (simp_all add: CacheMGet_def mget_loop_fields case_prod_beta)

lemma mset_loop_fields [simp]:
  "mc_config (mset_loop t items mc) = mc_config mc" "mc_closed (mset_loop t items mc) = mc_closed mc"
  by (induction t items mc rule: mset_loop.induct) simp_all

lemma cache_exec_config [simp]: "mc_config (cache_exec now visit call mc) = mc_config mc"
  by (cases call)
     (simp_all add: CacheSet_def CacheMSet_def CacheDelete_def CacheInvalidatePattern_def CacheClear_def CacheClose_def Let_def)

lemma serves_sub:
  assumes "serves mc em" and "mc_config mc' = mc_config mc" and "mc_closed mc' = mc_closed mc"
    and "distinct (map fst (mc_items mc'))" and "\<And>k i. map_of (mc_items mc') k = Some i \<Longrightarrow> map_of (mc_items mc) k = Some i"
  shows "serves mc' em"
  using assms by (simp add: serves_def)

lemma serves_put:
  assumes "serves mc em"
  shows "serves (mc\<lparr>mc_items := AList.update (cc_prefix (mc_config mc) @ key) \<lparr>mi_value = v, mi_expires = t\<rparr> (mc_items mc),
      mc_sets := n\<rparr>) (em_put key v t em)"
  using assms by (auto simp: serves_def em_put_def update_conv' distinct_update)

lemma complete_put:
  assumes "complete now mc em"
  shows "complete now (mc\<lparr>mc_items := AList.update (cc_prefix (mc_config mc) @ key) \<lparr>mi_value = v, mi_expires = t\<rparr> (mc_items mc),
      mc_sets := n\<rparr>) (em_put key v t em)"
  using assms by (auto simp: complete_def em_put_def update_conv')

lemma entry_ttl_spec [simp]: "entry_ttl mc ttl = spec_ttl (mc_config mc) ttl"
  by (simp add: entry_ttl_def spec_ttl_def)

lemma em_put_open [simp]: "em_open (em_put k v t em) = em_open em"
  by (simp add: em_put_def)

lemma mset_serves:
  "serves mc em \<Longrightarrow> serves (mset_loop t items mc) (fold (\<lambda>(key, val) em. if key = [] then em else em_put key val t em) items em)"
proof (induction t items mc arbitrary: em rule: mset_loop.induct)
  case (2 t key val items mc)
  then show ?case using serves_put [OF "2.prems", where key = key and v = val and t = t] by simp
qed simp

lemma mset_complete:
  "complete now mc em \<Longrightarrow> complete now (mset_loop t items mc) (fold (\<lambda>(key, val) em. if key = [] then em else em_put key val t em) items em)"
proof (induction t items mc arbitrary: em rule: mset_loop.induct)
  case (2 t key val items mc)
  then show ?case using complete_put [OF "2.prems", where key = key and v = val and t = t] by simp
qed simp

lemma exec_serves:
  assumes s: "serves mc em"
  shows "serves (cache_exec now visit call mc) (spec_exec (mc_config mc) now call em)"
proof -
  note d = s [unfolded serves_def, THEN conjunct2, THEN conjunct1]
  note o = s [unfolded serves_def, THEN conjunct1]
  show ?thesis
  proof (cases call)
    case (CallSet key val ttl)
    let ?mc = "if cc_max_items (mc_config mc) \<le> int (length (mc_items mc)) then evictOldest now visit mc else mc"
    have "serves ?mc em"
      using serves_sub [OF s, of "evictOldest now visit mc"] evictOldest_distinct [OF d] evictOldest_sub [OF d] s by auto
    from serves_put [OF this, where key = key and v = val] show ?thesis
      using s o CallSet by (auto simp: CacheSet_def Let_def)
  next
    case (CallMSet items ttl)
    with mset_serves [OF s] s o show ?thesis by (auto simp: CacheMSet_def)
  next
    case (CallDelete key)
    with s show ?thesis
      by (auto simp: CacheDelete_def serves_def delete_conv' distinct_delete simp del: map_of_eq_Some_iff split: if_splits)
  next
    case (CallInvalidate pat)
    with s show ?thesis
      by (auto simp: CacheInvalidatePattern_def Let_def serves_def distinct_keys_filter case_prod_beta)
  next
    case CallSweep
    have "serves (removeExpired now mc) em"
      by (rule serves_sub [OF s _ _ removeExpired_distinct [OF d]])
         (auto simp: removeExpired_lookup [OF d] simp del: map_of_eq_Some_iff split: option.splits if_splits)
    with CallSweep show ?thesis by simp
  qed (use s in \<open>auto simp: serves_def CacheClear_def CacheClose_def\<close>)
qed

lemma exec_complete:
  assumes s: "serves mc em" and c: "complete now0 mc em" and t: "now0 \<le> now"
    and f: "never_full ((now, visit, call) # rest) mc"
  shows "complete now (cache_exec now visit call mc) (spec_exec (mc_config mc) now call em)"
proof -
  note d = s [unfolded serves_def, THEN conjunct2, THEN conjunct1]
  note o = s [unfolded serves_def, THEN conjunct1]
  have c: "complete now mc em" using c t unfolding complete_def by (blast intro: order_trans)
  show ?thesis
  proof (cases call)
    case (CallSet key val ttl)
    with f have "\<not> cc_max_items (mc_config mc) \<le> int (length (mc_items mc))" by simp
    with complete_put [OF c, where key = key and v = val] c o CallSet show ?thesis
      by (auto simp: CacheSet_def Let_def)
  next
    case (CallMSet items ttl)
    with mset_complete [OF c] c o show ?thesis by (auto simp: CacheMSet_def)
  next
    case (CallDelete key)
    with c o show ?thesis by (auto simp: CacheDelete_def complete_def delete_conv')
  next
    case (CallInvalidate pat)
    with c o show ?thesis
      by (auto simp: CacheInvalidatePattern_def Let_def complete_def map_of_filter_keys [where P = "\<lambda>k. \<not> matchPattern _ k"] case_prod_beta split: if_splits)
  next
    case CallSweep
    with c show ?thesis
      by (auto simp: complete_def removeExpired_lookup [OF d] isExpired_def)
  qed (use c o in \<open>auto simp: complete_def CacheClear_def CacheClose_def\<close>)
qed

lemma run_serves: "serves mc em \<Longrightarrow> serves (cache_run s mc) (spec_run (mc_config mc) s em)"
proof (induction s mc arbitrary: em rule: cache_run.induct)
  case (2 now visit call s mc)
  from "2.IH" [OF exec_serves [OF "2.prems"]] show ?case by simp
qed simp

lemma run_complete:
  "serves mc em \<Longrightarrow> complete now0 mc em \<Longrightarrow> sorted (now0 # map fst s @ [now]) \<Longrightarrow> never_full s mc
    \<Longrightarrow> complete now (cache_run s mc) (spec_run (mc_config mc) s em)"
proof (induction s mc arbitrary: em now0 rule: cache_run.induct)
  case (1 mc)
  then show ?case by (auto simp: complete_def)
next
  case (2 t visit call s mc)
  from "2.prems"(3) have t: "now0 \<le> t" and r: "sorted (t # map fst s @ [now])" by auto
  from "2.IH" [OF exec_serves [OF "2.prems"(1)] exec_complete [OF "2.prems"(1,2) t "2.prems"(4)] r]
  show ?case using "2.prems"(4) by simp
qed

lemma fold_put_open: "em_open (fold (\<lambda>(key, val) em. if key = [] then em else em_put key val t em) items em) = em_open em"
  by (induction items arbitrary: em) (auto split: prod.splits)

lemma spec_run_closed:
  "(\<not> em_open em \<longrightarrow> em_entries em = Map.empty) \<Longrightarrow>
   \<not> em_open (spec_run c s em) \<Longrightarrow> em_entries (spec_run c s em) = Map.empty"
proof (induction c s em rule: spec_run.induct)
  case (2 c now visit call s em)
  have "\<not> em_open (spec_exec c now call em) \<longrightarrow> em_entries (spec_exec c now call em) = Map.empty"
    using "2.prems"(1) by (cases call) (simp_all add: fold_put_open)
  with "2.IH" "2.prems"(2) show ?case by simp
qed simp

lemma run_config [simp]: "mc_config (cache_run s mc) = mc_config mc"
  by (induction s mc rule: cache_run.induct) simp_all

lemma CacheGet_iff:
  "key \<noteq> [] \<Longrightarrow> fst (CacheGet now key mc) = Inr v \<longleftrightarrow> \<not> mc_closed mc
      \<and> (\<exists>i. map_of (mc_items mc) (cc_prefix (mc_config mc) @ key) = Some i \<and> \<not> isExpired now i \<and> mi_value i = v)"
  by (auto simp: CacheGet_def split: option.split)

definition empty_map :: expiring_map where
  "empty_map = \<lparr>em_entries = Map.empty, em_open = True\<rparr>"

lemma new_serves: "serves (NewMemoryCache cfg) empty_map" "complete t (NewMemoryCache cfg) empty_map"
  by (simp_all add: serves_def complete_def NewMemoryCache_def empty_map_def Let_def)

text \<open>
  (C15) The memory cache refines the expiring map.  After any schedule of calls and sweeps, at any
  clock readings and with any iteration orders, a \<open>Get\<close> that returns a value returns the one
  the map holds, unexpired: no overwritten, deleted, invalidated or expired entry is ever
  served.  If moreover the clock does not run backwards and no \<open>Set\<close> met a full cache, a
  \<open>Get\<close> on a key finds it exactly when the map holds it.
\<close>

theorem cache_refines_map:
  fixes cfg :: cache_config and s :: schedule
  assumes "key \<noteq> []"
  shows "let mc = cache_run s (NewMemoryCache cfg);
             em = spec_run (mc_config (NewMemoryCache cfg)) s empty_map in
     (\<forall>v. fst (CacheGet now key mc) = Inr v \<longrightarrow> em_lookup now key em = Some v)
   \<and> (sorted (map fst s @ [now]) \<and> never_full s (NewMemoryCache cfg)
       \<longrightarrow> (\<forall>v. em_lookup now key em = Some v \<longrightarrow> fst (CacheGet now key mc) = Inr v))"
proof -
  let ?mc = "cache_run s (NewMemoryCache cfg)" and ?em = "spec_run (mc_config (NewMemoryCache cfg)) s empty_map"
  note e = CacheGet_iff [OF assms]
  have s: "serves ?mc ?em" by (rule run_serves [OF new_serves(1)])
  have hit: "em_lookup now key ?em = Some v" if "fst (CacheGet now key ?mc) = Inr v" for v
    using that s unfolding e by (auto simp: em_lookup_def serves_def isExpired_def simp del: map_of_eq_Some_iff)
  have "fst (CacheGet now key ?mc) = Inr v"
    if "sorted (map fst s @ [now])" and "never_full s (NewMemoryCache cfg)" and l: "em_lookup now key ?em = Some v" for v
  proof -
    have "complete now ?mc ?em"
      by (rule run_complete [OF new_serves(1) new_serves(2) [of "hd (map fst s @ [now])"]]) (use that in \<open>cases s; auto\<close>)+
    moreover have "em_open ?em"
      using l spec_run_closed [of empty_map "mc_config (NewMemoryCache cfg)" s]
      by (cases "em_open ?em") (auto simp: em_lookup_def empty_map_def)
    moreover obtain t where "em_entries ?em key = Some (v, t)" "t = zero_time \<or> now \<le> t"
      using l by (auto simp: em_lookup_def split: option.splits if_splits)
    moreover have "mc_closed ?mc \<longleftrightarrow> \<not> em_open ?em" using s by (simp add: serves_def)
    ultimately show ?thesis
      unfolding e complete_def by (intro conjI exI [of _ "\<lparr>mi_value = v, mi_expires = t\<rparr>"]) (auto simp: isExpired_def)
  qed
  with hit show ?thesis unfolding Let_def by blast
qed

definition sample_schedule :: schedule where
  "sample_schedule = [(1, id, CallSet ''node:stats:1'' ''old'' 0), (2, id, CallSet ''node:stats:1'' ''new'' 50),
     (3, rev, CallSet ''nodes:list:a'' ''x'' 0), (4, id, CallSweep), (5, id, CallInvalidate ''nodes:list:*'')]"

theorem cache_refines_map_witness:
  "let mc = cache_run sample_schedule (NewMemoryCache CacheDefaultConfig) in
   fst (CacheGet 9 ''node:stats:1'' mc) = Inr ''new''
   \<and> (\<forall>v. fst (CacheGet 9 ''nodes:list:a'' mc) \<noteq> Inr v)"
proof -
  let ?em = "spec_run (mc_config (NewMemoryCache CacheDefaultConfig)) sample_schedule empty_map"
  let ?mc = "cache_run sample_schedule (NewMemoryCache CacheDefaultConfig)"
  have look: "em_lookup 9 ''node:stats:1'' ?em = Some ''new''" "em_lookup 9 ''nodes:list:a'' ?em = None"
    by (simp_all add: sample_schedule_def em_lookup_def em_put_def empty_map_def spec_ttl_def NewMemoryCache_def
        CacheDefaultConfig_def minute_def zero_time_def matchPattern_def has_suffix_def has_prefix_def)
  have run: "sorted (map fst sample_schedule @ [9])" "never_full sample_schedule (NewMemoryCache CacheDefaultConfig)"
    by code_simp+
  note r = cache_refines_map [of _ sample_schedule CacheDefaultConfig 9, unfolded Let_def]
  have "fst (CacheGet 9 ''node:stats:1'' ?mc) = Inr ''new''"
    by (rule r [of "''node:stats:1''", THEN conjunct2, THEN mp, THEN spec, THEN mp]) (use run look in simp_all)
  moreover have "fst (CacheGet 9 ''nodes:list:a'' ?mc) \<noteq> Inr v" for v
    using r [of "''nodes:list:a''", THEN conjunct1, THEN spec, of v] unfolding look(2) by simp
  ultimately show ?thesis by (simp add: Let_def)
qed

section \<open>The cache stays within its capacity\<close>

lemma delete_length_less: "k \<in> fst ` set xs \<Longrightarrow> length (AList.delete k xs) < length xs"
  by (induction xs) (auto simp: AList.delete_eq length_filter_le le_imp_less_Suc)

lemma evict_loop_length: "length (evict_loop n c ks items) \<le> length items"
proof (induction n c ks items rule: evict_loop.induct)
  case (2 n c key keys items)
  then show ?case using length_delete_le [of key items] by (auto simp: Let_def intro: order_trans)
qed simp

definition permutes_keys :: "(string list \<Rightarrow> string list) \<Rightarrow> bool" where
  "permutes_keys visit \<longleftrightarrow> (\<forall>ks. set (visit ks) = set ks \<and> distinct (visit ks) = distinct ks)"

lemma evictOldest_room:
  assumes "permutes_keys visit" and "0 < cc_max_items (mc_config mc)" and "int (length (mc_items mc)) \<le> cc_max_items (mc_config mc)"
  shows "int (length (mc_items (evictOldest now visit mc))) < cc_max_items (mc_config mc)"
proof (cases "cc_max_items (mc_config mc) \<le> int (length (mc_items (removeExpired now mc)))")
  case False
  then show ?thesis by (simp add: evictOldest_def Let_def)
next
  case True
  let ?items = "mc_items (removeExpired now mc)"
  have l: "length ?items \<le> length (mc_items mc)" by (simp add: removeExpired_def)
  have "?items \<noteq> []" using True assms(2) by auto
  then obtain k ks where k: "visit (map fst ?items) = k # ks" "k \<in> fst ` set ?items"
    using assms(1) [unfolded permutes_keys_def, THEN spec, of "map fst ?items"]
    by (cases "visit (map fst ?items)") auto
  let ?n = "cc_max_items (mc_config mc) sdiv 10"
  have "length (evict_loop ?n 0 (k # ks) ?items) < length ?items"
    using delete_length_less [OF k(2)] evict_loop_length [of ?n 1 ks "AList.delete k ?items"]
    by (auto simp: Let_def)
  moreover have "mc_items (evictOldest now visit mc) = evict_loop ?n 0 (k # ks) ?items"
    unfolding evictOldest_def Let_def using True by (simp only: if_True removeExpired_fields k(1)) simp
  ultimately have "length (mc_items (evictOldest now visit mc)) < length (mc_items mc)" using l by simp
  then show ?thesis using assms(3) by linarith
qed

lemma update_length_le: "length (AList.update k v xs) \<le> Suc (length xs)"
  by (induction xs) (auto split: prod.splits)

lemma mset_free_length:
  assumes v: "permutes_keys visit" and m: "0 < cc_max_items (mc_config mc)"
    and l: "int (length (mc_items mc)) \<le> cc_max_items (mc_config mc)" and c: "\<And>items ttl. call \<noteq> CallMSet items ttl"
  shows "int (length (mc_items (cache_exec now visit call mc))) \<le> cc_max_items (mc_config mc)"
proof (cases call)
  case (CallSet key val ttl)
  let ?mc = "if cc_max_items (mc_config mc) \<le> int (length (mc_items mc)) then evictOldest now visit mc else mc"
  have "int (length (mc_items ?mc)) < cc_max_items (mc_config mc)"
    using evictOldest_room [OF v m l, of now] by simp
  then have "int (length (AList.update k i (mc_items ?mc))) \<le> cc_max_items (mc_config mc)" for k i
    using update_length_le [of k i "mc_items ?mc"] by linarith
  then show ?thesis unfolding CallSet cache_exec.simps CacheSet_def Let_def using l by simp
next
  case (CallInvalidate pat)
  then show ?thesis by (auto simp: CacheInvalidatePattern_def Let_def intro!: order_trans [OF _ l])
next
  case CallSweep
  then show ?thesis by (auto simp: removeExpired_def intro!: order_trans [OF _ l])
next
  case (CallDelete key)
  then show ?thesis by (auto simp: CacheDelete_def length_delete_le intro!: order_trans [OF _ l])
qed (use m l c in \<open>simp_all add: CacheClear_def CacheClose_def\<close>)

lemma new_cache_max: "0 < cc_max_items (mc_config (NewMemoryCache cfg))"
  by (simp add: NewMemoryCache_def Let_def)

text \<open>Schedules with iteration orders of Go maps and no \<open>MSet\<close>.\<close>

definition set_only :: "schedule \<Rightarrow> bool" where
  "set_only = list_all (\<lambda>(now, visit, call). permutes_keys visit \<and> (\<forall>items ttl. call \<noteq> CallMSet items ttl))"

lemma run_capacity:
  "set_only s \<Longrightarrow> 0 < cc_max_items (mc_config mc) \<Longrightarrow> int (length (mc_items mc)) \<le> cc_max_items (mc_config mc)
    \<Longrightarrow> int (length (mc_items (cache_run s mc))) \<le> cc_max_items (mc_config mc)"
proof (induction s mc rule: cache_run.induct)
  case (2 now visit call s mc)
  from "2.prems"(1) have "permutes_keys visit" "\<And>items ttl. call \<noteq> CallMSet items ttl" "set_only s"
    by (auto simp: set_only_def)
  from "2.IH" [OF this(3)] mset_free_length [OF this(1) "2.prems"(2,3) this(2), of now] "2.prems"(2) show ?case by simp
qed simp

text \<open>
  Capacity.  Whatever the calls, the clock and the iteration order, as long as entries are
  added by \<open>Set\<close> only, the cache never holds more than its configured number of items.
\<close>

theorem cache_within_capacity:
  fixes s :: schedule
  assumes "set_only s"
  shows "int (length (mc_items (cache_run s (NewMemoryCache cfg)))) \<le> cc_max_items (mc_config (NewMemoryCache cfg))"
  using run_capacity [of s "NewMemoryCache cfg"] assms new_cache_max
  by (simp add: NewMemoryCache_def Let_def)

theorem cache_within_capacity_witness:
  "let cfg = CacheDefaultConfig\<lparr>cc_max_items := 1\<rparr>; s = [(1, id, CallSet ''a'' ''x'' 0), (2, rev, CallSet ''b'' ''y'' 0)] in
   int (length (mc_items (cache_run s (NewMemoryCache cfg)))) \<le> 1"
proof -
  let ?cfg = "CacheDefaultConfig\<lparr>cc_max_items := 1\<rparr>" and ?s = "[(1, id, CallSet ''a'' ''x'' 0), (2, rev, CallSet ''b'' ''y'' 0)]"
  have "permutes_keys id" "permutes_keys rev" by (simp_all add: permutes_keys_def)
  then have "int (length (mc_items (cache_run ?s (NewMemoryCache ?cfg)))) \<le> cc_max_items (mc_config (NewMemoryCache ?cfg))"
    by (intro cache_within_capacity) (simp add: set_only_def)
  moreover have "cc_max_items (mc_config (NewMemoryCache ?cfg)) = 1" by code_simp
  ultimately show ?thesis by (simp only: Let_def)
qed

text \<open>\<open>MSet\<close> adds its entries without looking at the capacity.\<close>

lemma mset_exceeds_capacity:
  "let mc = cache_run [(1, id, CallMSet [(''a'', ''x''), (''b'', ''y'')] 0)] (NewMemoryCache (CacheDefaultConfig\<lparr>cc_max_items := 1\<rparr>)) in
   cc_max_items (mc_config mc) = 1 \<and> length (mc_items mc) = 2"
  by code_simp

section \<open>Domain invalidation\<close>

text \<open>
  The methods of the \<open>Cache\<close> interface that \<open>strategy.go\<close> calls, over a state \<open>'s\<close>.
  Keys are built with \<open>fmt.Sprintf\<close>; identifiers are unsigned.
\<close>

record 's cache =
  c_delete :: "string \<Rightarrow> 's \<Rightarrow> (err + unit) \<times> 's"
  c_invalidate_pattern :: "string \<Rightarrow> 's \<Rightarrow> (err + unit) \<times> 's"

definition UserTrafficKey :: "nat \<Rightarrow> string" where
  "UserTrafficKey userID = ''user:traffic:'' @ show_nat userID"

definition NodeStatsKey :: "nat \<Rightarrow> string" where
  "NodeStatsKey nodeID = ''node:stats:'' @ show_nat nodeID"

definition ProxyStatsKey :: "nat \<Rightarrow> string" where
  "ProxyStatsKey proxyID = ''proxy:stats:'' @ show_nat proxyID"

definition ProxyConfigKey :: "nat \<Rightarrow> string" where
  "ProxyConfigKey proxyID = ''proxy:config:'' @ show_nat proxyID"

definition AnnouncementListKey :: "int \<Rightarrow> int \<Rightarrow> string" where
  "AnnouncementListKey page pageSize = ''announcements:list:'' @ show_int page @ '':'' @ show_int pageSize"

definition NodeListKey :: "string \<Rightarrow> string" where
  "NodeListKey filterHash = ''nodes:list:'' @ filterHash"

definition UserSummaryKey :: string where
  "UserSummaryKey = ''users:summary''"

definition TTLConfig :: "(string \<times> int) list" where
  "TTLConfig = [(''user:traffic'', 60 * second), (''node:stats'', 30 * second), (''proxy:stats'', 30 * second),
     (''proxy:config'', 5 * minute), (''announcements'', 2 * minute), (''nodes:list'', 1 * minute),
     (''users:summary'', 30 * second)]"

definition GetTTL :: "string \<Rightarrow> int" where
  "GetTTL keyPrefix = (case map_of TTLConfig keyPrefix of Some ttl \<Rightarrow> ttl | None \<Rightarrow> 1 * minute)"

definition InvalidateUserTraffic :: "'s cache \<Rightarrow> nat \<Rightarrow> 's \<Rightarrow> (err + unit) \<times> 's" where
  "InvalidateUserTraffic c userID = c_delete c (UserTrafficKey userID)"

definition InvalidateNodeStats :: "'s cache \<Rightarrow> nat \<Rightarrow> 's \<Rightarrow> (err + unit) \<times> 's" where
  "InvalidateNodeStats c nodeID = c_delete c (NodeStatsKey nodeID)"

definition InvalidateProxyStats :: "'s cache \<Rightarrow> nat \<Rightarrow> 's \<Rightarrow> (err + unit) \<times> 's" where
  "InvalidateProxyStats c proxyID = c_delete c (ProxyStatsKey proxyID)"

definition InvalidateProxyConfig :: "'s cache \<Rightarrow> nat \<Rightarrow> 's \<Rightarrow> (err + unit) \<times> 's" where
  "InvalidateProxyConfig c proxyID = c_delete c (ProxyConfigKey proxyID)"

definition InvalidateAnnouncementList :: "'s cache \<Rightarrow> 's \<Rightarrow> (err + unit) \<times> 's" where
  "InvalidateAnnouncementList c = c_invalidate_pattern c ''announcements:list:*''"

definition InvalidateNodeList :: "'s cache \<Rightarrow> 's \<Rightarrow> (err + unit) \<times> 's" where
  "InvalidateNodeList c = c_invalidate_pattern c ''nodes:list:*''"

definition InvalidateUserSummary :: "'s cache \<Rightarrow> 's \<Rightarrow> (err + unit) \<times> 's" where
  "InvalidateUserSummary c = c_delete c UserSummaryKey"

text \<open>\<open>if err := a(); err != nil { return fmt.Errorf("text: %w", err) }\<close>, then the same for \<open>b\<close>.\<close>

definition both :: "('s \<Rightarrow> (err + unit) \<times> 's) \<Rightarrow> string \<Rightarrow> ('s \<Rightarrow> (err + unit) \<times> 's) \<Rightarrow> string \<Rightarrow> 's \<Rightarrow> (err + unit) \<times> 's" where
  "both a ta b tb s = (case a s of (Inl e, s) \<Rightarrow> (Inl (Wrapped e ta), s)
     | (Inr _, s) \<Rightarrow> (case b s of (Inl e, s) \<Rightarrow> (Inl (Wrapped e tb), s) | (Inr _, s) \<Rightarrow> (Inr (), s)))"

definition InvalidateAllProxyCache :: "'s cache \<Rightarrow> nat \<Rightarrow> 's \<Rightarrow> (err + unit) \<times> 's" where
  "InvalidateAllProxyCache c proxyID = both (InvalidateProxyStats c proxyID) ''failed to invalidate proxy stats''
     (InvalidateProxyConfig c proxyID) ''failed to invalidate proxy config''"

definition InvalidateAllNodeCache :: "'s cache \<Rightarrow> nat \<Rightarrow> 's \<Rightarrow> (err + unit) \<times> 's" where
  "InvalidateAllNodeCache c nodeID = both (InvalidateNodeStats c nodeID) ''failed to invalidate node stats''
     (InvalidateNodeList c) ''failed to invalidate node list''"

definition InvalidateAllUserCache :: "'s cache \<Rightarrow> nat \<Rightarrow> 's \<Rightarrow> (err + unit) \<times> 's" where
  "InvalidateAllUserCache c userID = both (InvalidateUserTraffic c userID) ''failed to invalidate user traffic''
     (InvalidateUserSummary c) ''failed to invalidate user summary''"

text \<open>
  What the invalidator relies on: a deletion that succeeds drops exactly its key, an
  invalidation with a trailing star drops exactly the keys with that prefix.
\<close>

locale invalidating_cache =
  fixes c :: "'s cache" and holds :: "'s \<Rightarrow> string \<Rightarrow> string option"
  assumes delete_exact: "c_delete c key s = (Inr u, s') \<Longrightarrow> holds s' k = (if k = key then None else holds s k)"
    and invalidate_exact: "c_invalidate_pattern c (p @ ''*'') s = (Inr u, s')
      \<Longrightarrow> holds s' k = (if has_prefix k p then None else holds s k)"
begin

lemma both_ok:
  assumes "both a ta b tb s = (Inr u, s2)"
  obtains u1 s1 u2 where "a s = (Inr u1, s1)" and "b s1 = (Inr u2, s2)"
  using assms by (auto simp: both_def split: prod.splits sum.splits)

lemma pattern_exact:
  "c_invalidate_pattern c pat s = (Inr u, s') \<Longrightarrow> pat = p @ ''*'' \<Longrightarrow> holds s' k = (if has_prefix k p then None else holds s k)"
  using invalidate_exact by simp

lemma node_cache_exact:
  assumes "InvalidateAllNodeCache c nodeID s = (Inr u, s')"
  shows "holds s' k = (if k = NodeStatsKey nodeID \<or> has_prefix k ''nodes:list:'' then None else holds s k)"
  using assms unfolding InvalidateAllNodeCache_def
  by (elim both_ok) (auto simp: InvalidateNodeStats_def InvalidateNodeList_def dest!: delete_exact [of _ _ _ _ k]
      pattern_exact [where p = "''nodes:list:''" and k = k])

lemma user_cache_exact:
  assumes "InvalidateAllUserCache c userID s = (Inr u, s')"
  shows "holds s' k = (if k = UserTrafficKey userID \<or> k = UserSummaryKey then None else holds s k)"
  using assms unfolding InvalidateAllUserCache_def
  by (elim both_ok) (auto simp: InvalidateUserTraffic_def InvalidateUserSummary_def dest!: delete_exact [of _ _ _ _ k])

lemma proxy_cache_exact:
  assumes "InvalidateAllProxyCache c proxyID s = (Inr u, s')"
  shows "holds s' k = (if k = ProxyStatsKey proxyID \<or> k = ProxyConfigKey proxyID then None else holds s k)"
  using assms unfolding InvalidateAllProxyCache_def
  by (elim both_ok) (auto simp: InvalidateProxyStats_def InvalidateProxyConfig_def dest!: delete_exact [of _ _ _ _ k])

end

text \<open>The memory cache as a \<open>Cache\<close>, and what it holds under a key.\<close>

definition memory :: "memory_cache cache" where
  "memory = \<lparr>c_delete = CacheDelete, c_invalidate_pattern = CacheInvalidatePattern\<rparr>"

definition memory_holds :: "memory_cache \<Rightarrow> string \<Rightarrow> string option" where
  "memory_holds mc key = map_option mi_value (map_of (mc_items mc) (prefixKey mc key))"

lemma has_prefix_app [simp]: "has_prefix (x @ s) (x @ p) \<longleftrightarrow> has_prefix s p"
  by (simp add: has_prefix_def)

lemma matchPattern_trailing: "matchPattern (p @ ''*'') k \<longleftrightarrow> has_prefix k p"
  by (cases "p = []") (auto simp: matchPattern_def has_suffix_def has_prefix_def)

interpretation memory_invalidation: invalidating_cache memory memory_holds
proof
  show "memory_holds s' k = (if k = key then None else memory_holds s k)"
    if "c_delete memory key s = (Inr u, s')" for key s u s' k
    using that by (auto simp: memory_def memory_holds_def CacheDelete_def delete_conv' split: if_splits)
  show "memory_holds s' k = (if has_prefix k p then None else memory_holds s k)"
    if "c_invalidate_pattern memory (p @ ''*'') s = (Inr u, s')" for p s u s' k
    using that matchPattern_trailing [of "cc_prefix (mc_config s) @ p"]
    by (auto simp: memory_def memory_holds_def CacheInvalidatePattern_def Let_def case_prod_beta
        map_of_filter_keys [where P = "\<lambda>k. \<not> has_prefix k _"] split: if_splits)
qed

text \<open>
  With a key prefix configured, as it is by default, a pattern with a leading star matches at
  most the key spelled like the pattern itself: the prefix comes before the star.
\<close>

lemma leading_star_literal:
  assumes "cc_prefix cfg \<noteq> []" and "hd (cc_prefix cfg) \<noteq> CHR ''*''" and "last p \<noteq> CHR ''*''" and "p \<noteq> []"
  shows "matchPattern (cc_prefix cfg @ ''*'' @ p) (cc_prefix cfg @ k) \<longleftrightarrow> k = ''*'' @ p"
proof -
  obtain x xs where x: "cc_prefix cfg = x # xs" "x \<noteq> CHR ''*''" using assms(1,2) by (cases "cc_prefix cfg") auto
  obtain ys y where y: "p = ys @ [y]" "y \<noteq> CHR ''*''" using assms(3,4) by (cases p rule: rev_cases) auto
  show ?thesis by (auto simp: matchPattern_def has_suffix_def has_prefix_def x y)
qed

text \<open>
  Invalidation.  When the invalidation of a node's cached data succeeds on the memory cache,
  the node's statistics and every cached node list are gone and nothing else is; the same
  for a user's traffic and the user summary.
\<close>

lemma invalidation_exact:
  "(InvalidateAllNodeCache memory i mc = (Inr u, mc')
      \<longrightarrow> memory_holds mc' k = (if k = NodeStatsKey i \<or> (\<exists>h. k = NodeListKey h) then None else memory_holds mc k))
   \<and> (InvalidateAllUserCache memory i mc = (Inr u, mc')
      \<longrightarrow> memory_holds mc' k = (if k \<in> {UserTrafficKey i, UserSummaryKey} then None else memory_holds mc k))"
proof -
  have "has_prefix k ''nodes:list:'' \<longleftrightarrow> (\<exists>h. k = NodeListKey h)"
    unfolding NodeListKey_def has_prefix_def by (metis append_eq_conv_conj append_take_drop_id)
  then show ?thesis
    by (auto dest: memory_invalidation.node_cache_exact [where k = k] memory_invalidation.user_cache_exact [where k = k])
qed

lemma invalidation_exact_witness:
  "let mc = cache_run [(1, id, CallSet (NodeStatsKey 7) ''up'' 0)] (NewMemoryCache CacheDefaultConfig);
       mc' = snd (InvalidateAllNodeCache memory 7 mc) in
   memory_holds mc (NodeStatsKey 7) = Some ''up'' \<and> memory_holds mc' (NodeStatsKey 7) = None"
proof -
  let ?mc = "cache_run [(1, id, CallSet (NodeStatsKey 7) ''up'' 0)] (NewMemoryCache CacheDefaultConfig)"
  have ok: "fst (InvalidateAllNodeCache memory 7 ?mc) = Inr ()" and up: "memory_holds ?mc (NodeStatsKey 7) = Some ''up''"
    by code_simp+
  have "InvalidateAllNodeCache memory 7 ?mc = (Inr (), snd (InvalidateAllNodeCache memory 7 ?mc))"
    using ok by (simp add: prod_eq_iff)
  with invalidation_exact [of 7 ?mc "()" "snd (InvalidateAllNodeCache memory 7 ?mc)" "NodeStatsKey 7"] up
  show ?thesis by (simp add: Let_def)
qed

end
