(* ===== verification/NodeStore.thy ===== *)
theory NodeStore
  imports Schema
begin

text \<open>
  The repositories of the multi-server part: nodes (\<open>node_repository.go\<close>), node groups
  (\<open>node_group_repository.go\<close>) and the assignment of users to nodes
  (\<open>user_node_assignment_repository.go\<close>), over their own tables.  Of the wide nodes table
  the columns are modelled that the repository's operations and the packages built on them
  read or write; float64 columns are rationals.  A SELECT without ORDER BY delivers
  its rows in primary key order.
\<close>

section \<open>Rows and tables\<close>

record node_row =
  nd_id :: int
  nd_name :: string
  nd_address :: string
  nd_port :: int
  nd_token :: string
  nd_status :: string
  nd_region :: string
  nd_weight :: int
  nd_max_users :: int
  nd_current_users :: int
  nd_latency :: int
  nd_last_seen_at :: "time option"
  nd_sync_status :: string
  nd_synced_at :: "time option"
  nd_install_status :: string
  nd_install_message :: string
  nd_install_steps :: string
  nd_install_logs :: string
  nd_install_started_at :: "time option"
  nd_install_finished_at :: "time option"
  nd_install_updated_at :: "time option"
  nd_traffic_total :: int
  nd_traffic_limit :: int
  nd_traffic_reset_at :: "time option"
  nd_cpu_usage :: rat
  nd_memory_usage :: rat
  nd_disk_usage :: rat
  nd_alert_traffic_threshold :: rat
  nd_xray_running :: bool
  nd_xray_version :: string
  nd_tls_enabled :: bool
  nd_tls_domain :: string
  nd_certificate_id :: "int option"
  nd_created_at :: time

record node_group_row =
  ng_id :: int
  ng_name :: string
  ng_description :: string
  ng_region :: string
  ng_strategy :: string
  ng_created_at :: time

record group_member_row =
  gm_id :: int
  gm_node_id :: int
  gm_group_id :: int
  gm_created_at :: time

record assignment_row =
  na_id :: int
  na_user_id :: int
  na_node_id :: int
  na_assigned_at :: time
  na_updated_at :: time

record node_db =
  nodes :: "node_row table"
  node_groups :: "node_group_row table"
  group_members :: "group_member_row table"
  assignments :: "assignment_row table"
  panel_users :: "user_row table"

type_synonym 'a nodeop = "(node_db, 'a) op"

definition NodeStatusOnline :: string where "NodeStatusOnline = ''online''"
definition NodeStatusOffline :: string where "NodeStatusOffline = ''offline''"
definition NodeStatusUnhealthy :: string where "NodeStatusUnhealthy = ''unhealthy''"
definition NodeSyncStatusPending :: string where "NodeSyncStatusPending = ''pending''"

lemmas node_status_defs = NodeStatusOnline_def NodeStatusOffline_def NodeStatusUnhealthy_def

lemma node_status_distinct [simp]:
  "NodeStatusOnline \<noteq> NodeStatusOffline" "NodeStatusOffline \<noteq> NodeStatusOnline"
  "NodeStatusOnline \<noteq> NodeStatusUnhealthy" "NodeStatusUnhealthy \<noteq> NodeStatusOnline"
  "NodeStatusOffline \<noteq> NodeStatusUnhealthy" "NodeStatusUnhealthy \<noteq> NodeStatusOffline"
  by (simp_all add: node_status_defs)

section \<open>Nodes\<close>

text \<open>The unique index of the table: \<open>token\<close>.\<close>

definition token_clash :: "node_row \<Rightarrow> node_row \<Rightarrow> bool" where
  "token_clash a b \<longleftrightarrow> nd_token a = nd_token b"

definition NodeCreate :: "node_row \<Rightarrow> node_row nodeop" where
  "NodeCreate n = map_err (DatabaseError ''failed to create node'')
     (create nodes nodes_update token_clash (\<lambda>i. n\<lparr>nd_id := i\<rparr>))"

definition found_or :: "err \<Rightarrow> string \<Rightarrow> err \<Rightarrow> err" where
  "found_or missing msg e = (if e = Gorm ErrRecordNotFound then missing else DatabaseError msg e)"

definition NodeGetByID :: "int \<Rightarrow> node_row nodeop" where
  "NodeGetByID i = map_err (found_or (NotFoundError ''node'' i) ''failed to get node'')
     (first nodes (\<lambda>n. nd_id n = i))"

definition NodeGetByIDs :: "int list \<Rightarrow> node_row list nodeop" where
  "NodeGetByIDs ids = (if ids = [] then ret []
     else map_err (DatabaseError ''failed to get nodes by IDs'')
       (query (\<lambda>d. filter (\<lambda>n. nd_id n \<in> set ids) (rows (nodes d)))))"

definition NodeUpdate :: "node_row \<Rightarrow> unit nodeop" where
  "NodeUpdate n = map_err (DatabaseError ''failed to update node'')
     (save nodes nodes_update token_clash nd_id n)"

definition rows_or_missing :: "string \<Rightarrow> err \<Rightarrow> int nodeop \<Rightarrow> unit nodeop" where
  "rows_or_missing msg missing m =
     bindE (map_err (DatabaseError msg) m) (\<lambda>n. guardE (n \<noteq> 0) missing)"

definition NodeDelete :: "int \<Rightarrow> unit nodeop" where
  "NodeDelete i = rows_or_missing ''failed to delete node'' (NotFoundError ''node'' i)
     (delete_where nodes nodes_update (\<lambda>n. nd_id n = i))"

record node_filter =
  nf_status :: string
  nf_region :: string
  nf_search :: string
  nf_group_id :: "int option"
  nf_limit :: int
  nf_offset :: int

text \<open>
  The rows a filter selects: the WHERE conditions it adds, and for a group the join with the
  membership table, which repeats a node for each membership row.
\<close>

definition node_matches :: "engine \<Rightarrow> node_filter \<Rightarrow> node_row \<Rightarrow> bool" where
  "node_matches eng f n \<longleftrightarrow>
     (nf_status f = [] \<or> nd_status n = nf_status f)
   \<and> (nf_region f = [] \<or> nd_region n = nf_region f)
   \<and> (nf_search f = [] \<or>
       (let like = ''%'' @ to_lower (trim_space (nf_search f)) @ ''%'' in
        like_match eng like (to_lower (nd_name n)) \<or> like_match eng like (to_lower (nd_address n))
          \<or> like_match eng like (to_lower (nd_region n))))"

definition join_group :: "int \<Rightarrow> node_db \<Rightarrow> node_row list" where
  "join_group g d = concat (map (\<lambda>n. replicate
     (length (filter (\<lambda>m. gm_node_id m = nd_id n \<and> gm_group_id m = g) (rows (group_members d)))) n)
     (rows (nodes d)))"

definition filtered_nodes :: "engine \<Rightarrow> node_filter option \<Rightarrow> node_db \<Rightarrow> node_row list" where
  "filtered_nodes eng fo d = (case fo of None \<Rightarrow> rows (nodes d)
     | Some f \<Rightarrow> filter (node_matches eng f)
         (case nf_group_id f of None \<Rightarrow> rows (nodes d) | Some g \<Rightarrow> join_group g d))"

definition NodeList :: "engine \<Rightarrow> node_filter option \<Rightarrow> node_row list nodeop" where
  "NodeList eng fo = map_err (DatabaseError ''failed to list nodes'') (query (\<lambda>d.
     let ns = filtered_nodes eng fo d in
     case fo of None \<Rightarrow> ns
     | Some f \<Rightarrow> (let ns' = (if 0 < nf_offset f then drop (nat (nf_offset f)) ns else ns) in
         if 0 < nf_limit f then take (nat (nf_limit f)) ns' else ns')))"

definition NodeCount :: "engine \<Rightarrow> node_filter option \<Rightarrow> int nodeop" where
  "NodeCount eng fo = map_err (DatabaseError ''failed to count nodes'')
     (query (\<lambda>d. int (length (filtered_nodes eng fo d))))"

definition NodeGetByToken :: "string \<Rightarrow> node_row nodeop" where
  "NodeGetByToken tok = map_err (found_or (NotFoundKey ''node'' tok) ''failed to get node by token'')
     (first nodes (\<lambda>n. nd_token n = tok))"

text \<open>\<open>UPDATE nodes SET ... WHERE id = ?\<close>, which must hit a row.\<close>

definition set_node :: "string \<Rightarrow> int \<Rightarrow> (node_row \<Rightarrow> node_row) \<Rightarrow> unit nodeop" where
  "set_node msg i f = rows_or_missing msg (NotFoundError ''node'' i)
     (update_where nodes nodes_update (\<lambda>n. nd_id n = i) f)"

text \<open>The unique index on \<open>token\<close> refuses a token another node has.\<close>

definition NodeUpdateToken :: "int \<Rightarrow> string \<Rightarrow> unit nodeop" where
  "NodeUpdateToken i tok = rows_or_missing ''failed to update node token'' (NotFoundError ''node'' i)
     (stmt (\<lambda>d. let hit = (\<lambda>n. nd_id n = i) in
        if (\<exists>n \<in> set (rows (nodes d)). hit n) \<and> (\<exists>n \<in> set (rows (nodes d)). \<not> hit n \<and> nd_token n = tok)
        then Inl (Gorm ErrDuplicatedKey)
        else Inr (count_rows hit (nodes d), nodes_update (\<lambda>_. upd_rows hit (\<lambda>n. n\<lparr>nd_token := tok\<rparr>) (nodes d)) d)))"

definition NodeUpdateStatus :: "int \<Rightarrow> string \<Rightarrow> unit nodeop" where
  "NodeUpdateStatus i status = set_node ''failed to update node status'' i (\<lambda>n. n\<lparr>nd_status := status\<rparr>)"

definition NodeUpdateLastSeen :: "int \<Rightarrow> time \<Rightarrow> unit nodeop" where
  "NodeUpdateLastSeen i t = set_node ''failed to update node last seen'' i (\<lambda>n. n\<lparr>nd_last_seen_at := Some t\<rparr>)"

definition NodeUpdateMetrics :: "int \<Rightarrow> int \<Rightarrow> int \<Rightarrow> unit nodeop" where
  "NodeUpdateMetrics i latency currentUsers = set_node ''failed to update node metrics'' i
     (\<lambda>n. n\<lparr>nd_latency := latency, nd_current_users := currentUsers\<rparr>)"

definition NodeUpdateLoadMetrics :: "int \<Rightarrow> rat \<Rightarrow> rat \<Rightarrow> rat \<Rightarrow> unit nodeop" where
  "NodeUpdateLoadMetrics i cpu memory disk = set_node ''failed to update node load metrics'' i
     (\<lambda>n. n\<lparr>nd_cpu_usage := cpu, nd_memory_usage := memory, nd_disk_usage := disk\<rparr>)"

definition NodeUpdateXrayStatus :: "int \<Rightarrow> bool \<Rightarrow> string \<Rightarrow> unit nodeop" where
  "NodeUpdateXrayStatus i running version = set_node ''failed to update node xray status'' i
     (\<lambda>n. n\<lparr>nd_xray_running := running, nd_xray_version := version\<rparr>)"

definition NodeUpdateInstallStatus :: "int \<Rightarrow> string \<Rightarrow> string \<Rightarrow> string \<Rightarrow> string
    \<Rightarrow> time option \<Rightarrow> time option \<Rightarrow> time option \<Rightarrow> unit nodeop" where
  "NodeUpdateInstallStatus i status message steps logs startedAt finishedAt updatedAt =
     set_node ''failed to update node install status'' i
       (\<lambda>n. n\<lparr>nd_install_status := status, nd_install_message := message, nd_install_steps := steps,
          nd_install_logs := logs, nd_install_started_at := startedAt,
          nd_install_finished_at := finishedAt, nd_install_updated_at := updatedAt\<rparr>)"

definition NodeUpdateSyncStatus :: "int \<Rightarrow> string \<Rightarrow> time option \<Rightarrow> unit nodeop" where
  "NodeUpdateSyncStatus i status syncedAt = set_node ''failed to update node sync status'' i
     (\<lambda>n. (case syncedAt of None \<Rightarrow> n | Some t \<Rightarrow> n\<lparr>nd_synced_at := Some t\<rparr>)\<lparr>nd_sync_status := status\<rparr>)"

definition nodes_where :: "string \<Rightarrow> (node_row \<Rightarrow> bool) \<Rightarrow> node_row list nodeop" where
  "nodes_where msg p = map_err (DatabaseError msg) (query (\<lambda>d. filter p (rows (nodes d))))"

definition NodeGetPendingSync :: "node_row list nodeop" where
  "NodeGetPendingSync = nodes_where ''failed to get pending sync nodes'' (\<lambda>n. nd_sync_status n = NodeSyncStatusPending)"

definition NodeGetByStatus :: "string \<Rightarrow> node_row list nodeop" where
  "NodeGetByStatus s = nodes_where ''failed to get nodes by status'' (\<lambda>n. nd_status n = s)"

definition NodeGetByRegion :: "string \<Rightarrow> node_row list nodeop" where
  "NodeGetByRegion s = nodes_where ''failed to get nodes by region'' (\<lambda>n. nd_region n = s)"

definition NodeGetHealthy :: "node_row list nodeop" where
  "NodeGetHealthy = nodes_where ''failed to get healthy nodes'' (\<lambda>n. nd_status n = NodeStatusOnline)"

definition NodeGetOnline :: "node_row list nodeop" where
  "NodeGetOnline = nodes_where ''failed to get online nodes'' (\<lambda>n. nd_status n = NodeStatusOnline)"

section \<open>Nodes that accept new assignments\<close>

text \<open>\<open>float64(x)\<close> of an integer.\<close>

definition float_of :: "int \<Rightarrow> rat" where
  "float_of x = f64 (of_int x)"

definition nodeReachedTrafficAssignmentThreshold :: "node_row \<Rightarrow> bool" where
  "nodeReachedTrafficAssignmentThreshold n =
     (if nd_traffic_limit n \<le> 0 then False
      else (let threshold = nd_alert_traffic_threshold n in
        if threshold \<le> 0 then False
        else (let threshold = (if 100 < threshold then 100 else threshold) in
          f64 (float_of (nd_traffic_limit n) * threshold) \<le> f64 (float_of (nd_traffic_total n) * 100))))"

definition nodeAcceptsNewAssignments :: "node_row \<Rightarrow> bool" where
  "nodeAcceptsNewAssignments n =
     (if nd_status n \<noteq> NodeStatusOnline then False
      else if 0 < nd_max_users n \<and> nd_max_users n \<le> nd_current_users n then False
      else \<not> nodeReachedTrafficAssignmentThreshold n)"

definition nodeTrafficAssignmentPressure :: "node_row \<Rightarrow> rat" where
  "nodeTrafficAssignmentPressure n =
     (if nd_traffic_limit n \<le> 0 then - 1
      else (let threshold = nd_alert_traffic_threshold n;
                threshold = (if threshold \<le> 0 \<or> 100 < threshold then 100 else threshold) in
        f64 (f64 (f64 (float_of (nd_traffic_total n) * 100) / float_of (nd_traffic_limit n)) / threshold)))"

definition nodeCapacityAssignmentPressure :: "node_row \<Rightarrow> rat" where
  "nodeCapacityAssignmentPressure n =
     (if nd_max_users n \<le> 0 then 0 else f64 (float_of (nd_current_users n) / float_of (nd_max_users n)))"

definition shouldPreferNodeForNewAssignments :: "node_row \<Rightarrow> node_row \<Rightarrow> bool" where
  "shouldPreferNodeForNewAssignments l r =
     (if nodeTrafficAssignmentPressure l \<noteq> nodeTrafficAssignmentPressure r
      then nodeTrafficAssignmentPressure l < nodeTrafficAssignmentPressure r
      else if nodeCapacityAssignmentPressure l \<noteq> nodeCapacityAssignmentPressure r
      then nodeCapacityAssignmentPressure l < nodeCapacityAssignmentPressure r
      else if nd_current_users l \<noteq> nd_current_users r then nd_current_users l < nd_current_users r
      else if nd_weight l \<noteq> nd_weight r then nd_weight r < nd_weight l
      else nd_id l < nd_id r)"

text \<open>
  \<open>sort.SliceStable(xs, less)\<close>: by its documentation the result is sorted by \<open>less\<close> and
  elements neither of which is less than the other keep their order, which determines the
  result when \<open>less\<close> is a strict weak order; stable insertion computes it.
\<close>

fun stable_insert :: "('a \<Rightarrow> 'a \<Rightarrow> bool) \<Rightarrow> 'a \<Rightarrow> 'a list \<Rightarrow> 'a list" where
  "stable_insert lt x [] = [x]"
| "stable_insert lt x (y # ys) = (if lt y x then y # stable_insert lt x ys else x # y # ys)"

definition slice_stable :: "('a \<Rightarrow> 'a \<Rightarrow> bool) \<Rightarrow> 'a list \<Rightarrow> 'a list" where
  "slice_stable lt xs = foldr (stable_insert lt) xs []"

definition sortNodesForNewAssignments :: "node_row list \<Rightarrow> node_row list" where
  "sortNodesForNewAssignments = slice_stable shouldPreferNodeForNewAssignments"

definition filterNodesAcceptingNewAssignments :: "node_row list \<Rightarrow> node_row list" where
  "filterNodesAcceptingNewAssignments ns = sortNodesForNewAssignments (filter nodeAcceptsNewAssignments ns)"

definition NodeGetAvailable :: "node_row list nodeop" where
  "NodeGetAvailable =
     bindE (nodes_where ''failed to get available nodes''
       (\<lambda>n. nd_status n = NodeStatusOnline \<and> (nd_max_users n = 0 \<or> nd_current_users n < nd_max_users n)))
     (\<lambda>ns. ret (filterNodesAcceptingNewAssignments ns))"

definition NodeGetAvailableInTx :: "node_row list nodeop" where
  "NodeGetAvailableInTx =
     bindE (nodes_where ''failed to get available nodes in transaction''
       (\<lambda>n. nd_status n = NodeStatusOnline \<and> (nd_max_users n = 0 \<or> nd_current_users n < nd_max_users n)))
     (\<lambda>ns. ret (filterNodesAcceptingNewAssignments ns))"

definition NodeCountByName :: "string \<Rightarrow> int \<Rightarrow> int nodeop" where
  "NodeCountByName name excludeID = map_err (DatabaseError ''failed to count nodes by name'')
     (query (\<lambda>d. count_rows (\<lambda>n. to_lower (nd_name n) = to_lower name \<and> (0 < excludeID \<longrightarrow> nd_id n \<noteq> excludeID)) (nodes d)))"

definition NodeCountByAddressPort :: "string \<Rightarrow> int \<Rightarrow> int \<Rightarrow> int nodeop" where
  "NodeCountByAddressPort addr port excludeID =
     map_err (DatabaseError ''failed to count nodes by address and port'')
     (query (\<lambda>d. count_rows (\<lambda>n. to_lower (nd_address n) = to_lower addr \<and> nd_port n = port
        \<and> (0 < excludeID \<longrightarrow> nd_id n \<noteq> excludeID)) (nodes d)))"

definition NodeCountByStatus :: "(string \<times> int) list nodeop" where
  "NodeCountByStatus = map_err (DatabaseError ''failed to count nodes by status'')
     (query (\<lambda>d. map (\<lambda>s. (s, count_rows (\<lambda>n. nd_status n = s) (nodes d)))
        (remdups (map nd_status (rows (nodes d))))))"

definition NodeGetTotalUsers :: "int nodeop" where
  "NodeGetTotalUsers = map_err (DatabaseError ''failed to get total users'')
     (query (\<lambda>d. sum_rows (\<lambda>_. True) nd_current_users (nodes d)))"

definition NodeTransaction :: "'a nodeop \<Rightarrow> 'a nodeop" where
  "NodeTransaction fn = transaction fn"

definition NodeDeleteInTx :: "int \<Rightarrow> unit nodeop" where
  "NodeDeleteInTx i = rows_or_missing ''failed to delete node in transaction'' (NotFoundError ''node'' i)
     (delete_where nodes nodes_update (\<lambda>n. nd_id n = i))"

definition NodeUpdateHeartbeatBatch :: "int \<Rightarrow> string \<Rightarrow> time \<Rightarrow> int \<Rightarrow> int \<Rightarrow> rat \<Rightarrow> rat \<Rightarrow> rat
    \<Rightarrow> bool \<Rightarrow> string \<Rightarrow> unit nodeop" where
  "NodeUpdateHeartbeatBatch i status lastSeen latency currentUsers cpu memory disk running version =
     set_node ''failed to update heartbeat batch'' i
       (\<lambda>n. n\<lparr>nd_status := status, nd_last_seen_at := Some lastSeen, nd_latency := latency,
          nd_current_users := currentUsers, nd_cpu_usage := cpu, nd_memory_usage := memory,
          nd_disk_usage := disk, nd_xray_running := running, nd_xray_version := version\<rparr>)"

section \<open>Node groups\<close>

definition GroupCreate :: "node_group_row \<Rightarrow> node_group_row nodeop" where
  "GroupCreate g = map_err (DatabaseError ''failed to create node group'')
     (create node_groups node_groups_update (\<lambda>_ _. False) (\<lambda>i. g\<lparr>ng_id := i\<rparr>))"

definition GroupGetByID :: "int \<Rightarrow> node_group_row nodeop" where
  "GroupGetByID i = map_err (found_or (NotFoundError ''node group'' i) ''failed to get node group'')
     (first node_groups (\<lambda>g. ng_id g = i))"

definition GroupUpdate :: "node_group_row \<Rightarrow> unit nodeop" where
  "GroupUpdate g = map_err (DatabaseError ''failed to update node group'')
     (save node_groups node_groups_update (\<lambda>_ _. False) ng_id g)"

definition RemoveAllNodes :: "int \<Rightarrow> unit nodeop" where
  "RemoveAllNodes g = bindE (map_err (DatabaseError ''failed to remove all nodes from group'')
     (delete_where group_members group_members_update (\<lambda>m. gm_group_id m = g))) (\<lambda>_. ret ())"

definition GroupDelete :: "int \<Rightarrow> unit nodeop" where
  "GroupDelete i = bindE (RemoveAllNodes i) (\<lambda>_.
     rows_or_missing ''failed to delete node group'' (NotFoundError ''node group'' i)
       (delete_where node_groups node_groups_update (\<lambda>g. ng_id g = i)))"

definition GroupList :: "int \<Rightarrow> int \<Rightarrow> node_group_row list nodeop" where
  "GroupList limit offset = map_err (DatabaseError ''failed to list node groups'') (query (\<lambda>d.
     let gs = (if 0 < offset then drop (nat offset) (rows (node_groups d)) else rows (node_groups d)) in
     if 0 < limit then take (nat limit) gs else gs))"

definition GroupCount :: "int nodeop" where
  "GroupCount = map_err (DatabaseError ''failed to count node groups'')
     (query (\<lambda>d. count_rows (\<lambda>_. True) (node_groups d)))"

text \<open>The unique index of the membership table: node and group.\<close>

definition member_clash :: "group_member_row \<Rightarrow> group_member_row \<Rightarrow> bool" where
  "member_clash a b \<longleftrightarrow> gm_node_id a = gm_node_id b \<and> gm_group_id a = gm_group_id b"

definition new_member :: "time \<Rightarrow> int \<Rightarrow> int \<Rightarrow> int \<Rightarrow> group_member_row" where
  "new_member now groupID nodeID i = \<lparr>gm_id = i, gm_node_id = nodeID, gm_group_id = groupID, gm_created_at = now\<rparr>"

definition AddNode :: "time \<Rightarrow> int \<Rightarrow> int \<Rightarrow> unit nodeop" where
  "AddNode now groupID nodeID = bindE (map_err (DatabaseError ''failed to add node to group'')
     (create group_members group_members_update member_clash (new_member now groupID nodeID))) (\<lambda>_. ret ())"

definition RemoveNode :: "int \<Rightarrow> int \<Rightarrow> unit nodeop" where
  "RemoveNode groupID nodeID = bindE (map_err (DatabaseError ''failed to remove node from group'')
     (delete_where group_members group_members_update (\<lambda>m. gm_group_id m = groupID \<and> gm_node_id m = nodeID))) (\<lambda>_. ret ())"

definition GetNodes :: "int \<Rightarrow> node_row list nodeop" where
  "GetNodes groupID = map_err (DatabaseError ''failed to get nodes in group'') (query (join_group groupID))"

definition GetNodeIDs :: "int \<Rightarrow> int list nodeop" where
  "GetNodeIDs groupID = map_err (DatabaseError ''failed to get node IDs in group'')
     (query (\<lambda>d. map gm_node_id (filter (\<lambda>m. gm_group_id m = groupID) (rows (group_members d)))))"

definition GetGroupsForNode :: "int \<Rightarrow> node_group_row list nodeop" where
  "GetGroupsForNode nodeID = map_err (DatabaseError ''failed to get groups for node'') (query (\<lambda>d.
     concat (map (\<lambda>g. replicate (length (filter (\<lambda>m. gm_group_id m = ng_id g \<and> gm_node_id m = nodeID)
       (rows (group_members d)))) g) (rows (node_groups d)))))"

definition GetGroupIDsForNode :: "int \<Rightarrow> int list nodeop" where
  "GetGroupIDsForNode nodeID = map_err (DatabaseError ''failed to get group IDs for node'')
     (query (\<lambda>d. map gm_group_id (filter (\<lambda>m. gm_node_id m = nodeID) (rows (group_members d)))))"

definition IsNodeInGroup :: "int \<Rightarrow> int \<Rightarrow> bool nodeop" where
  "IsNodeInGroup groupID nodeID = bindE (map_err (DatabaseError ''failed to check node membership'')
     (query (\<lambda>d. count_rows (\<lambda>m. gm_group_id m = groupID \<and> gm_node_id m = nodeID) (group_members d))))
     (\<lambda>n. ret (0 < n))"

record group_stats =
  gs_group_id :: int
  gs_total_nodes :: int
  gs_healthy_nodes :: int
  gs_total_users :: int

definition GetStats :: "int \<Rightarrow> group_stats nodeop" where
  "GetStats groupID =
     bindE (map_err (DatabaseError ''failed to count nodes in group'')
       (query (\<lambda>d. count_rows (\<lambda>m. gm_group_id m = groupID) (group_members d)))) (\<lambda>total.
     bindE (map_err (DatabaseError ''failed to get group stats'')
       (query (\<lambda>d. (int (length (filter (\<lambda>n. nd_status n = NodeStatusOnline) (join_group groupID d))),
                    sum_list (map nd_current_users (join_group groupID d)))))) (\<lambda>(healthy, users).
     ret \<lparr>gs_group_id = groupID, gs_total_nodes = total, gs_healthy_nodes = healthy, gs_total_users = users\<rparr>))"

fun stats_of :: "node_group_row list \<Rightarrow> group_stats list nodeop" where
  "stats_of [] = ret []"
| "stats_of (g # gs) = bindE (GetStats (ng_id g)) (\<lambda>s. bindE (stats_of gs) (\<lambda>ss. ret (s # ss)))"

definition GetAllStats :: "group_stats list nodeop" where
  "GetAllStats = bindE (map_err (DatabaseError ''failed to list groups'') (query (\<lambda>d. rows (node_groups d)))) stats_of"

definition GroupGetByRegion :: "string \<Rightarrow> node_group_row list nodeop" where
  "GroupGetByRegion s = map_err (DatabaseError ''failed to get groups by region'')
     (query (\<lambda>d. filter (\<lambda>g. ng_region g = s) (rows (node_groups d))))"

definition GroupGetByStrategy :: "string \<Rightarrow> node_group_row list nodeop" where
  "GroupGetByStrategy s = map_err (DatabaseError ''failed to get groups by strategy'')
     (query (\<lambda>d. filter (\<lambda>g. ng_strategy g = s) (rows (node_groups d))))"

text \<open>\<open>tx.Create(&members)\<close> is one INSERT of several rows, which a clash refuses as a whole.\<close>

fun insert_members :: "time \<Rightarrow> int \<Rightarrow> int list \<Rightarrow> group_member_row table \<Rightarrow> group_member_row table option" where
  "insert_members now g [] t = Some t"
| "insert_members now g (n # ns) t =
     (if \<exists>r \<in> set (rows t). gm_node_id r = n \<and> gm_group_id r = g then None
      else insert_members now g ns (add_row (new_member now g n) t))"

definition create_members :: "time \<Rightarrow> int \<Rightarrow> int list \<Rightarrow> unit nodeop" where
  "create_members now g ns = stmt (\<lambda>d. case insert_members now g ns (group_members d) of
      None \<Rightarrow> Inl (Gorm ErrDuplicatedKey)
    | Some t \<Rightarrow> Inr ((), d\<lparr>group_members := t\<rparr>))"

definition SetNodes :: "time \<Rightarrow> int \<Rightarrow> int list \<Rightarrow> unit nodeop" where
  "SetNodes now groupID nodeIDs = transaction (
     bindE (map_err (DatabaseError ''failed to remove existing members'')
       (delete_where group_members group_members_update (\<lambda>m. gm_group_id m = groupID))) (\<lambda>_.
     if nodeIDs \<noteq> [] then map_err (DatabaseError ''failed to add new members'') (create_members now groupID nodeIDs)
     else ret ()))"

section \<open>Assignments of users to nodes\<close>

text \<open>The unique index of the table: \<open>user_id\<close>.\<close>

definition user_clash :: "assignment_row \<Rightarrow> assignment_row \<Rightarrow> bool" where
  "user_clash a b \<longleftrightarrow> na_user_id a = na_user_id b"

definition AssignmentCreate :: "assignment_row \<Rightarrow> assignment_row nodeop" where
  "AssignmentCreate a = map_err (DatabaseError ''failed to create user-node assignment'')
     (create assignments assignments_update user_clash (\<lambda>i. a\<lparr>na_id := i\<rparr>))"

definition AssignmentGetByID :: "int \<Rightarrow> assignment_row nodeop" where
  "AssignmentGetByID i = map_err (found_or (NotFoundError ''user-node assignment'' i) ''failed to get user-node assignment'')
     (first assignments (\<lambda>a. na_id a = i))"

definition AssignmentUpdate :: "assignment_row \<Rightarrow> unit nodeop" where
  "AssignmentUpdate a = map_err (DatabaseError ''failed to update user-node assignment'')
     (save assignments assignments_update user_clash na_id a)"

definition AssignmentDelete :: "int \<Rightarrow> unit nodeop" where
  "AssignmentDelete i = rows_or_missing ''failed to delete user-node assignment'' (NotFoundError ''user-node assignment'' i)
     (delete_where assignments assignments_update (\<lambda>a. na_id a = i))"

definition GetByUserID :: "int \<Rightarrow> assignment_row option nodeop" where
  "GetByUserID userID = bindE (attempt (first assignments (\<lambda>a. na_user_id a = userID))) (\<lambda>r. case r of
      Inr a \<Rightarrow> ret (Some a)
    | Inl e \<Rightarrow> if e = Gorm ErrRecordNotFound then ret None
               else raise (DatabaseError ''failed to get assignment by user ID'' e))"

definition GetByNodeID :: "int \<Rightarrow> assignment_row list nodeop" where
  "GetByNodeID nodeID = map_err (DatabaseError ''failed to get assignments by node ID'')
     (query (\<lambda>d. filter (\<lambda>a. na_node_id a = nodeID) (rows (assignments d))))"

definition GetUserIDsByNodeID :: "int \<Rightarrow> int list nodeop" where
  "GetUserIDsByNodeID nodeID = map_err (DatabaseError ''failed to get user IDs by node ID'')
     (query (\<lambda>d. map na_user_id (filter (\<lambda>a. na_node_id a = nodeID) (rows (assignments d)))))"

definition CountByNodeID :: "int \<Rightarrow> int nodeop" where
  "CountByNodeID nodeID = map_err (DatabaseError ''failed to count assignments by node ID'')
     (query (\<lambda>d. count_rows (\<lambda>a. na_node_id a = nodeID) (assignments d)))"

text \<open>
  \<open>Where(...).Assign(...).FirstOrCreate\<close>: the first row of the user is looked for; one that
  is there is updated by its primary key, otherwise a row is created.
\<close>

definition move_row :: "time \<Rightarrow> int \<Rightarrow> assignment_row \<Rightarrow> assignment_row" where
  "move_row now nodeID a = a\<lparr>na_node_id := nodeID, na_updated_at := now\<rparr>"

definition new_assignment :: "time \<Rightarrow> int \<Rightarrow> int \<Rightarrow> int \<Rightarrow> assignment_row" where
  "new_assignment now userID nodeID i =
     \<lparr>na_id = i, na_user_id = userID, na_node_id = nodeID, na_assigned_at = now, na_updated_at = now\<rparr>"

definition Assign :: "time \<Rightarrow> int \<Rightarrow> int \<Rightarrow> unit nodeop" where
  "Assign now userID nodeID = map_err (DatabaseError ''failed to assign user to node'') (
     bindE (attempt (first assignments (\<lambda>a. na_user_id a = userID))) (\<lambda>r. case r of
        Inr a \<Rightarrow> bindE (update_where assignments assignments_update (\<lambda>b. na_user_id b = userID \<and> na_id b = na_id a)
                   (move_row now nodeID)) (\<lambda>_. ret ())
      | Inl e \<Rightarrow> if e = Gorm ErrRecordNotFound
          then bindE (create assignments assignments_update user_clash (new_assignment now userID nodeID)) (\<lambda>_. ret ())
          else raise e))"

definition Reassign :: "time \<Rightarrow> int \<Rightarrow> int \<Rightarrow> unit nodeop" where
  "Reassign now userID newNodeID =
     bindE (map_err (DatabaseError ''failed to reassign user'')
       (update_where assignments assignments_update (\<lambda>a. na_user_id a = userID) (move_row now newNodeID))) (\<lambda>n.
     if n = 0 then Assign now userID newNodeID else ret ())"

definition Unassign :: "int \<Rightarrow> unit nodeop" where
  "Unassign userID = bindE (map_err (DatabaseError ''failed to unassign user'')
     (delete_where assignments assignments_update (\<lambda>a. na_user_id a = userID))) (\<lambda>_. ret ())"

definition BulkReassign :: "time \<Rightarrow> int list \<Rightarrow> int \<Rightarrow> unit nodeop" where
  "BulkReassign now userIDs newNodeID = (if userIDs = [] then ret ()
     else bindE (map_err (DatabaseError ''failed to bulk reassign users'')
       (update_where assignments assignments_update (\<lambda>a. na_user_id a \<in> set userIDs) (move_row now newNodeID))) (\<lambda>_. ret ()))"

definition DeleteByNodeID :: "int \<Rightarrow> unit nodeop" where
  "DeleteByNodeID nodeID = bindE (map_err (DatabaseError ''failed to delete assignments by node ID'')
     (delete_where assignments assignments_update (\<lambda>a. na_node_id a = nodeID))) (\<lambda>_. ret ())"

definition GetUnassignedUsers :: "int \<Rightarrow> int list nodeop" where
  "GetUnassignedUsers limit = map_err (DatabaseError ''failed to get unassigned users'') (query (\<lambda>d.
     let us = map u_id (filter (\<lambda>u. u_enabled u \<and> (\<forall>a \<in> set (rows (assignments d)). na_user_id a \<noteq> u_id u))
                (rows (panel_users d))) in
     if 0 < limit then take (nat limit) us else us))"

definition ReassignInTx :: "time \<Rightarrow> int \<Rightarrow> int \<Rightarrow> unit nodeop" where
  "ReassignInTx now userID newNodeID =
     bindE (map_err (DatabaseError ''failed to reassign user in transaction'')
       (update_where assignments assignments_update (\<lambda>a. na_user_id a = userID) (move_row now newNodeID))) (\<lambda>n.
     if n = 0 then bindE (map_err (DatabaseError ''failed to create assignment in transaction'')
         (create assignments assignments_update user_clash (new_assignment now userID newNodeID))) (\<lambda>_. ret ())
     else ret ())"

section \<open>The indexes hold\<close>

text \<open>
  \<open>wf_nodes\<close>: identifiers are keys, no two nodes share a token, a node is in a group at most
  once and a user is assigned to at most one node.
\<close>

definition uniq :: "('r \<Rightarrow> 'k) \<Rightarrow> 'r table \<Rightarrow> bool" where
  "uniq k t \<longleftrightarrow> distinct (map k (rows t))"

abbreviation member_key :: "group_member_row \<Rightarrow> int \<times> int" where
  "member_key m \<equiv> (gm_node_id m, gm_group_id m)"

definition wf_nodes :: "node_db \<Rightarrow> bool" where
  "wf_nodes d \<longleftrightarrow> keyed nd_id (nodes d) \<and> uniq nd_token (nodes d) \<and> keyed ng_id (node_groups d)
     \<and> keyed gm_id (group_members d) \<and> uniq member_key (group_members d)
     \<and> keyed na_id (assignments d) \<and> uniq na_user_id (assignments d)"

lemma uniq_upd: "uniq k t \<Longrightarrow> (\<And>r. k (f r) = k r) \<Longrightarrow> uniq k (upd_rows p f t)"
  by (simp add: uniq_def map_key_upd)

lemma uniq_del: "uniq k t \<Longrightarrow> uniq k (del_rows p t)"
  by (simp add: uniq_def del_rows_def distinct_map_filter)

lemma uniq_add: "uniq k t \<Longrightarrow> (\<And>r. r \<in> set (rows t) \<Longrightarrow> k (mk (seq t + 1)) \<noteq> k r) \<Longrightarrow> uniq k (add_row mk t)"
  by (force simp: uniq_def add_row_def)

lemma uniq_insert: "uniq k t \<Longrightarrow> (\<And>r'. r' \<in> set (rows t) \<Longrightarrow> k r \<noteq> k r') \<Longrightarrow> uniq k \<lparr>rows = rows t @ [r], seq = s\<rparr>"
  by (force simp: uniq_def)

text \<open>One row of a table with distinct keys takes a key that no other row has.\<close>

lemma distinct_rekey:
  assumes "distinct (map k xs)" and "distinct (map i xs)"
    and "\<And>x y. x \<in> set xs \<Longrightarrow> y \<in> set xs \<Longrightarrow> i x \<noteq> j \<Longrightarrow> i y = j \<Longrightarrow> k x \<noteq> k (f y)"
  shows "distinct (map k (map (\<lambda>x. if i x = j then f x else x) xs))"
  using assms
proof (induction xs)
  case (Cons x xs)
  have IH: "distinct (map k (map (\<lambda>x. if i x = j then f x else x) xs))"
    using Cons.prems by (intro Cons.IH) auto
  have "k (if i x = j then f x else x) \<noteq> k (if i y = j then f y else y)" if y: "y \<in> set xs" for y
  proof -
    have "i x \<noteq> i y" "k x \<noteq> k y" using Cons.prems(1,2) y by force+
    moreover have "k y \<noteq> k (f x)" if "i y \<noteq> j" "i x = j" using Cons.prems(3) [of y x] that y by simp
    moreover have "k x \<noteq> k (f y)" if "i x \<noteq> j" "i y = j" using Cons.prems(3) [of x y] that y by simp
    ultimately show ?thesis by (cases "i x = j"; cases "i y = j") auto
  qed
  then have "k (if i x = j then f x else x) \<notin> set (map k (map (\<lambda>x. if i x = j then f x else x) xs))"
    unfolding set_map image_image image_iff by blast
  with IH show ?case by simp
qed simp

lemma uniq_rekey:
  assumes "uniq k t" and "keyed i t"
    and "\<And>r s. r \<in> set (rows t) \<Longrightarrow> s \<in> set (rows t) \<Longrightarrow> i r \<noteq> j \<Longrightarrow> i s = j \<Longrightarrow> k r \<noteq> k (f s)"
  shows "uniq k (upd_rows (\<lambda>r. i r = j) f t)"
  using assms unfolding uniq_def keyed_def upd_rows_def by (simp add: distinct_rekey del: map_map)

lemma uniq_save:
  assumes "uniq k t" and "keyed i t" and "\<forall>r' \<in> set (rows t). i r' = i r \<or> k r \<noteq> k r'"
  shows "uniq k (upd_rows (\<lambda>r'. i r' = i r) (\<lambda>_. r) t)"
proof (rule uniq_rekey [OF assms(1,2)])
  fix r' s assume "r' \<in> set (rows t)" and "i r' \<noteq> i r"
  with assms(3) show "k r' \<noteq> k r" by metis
qed

lemmas index_rules = keyed_upd keyed_del keyed_add keyed_save keyed_insert uniq_del

lemma preserves_update:
  "(\<And>t. P t \<Longrightarrow> P (upd (\<lambda>_. upd_rows p f (sel t)) t)) \<Longrightarrow> preserves P (update_where sel upd p f)"
  by (auto intro!: preservesI wpt_rules)

lemma preserves_delete:
  "(\<And>t. P t \<Longrightarrow> P (upd (\<lambda>_. del_rows p (sel t)) t)) \<Longrightarrow> preserves P (delete_where sel upd p)"
  by (auto intro!: preservesI wpt_rules)

lemma preserves_rows_or_missing [keep_rules]: "preserves P m \<Longrightarrow> preserves P (rows_or_missing s e m)"
  unfolding rows_or_missing_def by (intro keep_rules)

lemma set_node_wf [keep_rules]:
  "(\<And>n. nd_id (f n) = nd_id n) \<Longrightarrow> (\<And>n. nd_token (f n) = nd_token n) \<Longrightarrow> preserves wf_nodes (set_node s i f)"
  unfolding set_node_def
  by (intro keep_rules preserves_update) (auto simp: wf_nodes_def intro!: index_rules uniq_upd)

lemma NodeCreate_wf [keep_rules]: "preserves wf_nodes (NodeCreate n)"
  unfolding NodeCreate_def
  by (intro keep_rules preservesI wpt_create)
     (auto simp: wf_nodes_def token_clash_def intro!: index_rules uniq_add)

lemma NodeUpdate_wf [keep_rules]: "preserves wf_nodes (NodeUpdate n)"
proof -
  have "preserves wf_nodes (save nodes nodes_update token_clash nd_id n)"
    unfolding save_def
    by (intro preservesI wpt_stmt)
       (auto simp: wf_nodes_def token_clash_def split: if_splits intro!: index_rules uniq_insert uniq_save)
  then show ?thesis unfolding NodeUpdate_def by (intro keep_rules)
qed

lemma NodeDelete_wf [keep_rules]: "preserves wf_nodes (NodeDelete i)" "preserves wf_nodes (NodeDeleteInTx i)"
  unfolding NodeDelete_def NodeDeleteInTx_def
  by (intro keep_rules preserves_delete; auto simp: wf_nodes_def intro!: index_rules)+

lemma NodeUpdateToken_wf [keep_rules]: "preserves wf_nodes (NodeUpdateToken i tok)"
  unfolding NodeUpdateToken_def
  by (intro keep_rules preservesI wpt_stmt)
     (auto simp: wf_nodes_def Let_def split: if_splits
        intro!: index_rules uniq_rekey)

lemma GroupCreate_wf [keep_rules]: "preserves wf_nodes (GroupCreate g)"
  unfolding GroupCreate_def
  by (intro keep_rules preservesI wpt_create) (auto simp: wf_nodes_def intro!: index_rules)

lemma GroupUpdate_wf [keep_rules]: "preserves wf_nodes (GroupUpdate g)"
  unfolding GroupUpdate_def
  by (intro keep_rules preservesI wpt_save) (auto simp: wf_nodes_def intro!: index_rules)

lemma RemoveAllNodes_wf [keep_rules]: "preserves wf_nodes (RemoveAllNodes g)"
  unfolding RemoveAllNodes_def
  by (intro keep_rules preserves_delete) (auto simp: wf_nodes_def intro!: index_rules)

lemma GroupDelete_wf [keep_rules]: "preserves wf_nodes (GroupDelete g)"
  unfolding GroupDelete_def
  by (intro keep_rules preserves_delete) (auto simp: wf_nodes_def intro!: index_rules)

lemma AddNode_wf [keep_rules]: "preserves wf_nodes (AddNode now g n)"
  unfolding AddNode_def
  by (intro keep_rules preservesI wpt_create)
     (auto simp: wf_nodes_def member_clash_def new_member_def intro!: index_rules uniq_add)

lemma RemoveNode_wf [keep_rules]: "preserves wf_nodes (RemoveNode g n)"
  unfolding RemoveNode_def
  by (intro keep_rules preserves_delete) (auto simp: wf_nodes_def intro!: index_rules)

lemma insert_members_index:
  "insert_members now g ns t = Some t' \<Longrightarrow> keyed gm_id t \<Longrightarrow> uniq member_key t
    \<Longrightarrow> keyed gm_id t' \<and> uniq member_key t'"
proof (induction ns arbitrary: t)
  case (Cons n ns)
  have "keyed gm_id (add_row (new_member now g n) t)" "uniq member_key (add_row (new_member now g n) t)"
    using Cons.prems by (auto simp: new_member_def split: if_splits intro!: keyed_add uniq_add)
  with Cons show ?case by (simp split: if_splits)
qed simp

lemma SetNodes_wf [keep_rules]: "preserves wf_nodes (SetNodes now g ns)"
proof -
  have "preserves wf_nodes (create_members now g ns)"
    unfolding create_members_def
    by (intro preservesI wpt_stmt) (auto simp: wf_nodes_def split: option.splits dest: insert_members_index)
  then show ?thesis
    unfolding SetNodes_def
    by (intro keep_rules preserves_delete) (auto simp: wf_nodes_def intro!: index_rules)
qed

lemma AssignmentCreate_wf [keep_rules]: "preserves wf_nodes (AssignmentCreate a)"
  unfolding AssignmentCreate_def
  by (intro keep_rules preservesI wpt_create) (auto simp: wf_nodes_def user_clash_def intro!: index_rules uniq_add)

lemma AssignmentUpdate_wf [keep_rules]: "preserves wf_nodes (AssignmentUpdate a)"
proof -
  have "preserves wf_nodes (save assignments assignments_update user_clash na_id a)"
    unfolding save_def
    by (intro preservesI wpt_stmt)
       (auto simp: wf_nodes_def user_clash_def split: if_splits intro!: index_rules uniq_insert uniq_save)
  then show ?thesis unfolding AssignmentUpdate_def by (intro keep_rules)
qed

lemma AssignmentDelete_wf [keep_rules]: "preserves wf_nodes (AssignmentDelete i)"
  unfolding AssignmentDelete_def
  by (intro keep_rules preserves_delete) (auto simp: wf_nodes_def intro!: index_rules)

lemma move_row_keeps [simp]: "na_id (move_row now n a) = na_id a" "na_user_id (move_row now n a) = na_user_id a"
  "na_node_id (move_row now n a) = n"
  by (simp_all add: move_row_def)

lemma move_wf: "preserves wf_nodes (update_where assignments assignments_update p (move_row now n))"
  by (intro preserves_update) (auto simp: wf_nodes_def intro!: index_rules uniq_upd)

lemma add_assignment_wf:
  "preserves wf_nodes (create assignments assignments_update user_clash (new_assignment now u n))"
  by (intro preservesI wpt_create)
     (auto simp: wf_nodes_def user_clash_def new_assignment_def intro!: index_rules uniq_add)

lemma Assign_wf [keep_rules]: "preserves wf_nodes (Assign now u n)"
  unfolding Assign_def by (intro keep_rules move_wf add_assignment_wf)

lemma Reassign_wf [keep_rules]: "preserves wf_nodes (Reassign now u n)" "preserves wf_nodes (ReassignInTx now u n)"
  unfolding Reassign_def ReassignInTx_def by (intro keep_rules move_wf add_assignment_wf)+

lemma Unassign_wf [keep_rules]: "preserves wf_nodes (Unassign u)" "preserves wf_nodes (DeleteByNodeID n)"
  unfolding Unassign_def DeleteByNodeID_def
  by (intro keep_rules preserves_delete; auto simp: wf_nodes_def intro!: index_rules)+

lemma BulkReassign_wf [keep_rules]: "preserves wf_nodes (BulkReassign now us n)"
  unfolding BulkReassign_def by (intro keep_rules move_wf)

text \<open>Every operation that changes the tables, with any arguments and any statement failing.\<close>

inductive node_step :: "node_db \<Rightarrow> node_db \<Rightarrow> bool" where
  node_create: "NodeCreate n w = (rN, w') \<Longrightarrow> node_step (tables w) (tables w')"
| node_update: "NodeUpdate n w = (rU, w') \<Longrightarrow> node_step (tables w) (tables w')"
| node_delete: "NodeDelete i w = (rU, w') \<Longrightarrow> node_step (tables w) (tables w')"
| node_token: "NodeUpdateToken i s w = (rU, w') \<Longrightarrow> node_step (tables w) (tables w')"
| node_status: "NodeUpdateStatus i s w = (rU, w') \<Longrightarrow> node_step (tables w) (tables w')"
| node_seen: "NodeUpdateLastSeen i now w = (rU, w') \<Longrightarrow> node_step (tables w) (tables w')"
| node_metrics: "NodeUpdateMetrics i a b w = (rU, w') \<Longrightarrow> node_step (tables w) (tables w')"
| node_load: "NodeUpdateLoadMetrics i x y z w = (rU, w') \<Longrightarrow> node_step (tables w) (tables w')"
| node_xray: "NodeUpdateXrayStatus i bb s w = (rU, w') \<Longrightarrow> node_step (tables w) (tables w')"
| node_install: "NodeUpdateInstallStatus i s1 s2 s3 s4 t1 t2 t3 w = (rU, w') \<Longrightarrow> node_step (tables w) (tables w')"
| node_sync: "NodeUpdateSyncStatus i s t1 w = (rU, w') \<Longrightarrow> node_step (tables w) (tables w')"
| node_heartbeat: "NodeUpdateHeartbeatBatch i s now a b x y z bb s2 w = (rU, w') \<Longrightarrow> node_step (tables w) (tables w')"
| node_delete_tx: "NodeDeleteInTx i w = (rU, w') \<Longrightarrow> node_step (tables w) (tables w')"
| group_create: "GroupCreate g w = (rG, w') \<Longrightarrow> node_step (tables w) (tables w')"
| group_update: "GroupUpdate g w = (rU, w') \<Longrightarrow> node_step (tables w) (tables w')"
| group_delete: "GroupDelete i w = (rU, w') \<Longrightarrow> node_step (tables w) (tables w')"
| member_add: "AddNode now i j w = (rU, w') \<Longrightarrow> node_step (tables w) (tables w')"
| member_remove: "RemoveNode i j w = (rU, w') \<Longrightarrow> node_step (tables w) (tables w')"
| member_remove_all: "RemoveAllNodes i w = (rU, w') \<Longrightarrow> node_step (tables w) (tables w')"
| member_set: "SetNodes now i js w = (rU, w') \<Longrightarrow> node_step (tables w) (tables w')"
| assignment_create: "AssignmentCreate a' w = (rA, w') \<Longrightarrow> node_step (tables w) (tables w')"
| assignment_update: "AssignmentUpdate a' w = (rU, w') \<Longrightarrow> node_step (tables w) (tables w')"
| assignment_delete: "AssignmentDelete i w = (rU, w') \<Longrightarrow> node_step (tables w) (tables w')"
| assign: "Assign now i j w = (rU, w') \<Longrightarrow> node_step (tables w) (tables w')"
| reassign: "Reassign now i j w = (rU, w') \<Longrightarrow> node_step (tables w) (tables w')"
| reassign_tx: "ReassignInTx now i j w = (rU, w') \<Longrightarrow> node_step (tables w) (tables w')"
| unassign: "Unassign i w = (rU, w') \<Longrightarrow> node_step (tables w) (tables w')"
| bulk_reassign: "BulkReassign now js i w = (rU, w') \<Longrightarrow> node_step (tables w) (tables w')"
| delete_by_node: "DeleteByNodeID i w = (rU, w') \<Longrightarrow> node_step (tables w) (tables w')"

lemma node_updates_wf [keep_rules]:
  "preserves wf_nodes (NodeUpdateStatus i s)" "preserves wf_nodes (NodeUpdateLastSeen i now)"
  "preserves wf_nodes (NodeUpdateMetrics i a b)" "preserves wf_nodes (NodeUpdateLoadMetrics i x y z)"
  "preserves wf_nodes (NodeUpdateXrayStatus i bb s)"
  "preserves wf_nodes (NodeUpdateInstallStatus i s s2 s3 s4 t1 t2 t3)"
  "preserves wf_nodes (NodeUpdateSyncStatus i s t1)"
  "preserves wf_nodes (NodeUpdateHeartbeatBatch i s now a b x y z bb s2)"
  unfolding NodeUpdateStatus_def NodeUpdateLastSeen_def NodeUpdateMetrics_def NodeUpdateLoadMetrics_def
    NodeUpdateXrayStatus_def NodeUpdateInstallStatus_def NodeUpdateSyncStatus_def NodeUpdateHeartbeatBatch_def
  by (intro keep_rules; simp split: option.split)+

lemma node_step_wf: "node_step d d' \<Longrightarrow> wf_nodes d \<Longrightarrow> wf_nodes d'"
  by (induction rule: node_step.induct) (auto elim!: preserves_run [rotated 2] intro: keep_rules)

definition sample_node :: "int \<Rightarrow> int \<Rightarrow> int \<Rightarrow> node_row" where
  "sample_node i weight cu = \<lparr>nd_id = i, nd_name = ''n'', nd_address = ''10.0.0.1'', nd_port = 18443,
     nd_token = show_int i, nd_status = ''online'', nd_region = [], nd_weight = weight, nd_max_users = 0,
     nd_current_users = cu, nd_latency = 0, nd_last_seen_at = None, nd_sync_status = ''pending'',
     nd_synced_at = None, nd_install_status = ''idle'', nd_install_message = [], nd_install_steps = [],
     nd_install_logs = [], nd_install_started_at = None, nd_install_finished_at = None,
     nd_install_updated_at = None, nd_traffic_total = 0, nd_traffic_limit = 0, nd_traffic_reset_at = None,
     nd_cpu_usage = 0, nd_memory_usage = 0, nd_disk_usage = 0, nd_alert_traffic_threshold = 80,
     nd_xray_running = False, nd_xray_version = [], nd_tls_enabled = False,
     nd_tls_domain = [], nd_certificate_id = None, nd_created_at = 0\<rparr>"

definition empty_node_db :: node_db where
  "empty_node_db = \<lparr>nodes = empty_table, node_groups = empty_table, group_members = empty_table,
     assignments = empty_table, panel_users = empty_table\<rparr>"

definition node_world :: "node_db \<Rightarrow> node_db world" where
  "node_world d = \<lparr>tables = d, faults = [], in_tx = False\<rparr>"

lemma empty_node_db_wf: "wf_nodes empty_node_db"
  by (simp add: wf_nodes_def empty_node_db_def empty_table_def keyed_def uniq_def)



section \<open>Where users are placed\<close>

text \<open>
  What the clients of the assignment repository rely on: a table of placements and the laws of
  a reassignment.  It moves the user, or it fails and nothing changes; and when the engine does
  not fail it succeeds.
\<close>

definition placed :: "node_db \<Rightarrow> int \<Rightarrow> int option" where
  "placed d u = map_option na_node_id (find (\<lambda>a. na_user_id a = u) (rows (assignments d)))"

locale placement =
  fixes reassign :: "time \<Rightarrow> int \<Rightarrow> int \<Rightarrow> ('t, unit) op"
    and inv :: "'t \<Rightarrow> bool" and place :: "'t \<Rightarrow> int \<Rightarrow> int option"
  assumes reassign_moves: "inv t \<Longrightarrow>
      wpt (reassign now u n) (\<lambda>_ t'. inv t' \<and> place t' = (place t)(u \<mapsto> n)) (\<lambda>_ t'. inv t' \<and> place t' = place t) t"
    and reassign_runs: "inv (tables w) \<Longrightarrow> faults w = [] \<Longrightarrow>
      \<exists>w'. reassign now u n w = (Inr (), w') \<and> faults w' = []"

lemma placed_move:
  "placed (d\<lparr>assignments := upd_rows (\<lambda>a. na_user_id a = u) (move_row now n) (assignments d)\<rparr>)
     = (if \<exists>a \<in> set (rows (assignments d)). na_user_id a = u then (placed d)(u \<mapsto> n) else placed d)"
proof -
  have f: "find (\<lambda>a. na_user_id a = v) (map (\<lambda>a. if na_user_id a = u then move_row now n a else a) xs)
      = map_option (\<lambda>a. if na_user_id a = u then move_row now n a else a) (find (\<lambda>a. na_user_id a = v) xs)" for v xs
    by (rule find_map_key) simp
  show ?thesis
  proof
    fix v
    show "placed (d\<lparr>assignments := upd_rows (\<lambda>a. na_user_id a = u) (move_row now n) (assignments d)\<rparr>) v
      = (if \<exists>a \<in> set (rows (assignments d)). na_user_id a = u then (placed d)(u \<mapsto> n) else placed d) v"
      by (cases "find (\<lambda>a. na_user_id a = v) (rows (assignments d))")
         (auto simp: placed_def table_simps f dest: find_Some_iff_In iffD1 [OF find_None_all])
  qed
qed

lemma placed_add:
  assumes "\<And>a. a \<in> set (rows (assignments d)) \<Longrightarrow> na_user_id a \<noteq> u"
  shows "placed (d\<lparr>assignments := add_row (new_assignment now u n) (assignments d)\<rparr>) = (placed d)(u \<mapsto> n)"
proof
  fix v
  have find_snoc: "find P (xs @ [x]) = (case find P xs of Some y \<Rightarrow> Some y | None \<Rightarrow> if P x then Some x else None)"
    for P and xs :: "assignment_row list" and x by (induction xs) auto
  have "find (\<lambda>a. na_user_id a = u) (rows (assignments d)) = None" using assms by (auto simp: find_None_all)
  then show "placed (d\<lparr>assignments := add_row (new_assignment now u n) (assignments d)\<rparr>) v = ((placed d)(u \<mapsto> n)) v"
    by (auto simp: placed_def table_simps find_snoc new_assignment_def split: option.splits)
qed

lemma placed_delete:
  "placed (d\<lparr>assignments := del_rows (\<lambda>a. na_user_id a = u) (assignments d)\<rparr>) = (placed d)(u := None)"
proof
  fix v
  have f: "find (\<lambda>a. na_user_id a = v) (filter (\<lambda>a. na_user_id a \<noteq> u) xs)
      = (if v = u then None else find (\<lambda>a. na_user_id a = v) xs)" for xs v
    by (induction xs) auto
  show "placed (d\<lparr>assignments := del_rows (\<lambda>a. na_user_id a = u) (assignments d)\<rparr>) v = ((placed d)(u := None)) v"
    by (cases "v = u") (simp_all add: placed_def table_simps f)
qed

lemma uniq_eq: "uniq k t \<Longrightarrow> r \<in> set (rows t) \<Longrightarrow> s \<in> set (rows t) \<Longrightarrow> k r = k s \<Longrightarrow> r = s"
  by (auto simp: uniq_def distinct_map inj_on_def)

lemma upd_rows_cong: "(\<And>r. r \<in> set (rows t) \<Longrightarrow> p r = q r) \<Longrightarrow> upd_rows p f t = upd_rows q f t"
  by (auto simp: upd_rows_def intro!: arg_cong [where f = "\<lambda>x. rows_update (\<lambda>_. x) t"] map_cong)

lemma Assign_moves:
  assumes "wf_nodes d"
  shows "wpt (Assign now u n) (\<lambda>_ d'. placed d' = (placed d)(u \<mapsto> n)) (\<lambda>_ d'. d' = d) d"
proof -
  have hit: "placed (assignments_update (\<lambda>_. upd_rows (\<lambda>b. na_user_id b = u \<and> na_id b = na_id a)
        (move_row now n) (assignments d)) d) = (placed d)(u \<mapsto> n)"
    if "a \<in> set (rows (assignments d))" "na_user_id a = u" for a
  proof -
    have "upd_rows (\<lambda>b. na_user_id b = u \<and> na_id b = na_id a) (move_row now n) (assignments d)
        = upd_rows (\<lambda>b. na_user_id b = u) (move_row now n) (assignments d)"
      using that assms by (intro upd_rows_cong) (auto simp: wf_nodes_def dest: uniq_eq)
    with that show ?thesis by (auto simp: placed_move)
  qed
  show ?thesis
    unfolding Assign_def by (intro wpt_rules) (auto simp: hit placed_add)
qed

lemma Reassign_moves:
  assumes "wf_nodes d"
  shows "wpt (Reassign now u n) (\<lambda>_ d'. placed d' = (placed d)(u \<mapsto> n)) (\<lambda>_ d'. placed d' = placed d) d"
proof -
  have none: "upd_rows (\<lambda>a. na_user_id a = u) (move_row now n) (assignments d) = assignments d"
    if "count_rows (\<lambda>a. na_user_id a = u) (assignments d) = 0"
    using that by (simp add: count_rows_zero upd_rows_def map_idI)
  show ?thesis
    unfolding Reassign_def
  proof (intro wpt_bind wpt_map_err wpt_update wpt_if)
    assume z: "count_rows (\<lambda>a. na_user_id a = u) (assignments d) = 0"
    show "wpt (Assign now u n) (\<lambda>_ d'. placed d' = (placed d)(u \<mapsto> n)) (\<lambda>_ d'. placed d' = placed d)
        (d\<lparr>assignments := upd_rows (\<lambda>a. na_user_id a = u) (move_row now n) (assignments d)\<rparr>)"
      by (auto simp: none [OF z] intro!: wpt_mono [OF Assign_moves [OF assms]])
  next
    assume "count_rows (\<lambda>a. na_user_id a = u) (assignments d) \<noteq> 0"
    then show "wpt (ret ()) (\<lambda>_ d'. placed d' = (placed d)(u \<mapsto> n)) (\<lambda>_ d'. placed d' = placed d)
        (d\<lparr>assignments := upd_rows (\<lambda>a. na_user_id a = u) (move_row now n) (assignments d)\<rparr>)"
      by (intro wpt_rules) (auto simp: placed_move count_rows_zero)
  qed simp
qed

lemma Unassign_removes: "wpt (Unassign u) (\<lambda>_ d'. placed d' = (placed d)(u := None)) (\<lambda>_ d'. d' = d) d"
  unfolding Unassign_def by (intro wpt_rules) (auto simp: placed_delete)

lemma Reassign_runs:
  assumes "wf_nodes (tables w)" and "faults w = []"
  shows "\<exists>w'. Reassign now u n w = (Inr (), w') \<and> faults w' = []"
proof (cases "\<exists>a \<in> set (rows (assignments (tables w))). na_user_id a = u")
  case True
  then show ?thesis using assms
    by (auto simp: Reassign_def run_defs count_rows_zero Let_def split: if_splits)
next
  case False
  then have "find (\<lambda>a. na_user_id a = u) (rows (upd_rows p f (assignments (tables w)))) = None"
    if "\<And>a. na_user_id (f a) = na_user_id a" for p f
    using that by (auto simp: find_None_all table_simps)
  with False assms show ?thesis
    by (auto simp: Reassign_def Assign_def run_defs count_rows_zero user_clash_def new_assignment_def table_simps Let_def)
qed

interpretation node_placement: placement Reassign wf_nodes placed
proof
  fix d :: node_db and now u n assume "wf_nodes d"
  then show "wpt (Reassign now u n) (\<lambda>_ t'. wf_nodes t' \<and> placed t' = (placed d)(u \<mapsto> n))
      (\<lambda>_ t'. wf_nodes t' \<and> placed t' = placed d) d"
    using Reassign_wf(1) [of now u n] Reassign_moves by (auto simp: preserves_def intro: wpt_conj)
qed (rule Reassign_runs)

end
