(* ===== verification/LoadBalancer.thy ===== *)
theory LoadBalancer
  imports NodeStore "HOL-Library.Word" "HOL-Library.AList" "HOL-Library.Product_Lexorder"
begin

text \<open>
  \<open>internal/node/load_balancer.go\<close>: the choice of a node for a user.  A strategy object with
  its own state (the round-robin counter, the current weights of the smooth weighted
  round-robin) is a constructor of \<open>strategy\<close> carrying that state; \<open>Select\<close> returns the
  chosen node and the strategy after the choice, and the balancer stores it back under its name.

  Not under \<open>src\<close>, or not determined by it, and therefore arguments: the answers of the
  geolocation service and the functions of package math the great circle distance uses.
\<close>

section \<open>Nodes as the service sees them\<close>

record node =
  ID :: int
  Name :: string
  Address :: string
  Port :: int
  Token :: string
  Status :: string
  Region :: string
  Weight :: int
  MaxUsers :: int
  CurrentUsers :: int
  Latency :: int
  LastSeenAt :: "time option"
  SyncStatus :: string
  SyncedAt :: "time option"
  TrafficTotal :: int
  TrafficLimit :: int
  TrafficResetAt :: "time option"
  AlertTrafficThreshold :: rat
  CreatedAt :: time

definition repoNodeToNode :: "node_row \<Rightarrow> node" where
  "repoNodeToNode rn = \<lparr>ID = nd_id rn, Name = nd_name rn, Address = nd_address rn, Port = nd_port rn,
     Token = nd_token rn, Status = nd_status rn, Region = nd_region rn, Weight = nd_weight rn,
     MaxUsers = nd_max_users rn, CurrentUsers = nd_current_users rn, Latency = nd_latency rn,
     LastSeenAt = nd_last_seen_at rn, SyncStatus = nd_sync_status rn, SyncedAt = nd_synced_at rn,
     TrafficTotal = nd_traffic_total rn, TrafficLimit = nd_traffic_limit rn,
     TrafficResetAt = nd_traffic_reset_at rn, AlertTrafficThreshold = nd_alert_traffic_threshold rn,
     CreatedAt = nd_created_at rn\<rparr>"

definition StrategyRoundRobin :: string where "StrategyRoundRobin = ''round-robin''"
definition StrategyLeastConnections :: string where "StrategyLeastConnections = ''least-connections''"
definition StrategyWeighted :: string where "StrategyWeighted = ''weighted''"
definition StrategyGeographic :: string where "StrategyGeographic = ''geographic''"

lemmas strategy_defs = StrategyRoundRobin_def StrategyLeastConnections_def StrategyWeighted_def StrategyGeographic_def

record select_options =
  so_strategy :: string
  so_group_id :: "int option"
  so_exclude_ids :: "int list"
  so_user_ip :: string
  so_sticky :: bool

definition default_options :: select_options where
  "default_options = \<lparr>so_strategy = StrategyRoundRobin, so_group_id = None, so_exclude_ids = [],
     so_user_ip = [], so_sticky = False\<rparr>"

section \<open>Order of preference\<close>

definition nodeSelectionTrafficPressure :: "node \<Rightarrow> rat" where
  "nodeSelectionTrafficPressure n =
     (if TrafficLimit n \<le> 0 then - 1
      else (let threshold = AlertTrafficThreshold n;
                threshold = (if threshold < 1 \<or> 100 < threshold then 100 else threshold) in
        f64 (f64 (f64 (float_of (TrafficTotal n) * 100) / float_of (TrafficLimit n)) / threshold)))"

definition nodeSelectionCapacityPressure :: "node \<Rightarrow> rat" where
  "nodeSelectionCapacityPressure n =
     (if MaxUsers n \<le> 0 then 0 else f64 (float_of (CurrentUsers n) / float_of (MaxUsers n)))"

definition shouldPreferNodeForSelection :: "node \<Rightarrow> node \<Rightarrow> bool" where
  "shouldPreferNodeForSelection l r =
     (if nodeSelectionTrafficPressure l \<noteq> nodeSelectionTrafficPressure r
      then nodeSelectionTrafficPressure l < nodeSelectionTrafficPressure r
      else if nodeSelectionCapacityPressure l \<noteq> nodeSelectionCapacityPressure r
      then nodeSelectionCapacityPressure l < nodeSelectionCapacityPressure r
      else if CurrentUsers l \<noteq> CurrentUsers r then CurrentUsers l < CurrentUsers r
      else if Weight l \<noteq> Weight r then Weight r < Weight l
      else ID l < ID r)"

definition sortNodesBySelectionPriority :: "node list \<Rightarrow> node list" where
  "sortNodesBySelectionPriority = slice_stable shouldPreferNodeForSelection"

text \<open>\<open>math.Round\<close>: to the nearest integer, halves away from zero.\<close>

definition math_round :: "rat \<Rightarrow> int" where
  "math_round x = (if 0 \<le> x then \<lfloor>x + 1 / 2\<rfloor> else - \<lfloor>- x + 1 / 2\<rfloor>)"

definition effectiveNodeSelectionWeight :: "node \<Rightarrow> int" where
  "effectiveNodeSelectionWeight n =
     (let weight = (if Weight n \<le> 0 then 1 else Weight n) in
      if TrafficLimit n \<le> 0 then weight
      else (let ratio = f64 (float_of (wrap64 (TrafficLimit n - TrafficTotal n)) / float_of (TrafficLimit n));
                ratio = (if ratio < 0 then 0 else ratio);
                ratio = (if ratio < f64 (1 / 5) then f64 (1 / 5) else ratio);
                effective = math_round (f64 (float_of weight * ratio)) in
            if effective < 1 then 1 else effective))"

fun containsID :: "int list \<Rightarrow> int \<Rightarrow> bool" where
  "containsID [] i = False"
| "containsID (j # js) i = (if j = i then True else containsID js i)"

definition filterNodes :: "node list \<Rightarrow> int list \<Rightarrow> node list" where
  "filterNodes ns excludeIDs = (if excludeIDs = [] then ns else filter (\<lambda>n. \<not> containsID excludeIDs (ID n)) ns)"

section \<open>Strategies\<close>

record geo_info =
  Latitude :: rat
  Longitude :: rat

record geo_service =
  IsAvailable :: bool
  Lookup :: "string \<Rightarrow> geo_info option"

record math_lib =
  Sin :: "rat \<Rightarrow> rat"
  Cos :: "rat \<Rightarrow> rat"
  Atan2 :: "rat \<Rightarrow> rat \<Rightarrow> rat"
  Sqrt :: "rat \<Rightarrow> rat"
  Pi :: rat

datatype strategy =
    RoundRobinStrategy "64 word"
  | LeastConnectionsStrategy
  | WeightedStrategy "int \<rightharpoonup> int"
  | GeographicStrategy "geo_service option"

fun strategy_name :: "strategy \<Rightarrow> string" where
  "strategy_name (RoundRobinStrategy c) = StrategyRoundRobin"
| "strategy_name LeastConnectionsStrategy = StrategyLeastConnections"
| "strategy_name (WeightedStrategy w) = StrategyWeighted"
| "strategy_name (GeographicStrategy g) = StrategyGeographic"

type_synonym choice = "err + (node \<times> strategy)"

text \<open>\<open>atomic.AddUint64(&counter, 1) - 1\<close> indexes the nodes modulo their number.\<close>

definition RoundRobinSelect :: "64 word \<Rightarrow> node list \<Rightarrow> choice" where
  "RoundRobinSelect counter ns =
     (if ns = [] then Inl (NodeE ErrNoAvailableNodes)
      else (let counter' = counter + 1; idx = counter' - 1 in
        Inr (ns ! unat (idx mod of_nat (length ns)), RoundRobinStrategy counter')))"

fun least_loop :: "node list \<Rightarrow> node \<Rightarrow> int \<Rightarrow> node" where
  "least_loop [] minNode minConnections = minNode"
| "least_loop (n # ns) minNode minConnections =
     (if CurrentUsers n < minConnections then least_loop ns n (CurrentUsers n)
      else if CurrentUsers n = minConnections \<and> shouldPreferNodeForSelection n minNode
      then least_loop ns n minConnections
      else least_loop ns minNode minConnections)"

definition LeastConnectionsSelect :: "node list \<Rightarrow> choice" where
  "LeastConnectionsSelect ns = (case ns of [] \<Rightarrow> Inl (NodeE ErrNoAvailableNodes)
     | n # rest \<Rightarrow> Inr (least_loop rest n (CurrentUsers n), LeastConnectionsStrategy))"

text \<open>
  The two passes of the weighted strategy: the first adds up the weights and enters the nodes
  that have no current weight yet, the second raises the current weights and keeps the highest.
\<close>

fun weight_init :: "node list \<Rightarrow> (int \<rightharpoonup> int) \<Rightarrow> int \<Rightarrow> int \<times> (int \<rightharpoonup> int)" where
  "weight_init [] weights totalWeight = (totalWeight, weights)"
| "weight_init (n # ns) weights totalWeight =
     weight_init ns (case weights (ID n) of None \<Rightarrow> weights(ID n \<mapsto> 0) | Some _ \<Rightarrow> weights)
       (wrap64 (totalWeight + effectiveNodeSelectionWeight n))"

text \<open>Reading a missing key of a Go map gives the zero value.\<close>

definition weight_of :: "(int \<rightharpoonup> int) \<Rightarrow> int \<Rightarrow> int" where
  "weight_of weights i = (case weights i of None \<Rightarrow> 0 | Some x \<Rightarrow> x)"

fun weight_pass :: "node list \<Rightarrow> (int \<rightharpoonup> int) \<Rightarrow> node option \<Rightarrow> int \<Rightarrow> node option \<times> (int \<rightharpoonup> int)" where
  "weight_pass [] weights selectedNode maxWeight = (selectedNode, weights)"
| "weight_pass (n # ns) weights selectedNode maxWeight =
     (let x = wrap64 (weight_of weights (ID n) + effectiveNodeSelectionWeight n);
          weights' = weights(ID n \<mapsto> x) in
      if (case selectedNode of None \<Rightarrow> True
          | Some s \<Rightarrow> maxWeight < x \<or> x = maxWeight \<and> shouldPreferNodeForSelection n s)
      then weight_pass ns weights' (Some n) x
      else weight_pass ns weights' selectedNode maxWeight)"

definition WeightedSelect :: "(int \<rightharpoonup> int) \<Rightarrow> node list \<Rightarrow> choice" where
  "WeightedSelect weights ns =
     (if ns = [] then Inl (NodeE ErrNoAvailableNodes)
      else (let (totalWeight, weights) = weight_init ns weights 0;
                (selectedNode, weights) = weight_pass ns weights None (- 1) in
        case selectedNode of
          None \<Rightarrow> Inl NilDereference
        | Some s \<Rightarrow> Inr (s, WeightedStrategy (weights(ID s \<mapsto> wrap64 (weight_of weights (ID s) - totalWeight))))))"

text \<open>\<open>haversineDistance\<close>, each operation rounded to a double.\<close>

definition radians :: "math_lib \<Rightarrow> rat \<Rightarrow> rat" where
  "radians m x = f64 (f64 (x * Pi m) / 180)"

definition haversineDistance :: "math_lib \<Rightarrow> rat \<Rightarrow> rat \<Rightarrow> rat \<Rightarrow> rat \<Rightarrow> rat" where
  "haversineDistance m lat1 lon1 lat2 lon2 =
     (let lat1Rad = radians m lat1;
          lat2Rad = radians m lat2;
          deltaLat = radians m (f64 (lat2 - lat1));
          deltaLon = radians m (f64 (lon2 - lon1));
          sLat = Sin m (f64 (deltaLat / 2));
          sLon = Sin m (f64 (deltaLon / 2));
          a = f64 (f64 (sLat * sLat) + f64 (f64 (f64 (Cos m lat1Rad * Cos m lat2Rad) * sLon) * sLon));
          c = f64 (2 * Atan2 m (Sqrt m a) (Sqrt m (f64 (1 - a))))
      in f64 (6371 * c))"

definition getNodeLocation :: "geo_service option \<Rightarrow> node \<Rightarrow> geo_info option" where
  "getNodeLocation g n = (case g of None \<Rightarrow> None
     | Some s \<Rightarrow> if IsAvailable s then Lookup s (Address n) else None)"

definition MaxFloat64 :: rat where
  "MaxFloat64 = of_int (2 ^ 53 - 1) * 2 ^ 971"

fun closest_loop :: "math_lib \<Rightarrow> geo_service option \<Rightarrow> geo_info \<Rightarrow> node list \<Rightarrow> node option \<Rightarrow> rat \<Rightarrow> node option" where
  "closest_loop m g userGeo [] closestNode minDistance = closestNode"
| "closest_loop m g userGeo (n # ns) closestNode minDistance =
     (case getNodeLocation g n of
        None \<Rightarrow> closest_loop m g userGeo ns closestNode minDistance
      | Some nodeGeo \<Rightarrow>
          (let distance = haversineDistance m (Latitude userGeo) (Longitude userGeo)
                 (Latitude nodeGeo) (Longitude nodeGeo) in
           if distance < minDistance then closest_loop m g userGeo ns (Some n) distance
           else closest_loop m g userGeo ns closestNode minDistance))"

definition GeographicSelect :: "math_lib \<Rightarrow> geo_service option \<Rightarrow> node list \<Rightarrow> select_options option \<Rightarrow> choice" where
  "GeographicSelect m g ns opts =
     (case ns of [] \<Rightarrow> Inl (NodeE ErrNoAvailableNodes)
      | n0 # _ \<Rightarrow> Inr (
          (case (opts, g) of
             (Some o', Some s) \<Rightarrow>
               if so_user_ip o' = [] \<or> \<not> IsAvailable s then n0
               else (case Lookup s (so_user_ip o') of
                   None \<Rightarrow> n0
                 | Some userGeo \<Rightarrow>
                     if Latitude userGeo = 0 \<and> Longitude userGeo = 0 then n0
                     else (case closest_loop m g userGeo ns None MaxFloat64 of None \<Rightarrow> n0 | Some n \<Rightarrow> n))
           | _ \<Rightarrow> n0), GeographicStrategy g))"

fun strategy_select :: "math_lib \<Rightarrow> strategy \<Rightarrow> node list \<Rightarrow> select_options option \<Rightarrow> choice" where
  "strategy_select m (RoundRobinStrategy c) ns opts = RoundRobinSelect c ns"
| "strategy_select m LeastConnectionsStrategy ns opts = LeastConnectionsSelect ns"
| "strategy_select m (WeightedStrategy w) ns opts = WeightedSelect w ns"
| "strategy_select m (GeographicStrategy g) ns opts = GeographicSelect m g ns opts"

section \<open>The load balancer\<close>

text \<open>The registered strategies, by name.\<close>

type_synonym load_balancer = "(string \<times> strategy) list"

definition RegisterStrategy :: "strategy \<Rightarrow> load_balancer \<Rightarrow> load_balancer" where
  "RegisterStrategy s lb = AList.update (strategy_name s) s lb"

definition NewLoadBalancer :: "geo_service option \<Rightarrow> load_balancer" where
  "NewLoadBalancer g = RegisterStrategy (GeographicStrategy g) (RegisterStrategy (WeightedStrategy Map.empty)
     (RegisterStrategy LeastConnectionsStrategy (RegisterStrategy (RoundRobinStrategy 0) [])))"

definition GetStrategy :: "load_balancer \<Rightarrow> string \<Rightarrow> err + strategy" where
  "GetStrategy lb name = (case map_of lb name of None \<Rightarrow> Inl (NodeE ErrInvalidStrategy) | Some s \<Rightarrow> Inr s)"

text \<open>The strategy a selection uses: the named one, round-robin when the name is empty or unknown.\<close>

definition pick_strategy :: "load_balancer \<Rightarrow> select_options \<Rightarrow> strategy option" where
  "pick_strategy lb opts =
     (let name = (if so_strategy opts = [] then StrategyRoundRobin else so_strategy opts) in
      case GetStrategy lb name of Inr s \<Rightarrow> Some s
      | Inl _ \<Rightarrow> (case GetStrategy lb StrategyRoundRobin of Inr s \<Rightarrow> Some s | Inl _ \<Rightarrow> None))"

definition available :: "int list \<Rightarrow> node_row \<Rightarrow> bool" where
  "available excludeIDs rn =
     (if nd_status rn \<noteq> NodeStatusOnline then False
      else if 0 < nd_max_users rn \<and> nd_max_users rn \<le> nd_current_users rn then False
      else if containsID excludeIDs (nd_id rn) then False
      else True)"

definition getAvailableNodes :: "select_options \<Rightarrow> node list nodeop" where
  "getAvailableNodes opts =
     bindE (case so_group_id opts of Some g \<Rightarrow> GetNodes g | None \<Rightarrow> NodeGetAvailable) (\<lambda>repoNodes.
     ret (sortNodesBySelectionPriority (map repoNodeToNode (filter (available (so_exclude_ids opts)) repoNodes))))"

definition AssignUser :: "time \<Rightarrow> int \<Rightarrow> int \<Rightarrow> unit nodeop" where
  "AssignUser now userID nodeID = Assign now userID nodeID"

definition UnassignUser :: "int \<Rightarrow> unit nodeop" where
  "UnassignUser userID = Unassign userID"

definition GetUserNode :: "int \<Rightarrow> node nodeop" where
  "GetUserNode userID =
     bindE (GetByUserID userID) (\<lambda>a. case a of
        None \<Rightarrow> raise (NodeE ErrUserNotAssigned)
      | Some a \<Rightarrow> bindE (NodeGetByID (na_node_id a)) (\<lambda>rn. ret (repoNodeToNode rn)))"

text \<open>The choice is made; the strategy's new state is stored under its name.\<close>

definition run_strategy :: "math_lib \<Rightarrow> load_balancer \<Rightarrow> select_options \<Rightarrow> node list \<Rightarrow> (node \<times> load_balancer) nodeop" where
  "run_strategy m lb opts ns =
     (case pick_strategy lb opts of
        None \<Rightarrow> raise NilDereference
      | Some s \<Rightarrow> (case strategy_select m s ns (Some opts) of
          Inl e \<Rightarrow> raise e
        | Inr (n, s') \<Rightarrow> ret (n, RegisterStrategy s' lb)))"

definition SelectNode :: "math_lib \<Rightarrow> load_balancer \<Rightarrow> int \<Rightarrow> select_options option \<Rightarrow> (node \<times> load_balancer) nodeop" where
  "SelectNode m lb userID opts0 =
     (let opts = (case opts0 of None \<Rightarrow> default_options | Some o' \<Rightarrow> o');
          fresh = bindE (getAvailableNodes opts) (\<lambda>ns.
            bindE (guardE (ns \<noteq> []) (NodeE ErrNoAvailableNodes)) (\<lambda>_. run_strategy m lb opts ns))
      in if so_sticky opts
         then bindE (attempt (GetUserNode userID)) (\<lambda>r. case r of
             Inr n \<Rightarrow> if Status n = NodeStatusOnline \<and> (MaxUsers n = 0 \<or> CurrentUsers n < MaxUsers n)
                      then ret (n, lb) else fresh
           | Inl _ \<Rightarrow> fresh)
         else fresh)"

text \<open>
  The selection loop of \<open>SelectNodes\<close>: \<open>k\<close> rounds at most, each on the nodes not chosen
  so far; it breaks when none is left or the strategy fails.
\<close>

fun select_loop :: "('s \<Rightarrow> node list \<Rightarrow> select_options option \<Rightarrow> err + (node \<times> 's)) \<Rightarrow> 's \<Rightarrow> select_options
    \<Rightarrow> node list \<Rightarrow> nat \<Rightarrow> int list \<Rightarrow> node list \<Rightarrow> node list \<times> 's" where
  "select_loop select s opts ns 0 excludeIDs chosen = (chosen, s)"
| "select_loop select s opts ns (Suc k) excludeIDs chosen =
     (let selectOpts = opts\<lparr>so_exclude_ids := excludeIDs, so_sticky := False\<rparr>;
          filtered = filterNodes ns excludeIDs in
      if filtered = [] then (chosen, s)
      else (case select s filtered (Some selectOpts) of
          Inl _ \<Rightarrow> (chosen, s)
        | Inr (n, s') \<Rightarrow> select_loop select s' opts ns k (excludeIDs @ [ID n]) (chosen @ [n])))"

definition select_from :: "math_lib \<Rightarrow> load_balancer \<Rightarrow> select_options \<Rightarrow> int \<Rightarrow> node list \<Rightarrow> (node list \<times> load_balancer) nodeop" where
  "select_from m lb opts cnt ns =
     bindE (guardE (ns \<noteq> []) (NodeE ErrNoAvailableNodes)) (\<lambda>_.
     let k = (if int (length ns) < cnt then int (length ns) else cnt) in
     case pick_strategy lb opts of
       None \<Rightarrow> raise NilDereference
     | Some s \<Rightarrow> if k < 0 then raise IndexOutOfRange
         else (case select_loop (strategy_select m) s opts ns (nat k) (so_exclude_ids opts) [] of (chosen, s') \<Rightarrow>
           bindE (guardE (chosen \<noteq> []) (NodeE ErrNoAvailableNodes)) (\<lambda>_. ret (chosen, RegisterStrategy s' lb))))"

definition SelectNodes :: "math_lib \<Rightarrow> load_balancer \<Rightarrow> int \<Rightarrow> int \<Rightarrow> select_options option \<Rightarrow> (node list \<times> load_balancer) nodeop" where
  "SelectNodes m lb userID cnt opts0 =
     (let opts = (case opts0 of None \<Rightarrow> default_options | Some o' \<Rightarrow> o') in
      bindE (getAvailableNodes opts) (select_from m lb opts cnt))"

text \<open>
  \<open>Rebalance\<close>: the users of the group's nodes, in turn to the available nodes.  A failed
  reassignment is logged and the loop goes on; \<open>clock i\<close> is the time the \<open>i\<close>-th reads.
\<close>

fun group_users :: "node_row list \<Rightarrow> int list nodeop" where
  "group_users [] = ret []"
| "group_users (n # ns) = bindE (attempt (GetUserIDsByNodeID (nd_id n))) (\<lambda>r. case r of
      Inl _ \<Rightarrow> group_users ns
    | Inr us \<Rightarrow> bindE (group_users ns) (\<lambda>rest. ret (us @ rest)))"

fun spread :: "(time \<Rightarrow> int \<Rightarrow> int \<Rightarrow> ('t, unit) op) \<Rightarrow> (nat \<Rightarrow> time) \<Rightarrow> int list \<Rightarrow> nat \<Rightarrow> int list \<Rightarrow> ('t, unit) op" where
  "spread reassign clock targets i [] = ret ()"
| "spread reassign clock targets i (u # us) =
     bindE (attempt (reassign (clock i) u (targets ! (i mod length targets)))) (\<lambda>_.
     spread reassign clock targets (Suc i) us)"

definition Rebalance :: "(nat \<Rightarrow> time) \<Rightarrow> int \<Rightarrow> unit nodeop" where
  "Rebalance clock groupID =
     bindE (GetNodes groupID) (\<lambda>ns.
     let availableNodes = filter (\<lambda>n. nd_status n = NodeStatusOnline
           \<and> (nd_max_users n = 0 \<or> nd_current_users n < nd_max_users n)) ns in
     bindE (guardE (availableNodes \<noteq> []) (NodeE ErrNoAvailableNodes)) (\<lambda>_.
     bindE (group_users ns) (\<lambda>allUserIDs.
     spread Reassign clock (map nd_id availableNodes) 0 allUserIDs)))"

section \<open>The order of preference is total\<close>

definition selection_key :: "node \<Rightarrow> rat \<times> rat \<times> int \<times> int \<times> int" where
  "selection_key n = (nodeSelectionTrafficPressure n, nodeSelectionCapacityPressure n,
     CurrentUsers n, - Weight n, ID n)"

lemma prefer_key: "shouldPreferNodeForSelection l r \<longleftrightarrow> selection_key l < selection_key r"
  by (auto simp: shouldPreferNodeForSelection_def selection_key_def)

lemma slice_stable_key: "slice_stable (\<lambda>a b. k a < k b) xs = sort_key (k :: 'a \<Rightarrow> 'b::linorder) xs"
proof -
  have "stable_insert (\<lambda>a b. k a < k b) x ys = insort_key k x ys" for x ys
    by (induction ys) auto
  then have "stable_insert (\<lambda>a b. k a < k b) = insort_key k" by (intro ext)
  then show ?thesis by (simp add: slice_stable_def sort_key_def)
qed

lemma sortNodes_key: "sortNodesBySelectionPriority ns = sort_key selection_key ns"
proof -
  have eq: "shouldPreferNodeForSelection = (\<lambda>a b. selection_key a < selection_key b)"
    by (intro ext) (rule prefer_key)
  show ?thesis unfolding sortNodesBySelectionPriority_def eq by (rule slice_stable_key)
qed

lemma containsID_mem [simp]: "containsID is i \<longleftrightarrow> i \<in> set is"
  by (induction "is") auto

lemma filterNodes_eq: "filterNodes ns ex = filter (\<lambda>n. ID n \<notin> set ex) ns"
  by (simp add: filterNodes_def)

lemma effective_weight_pos: "1 \<le> effectiveNodeSelectionWeight n"
  by (simp add: effectiveNodeSelectionWeight_def Let_def)

lemma length_filter_without:
  "x \<in> set xs \<Longrightarrow> distinct (map k xs) \<Longrightarrow> length (filter (\<lambda>y. k y \<noteq> k x) xs) = length xs - 1"
proof (induction xs)
  case (Cons a xs)
  show ?case
  proof (cases "k a = k x")
    case True
    then have "filter (\<lambda>y. k y \<noteq> k x) xs = xs" using Cons.prems(2) by (intro filter_True ballI) (auto simp: image_iff)
    with True show ?thesis by simp
  next
    case False
    then have "x \<in> set xs" using Cons.prems(1) by auto
    moreover then have "length xs \<noteq> 0" by auto
    ultimately show ?thesis using Cons False by simp
  qed
qed simp

section \<open>What a strategy promises\<close>

text \<open>
  The contract of the interface \<open>BalanceStrategy\<close>: no nodes, no choice; otherwise one of the
  offered nodes.  What \<open>SelectNodes\<close> does holds for every strategy that keeps it.
\<close>

locale balance_strategy =
  fixes select :: "'s \<Rightarrow> node list \<Rightarrow> select_options option \<Rightarrow> err + (node \<times> 's)"
  assumes select_none: "select s [] opts = Inl (NodeE ErrNoAvailableNodes)"
    and select_member: "ns \<noteq> [] \<Longrightarrow> length ns < 2 ^ 64 \<Longrightarrow> \<exists>n s'. select s ns opts = Inr (n, s') \<and> n \<in> set ns"
begin

lemma select_loop_spec:
  assumes "distinct (map ID ns)" and "length ns < 2 ^ 64"
  shows "\<exists>new s'. select_loop select s opts ns k ex chosen = (chosen @ new, s')
     \<and> distinct (map ID new) \<and> set new \<subseteq> set (filterNodes ns ex)
     \<and> length new = min k (length (filterNodes ns ex))"
proof (induction k arbitrary: s ex chosen)
  case (Suc k)
  show ?case
  proof (cases "filterNodes ns ex = []")
    case False
    let ?o = "Some (opts\<lparr>so_exclude_ids := ex, so_sticky := False\<rparr>)"
    have "length (filterNodes ns ex) < 2 ^ 64"
      unfolding filterNodes_eq by (rule le_less_trans [OF length_filter_le assms(2)])
    from select_member [OF False this] obtain n s' where n: "select s (filterNodes ns ex) ?o = Inr (n, s')"
      "n \<in> set (filterNodes ns ex)" by blast
    from Suc.IH [of s' "ex @ [ID n]" "chosen @ [n]"] obtain new s'' where
      new: "select_loop select s' opts ns k (ex @ [ID n]) (chosen @ [n]) = (chosen @ n # new, s'')"
        "distinct (map ID new)" "set new \<subseteq> set (filterNodes ns (ex @ [ID n]))"
        "length new = min k (length (filterNodes ns (ex @ [ID n])))" by auto
    have split: "filterNodes ns (ex @ [ID n]) = filter (\<lambda>m. ID m \<noteq> ID n) (filterNodes ns ex)"
      by (auto simp: filterNodes_eq intro!: filter_cong)
    have "distinct (map ID (filterNodes ns ex))" using assms(1) by (simp add: filterNodes_eq distinct_map_filter)
    with n(2) have "length (filterNodes ns (ex @ [ID n])) = length (filterNodes ns ex) - 1"
      unfolding split by (rule length_filter_without)
    moreover obtain j where "length (filterNodes ns ex) = Suc j" using False by (cases "filterNodes ns ex") auto
    ultimately have "length (n # new) = min (Suc k) (length (filterNodes ns ex))" using new(4) by simp
    moreover have "ID n \<notin> set (map ID new)" using new(3) by (auto simp: filterNodes_eq)
    moreover have "set (n # new) \<subseteq> set (filterNodes ns ex)" using new(3) n(2) by (auto simp: filterNodes_eq)
    moreover have "select_loop select s opts ns (Suc k) ex chosen = (chosen @ n # new, s'')"
      using False n(1) new(1) by (simp add: Let_def)
    ultimately show ?thesis using new(2) by (intro exI [of _ "n # new"] exI [of _ s'']) simp
  qed simp
qed simp

end

lemma least_loop_spec:
  "least_loop ns m (CurrentUsers m) \<in> set (m # ns) \<and> (\<forall>n \<in> set (m # ns).
     CurrentUsers (least_loop ns m (CurrentUsers m)) \<le> CurrentUsers n
     \<and> (CurrentUsers n = CurrentUsers (least_loop ns m (CurrentUsers m))
          \<longrightarrow> \<not> shouldPreferNodeForSelection n (least_loop ns m (CurrentUsers m))))"
proof (induction ns arbitrary: m)
  case Nil
  show ?case by (simp add: prefer_key)
next
  case (Cons a ns)
  show ?case
    using Cons.IH [of a] Cons.IH [of m] by (auto simp: prefer_key dest: order.strict_trans)
qed

lemma RoundRobin_member:
  assumes "ns \<noteq> []" and "length ns < 2 ^ 64"
  shows "\<exists>n s'. RoundRobinSelect c ns = Inr (n, s') \<and> n \<in> set ns"
proof -
  have n: "unat (of_nat (length ns) :: 64 word) = length ns" using assms(2) by (simp add: unat_of_nat take_bit_nat_eq_self)
  have "unat (c mod of_nat (length ns)) < length ns"
    using assms n by (simp add: unat_mod)
  then show ?thesis using assms by (simp add: RoundRobinSelect_def Let_def)
qed

lemma closest_member:
  "closest_loop m g u ns c d = c \<or> (\<exists>n \<in> set ns. closest_loop m g u ns c d = Some n)"
  by (induction ns arbitrary: c d) (fastforce simp: Let_def split: option.splits)+

lemma Geographic_member:
  assumes "ns \<noteq> []"
  shows "\<exists>n s'. GeographicSelect m g ns opts = Inr (n, s') \<and> n \<in> set ns"
proof -
  obtain n rest where ns: "ns = n # rest" using assms by (cases ns) auto
  have "k \<in> set (n # rest)" if "closest_loop m g u (n # rest) None MaxFloat64 = Some k" for u k
    using closest_member [of m g u "n # rest" None MaxFloat64] that by (simp del: closest_loop.simps)
  then show ?thesis
    unfolding GeographicSelect_def ns
    by (simp del: closest_loop.simps set_simps split: option.split) simp
qed

text \<open>Strategies with counters.\<close>

lemma weight_pass_some: "weight_pass ns w (Some s) mx = (sel, w') \<Longrightarrow> \<exists>n \<in> set (s # ns). sel = Some n"
  by (induction ns arbitrary: w s mx) (fastforce simp: Let_def split: if_splits)+

lemma Weighted_member:
  assumes "ns \<noteq> []"
  shows "\<exists>n s'. WeightedSelect w ns = Inr (n, s') \<and> n \<in> set ns"
proof -
  obtain n rest where ns: "ns = n # rest" using assms by (cases ns) auto
  obtain tw w1 where i: "weight_init ns w 0 = (tw, w1)" by fastforce
  obtain sel w2 where p: "weight_pass ns w1 None (- 1) = (sel, w2)" by fastforce
  then obtain s where "s \<in> set ns" "sel = Some s"
    unfolding ns by (auto simp: Let_def dest: weight_pass_some)
  with assms i p show ?thesis by (simp add: WeightedSelect_def)
qed

interpretation builtin: balance_strategy "strategy_select m" for m
proof
  fix s ns opts
  show "strategy_select m s [] opts = Inl (NodeE ErrNoAvailableNodes)"
    by (cases s) (simp_all add: RoundRobinSelect_def LeastConnectionsSelect_def WeightedSelect_def GeographicSelect_def)
  assume "ns \<noteq> []" and "length (ns :: node list) < 2 ^ 64"
  then show "\<exists>n s'. strategy_select m s ns opts = Inr (n, s') \<and> n \<in> set ns"
  proof (cases s)
    case LeastConnectionsStrategy
    then show ?thesis using \<open>ns \<noteq> []\<close> least_loop_spec [of "tl ns" "hd ns"]
      by (cases ns) (auto simp: LeastConnectionsSelect_def)
  qed (use \<open>ns \<noteq> []\<close> \<open>length ns < 2 ^ 64\<close> RoundRobin_member Weighted_member Geographic_member in simp_all)
qed

section \<open>Smooth weighted round-robin is fair\<close>

text \<open>\<open>k\<close> consecutive selections from the same nodes.\<close>

fun selections :: "math_lib \<Rightarrow> nat \<Rightarrow> strategy \<Rightarrow> node list \<Rightarrow> select_options option \<Rightarrow> node list \<times> strategy" where
  "selections m 0 s ns opts = ([], s)"
| "selections m (Suc k) s ns opts = (case selections m k s ns opts of (ps, s') \<Rightarrow>
     (case strategy_select m s' ns opts of Inl _ \<Rightarrow> (ps, s') | Inr (n, s'') \<Rightarrow> (ps @ [n], s'')))"

abbreviation eff :: "node \<Rightarrow> int" where
  "eff \<equiv> effectiveNodeSelectionWeight"

lemma weight_init_spec:
  assumes "0 \<le> tw" and "tw + sum_list (map eff ns) \<le> maxI64"
  shows "fst (weight_init ns w tw) = tw + sum_list (map eff ns)
     \<and> (\<forall>i. weight_of (snd (weight_init ns w tw)) i = weight_of w i)"
  using assms
proof (induction ns arbitrary: w tw)
  case (Cons n ns)
  have nn: "0 \<le> sum_list (map eff ns)" "0 \<le> eff n"
    using effective_weight_pos by (auto intro!: sum_list_nonneg order_trans [OF _ effective_weight_pos])
  with Cons.prems have "wrap64 (tw + eff n) = tw + eff n" by (intro wrap64_id) (auto simp: i64_defs)
  moreover have "weight_of (case w (ID n) of None \<Rightarrow> w(ID n \<mapsto> 0) | Some _ \<Rightarrow> w) i = weight_of w i" for i
    by (auto simp: weight_of_def split: option.split)
  ultimately show ?case using Cons.IH [of "tw + eff n"] Cons.prems nn by (simp add: add.assoc)
qed simp

text \<open>The second pass keeps a node of maximal raised weight.\<close>

lemma weight_pass_spec:
  assumes "distinct (map ID ns)" and "\<And>n. n \<in> set ns \<Longrightarrow> in_i64 (weight_of w (ID n) + eff n)"
  shows "\<exists>sel w'. weight_pass ns w (Some s) mx = (Some sel, w')
     \<and> (\<forall>n \<in> set ns. weight_of w' (ID n) = weight_of w (ID n) + eff n)
     \<and> (\<forall>i. i \<notin> ID ` set ns \<longrightarrow> weight_of w' i = weight_of w i)
     \<and> (\<exists>M. mx \<le> M \<and> (\<forall>n \<in> set ns. weight_of w (ID n) + eff n \<le> M)
          \<and> (sel = s \<and> M = mx \<or> sel \<in> set ns \<and> M = weight_of w (ID sel) + eff sel))"
  using assms
proof (induction ns arbitrary: w s mx)
  case (Cons n ns)
  define x where "x = weight_of w (ID n) + eff n"
  define w1 where "w1 = w(ID n \<mapsto> x)"
  have x: "wrap64 (weight_of w (ID n) + eff n) = x" using Cons.prems(2) [of n] by (simp add: x_def)
  have same: "weight_of w1 (ID k) = weight_of w (ID k)" if "k \<in> set ns" for k
  proof -
    have "ID k \<in> ID ` set ns" using that by simp
    with Cons.prems(1) have "ID k \<noteq> ID n" by auto
    then show ?thesis by (simp add: w1_def weight_of_def)
  qed
  have n1: "weight_of w1 (ID n) = x" "ID n \<notin> ID ` set ns" using Cons.prems(1) by (auto simp: w1_def weight_of_def)
  have off: "weight_of w1 i = weight_of w i" if "i \<noteq> ID n" for i using that by (simp add: w1_def weight_of_def)
  define s1 where "s1 = (if mx < x \<or> x = mx \<and> shouldPreferNodeForSelection n s then n else s)"
  define m1 where "m1 = (if mx < x \<or> x = mx \<and> shouldPreferNodeForSelection n s then x else mx)"
  have step: "weight_pass (n # ns) w (Some s) mx = weight_pass ns w1 (Some s1) m1"
    by (simp add: Let_def x w1_def s1_def m1_def)
  have "distinct (map ID ns)" "\<And>k. k \<in> set ns \<Longrightarrow> in_i64 (weight_of w1 (ID k) + eff k)"
    using Cons.prems same by auto
  from Cons.IH [OF this, of s1 m1] obtain sel w' M where IH:
    "weight_pass ns w1 (Some s1) m1 = (Some sel, w')"
    "\<forall>k \<in> set ns. weight_of w' (ID k) = weight_of w1 (ID k) + eff k"
    "\<forall>i. i \<notin> ID ` set ns \<longrightarrow> weight_of w' i = weight_of w1 i"
    "m1 \<le> M" "\<forall>k \<in> set ns. weight_of w1 (ID k) + eff k \<le> M"
    "sel = s1 \<and> M = m1 \<or> sel \<in> set ns \<and> M = weight_of w1 (ID sel) + eff sel" by blast
  have "mx \<le> M" "x \<le> M" using IH(4) by (auto simp: m1_def split: if_splits)
  moreover have "sel = s \<and> M = mx \<or> sel \<in> set (n # ns) \<and> M = weight_of w (ID sel) + eff sel"
    using IH(6) same by (auto simp: s1_def m1_def x_def split: if_splits)
  moreover have "\<forall>k \<in> set (n # ns). weight_of w' (ID k) = weight_of w (ID k) + eff k"
    using IH(2,3) n1 same by (auto simp: x_def)
  moreover have "\<forall>i. i \<notin> ID ` set (n # ns) \<longrightarrow> weight_of w' i = weight_of w i"
    using IH(3) off by auto
  moreover have "\<forall>k \<in> set (n # ns). weight_of w (ID k) + eff k \<le> M"
    using IH(5) same \<open>x \<le> M\<close> by (auto simp: x_def)
  ultimately show ?case using step IH(1) by metis
qed simp

lemma sum_list_eff: "distinct (map ID ns) \<Longrightarrow> sum_list (map eff ns) = (\<Sum>n \<in> set ns. eff n)"
  by (simp add: sum_list_distinct_conv_sum_set distinct_map)

lemma WeightedSelect_spec:
  assumes ne: "ns \<noteq> []" and d: "distinct (map ID ns)" and W: "(\<Sum>n \<in> set ns. eff n) = W" "W \<le> maxI64"
    and i64: "\<And>n. n \<in> set ns \<Longrightarrow> in_i64 (weight_of w (ID n) + eff n) \<and> in_i64 (weight_of w (ID n) + eff n - W)"
  shows "\<exists>s w'. WeightedSelect w ns = Inr (s, WeightedStrategy w') \<and> s \<in> set ns
     \<and> (\<forall>n \<in> set ns. weight_of w (ID n) + eff n \<le> weight_of w (ID s) + eff s)
     \<and> (\<forall>n \<in> set ns. weight_of w' (ID n) = weight_of w (ID n) + eff n - (if n = s then W else 0))"
proof -
  obtain n rest where ns: "ns = n # rest" using ne by (cases ns) auto
  obtain tw w1 where init: "weight_init ns w 0 = (tw, w1)" by fastforce
  have "tw = W" and w1: "\<And>i. weight_of w1 i = weight_of w i"
    using weight_init_spec [of 0 ns w] W init sum_list_eff [OF d] by auto
  define x where "x = weight_of w (ID n) + eff n"
  define w2 where "w2 = w1(ID n \<mapsto> x)"
  have out: "ID n \<notin> ID ` set rest" and d': "distinct (map ID rest)" using d by (auto simp: ns)
  have w2: "weight_of w2 (ID k) = weight_of w (ID k)" if "k \<in> set rest" for k
    using out imageI [OF that, of ID] by (auto simp: w2_def weight_of_def w1 [unfolded weight_of_def])
  have "wrap64 (weight_of w1 (ID n) + eff n) = x" using i64 [of n] by (simp add: w1 ns x_def)
  then have "weight_pass ns w1 None (- 1) = weight_pass rest w2 (Some n) x"
    by (simp add: ns Let_def w2_def)
  moreover have "\<And>k. k \<in> set rest \<Longrightarrow> in_i64 (weight_of w2 (ID k) + eff k)" using i64 by (simp add: w2 ns)
  from weight_pass_spec [OF d' this, of n x] obtain s w3 M where p: "weight_pass rest w2 (Some n) x = (Some s, w3)"
    "\<forall>k \<in> set rest. weight_of w3 (ID k) = weight_of w2 (ID k) + eff k"
    "\<forall>i. i \<notin> ID ` set rest \<longrightarrow> weight_of w3 i = weight_of w2 i"
    "x \<le> M" "\<forall>k \<in> set rest. weight_of w2 (ID k) + eff k \<le> M"
    "s = n \<and> M = x \<or> s \<in> set rest \<and> M = weight_of w2 (ID s) + eff s" by blast
  ultimately have sel: "WeightedSelect w ns = Inr (s, WeightedStrategy (w3(ID s \<mapsto> wrap64 (weight_of w3 (ID s) - W))))"
    using ne init \<open>tw = W\<close> by (simp add: WeightedSelect_def)
  have s: "s \<in> set ns" and M: "M = weight_of w (ID s) + eff s" using p(6) w2 by (auto simp: ns x_def)
  have w3: "\<forall>k \<in> set ns. weight_of w3 (ID k) = weight_of w (ID k) + eff k"
    using p(2,3) w2 out by (auto simp: ns w2_def x_def weight_of_def)
  have "\<forall>k \<in> set ns. weight_of w (ID k) + eff k \<le> weight_of w (ID s) + eff s"
    using p(4,5) w2 M by (auto simp: ns x_def)
  moreover have "wrap64 (weight_of w3 (ID s) - W) = weight_of w (ID s) + eff s - W"
    using w3 s i64 [OF s] by simp
  moreover have "ID k = ID s \<longleftrightarrow> k = s" if "k \<in> set ns" for k
    using d s that by (auto simp: distinct_map inj_on_def)
  ultimately show ?thesis using sel s w3 by (auto simp: weight_of_def)
qed

text \<open>
  After \<open>k\<close> selections node \<open>n\<close>, chosen \<open>c\<close> times, has current weight
  \<open>k * eff n - c * W\<close>, and it is above \<open>- W\<close>: the highest of weights whose sum is \<open>W\<close> is positive.
\<close>

lemma weighted_invariant:
  assumes ne: "ns \<noteq> []" and d: "distinct (map ID ns)" and W: "(\<Sum>n \<in> set ns. eff n) = W" and WW: "W * W \<le> maxI64"
    and zero: "\<And>n. n \<in> set ns \<Longrightarrow> weight_of w0 (ID n) = 0" and k: "int k \<le> W"
  shows "\<exists>ps w. selections m k (WeightedStrategy w0) ns opts = (ps, WeightedStrategy w)
     \<and> length ps = k \<and> set ps \<subseteq> set ns
     \<and> (\<forall>n \<in> set ns. weight_of w (ID n) = int k * eff n - int (count_list ps n) * W \<and> - W < weight_of w (ID n))"
  using k
proof (induction k)
  case 0
  obtain n where "n \<in> set ns" using ne by (cases ns) auto
  then have "0 < W" using W effective_weight_pos
    by (metis List.finite_set less_le_trans sum_pos2 zero_less_one less_imp_le order_trans)
  then show ?case using zero by simp
next
  case (Suc k)
  then obtain ps w where IH: "selections m k (WeightedStrategy w0) ns opts = (ps, WeightedStrategy w)"
    "length ps = k" "set ps \<subseteq> set ns"
    "\<forall>n \<in> set ns. weight_of w (ID n) = int k * eff n - int (count_list ps n) * W \<and> - W < weight_of w (ID n)" by auto
  have pos: "0 < W" using Suc.prems by simp
  have effW: "eff n \<le> W" if "n \<in> set ns" for n
    unfolding W [symmetric] using that effective_weight_pos order_trans [OF zero_le_one] by (intro member_le_sum) auto
  have W2: "2 * W \<le> maxI64"
  proof (cases "W = 1")
    case False
    then have "2 * W \<le> W * W" using pos by (intro mult_right_mono) auto
    with WW show ?thesis by simp
  qed (simp add: maxI64_def)
  then have W1: "W \<le> maxI64" using pos by simp
  have i64: "in_i64 (weight_of w (ID n) + eff n) \<and> in_i64 (weight_of w (ID n) + eff n - W)" if n: "n \<in> set ns" for n
  proof -
    have "weight_of w (ID n) + eff n \<le> int (Suc k) * eff n"
    proof -
      have "0 \<le> int (count_list ps n) * W" using pos by simp
      moreover have "weight_of w (ID n) = int k * eff n - int (count_list ps n) * W" using IH(4) n by blast
      ultimately show ?thesis by (simp add: algebra_simps)
    qed
    also have "\<dots> \<le> W * W" using Suc.prems effW [OF n] pos effective_weight_pos [of n] by (intro mult_mono) auto
    finally have "weight_of w (ID n) + eff n \<le> maxI64" using WW by simp
    moreover have "- W < weight_of w (ID n)" "1 \<le> eff n" using IH(4) n effective_weight_pos by auto
    ultimately show ?thesis using W2 pos by (auto simp: i64_defs)
  qed
  from WeightedSelect_spec [OF ne d W W1 i64] obtain s w' where s: "WeightedSelect w ns = Inr (s, WeightedStrategy w')"
    "s \<in> set ns" "\<forall>n \<in> set ns. weight_of w (ID n) + eff n \<le> weight_of w (ID s) + eff s"
    "\<forall>n \<in> set ns. weight_of w' (ID n) = weight_of w (ID n) + eff n - (if n = s then W else 0)" by blast
  have "(\<Sum>n \<in> set ns. weight_of w (ID n) + eff n)
      = (\<Sum>n \<in> set ns. int (Suc k) * eff n - W * int (count_list ps n))"
    using IH(4) by (intro sum.cong) (auto simp: algebra_simps)
  also have "\<dots> = int (Suc k) * W - W * int (\<Sum>n \<in> set ns. count_list ps n)"
    by (simp only: sum_subtractf sum_distrib_left [symmetric] W of_nat_sum)
  also have "(\<Sum>n \<in> set ns. count_list ps n) = k" using sum_count_set [OF IH(3)] IH(2) by simp
  finally have total: "(\<Sum>n \<in> set ns. weight_of w (ID n) + eff n) = W" by (simp add: algebra_simps)
  have "\<exists>n \<in> set ns. 0 < weight_of w (ID n) + eff n"
  proof (rule ccontr)
    assume "\<not> (\<exists>n \<in> set ns. 0 < weight_of w (ID n) + eff n)"
    then have "(\<Sum>n \<in> set ns. weight_of w (ID n) + eff n) \<le> 0" by (intro sum_nonpos) (auto simp: not_less)
    with total pos show False by simp
  qed
  with s(3) have top: "0 < weight_of w (ID s) + eff s" by force
  have "weight_of w' (ID n) = int (Suc k) * eff n - int (count_list (ps @ [s]) n) * W \<and> - W < weight_of w' (ID n)"
    if n: "n \<in> set ns" for n
  proof -
    have w': "weight_of w' (ID n) = weight_of w (ID n) + eff n - (if n = s then W else 0)"
      and w: "weight_of w (ID n) = int k * eff n - int (count_list ps n) * W" "- W < weight_of w (ID n)"
      using s(4) IH(4) n by blast+
    have "- W < weight_of w' (ID n)" unfolding w' using w(2) top effective_weight_pos [of n] by auto
    then show ?thesis unfolding w' w(1) by (simp add: algebra_simps)
  qed
  moreover have "selections m (Suc k) (WeightedStrategy w0) ns opts = (ps @ [s], WeightedStrategy w')"
    "length (ps @ [s]) = Suc k" "set (ps @ [s]) \<subseteq> set ns" using IH(1-3) s(1,2) by simp_all
  ultimately show ?case by blast
qed

text \<open>
  (C29) The weighted strategy is fair.  Take nodes with distinct identifiers whose effective
  weights sum to \<open>W\<close> (small enough that \<open>W * W\<close> is an int64 value), and current weights zero.
  Over \<open>k \<le> W\<close> selections every node is chosen less than one time more than its share
  \<open>k * weight / W\<close>, and over \<open>W\<close> selections every node is chosen exactly as often as its weight
  says, after which all current weights are zero again and the cycle repeats.
\<close>

theorem weighted_fair:
  assumes "ns \<noteq> []" and "distinct (map ID ns)" and "(\<Sum>n \<in> set ns. effectiveNodeSelectionWeight n) = W"
    and "W * W \<le> maxI64" and "\<forall>n \<in> set ns. weight_of w0 (ID n) = 0" and "int k \<le> W"
  shows "\<exists>ps w. selections m k (WeightedStrategy w0) ns opts = (ps, WeightedStrategy w) \<and> length ps = k
     \<and> (\<forall>n \<in> set ns. int (count_list ps n) * W < int k * effectiveNodeSelectionWeight n + W)
     \<and> (int k = W \<longrightarrow> (\<forall>n \<in> set ns. int (count_list ps n) = effectiveNodeSelectionWeight n \<and> weight_of w (ID n) = 0))"
proof -
  from weighted_invariant [OF assms(1-4) _ assms(6)] assms(5) obtain ps w where
    inv: "selections m k (WeightedStrategy w0) ns opts = (ps, WeightedStrategy w)" "length ps = k" "set ps \<subseteq> set ns"
      "\<forall>n \<in> set ns. weight_of w (ID n) = int k * eff n - int (count_list ps n) * W \<and> - W < weight_of w (ID n)"
    by blast
  have "int (count_list ps n) = eff n" if k: "int k = W" and n: "n \<in> set ns" for n
  proof -
    have nonneg: "0 \<le> eff n - int (count_list ps n)" if "n \<in> set ns" for n
    proof -
      have "- W < W * (eff n - int (count_list ps n))" using inv(4) that k by (auto simp: algebra_simps)
      then have "0 < W * (eff n - int (count_list ps n) + 1)" by (simp add: algebra_simps)
      then show ?thesis using k by (simp add: zero_less_mult_iff)
    qed
    have "(\<Sum>n \<in> set ns. eff n - int (count_list ps n)) = 0"
      using sum_count_set [OF inv(3)] inv(2) k assms(3) by (simp add: sum_subtractf of_nat_sum [symmetric])
    then show ?thesis using nonneg n by (simp add: sum_nonneg_eq_0_iff)
  qed
  moreover have "int (count_list ps n) * W < int k * eff n + W" if "n \<in> set ns" for n
    using inv(4) that by force
  ultimately show ?thesis using inv by (auto simp: mult.commute)
qed

definition sample_service_node :: "int \<Rightarrow> int \<Rightarrow> node" where
  "sample_service_node i weight = repoNodeToNode (sample_node i weight 0)"

definition sample_math :: math_lib where
  "sample_math = \<lparr>Sin = (\<lambda>x. x), Cos = (\<lambda>_. 1), Atan2 = (\<lambda>y x. y), Sqrt = (\<lambda>x. x), Pi = 3\<rparr>"

theorem weighted_fair_witness:
  "let ns = [sample_service_node 1 2, sample_service_node 2 1] in
   \<exists>ps w. selections sample_math 3 (WeightedStrategy Map.empty) ns None = (ps, WeightedStrategy w) \<and> length ps = 3
     \<and> count_list ps (sample_service_node 1 2) = 2 \<and> count_list ps (sample_service_node 2 1) = 1"
proof -
  let ?a = "sample_service_node 1 2" and ?b = "sample_service_node 2 1"
  have e: "effectiveNodeSelectionWeight ?a = 2" "effectiveNodeSelectionWeight ?b = 1" "ID ?a = 1" "ID ?b = 2" "?a \<noteq> ?b"
    by (simp_all add: effectiveNodeSelectionWeight_def sample_service_node_def repoNodeToNode_def sample_node_def)
  have "int 3 \<le> (3::int)" by simp
  from weighted_fair [of "[?a, ?b]" 3 Map.empty 3 sample_math None, OF _ _ _ _ _ this] show ?thesis
    using e by (auto simp: maxI64_def weight_of_def Let_def)
qed

section \<open>Round-robin visits every node once per cycle\<close>

lemma round_robin_selections:
  assumes "ns \<noteq> []" and "unat c + k \<le> 2 ^ 64" and "length ns < 2 ^ 64"
  shows "selections m k (RoundRobinStrategy c) ns opts
     = (map (\<lambda>i. ns ! ((unat c + i) mod length ns)) [0..<k], RoundRobinStrategy (c + of_nat k))"
  using assms(2)
proof (induction k)
  case (Suc k)
  have n: "unat (of_nat (length ns) :: 64 word) = length ns" using assms(3) by (simp add: unat_of_nat take_bit_nat_eq_self)
  have "unat (c + of_nat k) = unat c + k"
    using Suc.prems by (simp add: unat_word_ariths unat_of_nat take_bit_nat_eq_self)
  then have "unat ((c + of_nat k) mod of_nat (length ns)) = (unat c + k) mod length ns" by (simp add: unat_mod n)
  then show ?case using Suc assms(1) by (simp add: RoundRobinSelect_def Let_def add.assoc)
qed simp

text \<open>
  The round-robin strategy serves all nodes in turn: as many selections as there are
  nodes choose each of them exactly once, starting where the counter stands, as long as the
  64-bit counter does not wrap around on the way.
\<close>

theorem round_robin_cycle:
  assumes "ns \<noteq> []" and "unat c + length ns \<le> 2 ^ 64" and "length ns < 2 ^ 64"
  shows "selections m (length ns) (RoundRobinStrategy c) ns opts
     = (rotate (unat c) ns, RoundRobinStrategy (c + of_nat (length ns)))"
proof -
  have "map (\<lambda>i. ns ! ((unat c + i) mod length ns)) [0..<length ns] = rotate (unat c) ns"
    by (rule nth_equalityI) (auto simp: nth_rotate)
  then show ?thesis using round_robin_selections [OF assms] by simp
qed

theorem round_robin_cycle_witness:
  "fst (selections sample_math 2 (RoundRobinStrategy 7) [sample_service_node 1 1, sample_service_node 2 1] None)
     = [sample_service_node 2 1, sample_service_node 1 1]"
proof -
  let ?ns = "[sample_service_node 1 1, sample_service_node 2 1]"
  have r: "rotate 7 ?ns = [sample_service_node 2 1, sample_service_node 1 1]"
    by (simp add: rotate_def numeral_eq_Suc)
  have u: "unat (7 :: 64 word) = 7" and l: "length ?ns = 2" by simp_all
  have "selections sample_math (length ?ns) (RoundRobinStrategy 7) ?ns None = (rotate (unat (7 :: 64 word)) ?ns, RoundRobinStrategy (7 + of_nat (length ?ns)))"
    by (rule round_robin_cycle) (simp_all add: u)
  then show ?thesis by (simp only: u l r fst_conv)
qed

section \<open>Selecting several nodes\<close>

lemma join_group_distinct:
  assumes "wf_nodes d"
  shows "distinct (map nd_id (join_group g d))" and "set (join_group g d) \<subseteq> set (rows (nodes d))"
    and "length (join_group g d) \<le> length (rows (nodes d))"
proof -
  let ?ms = "\<lambda>n. filter (\<lambda>m. gm_node_id m = nd_id n \<and> gm_group_id m = g) (rows (group_members d))"
  have one: "length (?ms n) \<le> 1" for n
  proof -
    have "distinct (map (\<lambda>m. (gm_node_id m, gm_group_id m)) (rows (group_members d)))"
      using assms by (simp add: wf_nodes_def uniq_def)
    from filter_distinct_key_le1 [OF this, of "(nd_id n, g)" "\<lambda>_. True"] show ?thesis by simp
  qed
  have rep: "replicate (length (?ms n)) n = (if ?ms n = [] then [] else [n])" for n
    using one [of n] by (cases "?ms n") auto
  have cf: "concat (map (\<lambda>n. if P n then [] else [n]) xs) = filter (\<lambda>n. \<not> P n) xs" for P and xs :: "node_row list"
    by (induction xs) auto
  have f: "join_group g d = filter (\<lambda>n. ?ms n \<noteq> []) (rows (nodes d))"
    unfolding join_group_def rep by (rule cf)
  show "distinct (map nd_id (join_group g d))" unfolding f
    using assms by (auto simp: wf_nodes_def keyed_def distinct_map_filter)
  show "set (join_group g d) \<subseteq> set (rows (nodes d))" unfolding f by auto
  show "length (join_group g d) \<le> length (rows (nodes d))" unfolding f by simp
qed

definition assignment_key :: "node_row \<Rightarrow> rat \<times> rat \<times> int \<times> int \<times> int" where
  "assignment_key n = (nodeTrafficAssignmentPressure n, nodeCapacityAssignmentPressure n,
     nd_current_users n, - nd_weight n, nd_id n)"

lemma sortNodesForNewAssignments_key: "sortNodesForNewAssignments ns = sort_key assignment_key ns"
proof -
  have eq: "shouldPreferNodeForNewAssignments = (\<lambda>a b. assignment_key a < assignment_key b)"
    by (intro ext) (auto simp: shouldPreferNodeForNewAssignments_def assignment_key_def)
  show ?thesis unfolding sortNodesForNewAssignments_def eq by (rule slice_stable_key)
qed

lemma distinct_map_sort: "distinct (map f (sort_key k xs)) \<longleftrightarrow> distinct (map f xs)"
  by (simp add: distinct_map)

lemma getAvailableNodes_spec:
  assumes "wf_nodes d"
  shows "wpt (getAvailableNodes opts) (\<lambda>ns d'. d' = d \<and> distinct (map ID ns) \<and> length ns \<le> length (rows (nodes d))
      \<and> sorted (map selection_key ns)
      \<and> (\<forall>n \<in> set ns. \<exists>r \<in> set (rows (nodes d)). n = repoNodeToNode r \<and> available (so_exclude_ids opts) r)) (\<lambda>_ d'. d' = d) d"
proof -
  define ok where "ok = (\<lambda>rs. distinct (map nd_id rs) \<and> set rs \<subseteq> set (rows (nodes d)) \<and> length rs \<le> length (rows (nodes d)))"
  have "ok rs \<Longrightarrow> distinct (map ID (sortNodesBySelectionPriority (map repoNodeToNode (filter p rs))))
      \<and> length (sortNodesBySelectionPriority (map repoNodeToNode (filter p rs))) \<le> length (rows (nodes d))" for rs p
  proof -
    assume ok: "ok rs"
    have "map ID (map repoNodeToNode (filter p rs)) = map nd_id (filter p rs)" by (simp add: repoNodeToNode_def)
    then have "distinct (map ID (map repoNodeToNode (filter p rs)))" using ok by (simp add: ok_def distinct_map_filter del: map_map)
    then have "distinct (map ID (sort_key selection_key (map repoNodeToNode (filter p rs))))" by (simp only: distinct_map_sort)
    moreover have "length (filter p rs) \<le> length rs" by simp
    ultimately show ?thesis using ok by (auto simp: sortNodes_key ok_def simp del: length_filter_le)
  qed
  moreover have "ok (join_group g d)" for g using join_group_distinct [OF assms] by (simp add: ok_def)
  moreover have "ok (filterNodesAcceptingNewAssignments (filter p (rows (nodes d))))" for p
    unfolding ok_def filterNodesAcceptingNewAssignments_def sortNodesForNewAssignments_key
    using assms by (auto simp: wf_nodes_def keyed_def distinct_map inj_on_def intro: le_trans [OF length_filter_le])
  ultimately show ?thesis
    unfolding getAvailableNodes_def GetNodes_def NodeGetAvailable_def nodes_where_def
    by (intro wpt_rules) (fastforce simp: ok_def sortNodes_key)+
qed

lemma select_from_spec:
  assumes "distinct (map ID ns)" and "length ns < 2 ^ 64"
  shows "wpt (select_from m lb opts cnt ns) (\<lambda>(chosen, lb') d'. d' = d \<and> chosen \<noteq> [] \<and> distinct (map ID chosen)
      \<and> int (length chosen) \<le> cnt \<and> set chosen \<subseteq> set ns) (\<lambda>_ d'. d' = d) d"
proof -
  define k where "k = (if int (length ns) < cnt then int (length ns) else cnt)"
  show ?thesis
    unfolding select_from_def k_def [symmetric] Let_def
  proof (intro wpt_bind wpt_guard wpt_case_option wpt_if wpt_raise refl)
    fix s assume k: "\<not> k < 0"
    from builtin.select_loop_spec [OF assms, of m s opts "nat k" "so_exclude_ids opts" "[]"] obtain new s' where
      l: "select_loop (strategy_select m) s opts ns (nat k) (so_exclude_ids opts) [] = (new, s')"
        "distinct (map ID new)" "set new \<subseteq> set (filterNodes ns (so_exclude_ids opts))" "length new \<le> nat k"
      by auto
    then have sub: "set new \<subseteq> set ns" by (auto simp: filterNodes_eq)
    have "int (length new) \<le> cnt" using l(4) k by (auto simp: k_def split: if_splits)
    with l(2) sub show "wpt (case select_loop (strategy_select m) s opts ns (nat k) (so_exclude_ids opts) [] of (chosen, s') \<Rightarrow>
        bindE (guardE (chosen \<noteq> []) (NodeE ErrNoAvailableNodes)) (\<lambda>_. ret (chosen, RegisterStrategy s' lb)))
        (\<lambda>(chosen, lb') d'. d' = d \<and> chosen \<noteq> [] \<and> distinct (map ID chosen)
          \<and> int (length chosen) \<le> cnt \<and> set chosen \<subseteq> set ns) (\<lambda>_ d'. d' = d) d"
      unfolding l(1) prod.case by (intro wpt_rules) simp_all
  qed
qed

text \<open>
  Selecting several nodes, with any registered strategy.  When \<open>SelectNodes\<close> returns, the
  tables are as they were, the returned nodes have distinct identifiers, each of them is a stored
  node that is online, below its capacity and not on the exclusion list, and there are no more
  of them than asked for.
\<close>

theorem select_nodes_outcome:
  assumes "SelectNodes m lb u cnt (Some opts) w = (Inr (chosen, lb'), w')"
    and "wf_nodes (tables w)" and "length (rows (nodes (tables w))) < 2 ^ 64"
  shows "tables w' = tables w \<and> chosen \<noteq> [] \<and> distinct (map ID chosen) \<and> int (length chosen) \<le> cnt
     \<and> (\<forall>n \<in> set chosen. \<exists>r \<in> set (rows (nodes (tables w))). n = repoNodeToNode r
          \<and> nd_status r = NodeStatusOnline \<and> (0 < nd_max_users r \<longrightarrow> nd_current_users r < nd_max_users r)
          \<and> nd_id r \<notin> set (so_exclude_ids opts))"
proof -
  let ?d = "tables w"
  have "wpt (SelectNodes m lb u cnt (Some opts)) (\<lambda>(chosen, lb') d'. d' = ?d \<and> chosen \<noteq> [] \<and> distinct (map ID chosen)
      \<and> int (length chosen) \<le> cnt
      \<and> (\<forall>n \<in> set chosen. \<exists>r \<in> set (rows (nodes ?d)). n = repoNodeToNode r \<and> available (so_exclude_ids opts) r))
      (\<lambda>_ _. True) ?d"
    unfolding SelectNodes_def Let_def option.case
  proof (rule wpt_bind, rule wpt_mono [OF getAvailableNodes_spec [OF assms(2)]])
    fix ns d'
    assume ns: "d' = ?d \<and> distinct (map ID ns) \<and> length ns \<le> length (rows (nodes ?d)) \<and> sorted (map selection_key ns)
      \<and> (\<forall>n \<in> set ns. \<exists>r \<in> set (rows (nodes ?d)). n = repoNodeToNode r \<and> available (so_exclude_ids opts) r)"
    then have "length ns < 2 ^ 64" using assms(3) by (meson le_less_trans)
    from select_from_spec [OF _ this, of m lb opts cnt d'] ns
    show "wpt (select_from m lb opts cnt ns) (\<lambda>(chosen, lb') d'. d' = ?d \<and> chosen \<noteq> [] \<and> distinct (map ID chosen)
      \<and> int (length chosen) \<le> cnt
      \<and> (\<forall>n \<in> set chosen. \<exists>r \<in> set (rows (nodes ?d)). n = repoNodeToNode r \<and> available (so_exclude_ids opts) r))
      (\<lambda>_ _. True) d'"
      by (auto elim!: wpt_mono)
  qed simp
  from wptD_Inr [OF this assms(1)] show ?thesis
    by (fastforce simp: available_def split: if_splits)
qed

definition sample_node_db :: node_db where
  "sample_node_db = empty_node_db\<lparr>nodes := \<lparr>rows = [sample_node 1 2 0, sample_node 2 1 5], seq = 2\<rparr>,
     group_members := \<lparr>rows = [new_member 0 1 1 1, new_member 0 1 2 2], seq = 2\<rparr>,
     assignments := \<lparr>rows = [new_assignment 0 7 1 1, new_assignment 0 8 1 2, new_assignment 0 9 1 3], seq = 3\<rparr>\<rparr>"

lemma sample_node_db_wf: "wf_nodes sample_node_db"
proof -
  have "show_int 1 \<noteq> show_int 2" by code_simp
  then show ?thesis
    by (simp add: wf_nodes_def sample_node_db_def empty_node_db_def empty_table_def keyed_def uniq_def sample_node_def
        new_member_def new_assignment_def)
qed

theorem select_nodes_outcome_witness:
  "\<exists>chosen lb' w'. SelectNodes sample_math (NewLoadBalancer None) 7 2 (Some default_options) (node_world sample_node_db)
     = (Inr (chosen, lb'), w') \<and> distinct (map ID chosen)"
proof -
  let ?r = "SelectNodes sample_math (NewLoadBalancer None) 7 2 (Some default_options) (node_world sample_node_db)"
  have "\<not> isl (fst ?r)" by code_simp
  from run_Inr [OF this] obtain chosen lb' w' where r: "?r = (Inr (chosen, lb'), w')"
    by (metis surj_pair)
  have "length (rows (nodes sample_node_db)) = 2"
    by (simp add: sample_node_db_def empty_node_db_def)
  then have "distinct (map ID chosen)"
    using select_nodes_outcome [OF r] sample_node_db_wf by (simp add: node_world_def)
  with r show ?thesis by blast
qed

section \<open>Rebalancing spreads the users evenly\<close>

text \<open>
  For every placement table: users dealt out in turn end where their turn puts them, or, when
  the reassignment failed, where they were; without engine failures all are moved.
\<close>

context placement
begin

lemma spread_moves:
  assumes "inv t" and "distinct us"
  shows "wpt (spread reassign clock targets i us) (\<lambda>_ t'. inv t' \<and> (\<forall>u. u \<notin> set us \<longrightarrow> place t' u = place t u)
      \<and> (\<forall>k < length us. place t' (us ! k) = place t (us ! k)
           \<or> place t' (us ! k) = Some (targets ! ((i + k) mod length targets)))) (\<lambda>_ _. False) t"
  using assms
proof (induction us arbitrary: i t)
  case Nil
  then show ?case by (auto intro: wpt_ret)
next
  case (Cons u us)
  let ?Q = "\<lambda>_ t'. inv t' \<and> (\<forall>v. v \<notin> set (u # us) \<longrightarrow> place t' v = place t v)
      \<and> (\<forall>k < length (u # us). place t' ((u # us) ! k) = place t ((u # us) ! k)
           \<or> place t' ((u # us) ! k) = Some (targets ! ((i + k) mod length targets)))"
  have step: "wpt (spread reassign clock targets (Suc i) us) ?Q (\<lambda>_ _. False) t1"
    if t1: "inv t1" "\<forall>v. v \<noteq> u \<longrightarrow> place t1 v = place t v"
      "place t1 u = place t u \<or> place t1 u = Some (targets ! (i mod length targets))" for t1
  proof (rule wpt_mono [OF Cons.IH [OF t1(1)]])
    fix x t'
    assume q: "inv t' \<and> (\<forall>v. v \<notin> set us \<longrightarrow> place t' v = place t1 v)
      \<and> (\<forall>k < length us. place t' (us ! k) = place t1 (us ! k)
           \<or> place t' (us ! k) = Some (targets ! ((Suc i + k) mod length targets)))"
    have "place t' ((u # us) ! k) = place t ((u # us) ! k)
        \<or> place t' ((u # us) ! k) = Some (targets ! ((i + k) mod length targets))" if "k < length (u # us)" for k
    proof (cases k)
      case 0
      then show ?thesis using q t1(3) Cons.prems(2) by simp
    next
      case (Suc j)
      then have j: "j < length us" "us ! j \<noteq> u" using that Cons.prems(2) by (auto simp: in_set_conv_nth)
      then have "place t' (us ! j) = place t1 (us ! j) \<or> place t' (us ! j) = Some (targets ! ((Suc i + j) mod length targets))"
        using q by blast
      with j t1(2) Suc show ?thesis by simp
    qed
    moreover have "place t' v = place t v" if "v \<notin> set (u # us)" for v using q t1(2) that by simp
    ultimately show "?Q x t'" using q by blast
  qed (use Cons.prems in simp_all)
  show ?case
    unfolding spread.simps
  proof (rule wpt_bind, rule wpt_attempt, rule wpt_mono [OF reassign_moves [OF Cons.prems(1)]])
    fix t1 assume "inv t1 \<and> place t1 = (place t)(u \<mapsto> targets ! (i mod length targets))"
    then show "wpt (spread reassign clock targets (Suc i) us) ?Q (\<lambda>_ _. False) t1" by (intro step) auto
  next
    fix t1 assume "inv t1 \<and> place t1 = place t"
    then show "wpt (spread reassign clock targets (Suc i) us) ?Q (\<lambda>_ _. False) t1" by (intro step) auto
  qed
qed

lemma spread_runs:
  assumes "inv (tables w)" and "faults w = []" and "distinct us"
  shows "\<exists>w'. spread reassign clock targets i us w = (Inr (), w') \<and> faults w' = []
     \<and> (\<forall>u. u \<notin> set us \<longrightarrow> place (tables w') u = place (tables w) u)
     \<and> (\<forall>k < length us. place (tables w') (us ! k) = Some (targets ! ((i + k) mod length targets)))"
  using assms
proof (induction us arbitrary: i w)
  case Nil
  then show ?case by (simp add: ret_def)
next
  case (Cons u us)
  from reassign_runs [OF Cons.prems(1,2)] obtain w1 where
    w1: "reassign (clock i) u (targets ! (i mod length targets)) w = (Inr (), w1)" "faults w1 = []" by blast
  from wptD_Inr [OF reassign_moves [OF Cons.prems(1)] w1(1)]
  have t1: "inv (tables w1)" "place (tables w1) = (place (tables w))(u \<mapsto> targets ! (i mod length targets))" by auto
  from Cons.IH [OF t1(1) w1(2), of "Suc i"] Cons.prems(3) obtain w' where
    w': "spread reassign clock targets (Suc i) us w1 = (Inr (), w')" "faults w' = []"
      "\<forall>v. v \<notin> set us \<longrightarrow> place (tables w') v = place (tables w1) v"
      "\<forall>k < length us. place (tables w') (us ! k) = Some (targets ! ((Suc i + k) mod length targets))" by auto
  have "place (tables w') ((u # us) ! k) = Some (targets ! ((i + k) mod length targets))" if "k < length (u # us)" for k
    using that w'(3,4) t1(2) Cons.prems(3) by (cases k) auto
  moreover have "place (tables w') v = place (tables w) v" if "v \<notin> set (u # us)" for v
    using w'(3) t1(2) that by simp
  moreover have "spread reassign clock targets i (u # us) w = (Inr (), w')"
    using w1(1) w'(1) by (simp add: bindE_def attempt_def)
  ultimately show ?case using w'(2) by blast
qed

end

text \<open>Dealing \<open>m\<close> cards to \<open>n\<close> players gives each \<open>m div n\<close>, and one more to the first \<open>m mod n\<close>.\<close>

lemma dealt_evenly:
  assumes "j < n"
  shows "length (filter (\<lambda>k. k mod n = j) [0..<m]) = m div n + (if j < m mod n then 1 else 0)"
proof (induction m)
  case (Suc m)
  show ?case
  proof (cases "Suc m mod n = 0")
    case True
    then have "m mod n = n - 1" using assms by (metis mod_Suc Suc_pred' gr_implies_not_zero nat.distinct(1) not_gr_zero diff_Suc_1)
    moreover have "Suc m div n = Suc (m div n)" using True by (simp add: div_Suc)
    ultimately show ?thesis using Suc assms True by auto
  next
    case False
    then have "Suc m mod n = Suc (m mod n)" "Suc m div n = m div n" by (simp_all add: mod_Suc div_Suc split: if_splits)
    then show ?thesis using Suc by auto
  qed
qed simp

definition group_user_ids :: "int \<Rightarrow> node_db \<Rightarrow> int list" where
  "group_user_ids g d = concat (map (\<lambda>n. map na_user_id (filter (\<lambda>a. na_node_id a = nd_id n) (rows (assignments d)))) (join_group g d))"

lemma group_users_run:
  assumes "faults w = []"
  shows "group_users ns w = (Inr (concat (map (\<lambda>n. map na_user_id (filter (\<lambda>a. na_node_id a = nd_id n)
     (rows (assignments (tables w))))) ns)), w)"
  using assms by (induction ns) (simp_all add: ret_def bindE_def attempt_def GetUserIDsByNodeID_def map_err_def query_def stmt_run)

lemma group_user_ids_distinct:
  assumes "wf_nodes d"
  shows "distinct (group_user_ids g d)"
proof -
  let ?us = "\<lambda>n. map na_user_id (filter (\<lambda>a. na_node_id a = nd_id n) (rows (assignments d)))"
  have u: "distinct (map na_user_id (rows (assignments d)))" using assms by (simp add: wf_nodes_def uniq_def)
  have "distinct (concat (map ?us ns))" if "distinct (map nd_id ns)" for ns
    using that
  proof (induction ns)
    case (Cons n ns)
    have "set (?us n) \<inter> set (?us k) = {}" if "k \<in> set ns" for k
    proof -
      have ne: "nd_id k \<noteq> nd_id n" using Cons.prems imageI [OF that, of nd_id] by auto
      have False if "na_user_id a = na_user_id b" "a \<in> set (rows (assignments d))" "b \<in> set (rows (assignments d))"
        "na_node_id a = nd_id n" "na_node_id b = nd_id k" for a b
      proof -
        have "a = b" using u that(1-3) by (auto simp: distinct_map inj_on_def)
        with that ne show False by simp
      qed
      then show ?thesis by auto
    qed
    then have "set (?us n) \<inter> set (concat (map ?us ns)) = {}" by fastforce
    then show ?case using Cons u by (simp add: distinct_map_filter)
  qed simp
  then show ?thesis unfolding group_user_ids_def using join_group_distinct(1) [OF assms] by blast
qed

text \<open>
  \<open>Rebalance\<close> spreads the users of a group.  Where the engine does not fail and at least
  one node of the group is online and below capacity, it succeeds; of the users that were on
  nodes of the group, in order, the \<open>k\<close>-th is now on available node \<open>k mod n\<close>, so every
  available node has \<open>m div n\<close> or one more of the \<open>m\<close> users; all other users stay.
\<close>

theorem rebalance_even:
  assumes "wf_nodes (tables w)" and "faults w = []"
    and "targets = map nd_id (filter (\<lambda>n. nd_status n = NodeStatusOnline
           \<and> (nd_max_users n = 0 \<or> nd_current_users n < nd_max_users n)) (join_group g (tables w)))"
    and "targets \<noteq> []" and "us = group_user_ids g (tables w)"
  shows "\<exists>w'. Rebalance clock g w = (Inr (), w')
     \<and> (\<forall>k < length us. placed (tables w') (us ! k) = Some (targets ! (k mod length targets)))
     \<and> (\<forall>u. u \<notin> set us \<longrightarrow> placed (tables w') u = placed (tables w) u)
     \<and> (\<forall>x \<in> set targets. length (filter (\<lambda>u. placed (tables w') u = Some x) us)
          \<in> {length us div length targets, length us div length targets + 1})"
proof -
  have dt: "distinct targets" unfolding assms(3) using join_group_distinct(1) [OF assms(1)] by (rule distinct_map_filter)
  have "distinct us" unfolding assms(5) by (rule group_user_ids_distinct [OF assms(1)])
  from node_placement.spread_runs [OF assms(1,2) this, of clock targets 0] obtain w' where
    w': "spread Reassign clock targets 0 us w = (Inr (), w')"
      "\<forall>u. u \<notin> set us \<longrightarrow> placed (tables w') u = placed (tables w) u"
      "\<forall>k < length us. placed (tables w') (us ! k) = Some (targets ! (k mod length targets))" by auto
  have "Rebalance clock g w = (Inr (), w')"
    using w'(1) assms(2-5)
    by (simp add: Rebalance_def GetNodes_def bindE_def map_err_def query_def stmt_run guardE_def ret_def Let_def
        group_users_run group_user_ids_def)
  moreover have "length (filter (\<lambda>u. placed (tables w') u = Some x) us)
      \<in> {length us div length targets, length us div length targets + 1}" if x: "x \<in> set targets" for x
  proof -
    from x obtain j where j: "j < length targets" "x = targets ! j" by (auto simp: in_set_conv_nth)
    have "map (\<lambda>k. us ! k) [0..<length us] = us" by (rule map_nth)
    then have "length (filter (\<lambda>u. placed (tables w') u = Some x) us)
        = length (filter (\<lambda>u. placed (tables w') u = Some x) (map (\<lambda>k. us ! k) [0..<length us]))" by simp
    also have "\<dots> = length (filter (\<lambda>k. placed (tables w') (us ! k) = Some x) [0..<length us])"
      by (simp add: filter_map comp_def)
    also have "filter (\<lambda>k. placed (tables w') (us ! k) = Some x) [0..<length us] = filter (\<lambda>k. k mod length targets = j) [0..<length us]"
      using w'(3) j assms(4) by (intro filter_cong) (auto simp: nth_eq_iff_index_eq [OF dt])
    finally show ?thesis using dealt_evenly [OF j(1), of "length us"] by simp
  qed
  ultimately show ?thesis using w' by blast
qed

theorem rebalance_even_witness:
  "\<exists>w'. Rebalance (\<lambda>_. 5) 1 (node_world sample_node_db) = (Inr (), w')
     \<and> placed (tables w') 7 = Some 1 \<and> placed (tables w') 8 = Some 2 \<and> placed (tables w') 9 = Some 1"
proof -
  let ?w = "node_world sample_node_db"
  have t: "[1, 2] = map nd_id (filter (\<lambda>n. nd_status n = NodeStatusOnline
       \<and> (nd_max_users n = 0 \<or> nd_current_users n < nd_max_users n)) (join_group 1 (tables ?w)))" by code_simp
  have u: "[7, 8, 9] = group_user_ids 1 (tables ?w)" by code_simp
  have "wf_nodes (tables ?w)" "faults ?w = []" using sample_node_db_wf by (simp_all add: node_world_def)
  from rebalance_even [OF this t _ u, of "\<lambda>_. 5"] obtain w' where
    "Rebalance (\<lambda>_. 5) 1 ?w = (Inr (), w')"
    and p: "\<forall>k < length [7, 8, 9::int]. placed (tables w') ([7, 8, 9] ! k) = Some ([1, 2] ! (k mod length [1, 2::int]))" by auto
  then show ?thesis using p [rule_format, of 0] p [rule_format, of 1] p [rule_format, of 2] by auto
qed

end
