(* ===== verification/Failover.thy ===== *)
theory Failover
  imports LoadBalancer
begin

text \<open>
  \<open>internal/node/failover_manager.go\<close>: users of an unhealthy node are moved to others.

  \<open>migrateUsers\<close> starts one goroutine per user; each reads the user's assignment and
  reassigns the user.  The goroutines touch different users, and the model runs them one after
  the other in an arbitrary order, the argument \<open>order\<close>.  A semaphore bounds how many run at
  once; a semaphore of capacity 0 lets none run, so that the call never returns: the value \<open>None\<close>.
  The order in which Go iterates over a map is the argument \<open>iter\<close>, of which only
  \<open>map_order\<close> is used: it delivers the entries, each once.
  Logging, the completion callback and the notification (whose failure is only logged) are left
  out; the event they receive is the result.
\<close>

section \<open>Configuration, events and results\<close>

record failover_config =
  MaxConcurrentMigrations :: int
  MigrationTimeout :: int
  PreferSameGroup :: bool
  AllowCrossGroupFailover :: bool
  RecoveryEnabled :: bool

definition DefaultFailoverConfig :: failover_config where
  "DefaultFailoverConfig = \<lparr>MaxConcurrentMigrations = 10, MigrationTimeout = 30 * second,
     PreferSameGroup = True, AllowCrossGroupFailover = True, RecoveryEnabled = False\<rparr>"

record failover_event =
  ev_node_id :: int
  ev_node_name :: string
  ev_affected_users :: int
  ev_migrated_users :: int
  ev_failed_users :: int
  ev_target_nodes :: "int list"
  ev_started_at :: time
  ev_completed_at :: time
  ev_reason :: string
  ev_cross_group_used :: bool

record migration_result =
  mr_user_id :: int
  mr_source_node_id :: int
  mr_target_node_id :: int
  mr_success :: bool
  mr_error :: "err option"

record failover_manager =
  fm_config :: failover_config
  fm_active :: "int list"
  fm_current :: "32 word"

definition NewFailoverManager :: "failover_config option \<Rightarrow> failover_manager" where
  "NewFailoverManager c = \<lparr>fm_config = (case c of None \<Rightarrow> DefaultFailoverConfig | Some c \<Rightarrow> c),
     fm_active = [], fm_current = 0\<rparr>"

definition UpdateConfig :: "failover_config \<Rightarrow> failover_manager \<Rightarrow> failover_manager" where
  "UpdateConfig c fm = fm\<lparr>fm_config := c\<rparr>"

definition IsFailoverInProgress :: "failover_manager \<Rightarrow> int \<Rightarrow> bool" where
  "IsFailoverInProgress fm i \<longleftrightarrow> i \<in> set (fm_active fm)"

definition GetCurrentMigrations :: "failover_manager \<Rightarrow> int" where
  "GetCurrentMigrations fm = sint (fm_current fm)"

definition CanAcceptMigration :: "failover_manager \<Rightarrow> bool" where
  "CanAcceptMigration fm \<longleftrightarrow> sint (fm_current fm) < MaxConcurrentMigrations (fm_config fm)"

definition SetMaxConcurrentMigrations :: "int \<Rightarrow> failover_manager \<Rightarrow> failover_manager" where
  "SetMaxConcurrentMigrations mx fm =
     fm\<lparr>fm_config := (fm_config fm)\<lparr>MaxConcurrentMigrations := (if mx < 1 then 1 else mx)\<rparr>\<rparr>"

text \<open>The compare-and-swap loop, where no other goroutine interferes.\<close>

definition TryAcquireMigrationSlot :: "failover_manager \<Rightarrow> bool \<times> failover_manager" where
  "TryAcquireMigrationSlot fm =
     (if MaxConcurrentMigrations (fm_config fm) \<le> sint (fm_current fm) then (False, fm)
      else (True, fm\<lparr>fm_current := fm_current fm + 1\<rparr>))"

definition ReleaseMigrationSlot :: "failover_manager \<Rightarrow> failover_manager" where
  "ReleaseMigrationSlot fm = fm\<lparr>fm_current := fm_current fm - 1\<rparr>"

record migration_stats =
  ms_active_migrations :: int
  ms_max_concurrent :: int
  ms_active_failovers :: int
  ms_node_ids :: "int list"

definition GetMigrationStats :: "failover_manager \<Rightarrow> migration_stats" where
  "GetMigrationStats fm = \<lparr>ms_active_migrations = sint (fm_current fm),
     ms_max_concurrent = MaxConcurrentMigrations (fm_config fm),
     ms_active_failovers = int (length (remdups (fm_active fm))), ms_node_ids = remdups (fm_active fm)\<rparr>"

section \<open>Target nodes\<close>

definition healthy_target :: "int \<Rightarrow> node_row \<Rightarrow> bool" where
  "healthy_target excludeNodeID n =
     (if nd_id n = excludeNodeID then False
      else if nd_status n \<noteq> NodeStatusOnline then False
      else if 0 < nd_max_users n \<and> nd_max_users n \<le> nd_current_users n then False
      else True)"

definition enter_nodes :: "int \<Rightarrow> node_row list \<Rightarrow> (int \<times> node_row) list \<Rightarrow> (int \<times> node_row) list" where
  "enter_nodes excludeNodeID ns nodeMap =
     fold (\<lambda>n m. if healthy_target excludeNodeID n then AList.update (nd_id n) n m else m) ns nodeMap"

fun healthy_loop :: "int \<Rightarrow> int list \<Rightarrow> (int \<times> node_row) list \<Rightarrow> (int \<times> node_row) list nodeop" where
  "healthy_loop excludeNodeID [] nodeMap = ret nodeMap"
| "healthy_loop excludeNodeID (g # gs) nodeMap =
     bindE (attempt (GetNodes g)) (\<lambda>r. case r of
        Inl _ \<Rightarrow> healthy_loop excludeNodeID gs nodeMap
      | Inr ns \<Rightarrow> healthy_loop excludeNodeID gs (enter_nodes excludeNodeID ns nodeMap))"

type_synonym iteration = "(int \<times> node_row) list \<Rightarrow> node_row list"

definition getHealthyNodesInGroups :: "iteration \<Rightarrow> int list \<Rightarrow> int \<Rightarrow> node_row list nodeop" where
  "getHealthyNodesInGroups iter groupIDs excludeNodeID =
     bindE (healthy_loop excludeNodeID groupIDs []) (\<lambda>nodeMap. ret (iter nodeMap))"

definition getTargetNodes :: "iteration \<Rightarrow> failover_config \<Rightarrow> int \<Rightarrow> (node_row list \<times> bool) nodeop" where
  "getTargetNodes iter cfg sourceNodeID =
     bindE (if PreferSameGroup cfg
        then bindE (attempt (GetGroupIDsForNode sourceNodeID)) (\<lambda>r. case r of
             Inl _ \<Rightarrow> ret []
           | Inr groupIDs \<Rightarrow> if groupIDs \<noteq> []
               then bindE (attempt (getHealthyNodesInGroups iter groupIDs sourceNodeID)) (\<lambda>r.
                 ret (case r of Inl _ \<Rightarrow> [] | Inr ns \<Rightarrow> ns))
               else ret [])
        else ret []) (\<lambda>targetNodes.
     if targetNodes = [] \<and> AllowCrossGroupFailover cfg
     then bindE NodeGetAvailable (\<lambda>ns. ret (filter (\<lambda>n. nd_id n \<noteq> sourceNodeID) ns, True))
     else ret (targetNodes, False))"

definition GetSameGroupNodes :: "iteration \<Rightarrow> int \<Rightarrow> node_row list nodeop" where
  "GetSameGroupNodes iter sourceNodeID =
     bindE (GetGroupIDsForNode sourceNodeID) (\<lambda>groupIDs.
     if groupIDs = [] then ret [] else getHealthyNodesInGroups iter groupIDs sourceNodeID)"

definition GetCrossGroupNodes :: "iteration \<Rightarrow> int \<Rightarrow> node_row list nodeop" where
  "GetCrossGroupNodes iter sourceNodeID =
     bindE NodeGetAvailable (\<lambda>allNodes.
     bindE (attempt (GetGroupIDsForNode sourceNodeID)) (\<lambda>r. case r of
        Inl _ \<Rightarrow> ret (filter (\<lambda>n. nd_id n \<noteq> sourceNodeID) allNodes)
      | Inr groupIDs \<Rightarrow>
          bindE (attempt (getHealthyNodesInGroups iter groupIDs sourceNodeID)) (\<lambda>r.
          let same = (case r of Inl _ \<Rightarrow> [] | Inr ns \<Rightarrow> ns) in
          ret (filter (\<lambda>n. nd_id n \<noteq> sourceNodeID \<and> nd_id n \<notin> set (map nd_id same)) allNodes))))"

text \<open>Cross-group nodes are added while fewer than \<open>requiredCount\<close> are there.\<close>

fun add_cross :: "int \<Rightarrow> node_row list \<Rightarrow> node_row list \<Rightarrow> bool \<Rightarrow> node_row list \<times> bool" where
  "add_cross requiredCount [] result used = (result, used)"
| "add_cross requiredCount (n # ns) result used =
     (if requiredCount \<le> int (length result) then (result, used)
      else if \<exists>e \<in> set result. nd_id e = nd_id n then add_cross requiredCount ns result used
      else add_cross requiredCount ns (result @ [n]) True)"

definition SelectTargetNodesWithPriority :: "iteration \<Rightarrow> failover_config \<Rightarrow> int \<Rightarrow> int \<Rightarrow> (node_row list \<times> bool) nodeop" where
  "SelectTargetNodesWithPriority iter cfg sourceNodeID requiredCount =
     bindE (if PreferSameGroup cfg
        then bindE (attempt (GetSameGroupNodes iter sourceNodeID)) (\<lambda>r. ret (case r of Inl _ \<Rightarrow> [] | Inr ns \<Rightarrow> ns))
        else ret []) (\<lambda>result.
     bindE (if int (length result) < requiredCount \<and> AllowCrossGroupFailover cfg
        then bindE (attempt (GetCrossGroupNodes iter sourceNodeID)) (\<lambda>r. ret (case r of Inl _ \<Rightarrow> (result, False)
               | Inr ns \<Rightarrow> add_cross requiredCount ns result False))
        else ret (result, False)) (\<lambda>(result, used).
     bindE (guardE (result \<noteq> []) (NodeE ErrNoTargetNodes)) (\<lambda>_. ret (result, used))))"

definition IsSameGroupNode :: "int \<Rightarrow> int \<Rightarrow> bool nodeop" where
  "IsSameGroupNode nodeID1 nodeID2 =
     bindE (GetGroupIDsForNode nodeID1) (\<lambda>groups1.
     bindE (GetGroupIDsForNode nodeID2) (\<lambda>groups2.
     ret (\<exists>g \<in> set groups2. g \<in> set groups1)))"

definition CheckGroupHealth :: "int \<Rightarrow> bool nodeop" where
  "CheckGroupHealth groupID = bindE (GetNodes groupID) (\<lambda>ns.
     if ns = [] then ret True
     else if \<exists>n \<in> set ns. nd_status n = NodeStatusOnline then ret False else ret True)"

fun unhealthy_loop :: "node_group_row list \<Rightarrow> int list nodeop" where
  "unhealthy_loop [] = ret []"
| "unhealthy_loop (g # gs) = bindE (attempt (CheckGroupHealth (ng_id g))) (\<lambda>r.
     bindE (unhealthy_loop gs) (\<lambda>rest. ret (if r = Inr True then ng_id g # rest else rest)))"

definition GetGroupsWithAllUnhealthyNodes :: "int list nodeop" where
  "GetGroupsWithAllUnhealthyNodes = bindE (GroupList 0 0) unhealthy_loop"

definition ShouldUseCrossGroupFailover :: "iteration \<Rightarrow> failover_config \<Rightarrow> int \<Rightarrow> bool nodeop" where
  "ShouldUseCrossGroupFailover iter cfg nodeID =
     (if \<not> AllowCrossGroupFailover cfg then ret False
      else bindE (attempt (GetSameGroupNodes iter nodeID)) (\<lambda>r.
        ret (case r of Inl _ \<Rightarrow> True | Inr ns \<Rightarrow> ns = [])))"

section \<open>Migration\<close>

definition migrateUser :: "time \<Rightarrow> int \<Rightarrow> int \<Rightarrow> migration_result nodeop" where
  "migrateUser now userID targetNodeID =
     bindE (attempt (GetByUserID userID)) (\<lambda>a.
     let source = (case a of Inr (Some a) \<Rightarrow> na_node_id a | _ \<Rightarrow> 0) in
     bindE (attempt (Reassign now userID targetNodeID)) (\<lambda>r.
     ret \<lparr>mr_user_id = userID, mr_source_node_id = source, mr_target_node_id = targetNodeID,
       mr_success = (case r of Inl _ \<Rightarrow> False | Inr _ \<Rightarrow> True),
       mr_error = (case r of Inl e \<Rightarrow> Some e | Inr _ \<Rightarrow> None)\<rparr>))"

fun migrate_in_order :: "(nat \<Rightarrow> time) \<Rightarrow> int list \<Rightarrow> int list \<Rightarrow> nat list \<Rightarrow> (nat \<times> migration_result) list nodeop" where
  "migrate_in_order clock userIDs targets [] = ret []"
| "migrate_in_order clock userIDs targets (idx # rest) =
     bindE (migrateUser (clock idx) (userIDs ! idx) (targets ! (idx mod length targets))) (\<lambda>r.
     bindE (migrate_in_order clock userIDs targets rest) (\<lambda>rs. ret ((idx, r) # rs)))"

text \<open>
  The results by index.  \<open>make(chan struct{}, n)\<close> panics when \<open>n\<close> is negative; with \<open>n = 0\<close>
  nobody receives from the channel, and with at least one user the call blocks for ever.
\<close>

definition migrateUsers :: "nat list \<Rightarrow> (nat \<Rightarrow> time) \<Rightarrow> failover_config \<Rightarrow> int list \<Rightarrow> node_row list \<Rightarrow> migration_result list option nodeop" where
  "migrateUsers order clock cfg userIDs targetNodes =
     (if MaxConcurrentMigrations cfg < 0 then raise IndexOutOfRange
      else if MaxConcurrentMigrations cfg = 0 \<and> userIDs \<noteq> [] then ret None
      else bindE (migrate_in_order clock userIDs (map nd_id targetNodes) order) (\<lambda>rs.
        ret (Some (map (\<lambda>i. the (map_of rs i)) [0..<length userIDs]))))"

definition count_results :: "migration_result list \<Rightarrow> failover_event \<Rightarrow> failover_event" where
  "count_results results ev = ev\<lparr>ev_migrated_users := int (length (filter mr_success results)),
     ev_failed_users := int (length (filter (\<lambda>r. \<not> mr_success r) results))\<rparr>"

definition new_event :: "node_row \<Rightarrow> int \<Rightarrow> time \<Rightarrow> string \<Rightarrow> bool \<Rightarrow> failover_event" where
  "new_event n nodeID now reason cross = \<lparr>ev_node_id = nodeID, ev_node_name = nd_name n, ev_affected_users = 0,
     ev_migrated_users = 0, ev_failed_users = 0, ev_target_nodes = [], ev_started_at = now,
     ev_completed_at = zero_time, ev_reason = reason, ev_cross_group_used = cross\<rparr>"

text \<open>The users are moved and counted; \<open>done_at\<close> is the time at the end.\<close>

definition finish_failover :: "nat list \<Rightarrow> (nat \<Rightarrow> time) \<Rightarrow> time \<Rightarrow> failover_config \<Rightarrow> int list \<Rightarrow> node_row list \<Rightarrow> failover_event
    \<Rightarrow> failover_event option nodeop" where
  "finish_failover order clock done_at cfg userIDs targetNodes ev =
     bindE (migrateUsers order clock cfg userIDs targetNodes) (\<lambda>r. ret (map_option (\<lambda>results.
       (count_results results ev)\<lparr>ev_completed_at := done_at\<rparr>) r))"

text \<open>
  A failover marks its node as active and removes the mark when it returns, so that of the
  manager only the active set at the start matters.
\<close>

definition TriggerFailover :: "iteration \<Rightarrow> (nat \<Rightarrow> nat list) \<Rightarrow> (nat \<Rightarrow> time) \<Rightarrow> time \<Rightarrow> time \<Rightarrow> failover_manager \<Rightarrow> int
    \<Rightarrow> failover_event option nodeop" where
  "TriggerFailover iter order clock now done_at fm nodeID =
     bindE (guardE (\<not> IsFailoverInProgress fm nodeID) (NodeE ErrFailoverInProgress)) (\<lambda>_.
     bindE (NodeGetByID nodeID) (\<lambda>n.
     bindE (guardE (nd_status n = NodeStatusUnhealthy) (NodeE ErrNodeNotUnhealthy)) (\<lambda>_.
     bindE (GetUserIDsByNodeID nodeID) (\<lambda>userIDs.
     let ev = (new_event n nodeID now ''Node became unhealthy'' False)\<lparr>ev_affected_users := int (length userIDs)\<rparr> in
     if userIDs = [] then ret (Some (ev\<lparr>ev_completed_at := done_at\<rparr>))
     else bindE (getTargetNodes iter (fm_config fm) nodeID) (\<lambda>(targetNodes, cross).
       bindE (guardE (targetNodes \<noteq> []) (NodeE ErrNoTargetNodes)) (\<lambda>_.
       finish_failover (order (length userIDs)) clock done_at (fm_config fm) userIDs targetNodes
         (ev\<lparr>ev_cross_group_used := cross, ev_target_nodes := map nd_id targetNodes\<rparr>)))))))"

definition TriggerRecovery :: "failover_config \<Rightarrow> int \<Rightarrow> unit nodeop" where
  "TriggerRecovery cfg nodeID = (if \<not> RecoveryEnabled cfg then ret () else bindE (NodeGetByID nodeID) (\<lambda>_. ret ()))"

definition TriggerCrossGroupFailover :: "iteration \<Rightarrow> (nat \<Rightarrow> nat list) \<Rightarrow> (nat \<Rightarrow> time) \<Rightarrow> time \<Rightarrow> time \<Rightarrow> failover_manager \<Rightarrow> int
    \<Rightarrow> failover_event option nodeop" where
  "TriggerCrossGroupFailover iter order clock now done_at fm nodeID =
     bindE (guardE (\<not> IsFailoverInProgress fm nodeID) (NodeE ErrFailoverInProgress)) (\<lambda>_.
     bindE (NodeGetByID nodeID) (\<lambda>n.
     bindE (GetUserIDsByNodeID nodeID) (\<lambda>userIDs.
     let ev = (new_event n nodeID now ''Cross-group failover - all same-group nodes unhealthy'' True)
                \<lparr>ev_affected_users := int (length userIDs)\<rparr> in
     if userIDs = [] then ret (Some (ev\<lparr>ev_completed_at := done_at\<rparr>))
     else bindE (GetCrossGroupNodes iter nodeID) (\<lambda>crossGroupNodes.
       bindE (guardE (crossGroupNodes \<noteq> []) (NodeE ErrNoTargetNodes)) (\<lambda>_.
       finish_failover (order (length userIDs)) clock done_at (fm_config fm) userIDs crossGroupNodes
         (ev\<lparr>ev_target_nodes := map nd_id crossGroupNodes\<rparr>))))))"

definition TriggerFailoverWithStrategy :: "iteration \<Rightarrow> (nat \<Rightarrow> nat list) \<Rightarrow> (nat \<Rightarrow> time) \<Rightarrow> time \<Rightarrow> time \<Rightarrow> failover_manager \<Rightarrow> int
    \<Rightarrow> bool \<Rightarrow> bool \<Rightarrow> failover_event option nodeop" where
  "TriggerFailoverWithStrategy iter order clock now done_at fm nodeID preferSameGroup allowCrossGroup =
     TriggerFailover iter order clock now done_at
       (fm\<lparr>fm_config := (fm_config fm)\<lparr>PreferSameGroup := preferSameGroup, AllowCrossGroupFailover := allowCrossGroup\<rparr>\<rparr>) nodeID"

fun online_nodes :: "int list \<Rightarrow> node_row list nodeop" where
  "online_nodes [] = ret []"
| "online_nodes (i # is) = bindE (attempt (NodeGetByID i)) (\<lambda>r.
     bindE (online_nodes is) (\<lambda>rest. ret (case r of Inl _ \<Rightarrow> rest
       | Inr n \<Rightarrow> if nd_status n = NodeStatusOnline then n # rest else rest)))"

definition MigrateUsersFromNode :: "(nat \<Rightarrow> nat list) \<Rightarrow> (nat \<Rightarrow> time) \<Rightarrow> time \<Rightarrow> time \<Rightarrow> failover_manager \<Rightarrow> int \<Rightarrow> int list
    \<Rightarrow> failover_event option nodeop" where
  "MigrateUsersFromNode order clock now done_at fm sourceNodeID targetNodeIDs =
     bindE (NodeGetByID sourceNodeID) (\<lambda>n.
     bindE (GetUserIDsByNodeID sourceNodeID) (\<lambda>userIDs.
     let ev = (new_event n sourceNodeID now ''Manual migration'' False)
                \<lparr>ev_target_nodes := targetNodeIDs, ev_affected_users := int (length userIDs)\<rparr> in
     if userIDs = [] then ret (Some (ev\<lparr>ev_completed_at := done_at\<rparr>))
     else bindE (if targetNodeIDs \<noteq> [] then online_nodes targetNodeIDs
                 else bindE NodeGetAvailable (\<lambda>ns. ret (filter (\<lambda>n. nd_id n \<noteq> sourceNodeID) ns))) (\<lambda>targetNodes.
       bindE (guardE (targetNodes \<noteq> []) (NodeE ErrNoTargetNodes)) (\<lambda>_.
       finish_failover (order (length userIDs)) clock done_at (fm_config fm) userIDs targetNodes ev))))"

definition MigrateSingleUser :: "time \<Rightarrow> failover_manager \<Rightarrow> int \<Rightarrow> int \<Rightarrow> migration_result nodeop" where
  "MigrateSingleUser now fm userID targetNodeID =
     bindE (NodeGetByID targetNodeID) (\<lambda>n.
     bindE (guardE (nd_status n = NodeStatusOnline) (ErrText (''target node is not online: '' @ nd_status n))) (\<lambda>_.
     bindE (guardE (\<not> (0 < nd_max_users n \<and> nd_max_users n \<le> nd_current_users n)) (NodeE ErrNodeAtCapacity)) (\<lambda>_.
     bindE (guardE (sint (fm_current fm) < MaxConcurrentMigrations (fm_config fm)) (NodeE ErrMaxConcurrentExceeded)) (\<lambda>_.
     migrateUser now userID targetNodeID))))"

section \<open>What a failover does\<close>

definition map_order :: "iteration \<Rightarrow> bool" where
  "map_order iter \<longleftrightarrow> (\<forall>m. distinct (map fst m) \<longrightarrow> set (iter m) = snd ` set m)"

definition schedule :: "(nat \<Rightarrow> nat list) \<Rightarrow> bool" where
  "schedule order \<longleftrightarrow> (\<forall>k. distinct (order k) \<and> set (order k) = {0..<k})"

text \<open>A migration succeeds and moves the user, or it fails and the user stays; it never errs itself.\<close>

lemma migrateUser_moves:
  assumes "wf_nodes d"
  shows "wpt (migrateUser now u n) (\<lambda>r d'. wf_nodes d'
      \<and> placed d' = (if mr_success r then (placed d)(u \<mapsto> n) else placed d)) (\<lambda>_ _. False) d"
proof -
  have "wpt (GetByUserID u) (\<lambda>_ d'. d' = d) (\<lambda>_ d'. d' = d) d"
    unfolding GetByUserID_def by (intro wpt_rules) auto
  then show ?thesis
    unfolding migrateUser_def Let_def
    by (intro wpt_bind wpt_attempt, elim wpt_mono)
       (auto intro!: wpt_rules wpt_mono [OF node_placement.reassign_moves [OF assms]])
qed

lemma migrate_in_order_moves:
  assumes "wf_nodes d" and "distinct us" and "distinct order" and "set order \<subseteq> {0..<length us}"
  shows "wpt (migrate_in_order clock us targets order) (\<lambda>rs d'. wf_nodes d' \<and> map fst rs = order
      \<and> (\<forall>u. (\<forall>i \<in> set order. us ! i \<noteq> u) \<longrightarrow> placed d' u = placed d u)
      \<and> (\<forall>(i, r) \<in> set rs. placed d' (us ! i)
           = (if mr_success r then Some (targets ! (i mod length targets)) else placed d (us ! i)))) (\<lambda>_ _. False) d"
  using assms
proof (induction order arbitrary: d)
  case Nil
  then show ?case by (auto intro: wpt_ret)
next
  case (Cons i order)
  have other: "us ! j \<noteq> us ! i" if "j \<in> set order" for j
    using Cons.prems(2-4) that by (auto simp: nth_eq_iff_index_eq)
  show ?case
    unfolding migrate_in_order.simps
  proof (rule wpt_bind, rule wpt_mono [OF migrateUser_moves [OF Cons.prems(1)]])
    fix r :: migration_result and d1
    let ?v = "if mr_success r then Some (targets ! (i mod length targets)) else placed d (us ! i)"
    assume m: "wf_nodes d1 \<and> placed d1 = (if mr_success r then (placed d)(us ! i \<mapsto> targets ! (i mod length targets)) else placed d)"
    then have d1: "placed d1 (us ! i) = ?v" "\<And>u. u \<noteq> us ! i \<Longrightarrow> placed d1 u = placed d u" by auto
    show "wpt (bindE (migrate_in_order clock us targets order) (\<lambda>rs. ret ((i, r) # rs)))
       (\<lambda>rs d'. wf_nodes d' \<and> map fst rs = i # order
        \<and> (\<forall>u. (\<forall>j \<in> set (i # order). us ! j \<noteq> u) \<longrightarrow> placed d' u = placed d u)
        \<and> (\<forall>(j, r) \<in> set rs. placed d' (us ! j)
             = (if mr_success r then Some (targets ! (j mod length targets)) else placed d (us ! j)))) (\<lambda>_ _. False) d1"
    proof (rule wpt_bind, rule wpt_mono [OF Cons.IH [of d1]])
      fix rs :: "(nat \<times> migration_result) list" and d2
      assume IH: "wf_nodes d2 \<and> map fst rs = order
        \<and> (\<forall>u. (\<forall>i \<in> set order. us ! i \<noteq> u) \<longrightarrow> placed d2 u = placed d1 u)
        \<and> (\<forall>(j, r) \<in> set rs. placed d2 (us ! j)
             = (if mr_success r then Some (targets ! (j mod length targets)) else placed d1 (us ! j)))"
      then have "placed d2 (us ! i) = ?v" using d1(1) other by metis
      moreover have "placed d2 (us ! j) = (if mr_success r' then Some (targets ! (j mod length targets)) else placed d (us ! j))"
        if "(j, r') \<in> set rs" for j r'
      proof -
        have "j \<in> set order" using IH that by force
        then show ?thesis using IH that d1(2) [OF other] by auto
      qed
      moreover have "placed d2 u = placed d u" if "\<forall>j \<in> set (i # order). us ! j \<noteq> u" for u
        using IH that d1(2) by simp
      ultimately show "wpt (ret ((i, r) # rs)) (\<lambda>rs d'. wf_nodes d' \<and> map fst rs = i # order
        \<and> (\<forall>u. (\<forall>j \<in> set (i # order). us ! j \<noteq> u) \<longrightarrow> placed d' u = placed d u)
        \<and> (\<forall>(j, r) \<in> set rs. placed d' (us ! j)
             = (if mr_success r then Some (targets ! (j mod length targets)) else placed d (us ! j)))) (\<lambda>_ _. False) d2"
        using IH by (intro wpt_ret) auto
    qed (use m Cons.prems in auto)
  qed simp
qed

text \<open>The results by index: result \<open>i\<close> tells whether user \<open>i\<close> has moved.\<close>

lemma migrateUsers_moves:
  assumes "wf_nodes d" and "distinct us" and "schedule order"
  shows "wpt (migrateUsers (order (length us)) clock cfg us ns) (\<lambda>r d'. case r of None \<Rightarrow> True | Some rs \<Rightarrow>
      length rs = length us \<and> (\<forall>u. u \<notin> set us \<longrightarrow> placed d' u = placed d u)
      \<and> (\<forall>i < length us. placed d' (us ! i)
           = (if mr_success (rs ! i) then Some (map nd_id ns ! (i mod length ns)) else placed d (us ! i)))) (\<lambda>_ _. True) d"
proof -
  let ?o = "order (length us)"
  have o: "distinct ?o" "set ?o = {0..<length us}" using assms(3) by (auto simp: schedule_def)
  show ?thesis
    unfolding migrateUsers_def
  proof (intro wpt_if wpt_raise TrueI wpt_ret, simp, rule wpt_bind,
      rule wpt_mono [OF migrate_in_order_moves [OF assms(1,2) o(1), of clock "map nd_id ns"]])
    fix rs :: "(nat \<times> migration_result) list" and d'
    assume m: "wf_nodes d' \<and> map fst rs = ?o
      \<and> (\<forall>u. (\<forall>i \<in> set ?o. us ! i \<noteq> u) \<longrightarrow> placed d' u = placed d u)
      \<and> (\<forall>(i, r) \<in> set rs. placed d' (us ! i)
           = (if mr_success r then Some (map nd_id ns ! (i mod length (map nd_id ns))) else placed d (us ! i)))"
    have "placed d' (us ! i) = (if mr_success (the (map_of rs i)) then Some (map nd_id ns ! (i mod length ns)) else placed d (us ! i))"
      if i: "i < length us" for i
    proof -
      have "i \<in> fst ` set rs" using m o(2) i by (metis atLeast0LessThan lessThan_iff set_map)
      then obtain r where "map_of rs i = Some r" by (metis domD dom_map_of_conv_image_fst)
      moreover then have "(i, r) \<in> set rs" by (rule map_of_SomeD)
      ultimately show ?thesis using m by auto
    qed
    moreover have "placed d' u = placed d u" if "u \<notin> set us" for u
      using m o(2) that by (metis atLeastLessThan_iff nth_mem)
    ultimately show "wpt (ret (Some (map (\<lambda>i. the (map_of rs i)) [0..<length us]))) (\<lambda>r d'. case r of None \<Rightarrow> True | Some rs \<Rightarrow>
      length rs = length us \<and> (\<forall>u. u \<notin> set us \<longrightarrow> placed d' u = placed d u)
      \<and> (\<forall>i < length us. placed d' (us ! i)
           = (if mr_success (rs ! i) then Some (map nd_id ns ! (i mod length ns)) else placed d (us ! i)))) (\<lambda>_ _. True) d'"
      by (intro wpt_ret) auto
  qed (use o in auto)
qed

lemma set_alist_update: "x \<in> set (AList.update k v al) \<Longrightarrow> x = (k, v) \<or> x \<in> set al"
  by (induction al) (auto split: if_splits)

definition good_target :: "node_db \<Rightarrow> int \<Rightarrow> node_row \<Rightarrow> bool" where
  "good_target d src n \<longleftrightarrow> n \<in> set (rows (nodes d)) \<and> nd_status n = NodeStatusOnline \<and> nd_id n \<noteq> src"

lemma enter_nodes_good:
  assumes "distinct (map fst m)" and "\<forall>n \<in> snd ` set m. good_target d src n" and "set ns \<subseteq> set (rows (nodes d))"
  shows "distinct (map fst (enter_nodes src ns m)) \<and> (\<forall>n \<in> snd ` set (enter_nodes src ns m). good_target d src n)"
  using assms unfolding enter_nodes_def
proof (induction ns arbitrary: m)
  case (Cons k ns)
  let ?m = "if healthy_target src k then AList.update (nd_id k) k m else m"
  have "good_target d src k" if "healthy_target src k"
    using that Cons.prems(3) by (auto simp: good_target_def healthy_target_def split: if_splits)
  then have gm: "\<forall>n \<in> snd ` set ?m. good_target d src n"
    using Cons.prems(2) by (auto dest!: set_alist_update)
  have dm: "distinct (map fst ?m)" using Cons.prems(1) by (simp add: distinct_update)
  have "set ns \<subseteq> set (rows (nodes d))" using Cons.prems(3) by simp
  from Cons.IH [OF dm gm this] show ?case by (unfold fold_simps)
qed simp

lemma healthy_loop_good:
  assumes "wf_nodes d" and "distinct (map fst m)" and "\<forall>n \<in> snd ` set m. good_target d src n"
  shows "wpt (healthy_loop src gs m) (\<lambda>m' d'. d' = d \<and> distinct (map fst m') \<and> (\<forall>n \<in> snd ` set m'. good_target d src n))
     (\<lambda>_ d'. d' = d) d"
  using assms(2,3)
proof (induction gs arbitrary: m)
  case (Cons g gs)
  show ?case
    unfolding healthy_loop.simps GetNodes_def
    using enter_nodes_good [OF Cons.prems, of "join_group g d"] join_group_distinct(2) [OF assms(1)] Cons.prems
    by (intro wpt_rules Cons.IH) auto
qed (auto intro: wpt_ret)

lemma getHealthyNodes_good:
  assumes "wf_nodes d" and "map_order iter"
  shows "wpt (getHealthyNodesInGroups iter gs src) (\<lambda>ns d'. d' = d \<and> (\<forall>n \<in> set ns. good_target d src n)) (\<lambda>_ d'. d' = d) d"
  unfolding getHealthyNodesInGroups_def
  by (rule wpt_bind, rule wpt_mono [OF healthy_loop_good [OF assms(1)]])
     (use assms(2) in \<open>auto intro!: wpt_ret simp: map_order_def\<close>)

lemma NodeGetAvailable_good:
  "wpt NodeGetAvailable (\<lambda>ns d'. d' = d \<and> (\<forall>n \<in> set ns. n \<in> set (rows (nodes d)) \<and> nd_status n = NodeStatusOnline)) (\<lambda>_ d'. d' = d) d"
  unfolding NodeGetAvailable_def nodes_where_def
  by (intro wpt_rules) (auto simp: filterNodesAcceptingNewAssignments_def sortNodesForNewAssignments_key)

lemma getTargetNodes_good:
  assumes "wf_nodes d" and "map_order iter"
  shows "wpt (getTargetNodes iter cfg src) (\<lambda>(ns, cross) d'. d' = d \<and> (\<forall>n \<in> set ns. good_target d src n)) (\<lambda>_ d'. d' = d) d"
  unfolding getTargetNodes_def GetGroupIDsForNode_def
  by (intro wpt_rules wpt_mono [OF getHealthyNodes_good [OF assms]] wpt_mono [OF NodeGetAvailable_good])
     (auto simp: good_target_def intro!: wpt_rules wpt_mono [OF NodeGetAvailable_good])

lemma wpt_case_prod:
  "(\<And>a b. x = (a, b) \<Longrightarrow> wpt (f a b) Q E t) \<Longrightarrow> wpt (case x of (a, b) \<Rightarrow> f a b) Q E t"
  by (cases x) simp

lemma placed_member:
  assumes "wf_nodes d" and "a \<in> set (rows (assignments d))"
  shows "placed d (na_user_id a) = Some (na_node_id a)"
proof -
  obtain b where b: "find (\<lambda>b. na_user_id b = na_user_id a) (rows (assignments d)) = Some b"
    using assms(2) by (cases "find (\<lambda>b. na_user_id b = na_user_id a) (rows (assignments d))") (auto simp: find_None_all)
  then have "b = a" using find_Some_iff_In [OF b] assms by (auto simp: wf_nodes_def dest: uniq_eq)
  with b show ?thesis by (simp add: placed_def)
qed

lemma length_filter_nth:
  "length xs = length ys \<Longrightarrow> (\<And>i. i < length xs \<Longrightarrow> P (xs ! i) = Q (ys ! i)) \<Longrightarrow> length (filter P xs) = length (filter Q ys)"
proof (induction xs ys rule: list_induct2)
  case (Cons x xs y ys)
  then show ?case using Cons.prems [of 0] Cons.prems [of "Suc _"] by simp
qed simp

lemma failover_spec:
  assumes "TriggerFailover iter order clock now done_at fm src w = (Inr (Some ev), w')"
    and "wf_nodes (tables w)" and "map_order iter" and "schedule order"
    and "us = map na_user_id (filter (\<lambda>a. na_node_id a = src) (rows (assignments (tables w))))"
  shows "ev_affected_users ev = int (length us) \<and> ev_migrated_users ev + ev_failed_users ev = ev_affected_users ev
     \<and> ev_migrated_users ev = int (length (filter (\<lambda>u. placed (tables w') u \<noteq> Some src) us))
     \<and> (\<forall>u \<in> set us. placed (tables w') u \<in> insert (Some src) (Some ` set (ev_target_nodes ev)))
     \<and> (\<forall>u. u \<notin> set us \<longrightarrow> placed (tables w') u = placed (tables w) u)
     \<and> (\<forall>i \<in> set (ev_target_nodes ev). i \<noteq> src \<and> (\<exists>n \<in> set (rows (nodes (tables w))). nd_id n = i \<and> nd_status n = NodeStatusOnline))"
proof -
  let ?d = "tables w"
  let ?Q = "\<lambda>r d'. case r of None \<Rightarrow> True | Some ev \<Rightarrow>
     ev_affected_users ev = int (length us) \<and> ev_migrated_users ev + ev_failed_users ev = ev_affected_users ev
     \<and> ev_migrated_users ev = int (length (filter (\<lambda>u. placed d' u \<noteq> Some src) us))
     \<and> (\<forall>u \<in> set us. placed d' u \<in> insert (Some src) (Some ` set (ev_target_nodes ev)))
     \<and> (\<forall>u. u \<notin> set us \<longrightarrow> placed d' u = placed ?d u)
     \<and> (\<forall>i \<in> set (ev_target_nodes ev). i \<noteq> src \<and> (\<exists>n \<in> set (rows (nodes ?d)). nd_id n = i \<and> nd_status n = NodeStatusOnline))"
  have du: "distinct us" unfolding assms(5) using assms(2) by (simp add: wf_nodes_def uniq_def distinct_map_filter)
  have on: "placed ?d u = Some src" if "u \<in> set us" for u
    using that assms(5) placed_member [OF assms(2)] by auto
  have fin: "wpt (finish_failover (order (length us)) clock done_at cfg us ns ev) ?Q (\<lambda>_ _. True) ?d"
    if ns: "ns \<noteq> []" "\<forall>n \<in> set ns. good_target ?d src n" and ev: "ev_affected_users ev = int (length us)"
      "ev_target_nodes ev = map nd_id ns" for cfg ns ev
    unfolding finish_failover_def
  proof (rule wpt_bind, rule wpt_mono [OF migrateUsers_moves [OF assms(2) du assms(4)]])
    fix r :: "migration_result list option" and d'
    assume r: "case r of None \<Rightarrow> True | Some rs \<Rightarrow> length rs = length us \<and> (\<forall>u. u \<notin> set us \<longrightarrow> placed d' u = placed ?d u)
      \<and> (\<forall>i < length us. placed d' (us ! i)
           = (if mr_success (rs ! i) then Some (map nd_id ns ! (i mod length ns)) else placed ?d (us ! i)))"
    show "wpt (ret (map_option (\<lambda>results. count_results results ev\<lparr>ev_completed_at := done_at\<rparr>) r)) ?Q (\<lambda>_ _. True) d'"
    proof (cases r)
      case (Some rs)
      have tgt: "map nd_id ns ! (i mod length ns) \<in> set (map nd_id ns)" for i using ns(1) by (intro nth_mem) simp
      have ne: "map nd_id ns ! (i mod length ns) \<noteq> src" for i using tgt [of i] ns(2) by (auto simp: good_target_def)
      have moved: "placed d' (us ! i) \<noteq> Some src \<longleftrightarrow> mr_success (rs ! i)" if "i < length us" for i
        using r Some that ne on [OF nth_mem [OF that]] by auto
      have "length (filter (\<lambda>u. placed d' u \<noteq> Some src) us) = length (filter mr_success rs)"
        using r Some moved by (intro length_filter_nth) auto
      moreover have "placed d' u \<in> insert (Some src) (Some ` set (map nd_id ns))" if "u \<in> set us" for u
      proof -
        from that obtain i where "i < length us" "u = us ! i" by (auto simp: in_set_conv_nth)
        then show ?thesis using r Some tgt [of i] on [OF that] by auto
      qed
      moreover have "length (filter mr_success rs) + length (filter (\<lambda>r. \<not> mr_success r) rs) = length rs"
        by (rule sum_length_filter_compl)
      ultimately show ?thesis using r Some ev ns(2)
        by (intro wpt_ret) (auto simp: count_results_def good_target_def)
    qed (auto intro: wpt_ret)
  qed simp
  have byid: "wpt (NodeGetByID src) (\<lambda>_ d'. d' = ?d) (\<lambda>_ _. True) ?d"
    unfolding NodeGetByID_def by (intro wpt_rules) auto
  have uids: "wpt (GetUserIDsByNodeID src) (\<lambda>us' d'. us' = us \<and> d' = ?d) (\<lambda>_ _. True) ?d"
    unfolding GetUserIDsByNodeID_def by (intro wpt_rules) (auto simp: assms(5))
  have "wpt (TriggerFailover iter order clock now done_at fm src) ?Q (\<lambda>_ _. True) ?d"
    unfolding TriggerFailover_def Let_def
    apply (rule wpt_bind, rule wpt_guard, rule wpt_bind, rule wpt_mono [OF byid])
    apply (clarify, rule wpt_bind, rule wpt_guard, rule wpt_bind, rule wpt_mono [OF uids])
    apply (clarify, rule wpt_if)
    apply (rule wpt_ret)
    apply (simp add: new_event_def)
    apply (rule wpt_bind, rule wpt_mono [OF getTargetNodes_good [OF assms(2,3)]])
    apply (rule wpt_case_prod, simp only: prod.case, elim conjE, hypsubst)
    apply (rule wpt_bind, rule wpt_guard)
    apply (rule fin)
    apply (simp_all add: new_event_def)
    done
  from wptD_Inr [OF this assms(1)] show ?thesis by simp
qed

text \<open>
  (C27) What a failover does, whatever statements of the engine fail and in whatever order the
  migrations run.  When \<open>TriggerFailover\<close> returns an event, the node was unhealthy; the numbers
  of migrated and of failed users add up to the number of users the node had; every user of the
  node is now on one of the event's target nodes or still where it was, and exactly the counted
  ones have moved; every target node is a stored node other than the failed one that was online;
  no other user has been touched.
\<close>

theorem failover_outcome:
  assumes "TriggerFailover iter order clock now done_at fm src w = (Inr (Some ev), w')"
    and "wf_nodes (tables w)" and "map_order iter" and "schedule order"
    and "us = map na_user_id (filter (\<lambda>a. na_node_id a = src) (rows (assignments (tables w))))"
  shows "ev_affected_users ev = int (length us) \<and> ev_migrated_users ev + ev_failed_users ev = ev_affected_users ev
     \<and> ev_migrated_users ev = int (length (filter (\<lambda>u. placed (tables w') u \<noteq> Some src) us))
     \<and> (\<forall>u \<in> set us. placed (tables w') u \<in> insert (Some src) (Some ` set (ev_target_nodes ev)))
     \<and> (\<forall>u. u \<notin> set us \<longrightarrow> placed (tables w') u = placed (tables w) u)
     \<and> (\<forall>i \<in> set (ev_target_nodes ev). i \<noteq> src \<and> (\<exists>n \<in> set (rows (nodes (tables w))). nd_id n = i \<and> nd_status n = NodeStatusOnline))"
  by (rule failover_spec [OF assms])

lemma migrateUser_runs:
  assumes "wf_nodes d"
  shows "runs (migrateUser now u n) (\<lambda>r d'. wf_nodes d' \<and> mr_success r) d"
proof -
  have g: "runs (GetByUserID u) (\<lambda>_ d'. d' = d) d"
    unfolding runs_def GetByUserID_def bindE_def attempt_def first_def
    by (auto simp: stmt_run ret_def raise_def split: option.split)
  have r: "runs (Reassign now u n) (\<lambda>_. wf_nodes) d"
    using Reassign_runs Reassign_wf(1) assms unfolding runs_def by (metis preserves_run)
  show ?thesis
    unfolding migrateUser_def Let_def
    by (rule runs_bind, rule runs_attempt, rule runs_mono [OF g], clarify, rule runs_bind, rule runs_attempt,
        rule runs_mono [OF r]) (auto intro!: runs_ret)
qed

lemma migrate_in_order_runs:
  assumes "wf_nodes d"
  shows "runs (migrate_in_order clock us targets order) (\<lambda>rs _. map fst rs = order \<and> (\<forall>r \<in> snd ` set rs. mr_success r)) d"
  using assms
proof (induction order arbitrary: d)
  case (Cons i order)
  show ?case
    unfolding migrate_in_order.simps
    by (rule runs_bind, rule runs_mono [OF migrateUser_runs [OF Cons.prems]], rule runs_bind, rule runs_mono [OF Cons.IH])
       (auto intro!: runs_ret)
qed (auto intro!: runs_ret)

lemma migrateUsers_runs:
  assumes "wf_nodes d" and "schedule order" and "1 \<le> MaxConcurrentMigrations cfg"
  shows "runs (migrateUsers (order (length us)) clock cfg us ns) (\<lambda>r _. \<exists>rs. r = Some rs \<and> (\<forall>r \<in> set rs. mr_success r)) d"
proof -
  have "mr_success (the (map_of rs i))" if "map fst rs = order (length us)" "\<forall>r \<in> snd ` set rs. mr_success r" "i < length us" for rs i
  proof -
    have "i \<in> set (map fst rs)" using that assms(2) by (simp add: schedule_def del: set_map)
    then obtain r where "map_of rs i = Some r" by (metis domD dom_map_of_conv_image_fst set_map)
    then show ?thesis using that(2) map_of_SomeD by force
  qed
  then show ?thesis
    unfolding migrateUsers_def using assms(3)
    by (auto intro!: runs_bind runs_mono [OF migrate_in_order_runs [OF assms(1)]] runs_ret)
qed

lemma healthy_loop_runs: "runs (healthy_loop src gs m) (\<lambda>_ d'. d' = d) d"
proof (induction gs arbitrary: m)
  case (Cons g gs)
  show ?case
    unfolding healthy_loop.simps GetNodes_def by (intro runs_rules) (simp add: Cons.IH)
qed (auto intro!: runs_ret)

lemma getTargetNodes_runs:
  assumes "AllowCrossGroupFailover cfg" and "n \<in> set (rows (nodes d))" and "nodeAcceptsNewAssignments n"
    and "nd_id n \<noteq> src" and "0 \<le> nd_max_users n"
  shows "runs (getTargetNodes iter cfg src) (\<lambda>(ns, cross) d'. d' = d \<and> ns \<noteq> []) d"
proof -
  have av: "runs NodeGetAvailable (\<lambda>ns d'. d' = d \<and> n \<in> set ns) d"
    unfolding NodeGetAvailable_def nodes_where_def using assms(2,3,5)
    by (intro runs_rules)
       (auto simp: filterNodesAcceptingNewAssignments_def sortNodesForNewAssignments_key nodeAcceptsNewAssignments_def split: if_splits)
  have cross: "runs (if ns = [] \<and> AllowCrossGroupFailover cfg
      then bindE NodeGetAvailable (\<lambda>ns. ret (filter (\<lambda>n. nd_id n \<noteq> src) ns, True)) else ret (ns, False))
      (\<lambda>(ns, cross) d'. d' = d \<and> ns \<noteq> []) d" for ns
    using assms(1,4) by (auto intro!: runs_rules runs_mono [OF av] simp: filter_empty_conv)
  have hn: "runs (getHealthyNodesInGroups iter gs src) (\<lambda>_ d'. d' = d) d" for gs
    unfolding getHealthyNodesInGroups_def
    by (rule runs_bind, rule runs_mono [OF healthy_loop_runs]) (auto intro!: runs_ret)
  show ?thesis
    unfolding getTargetNodes_def GetGroupIDsForNode_def
    by (rule runs_bind) (auto intro!: runs_rules runs_mono [OF hn] cross)
qed

text \<open>
  (C28) A failover evacuates the node.  Where the engine does not fail, migrations are allowed
  to run, no failover of the node is in progress, the node is unhealthy, failover across groups
  is allowed and some other node accepts new assignments, \<open>TriggerFailover\<close> returns: no
  migration has failed and no user is left on the node.
\<close>

theorem failover_evacuates:
  assumes "wf_nodes (tables w)" and "faults w = []" and "map_order iter" and "schedule order"
    and "1 \<le> MaxConcurrentMigrations (fm_config fm)" and "AllowCrossGroupFailover (fm_config fm)"
    and "\<not> IsFailoverInProgress fm src"
    and "n \<in> set (rows (nodes (tables w)))" and "nd_id n = src" and "nd_status n = NodeStatusUnhealthy"
    and "k \<in> set (rows (nodes (tables w)))" and "nd_id k \<noteq> src" and "nodeAcceptsNewAssignments k" and "0 \<le> nd_max_users k"
  shows "\<exists>ev w'. TriggerFailover iter order clock now done_at fm src w = (Inr (Some ev), w')
     \<and> ev_failed_users ev = 0 \<and> (\<forall>u. placed (tables w') u \<noteq> Some src)"
proof -
  let ?d = "tables w"
  define us where "us = map na_user_id (filter (\<lambda>a. na_node_id a = src) (rows (assignments ?d)))"
  have find: "find (\<lambda>n. nd_id n = src) (rows (nodes ?d)) = Some n"
  proof (cases "find (\<lambda>n. nd_id n = src) (rows (nodes ?d))")
    case None
    then show ?thesis using assms(8,9) by (auto simp: find_None_all)
  next
    case (Some m)
    then have "m = n" using find_Some_iff_In [OF Some] assms(1,8,9) by (auto simp: wf_nodes_def dest: keyed_unique)
    with Some show ?thesis by simp
  qed
  have fin: "runs (finish_failover (order (length us)) clock done_at (fm_config fm) us ns ev)
      (\<lambda>r _. \<exists>ev. r = Some ev \<and> ev_failed_users ev = 0) ?d" for us ns ev
    unfolding finish_failover_def
    by (rule runs_bind, rule runs_mono [OF migrateUsers_runs [OF assms(1,4,5)]])
       (auto intro!: runs_ret simp: count_results_def filter_empty_conv)
  have byid: "runs (NodeGetByID src) (\<lambda>m d'. m = n \<and> d' = ?d) ?d"
    unfolding NodeGetByID_def by (rule runs_map_err, rule runs_first, rule find) simp
  have uids: "runs (GetUserIDsByNodeID src) (\<lambda>us' d'. us' = us \<and> d' = ?d) ?d"
    unfolding GetUserIDsByNodeID_def by (intro runs_rules) (simp add: us_def)
  have "runs (TriggerFailover iter order clock now done_at fm src) (\<lambda>r _. \<exists>ev. r = Some ev \<and> ev_failed_users ev = 0) ?d"
    unfolding TriggerFailover_def Let_def
    apply (rule runs_bind, rule runs_guard [OF assms(7)], rule runs_bind, rule runs_mono [OF byid])
    apply (clarify, rule runs_bind, rule runs_guard [OF assms(10)], rule runs_bind, rule runs_mono [OF uids])
    apply (clarify, rule runs_if, rule runs_ret, simp add: new_event_def)
    apply (rule runs_bind, rule runs_mono [OF getTargetNodes_runs [OF assms(6,11,13,12,14)]])
    apply (rule runs_case_prod, simp only: prod.case, elim conjE, hypsubst, rule runs_bind, rule runs_guard, simp)
    apply (rule fin)
    done
  from runsD [OF this assms(2)] obtain ev w' where
    r: "TriggerFailover iter order clock now done_at fm src w = (Inr (Some ev), w')" "ev_failed_users ev = 0" by blast
  note out = failover_spec [OF r(1) assms(1,3,4) us_def]
  have "int (length (filter (\<lambda>u. placed (tables w') u \<noteq> Some src) us)) = int (length us)" using out r(2) by linarith
  then have "\<not> length (filter (\<lambda>u. placed (tables w') u \<noteq> Some src) us) < length us" by simp
  then have "placed (tables w') u \<noteq> Some src" if "u \<in> set us" for u
    using that length_filter_less [of u us "\<lambda>u. placed (tables w') u \<noteq> Some src"] by blast
  moreover have "placed (tables w') u \<noteq> Some src" if "u \<notin> set us" for u
  proof
    assume "placed (tables w') u = Some src"
    moreover have "placed (tables w') u = placed ?d u" using out that by blast
    ultimately have "placed ?d u = Some src" by simp
    then show False using that by (auto simp: us_def placed_def dest: find_Some_iff_In)
  qed
  ultimately show ?thesis using r by blast
qed

text \<open>A failover of node 1 of the sample, whose three users go to node 2.\<close>

definition sample_failover_db :: node_db where
  "sample_failover_db = sample_node_db\<lparr>nodes :=
     \<lparr>rows = [(sample_node 1 2 0)\<lparr>nd_status := NodeStatusUnhealthy\<rparr>, sample_node 2 1 5], seq = 2\<rparr>\<rparr>"

definition sample_order_list :: "nat \<Rightarrow> nat list" where
  "sample_order_list k = rev [0..<k]"

lemma sample_failover_wf: "wf_nodes sample_failover_db"
  using sample_node_db_wf by (auto simp: wf_nodes_def sample_failover_db_def sample_node_db_def keyed_def uniq_def sample_node_def)

lemma sample_failover_params: "map_order (map snd)" "schedule sample_order_list"
  by (auto simp: map_order_def schedule_def sample_order_list_def)

lemma sample_target: "sample_node 2 1 5 \<in> set (rows (nodes sample_failover_db))" "nodeAcceptsNewAssignments (sample_node 2 1 5)"
  by (simp_all add: sample_failover_db_def sample_node_def nodeAcceptsNewAssignments_def NodeStatusOnline_def
      nodeReachedTrafficAssignmentThreshold_def)

theorem failover_evacuates_witness:
  "\<exists>ev w'. TriggerFailover (map snd) sample_order_list (\<lambda>_. 5) 4 6 (NewFailoverManager None) 1
       (node_world sample_failover_db) = (Inr (Some ev), w') \<and> (\<forall>u. placed (tables w') u \<noteq> Some 1)"
proof -
  let ?w = "node_world sample_failover_db" and ?fm = "NewFailoverManager None"
  have w: "tables ?w = sample_failover_db" "faults ?w = []" by (simp_all add: node_world_def)
  have n: "(sample_node 1 2 0)\<lparr>nd_status := NodeStatusUnhealthy\<rparr> \<in> set (rows (nodes (tables ?w)))"
    unfolding w(1) by (simp add: sample_failover_db_def)
  have fm: "1 \<le> MaxConcurrentMigrations (fm_config ?fm)" "AllowCrossGroupFailover (fm_config ?fm)" "\<not> IsFailoverInProgress ?fm 1"
    by (simp_all add: NewFailoverManager_def DefaultFailoverConfig_def IsFailoverInProgress_def)
  have "\<exists>ev w'. TriggerFailover (map snd) sample_order_list (\<lambda>_. 5) 4 6 ?fm 1 ?w = (Inr (Some ev), w')
     \<and> ev_failed_users ev = 0 \<and> (\<forall>u. placed (tables w') u \<noteq> Some 1)"
    by (rule failover_evacuates [where n = "(sample_node 1 2 0)\<lparr>nd_status := NodeStatusUnhealthy\<rparr>" and k = "sample_node 2 1 5"])
       (use w n fm sample_failover_wf sample_failover_params sample_target in \<open>simp_all add: sample_node_def\<close>)
  then show ?thesis by blast
qed

theorem failover_outcome_witness:
  "\<exists>ev w'. TriggerFailover (map snd) sample_order_list (\<lambda>_. 5) 4 6 (NewFailoverManager None) 1
       (node_world sample_failover_db) = (Inr (Some ev), w')
     \<and> ev_affected_users ev = 3 \<and> ev_migrated_users ev + ev_failed_users ev = 3"
proof -
  let ?r = "TriggerFailover (map snd) sample_order_list (\<lambda>_. 5) 4 6 (NewFailoverManager None) 1 (node_world sample_failover_db)"
  have "case fst ?r of Inr (Some ev) \<Rightarrow> True | _ \<Rightarrow> False" by code_simp
  then obtain ev w' where r: "?r = (Inr (Some ev), w')" by (cases ?r) (auto split: sum.splits option.splits)
  have us: "[7, 8, 9] = map na_user_id (filter (\<lambda>a. na_node_id a = 1) (rows (assignments (tables (node_world sample_failover_db)))))"
    by code_simp
  have "wf_nodes (tables (node_world sample_failover_db))" using sample_failover_wf by (simp add: node_world_def)
  from failover_outcome [OF r this sample_failover_params us] r show ?thesis by auto
qed

end
