(* ===== verification/Sessions.thy ===== *)
theory Sessions
  imports Store "HOL-Library.AList"
begin

text \<open>
  Authentication: the session stores of \<open>internal/auth/session.go\<close>, the token service of
  \<open>internal/auth/service.go\<close> and the token blacklist of \<open>token_blacklist.go\<close>.

  A session store is the Go interface \<open>SessionStore\<close>, a record of operations; the database
  store works on the tables \<open>auth_sessions\<close> and \<open>users\<close> (of a user, the columns
  authentication reads), the memory store on a map.  What the token service relies on is the
  locale \<open>session_backend\<close>, and both stores are shown to provide it.

  JSON web tokens and SHA-256 are not under \<open>src\<close>: they are arguments, in the record
  \<open>token_lib\<close>.  No law about them is needed: the theorems are about the
  sessions behind the tokens.  Random bytes are arguments too, or the error of the random source.
\<close>

section \<open>Sessions and their stores\<close>

record session =
  se_id :: string
  se_user_id :: int
  se_kind :: string
  se_credential :: string
  se_expires_at :: time

record 't session_store =
  ss_create :: "time \<Rightarrow> session \<Rightarrow> ('t, unit) op"
  ss_get :: "string \<Rightarrow> ('t, session) op"
  ss_consume :: "string \<Rightarrow> ('t, bool) op"

record account_row =
  ac_id :: int
  ac_enabled :: bool
  ac_password_hash :: string

record auth_db =
  accounts :: "account_row table"
  auth_sessions :: "session table"

type_synonym 'a authop = "(auth_db, 'a) op"

definition DbSessionCreate :: "time \<Rightarrow> session \<Rightarrow> unit authop" where
  "DbSessionCreate now session =
     bindE (delete_where auth_sessions auth_sessions_update (\<lambda>r. se_expires_at r < now)) (\<lambda>_.
     bindE (create auth_sessions auth_sessions_update (\<lambda>a b. se_id a = se_id b) (\<lambda>_. session)) (\<lambda>_. ret ()))"

definition DbSessionGet :: "string \<Rightarrow> session authop" where
  "DbSessionGet i = first auth_sessions (\<lambda>r. se_id r = i)"

definition DbSessionConsume :: "string \<Rightarrow> bool authop" where
  "DbSessionConsume i =
     bindE (delete_where auth_sessions auth_sessions_update (\<lambda>r. se_id r = i)) (\<lambda>n. ret (n = 1))"

definition databaseSessionStore :: "auth_db session_store" where
  "databaseSessionStore = \<lparr>ss_create = DbSessionCreate, ss_get = DbSessionGet, ss_consume = DbSessionConsume\<rparr>"

type_synonym session_map = "string \<rightharpoonup> session"

definition MemSessionCreate :: "time \<Rightarrow> session \<Rightarrow> (session_map, unit) op" where
  "MemSessionCreate now session w =
     (let live = (\<lambda>i. case tables w i of None \<Rightarrow> None | Some e \<Rightarrow> if se_expires_at e < now then None else Some e) in
      (Inr (), w\<lparr>tables := live(se_id session \<mapsto> session)\<rparr>))"

definition MemSessionGet :: "string \<Rightarrow> (session_map, session) op" where
  "MemSessionGet i w = (case tables w i of None \<Rightarrow> (Inl (ErrText ''session revoked''), w) | Some s \<Rightarrow> (Inr s, w))"

definition MemSessionConsume :: "string \<Rightarrow> (session_map, bool) op" where
  "MemSessionConsume i w = (Inr (tables w i \<noteq> None), w\<lparr>tables := (tables w)(i := None)\<rparr>)"

definition memorySessionStore :: "session_map session_store" where
  "memorySessionStore = \<lparr>ss_create = MemSessionCreate, ss_get = MemSessionGet, ss_consume = MemSessionConsume\<rparr>"

section \<open>The token blacklist\<close>

record blacklisted_token =
  bt_hash :: string
  bt_expires_at :: time
  bt_revoked_at :: time

type_synonym blacklist = "(string \<times> blacklisted_token) list"

definition BlacklistCleanup :: "time \<Rightarrow> blacklist \<Rightarrow> blacklist" where
  "BlacklistCleanup now tb = filter (\<lambda>(h, t). \<not> bt_expires_at t < now) tb"

definition BlacklistRevokeToken :: "(string \<Rightarrow> string) \<Rightarrow> time \<Rightarrow> string \<Rightarrow> time \<Rightarrow> blacklist \<Rightarrow> blacklist" where
  "BlacklistRevokeToken hashToken now token expiresAt tb = AList.update (hashToken token)
     \<lparr>bt_hash = hashToken token, bt_expires_at = expiresAt, bt_revoked_at = now\<rparr> tb"

definition IsRevoked :: "(string \<Rightarrow> string) \<Rightarrow> time \<Rightarrow> string \<Rightarrow> blacklist \<Rightarrow> bool" where
  "IsRevoked hashToken now token tb = (case map_of tb (hashToken token) of None \<Rightarrow> False
     | Some bt \<Rightarrow> \<not> bt_expires_at bt < now)"

definition GetRevokedCount :: "blacklist \<Rightarrow> int" where
  "GetRevokedCount tb = int (length tb)"

definition BlacklistClear :: "blacklist \<Rightarrow> blacklist" where
  "BlacklistClear tb = []"

definition GetRevokedAt :: "(string \<Rightarrow> string) \<Rightarrow> string \<Rightarrow> blacklist \<Rightarrow> time" where
  "GetRevokedAt hashToken token tb = (case map_of tb (hashToken token) of None \<Rightarrow> zero_time | Some bt \<Rightarrow> bt_revoked_at bt)"

definition RemoveToken :: "(string \<Rightarrow> string) \<Rightarrow> string \<Rightarrow> blacklist \<Rightarrow> blacklist" where
  "RemoveToken hashToken token tb = AList.delete (hashToken token) tb"

section \<open>The token service\<close>

record claims =
  cl_token_type :: string
  cl_user_id :: int
  cl_username :: string
  cl_role :: string
  cl_id :: string
  cl_expires_at :: time
  cl_issued_at :: time
  cl_subject :: string

text \<open>
  \<open>tl_sign secret claims\<close> is the HS256 token with these claims; \<open>tl_parse secret now
  token\<close> its verified claims (signature, HS256 method, expiry required and not passed).  A
  refresh token carries the claims of an access token without user name, role and subject.
  \<open>tl_sha256_hex\<close> is the hexadecimal SHA-256 digest.
\<close>

record token_lib =
  tl_sign :: "string \<Rightarrow> claims \<Rightarrow> err + string"
  tl_parse :: "string \<Rightarrow> time \<Rightarrow> string \<Rightarrow> err + claims"
  tl_sha256_hex :: "string \<Rightarrow> string"

record 't auth_service =
  as_secret :: string
  as_token_expiry :: int
  as_refresh_expiry :: int
  as_blacklist :: "(time \<Rightarrow> string \<Rightarrow> bool) option"
  as_sessions :: "'t session_store"
  as_users :: "(int \<Rightarrow> ('t, account_row) op) option"

definition NewAuthService :: "string \<Rightarrow> int \<Rightarrow> int \<Rightarrow> session_map auth_service" where
  "NewAuthService secret tokenExpiry refreshExpiry =
     \<lparr>as_secret = secret, as_token_expiry = (if tokenExpiry = 0 then 24 * hour else tokenExpiry),
      as_refresh_expiry = (if refreshExpiry = 0 then 7 * 24 * hour else refreshExpiry),
      as_blacklist = None, as_sessions = memorySessionStore, as_users = None\<rparr>"

definition credentialFingerprint :: "token_lib \<Rightarrow> string \<Rightarrow> string" where
  "credentialFingerprint lib passwordHash = tl_sha256_hex lib passwordHash"

definition newSession :: "token_lib \<Rightarrow> 't auth_service \<Rightarrow> time \<Rightarrow> err + nat list \<Rightarrow> int \<Rightarrow> string \<Rightarrow> int
    \<Rightarrow> string option \<Rightarrow> ('t, session) op" where
  "newSession lib s now random userID kind expiry expectedPassword =
     (if userID \<le> 0 then raise (ErrText ''invalid session user'')
      else (case random of Inl e \<Rightarrow> raise e | Inr bytes \<Rightarrow>
      let session = \<lparr>se_id = hex_encode bytes, se_user_id = userID, se_kind = kind, se_credential = [],
            se_expires_at = now + expiry\<rparr> in
      bindE (case as_users s of None \<Rightarrow> ret session
         | Some getByID \<Rightarrow>
           bindE (getByID userID) (\<lambda>user.
           bindE (guardE (ac_enabled user) (ErrText ''user disabled'')) (\<lambda>_.
           bindE (guardE (case expectedPassword of None \<Rightarrow> True | Some p \<Rightarrow> p = ac_password_hash user)
             (ErrText ''credentials changed during login'')) (\<lambda>_.
           ret (session\<lparr>se_credential := credentialFingerprint lib (ac_password_hash user)\<rparr>))))) (\<lambda>session.
      bindE (ss_create (as_sessions s) now session) (\<lambda>_. ret session))))"

definition validateSession :: "token_lib \<Rightarrow> 't auth_service \<Rightarrow> time \<Rightarrow> string \<Rightarrow> int \<Rightarrow> string \<Rightarrow> ('t, unit) op" where
  "validateSession lib s now i userID kind =
     (if i = [] \<or> userID \<le> 0 then raise (ErrText ''missing session'')
      else
      bindE (ss_get (as_sessions s) i) (\<lambda>session.
      if se_user_id session \<noteq> userID \<or> se_kind session \<noteq> kind \<or> \<not> now < se_expires_at session
        then raise (ErrText ''invalid session'')
      else (case as_users s of None \<Rightarrow> ret ()
        | Some getByID \<Rightarrow>
          bindE (getByID userID) (\<lambda>user.
          if \<not> ac_enabled user \<or> se_credential session \<noteq> credentialFingerprint lib (ac_password_hash user)
            then raise (ErrText ''credentials changed or user disabled'')
          else ret ()))))"

definition consumeSession :: "'t auth_service \<Rightarrow> string \<Rightarrow> ('t, unit) op" where
  "consumeSession s i =
     bindE (ss_consume (as_sessions s) i) (\<lambda>ok. guardE ok (ErrText ''session already consumed or revoked''))"

definition lift_auth :: "err + 'a \<Rightarrow> ('t, 'a) op" where
  "lift_auth r = (case r of Inl e \<Rightarrow> raise e | Inr x \<Rightarrow> ret x)"

definition IsTokenBlacklisted :: "'t auth_service \<Rightarrow> time \<Rightarrow> string \<Rightarrow> bool" where
  "IsTokenBlacklisted s now token = (case as_blacklist s of None \<Rightarrow> False | Some revoked \<Rightarrow> revoked now token)"

definition signAccessToken :: "token_lib \<Rightarrow> 't auth_service \<Rightarrow> time \<Rightarrow> string \<Rightarrow> int \<Rightarrow> string \<Rightarrow> string \<Rightarrow> int \<Rightarrow> string
    \<Rightarrow> err + string" where
  "signAccessToken lib s now sessionID userID username role expiry tokenType = tl_sign lib (as_secret s)
     \<lparr>cl_token_type = tokenType, cl_user_id = userID, cl_username = username, cl_role = role, cl_id = sessionID,
      cl_expires_at = now + expiry, cl_issued_at = now, cl_subject = username\<rparr>"

definition signRefreshToken :: "token_lib \<Rightarrow> 't auth_service \<Rightarrow> time \<Rightarrow> string \<Rightarrow> int \<Rightarrow> err + string" where
  "signRefreshToken lib s now sessionID userID = tl_sign lib (as_secret s)
     \<lparr>cl_token_type = ''refresh'', cl_user_id = userID, cl_username = [], cl_role = [], cl_id = sessionID,
      cl_expires_at = now + as_refresh_expiry s, cl_issued_at = now, cl_subject = []\<rparr>"

definition GenerateTokenWithExpiry :: "token_lib \<Rightarrow> 't auth_service \<Rightarrow> time \<Rightarrow> err + nat list \<Rightarrow> int \<Rightarrow> string \<Rightarrow> string
    \<Rightarrow> int \<Rightarrow> string option \<Rightarrow> ('t, string) op" where
  "GenerateTokenWithExpiry lib s now random userID username role expiry expectedPassword =
     (let expiry = (if expiry \<le> 0 then as_token_expiry s else expiry) in
      bindE (newSession lib s now random userID ''login'' expiry expectedPassword) (\<lambda>session.
        lift_auth (signAccessToken lib s now (se_id session) userID username role expiry ''access'')))"

definition GenerateToken :: "token_lib \<Rightarrow> 't auth_service \<Rightarrow> time \<Rightarrow> err + nat list \<Rightarrow> int \<Rightarrow> string \<Rightarrow> string
    \<Rightarrow> ('t, string) op" where
  "GenerateToken lib s now random userID username role =
     GenerateTokenWithExpiry lib s now random userID username role (as_token_expiry s) None"

definition GenerateRefreshToken :: "token_lib \<Rightarrow> 't auth_service \<Rightarrow> time \<Rightarrow> err + nat list \<Rightarrow> int \<Rightarrow> ('t, string) op" where
  "GenerateRefreshToken lib s now random userID =
     bindE (newSession lib s now random userID ''login'' (as_refresh_expiry s) None) (\<lambda>session.
       lift_auth (signRefreshToken lib s now (se_id session) userID))"

definition validateClaims :: "token_lib \<Rightarrow> 't auth_service \<Rightarrow> time \<Rightarrow> string \<Rightarrow> string \<Rightarrow> string \<Rightarrow> ('t, claims) op" where
  "validateClaims lib s now token tokenType sessionKind = (case tl_parse lib (as_secret s) now token of
      Inl _ \<Rightarrow> raise (UnauthorizedError ''invalid token'')
    | Inr claims \<Rightarrow>
      if cl_token_type claims \<noteq> tokenType then raise (UnauthorizedError ''invalid token claims'')
      else if IsTokenBlacklisted s now token then raise (UnauthorizedError ''token revoked'')
      else
      bindE (map_err (\<lambda>_. UnauthorizedError ''invalid or revoked session'')
        (validateSession lib s now (cl_id claims) (cl_user_id claims) sessionKind)) (\<lambda>_. ret claims))"

definition ValidateToken :: "token_lib \<Rightarrow> 't auth_service \<Rightarrow> time \<Rightarrow> string \<Rightarrow> ('t, claims) op" where
  "ValidateToken lib s now token = validateClaims lib s now token ''access'' ''login''"

definition ValidateRefreshToken :: "token_lib \<Rightarrow> 't auth_service \<Rightarrow> time \<Rightarrow> string \<Rightarrow> ('t, claims) op" where
  "ValidateRefreshToken lib s now token = (case tl_parse lib (as_secret s) now token of
      Inl _ \<Rightarrow> raise (UnauthorizedError ''invalid refresh token'')
    | Inr claims \<Rightarrow>
      if cl_token_type claims \<noteq> ''refresh'' then raise (UnauthorizedError ''invalid refresh token claims'')
      else if IsTokenBlacklisted s now token then raise (UnauthorizedError ''token revoked'')
      else
      bindE (map_err (\<lambda>_. UnauthorizedError ''invalid or revoked session'')
        (validateSession lib s now (cl_id claims) (cl_user_id claims) ''login'')) (\<lambda>_. ret claims))"

definition GenerateTokenPair :: "token_lib \<Rightarrow> 't auth_service \<Rightarrow> time \<Rightarrow> err + nat list \<Rightarrow> int \<Rightarrow> string \<Rightarrow> string
    \<Rightarrow> int \<Rightarrow> string option \<Rightarrow> ('t, string \<times> string) op" where
  "GenerateTokenPair lib s now random userID username role expiry expectedPassword =
     (let expiry = (if expiry \<le> 0 then as_token_expiry s else expiry);
          lifetime = (if as_refresh_expiry s < expiry then expiry else as_refresh_expiry s) in
      bindE (newSession lib s now random userID ''login'' lifetime expectedPassword) (\<lambda>session.
      bindE (lift_auth (signAccessToken lib s now (se_id session) userID username role expiry ''access'')) (\<lambda>access.
      bindE (lift_auth (signRefreshToken lib s now (se_id session) userID)) (\<lambda>refresh.
        ret (access, refresh)))))"

definition AuthRevokeToken :: "token_lib \<Rightarrow> 't auth_service \<Rightarrow> time \<Rightarrow> string \<Rightarrow> ('t, unit) op" where
  "AuthRevokeToken lib s now token =
     bindE (ValidateToken lib s now token) (\<lambda>claims. consumeSession s (cl_id claims))"

definition ConsumeRefreshToken :: "token_lib \<Rightarrow> 't auth_service \<Rightarrow> time \<Rightarrow> string \<Rightarrow> ('t, unit) op" where
  "ConsumeRefreshToken lib s now token =
     bindE (ValidateRefreshToken lib s now token) (\<lambda>claims. consumeSession s (cl_id claims))"

definition GenerateLoginChallenge :: "token_lib \<Rightarrow> 't auth_service \<Rightarrow> time \<Rightarrow> err + nat list \<Rightarrow> int \<Rightarrow> string \<Rightarrow> ('t, string) op" where
  "GenerateLoginChallenge lib s now random userID expectedPassword =
     bindE (newSession lib s now random userID ''2fa'' (5 * minute) (Some expectedPassword)) (\<lambda>session.
       lift_auth (signAccessToken lib s now (se_id session) userID [] [] (5 * minute) ''2fa''))"

definition challengeClaims :: "token_lib \<Rightarrow> 't auth_service \<Rightarrow> time \<Rightarrow> string \<Rightarrow> int \<Rightarrow> ('t, claims) op" where
  "challengeClaims lib s now token userID =
     bindE (validateClaims lib s now token ''2fa'' ''2fa'') (\<lambda>claims.
     bindE (guardE (cl_user_id claims = userID) (UnauthorizedError ''challenge user mismatch'')) (\<lambda>_. ret claims))"

definition ValidateLoginChallenge :: "token_lib \<Rightarrow> 't auth_service \<Rightarrow> time \<Rightarrow> string \<Rightarrow> int \<Rightarrow> ('t, unit) op" where
  "ValidateLoginChallenge lib s now token userID = bindE (challengeClaims lib s now token userID) (\<lambda>_. ret ())"

definition ConsumeLoginChallenge :: "token_lib \<Rightarrow> 't auth_service \<Rightarrow> time \<Rightarrow> string \<Rightarrow> int \<Rightarrow> ('t, unit) op" where
  "ConsumeLoginChallenge lib s now token userID =
     bindE (challengeClaims lib s now token userID) (\<lambda>claims. consumeSession s (cl_id claims))"

text \<open>\<open>userRepository.GetByID\<close>, on the columns authentication reads.\<close>

definition AccountGetByID :: "int \<Rightarrow> account_row authop" where
  "AccountGetByID i = map_err (\<lambda>e. if e = Gorm ErrRecordNotFound then NotFoundError ''user'' i
       else DatabaseError ''failed to get user'' e)
     (first accounts (\<lambda>u. ac_id u = i))"

section \<open>What the token service relies on\<close>

text \<open>
  \<open>holds t i\<close> is the session stored under \<open>i\<close>.  Reads change nothing; a
  consumption that reports success removed exactly its session, which was there; a creation
  stores its session and may drop others, never change them.  Whatever fails, no session
  is added or changed.
\<close>

locale session_backend =
  fixes store :: "'t session_store" and holds :: "'t \<Rightarrow> string \<Rightarrow> session option" and valid :: "'t \<Rightarrow> bool"
  assumes get: "valid t \<Longrightarrow> wpt (ss_get store i) (\<lambda>se t'. t' = t \<and> holds t i = Some se) (\<lambda>_ t'. t' = t) t"
    and consume: "valid t \<Longrightarrow> wpt (ss_consume store i)
      (\<lambda>ok t'. valid t' \<and> (ok \<longleftrightarrow> holds t i \<noteq> None) \<and> holds t' = (holds t)(i := None)) (\<lambda>_ t'. t' = t) t"
    and create: "valid t \<Longrightarrow> wpt (ss_create store now se)
      (\<lambda>_ t'. valid t' \<and> holds t' (se_id se) = Some se \<and> (\<forall>i. i \<noteq> se_id se \<longrightarrow> holds t' i \<in> {None, holds t i}))
      (\<lambda>_ t'. valid t' \<and> (\<forall>i. holds t' i \<in> {None, holds t i})) t"
begin

lemma get_absent: "valid t \<Longrightarrow> holds t i = None \<Longrightarrow> wpt (ss_get store i) (\<lambda>_ _. False) (\<lambda>_ t'. t' = t) t"
  by (rule wpt_mono [OF get]) auto

end

text \<open>
  A service on such a store whose user repository reads accounts.  \<open>account t u\<close> is the
  account of user \<open>u\<close>.
\<close>

locale token_backend = session_backend store holds valid
  for store :: "'t session_store" and holds :: "'t \<Rightarrow> string \<Rightarrow> session option" and valid :: "'t \<Rightarrow> bool" +
  fixes svc :: "'t auth_service" and account :: "'t \<Rightarrow> int \<Rightarrow> account_row option"
  assumes svc_store: "as_sessions svc = store"
    and users_read: "as_users svc = Some g \<Longrightarrow> wpt (g u) (\<lambda>a t'. t' = t \<and> account t u = Some a) (\<lambda>_ t'. t' = t) t"
begin

definition live_session :: "token_lib \<Rightarrow> time \<Rightarrow> string \<Rightarrow> int \<Rightarrow> string \<Rightarrow> 't \<Rightarrow> bool" where
  "live_session lib now i u kind t \<longleftrightarrow> (\<exists>se. holds t i = Some se \<and> se_user_id se = u \<and> se_kind se = kind \<and> now < se_expires_at se
     \<and> (as_users svc \<noteq> None \<longrightarrow> (\<exists>a. account t u = Some a \<and> ac_enabled a
          \<and> se_credential se = tl_sha256_hex lib (ac_password_hash a))))"

lemma validateSession_wpt:
  assumes "valid t"
  shows "wpt (validateSession lib svc now i u kind) (\<lambda>_ t'. t' = t \<and> live_session lib now i u kind t) (\<lambda>_ t'. t' = t) t"
proof (cases "as_users svc")
  case None
  then show ?thesis
    unfolding validateSession_def svc_store
    by (auto intro!: wpt_rules wpt_mono [OF get [OF assms]] simp: live_session_def)
next
  case (Some g)
  have "wpt (g u) (\<lambda>a t'. t' = t \<and> account t u = Some a) (\<lambda>_ t'. t' = t) t" by (rule users_read [OF Some])
  then show ?thesis
    unfolding validateSession_def svc_store Some
    by (auto intro!: wpt_rules wpt_mono [OF get [OF assms]] elim!: wpt_mono simp: live_session_def Some credentialFingerprint_def)
qed

lemma validateClaims_wpt:
  assumes "valid t"
  shows "wpt (validateClaims lib svc now token ty kind) (\<lambda>cl t'. t' = t \<and> tl_parse lib (as_secret svc) now token = Inr cl
      \<and> cl_token_type cl = ty \<and> live_session lib now (cl_id cl) (cl_user_id cl) kind t) (\<lambda>_ t'. t' = t) t"
  unfolding validateClaims_def
  by (auto intro!: wpt_rules wpt_mono [OF validateSession_wpt [OF assms]] split: sum.split)

lemma ValidateRefreshToken_wpt:
  assumes "valid t"
  shows "wpt (ValidateRefreshToken lib svc now token) (\<lambda>cl t'. t' = t \<and> tl_parse lib (as_secret svc) now token = Inr cl
      \<and> cl_token_type cl = ''refresh'' \<and> live_session lib now (cl_id cl) (cl_user_id cl) ''login'' t) (\<lambda>_ t'. t' = t) t"
  unfolding ValidateRefreshToken_def
  by (auto intro!: wpt_rules wpt_mono [OF validateSession_wpt [OF assms]] split: sum.split)

lemma consumeSession_wpt:
  assumes "valid t"
  shows "wpt (consumeSession svc i) (\<lambda>_ t'. valid t' \<and> holds t i \<noteq> None \<and> holds t' = (holds t)(i := None))
     (\<lambda>_ t'. valid t' \<and> holds t' = holds t) t"
  unfolding consumeSession_def svc_store
  by (rule wpt_bind, rule wpt_mono [OF consume [OF assms]]) (use assms in \<open>auto intro!: wpt_rules\<close>)

lemma newSession_wpt:
  assumes "valid t"
  shows "wpt (newSession lib svc now random u kind expiry pw)
     (\<lambda>se t'. valid t' \<and> holds t' (se_id se) = Some se \<and> (\<exists>bytes. random = Inr bytes \<and> se_id se = hex_encode bytes)
        \<and> (\<forall>i. i \<noteq> se_id se \<longrightarrow> holds t' i \<in> {None, holds t i}))
     (\<lambda>_ t'. valid t' \<and> (\<forall>i. holds t' i \<in> {None, holds t i})) t"
proof (cases random)
  case (Inl e)
  with assms show ?thesis unfolding newSession_def by (auto intro!: wpt_rules)
next
  case (Inr bytes)
  have c: "wpt (bindE (ss_create store now se) (\<lambda>_. ret se))
     (\<lambda>se t'. valid t' \<and> holds t' (se_id se) = Some se \<and> (\<exists>bytes. random = Inr bytes \<and> se_id se = hex_encode bytes)
        \<and> (\<forall>i. i \<noteq> se_id se \<longrightarrow> holds t' i \<in> {None, holds t i}))
     (\<lambda>_ t'. valid t' \<and> (\<forall>i. holds t' i \<in> {None, holds t i})) t" if "se_id se = hex_encode bytes" for se
    by (rule wpt_bind, rule wpt_mono [OF create [OF assms]]) (use that Inr in \<open>auto intro!: wpt_rules\<close>)
  show ?thesis
  proof (cases "as_users svc")
    case None
    with Inr assms c show ?thesis
      by (auto simp: newSession_def svc_store Let_def bind_ret intro!: c wpt_raise)
  next
    case (Some g)
    have "wpt (g u) (\<lambda>a t'. t' = t \<and> account t u = Some a) (\<lambda>_ t'. t' = t) t" by (rule users_read [OF Some])
    with Inr assms Some show ?thesis
      unfolding newSession_def svc_store
      by (auto intro!: wpt_rules wpt_mono [OF create [OF assms]] elim!: wpt_mono simp: Let_def)
  qed
qed

text \<open>Operations after which a session that was missing is still missing.\<close>

definition keeps_absent :: "string \<Rightarrow> ('t, 'a) op \<Rightarrow> bool" where
  "keeps_absent i m \<longleftrightarrow> (\<forall>t. valid t \<longrightarrow> holds t i = None \<longrightarrow>
     wpt m (\<lambda>_ t'. valid t' \<and> holds t' i = None) (\<lambda>_ t'. valid t' \<and> holds t' i = None) t)"

lemma keeps_absent_bind: "keeps_absent i m \<Longrightarrow> (\<And>x. keeps_absent i (f x)) \<Longrightarrow> keeps_absent i (bindE m f)"
  unfolding keeps_absent_def by (intro allI impI wpt_bind) (rule wpt_mono, blast+)

lemma keeps_absent_pure: "keeps_absent i (ret x)" "keeps_absent i (lift_auth r)" "keeps_absent i (guardE b e)"
  by (auto simp: keeps_absent_def lift_auth_def guardE_def intro!: wpt_rules split: sum.split)

lemma keeps_absent_claims: "keeps_absent i (validateClaims lib svc now token ty kind)"
    "keeps_absent i (ValidateRefreshToken lib svc now token)"
  unfolding keeps_absent_def
  by (auto intro!: wpt_mono [OF validateClaims_wpt] wpt_mono [OF ValidateRefreshToken_wpt])

lemma keeps_absent_validate: "keeps_absent i (ValidateToken lib svc now token)"
  by (simp add: ValidateToken_def keeps_absent_claims)

lemma keeps_absent_consume: "keeps_absent i (consumeSession svc j)"
  unfolding keeps_absent_def by (auto intro!: wpt_mono [OF consumeSession_wpt])

lemma keeps_absent_new:
  "(\<And>bytes. random = Inr bytes \<Longrightarrow> hex_encode bytes \<noteq> i) \<Longrightarrow> keeps_absent i (newSession lib svc now random u kind expiry pw)"
  unfolding keeps_absent_def by (intro allI impI) (rule wpt_mono [OF newSession_wpt], auto dest!: spec [where x = i])

lemmas keeps_absent_rules = keeps_absent_bind keeps_absent_pure keeps_absent_claims keeps_absent_consume keeps_absent_new

lemma keeps_absent_api:
  assumes "\<And>bytes. random = Inr bytes \<Longrightarrow> hex_encode bytes \<noteq> i"
  shows "keeps_absent i (GenerateTokenPair lib svc now random u n r e pw)"
    "keeps_absent i (GenerateTokenWithExpiry lib svc now random u n r e pw)"
    "keeps_absent i (GenerateRefreshToken lib svc now random u)"
    "keeps_absent i (GenerateLoginChallenge lib svc now random u p)"
    "keeps_absent i (AuthRevokeToken lib svc now token)"
    "keeps_absent i (ConsumeRefreshToken lib svc now token)"
    "keeps_absent i (ConsumeLoginChallenge lib svc now token u)"
  unfolding GenerateTokenPair_def GenerateTokenWithExpiry_def GenerateRefreshToken_def GenerateLoginChallenge_def
    AuthRevokeToken_def ConsumeRefreshToken_def ConsumeLoginChallenge_def ValidateToken_def challengeClaims_def Let_def
  using assms by (auto intro!: keeps_absent_rules)

lemma absent_rejected:
  assumes "valid t" and "holds t i = None" and "\<And>cl. tl_parse lib (as_secret svc) now token = Inr cl \<Longrightarrow> cl_id cl = i"
  shows "wpt (ValidateToken lib svc now token) (\<lambda>_ _. False) (\<lambda>_ t'. t' = t) t"
    "wpt (ValidateRefreshToken lib svc now token) (\<lambda>_ _. False) (\<lambda>_ t'. t' = t) t"
    "wpt (ConsumeRefreshToken lib svc now token) (\<lambda>_ _. False) (\<lambda>_ t'. t' = t) t"
    "wpt (AuthRevokeToken lib svc now token) (\<lambda>_ _. False) (\<lambda>_ t'. t' = t) t"
    "wpt (ConsumeLoginChallenge lib svc now token u) (\<lambda>_ _. False) (\<lambda>_ t'. t' = t) t"
    "wpt (consumeSession svc i) (\<lambda>_ _. False) (\<lambda>_ t'. valid t' \<and> holds t' = holds t) t"
proof -
  have n: "\<not> live_session lib now (cl_id cl) u kind t" if "tl_parse lib (as_secret svc) now token = Inr cl" for cl u kind
    using assms(2,3) that by (simp add: live_session_def)
  show v: "wpt (ValidateToken lib svc now token) (\<lambda>_ _. False) (\<lambda>_ t'. t' = t) t"
    unfolding ValidateToken_def by (rule wpt_mono [OF validateClaims_wpt [OF assms(1)]]) (auto simp: n)
  show r: "wpt (ValidateRefreshToken lib svc now token) (\<lambda>_ _. False) (\<lambda>_ t'. t' = t) t"
    by (rule wpt_mono [OF ValidateRefreshToken_wpt [OF assms(1)]]) (auto simp: n)
  show "wpt (ConsumeRefreshToken lib svc now token) (\<lambda>_ _. False) (\<lambda>_ t'. t' = t) t"
    unfolding ConsumeRefreshToken_def by (rule wpt_bind, rule wpt_mono [OF r]) auto
  show "wpt (AuthRevokeToken lib svc now token) (\<lambda>_ _. False) (\<lambda>_ t'. t' = t) t"
    unfolding AuthRevokeToken_def by (rule wpt_bind, rule wpt_mono [OF v]) auto
  show "wpt (ConsumeLoginChallenge lib svc now token u) (\<lambda>_ _. False) (\<lambda>_ t'. t' = t) t"
    unfolding ConsumeLoginChallenge_def challengeClaims_def
    by (rule wpt_bind, rule wpt_bind, rule wpt_mono [OF validateClaims_wpt [OF assms(1)]]) (auto simp: n)
  show "wpt (consumeSession svc i) (\<lambda>_ _. False) (\<lambda>_ t'. valid t' \<and> holds t' = holds t) t"
    by (rule wpt_mono [OF consumeSession_wpt [OF assms(1)]]) (use assms(2) in auto)
qed

end

section \<open>Both stores provide it\<close>

interpretation memory_sessions: session_backend memorySessionStore "\<lambda>t. t" "\<lambda>_. True"
  by unfold_locales
     (auto simp: memorySessionStore_def wpt_def MemSessionGet_def MemSessionConsume_def MemSessionCreate_def Let_def
       split: option.splits)

definition db_holds :: "auth_db \<Rightarrow> string \<Rightarrow> session option" where
  "db_holds d i = find (\<lambda>r. se_id r = i) (rows (auth_sessions d))"

definition sessions_keyed :: "auth_db \<Rightarrow> bool" where
  "sessions_keyed d \<longleftrightarrow> distinct (map se_id (rows (auth_sessions d)))"

lemma find_filter_other: "find (\<lambda>r. k r = i) (filter (\<lambda>r. k r \<noteq> j) xs) = (if i = j then None else find (\<lambda>r. k r = i) xs)"
  by (induction xs) auto

lemma find_filter_sub:
  "distinct (map k xs) \<Longrightarrow> find (\<lambda>r. k r = i) (filter p xs) \<in> {None, find (\<lambda>r. k r = i) xs}"
proof (induction xs)
  case (Cons x xs)
  have "find (\<lambda>r. k r = i) (filter p xs) = None" if "k x = i"
    using Cons.prems that by (auto simp: find_None_all) (metis image_eqI)
  with Cons show ?case by auto
qed simp

lemma find_app: "find P (xs @ ys) = (case find P xs of None \<Rightarrow> find P ys | Some x \<Rightarrow> Some x)"
  by (induction xs) auto

lemma count_key:
  assumes "distinct (map k (rows t))"
  shows "count_rows (\<lambda>r. k r = i) t = 1 \<longleftrightarrow> find (\<lambda>r. k r = i) (rows t) \<noteq> None"
proof -
  have "length (filter (\<lambda>r. k r = i) (rows t)) \<le> 1" using filter_distinct_key_le1 [OF assms, of i "\<lambda>_. True"] by simp
  moreover have "filter (\<lambda>r. k r = i) (rows t) = [] \<longleftrightarrow> find (\<lambda>r. k r = i) (rows t) = None"
    by (auto simp: find_None_all filter_empty_conv)
  ultimately show ?thesis by (cases "filter (\<lambda>r. k r = i) (rows t)") (auto simp: count_rows_def)
qed

interpretation database_sessions: session_backend databaseSessionStore db_holds sessions_keyed
proof
  fix t :: auth_db and i :: string and now se
  assume v: "sessions_keyed t"
  note k = v [unfolded sessions_keyed_def]
  show "wpt (ss_get databaseSessionStore i) (\<lambda>se t'. t' = t \<and> db_holds t i = Some se) (\<lambda>_ t'. t' = t) t"
    by (auto simp: databaseSessionStore_def DbSessionGet_def db_holds_def intro!: wpt_rules)
  show "wpt (ss_consume databaseSessionStore i)
      (\<lambda>ok t'. sessions_keyed t' \<and> (ok \<longleftrightarrow> db_holds t i \<noteq> None) \<and> db_holds t' = (db_holds t)(i := None)) (\<lambda>_ t'. t' = t) t"
    using k
    by (auto simp: databaseSessionStore_def DbSessionConsume_def db_holds_def sessions_keyed_def del_rows_def count_key
        find_filter_other fun_eq_iff distinct_map_filter intro!: wpt_rules)
  show "wpt (ss_create databaseSessionStore now se)
      (\<lambda>_ t'. sessions_keyed t' \<and> db_holds t' (se_id se) = Some se \<and> (\<forall>i. i \<noteq> se_id se \<longrightarrow> db_holds t' i \<in> {None, db_holds t i}))
      (\<lambda>_ t'. sessions_keyed t' \<and> (\<forall>i. db_holds t' i \<in> {None, db_holds t i})) t"
  proof -
    let ?t = "t\<lparr>auth_sessions := del_rows (\<lambda>r. se_expires_at r < now) (auth_sessions t)\<rparr>"
    have k1: "sessions_keyed ?t" using k by (simp add: sessions_keyed_def del_rows_def distinct_map_filter)
    have s1: "db_holds ?t i \<in> {None, db_holds t i}" for i
      using find_filter_sub [OF k, of i "\<lambda>r. \<not> se_expires_at r < now"] by (simp add: db_holds_def del_rows_def)
    have add: "db_holds (?t\<lparr>auth_sessions := add_row (\<lambda>_. se) (auth_sessions ?t)\<rparr>) i
        = (case db_holds ?t i of None \<Rightarrow> if se_id se = i then Some se else None | Some x \<Rightarrow> Some x)" for i
      by (simp add: db_holds_def add_row_def find_app split: option.split)
    have new: "db_holds ?t (se_id se) = None"
      if "\<And>r'. r' \<in> set (rows (auth_sessions ?t)) \<Longrightarrow> se_id se \<noteq> se_id r'"
      using that unfolding db_holds_def find_None_all by metis
    have "wpt (create auth_sessions auth_sessions_update (\<lambda>a b. se_id a = se_id b) (\<lambda>_. se))
      (\<lambda>_ t'. sessions_keyed t' \<and> db_holds t' (se_id se) = Some se \<and> (\<forall>i. i \<noteq> se_id se \<longrightarrow> db_holds t' i \<in> {None, db_holds t i}))
      (\<lambda>_ t'. sessions_keyed t' \<and> (\<forall>i. db_holds t' i \<in> {None, db_holds t i})) ?t"
    proof (rule wpt_create, goal_cases)
      case 3
      have "sessions_keyed (?t\<lparr>auth_sessions := add_row (\<lambda>_. se) (auth_sessions ?t)\<rparr>)"
        using k1 3 by (auto simp: sessions_keyed_def add_row_def)
      moreover have "db_holds (?t\<lparr>auth_sessions := add_row (\<lambda>_. se) (auth_sessions ?t)\<rparr>) i \<in> {None, db_holds t i}" if "i \<noteq> se_id se" for i
        using s1 [of i] that unfolding add by (auto split: option.split)
      ultimately show ?case using new [OF 3] add [of "se_id se"] by simp
    qed (use k1 s1 in blast)+
    then have "wpt (bindE (create auth_sessions auth_sessions_update (\<lambda>a b. se_id a = se_id b) (\<lambda>_. se)) (\<lambda>_. ret ()))
      (\<lambda>_ t'. sessions_keyed t' \<and> db_holds t' (se_id se) = Some se \<and> (\<forall>i. i \<noteq> se_id se \<longrightarrow> db_holds t' i \<in> {None, db_holds t i}))
      (\<lambda>_ t'. sessions_keyed t' \<and> (\<forall>i. db_holds t' i \<in> {None, db_holds t i})) ?t"
      by - (rule wpt_bind, erule wpt_mono, rule wpt_ret, assumption+)
    then have "wpt (DbSessionCreate now se)
      (\<lambda>_ t'. sessions_keyed t' \<and> db_holds t' (se_id se) = Some se \<and> (\<forall>i. i \<noteq> se_id se \<longrightarrow> db_holds t' i \<in> {None, db_holds t i}))
      (\<lambda>_ t'. sessions_keyed t' \<and> (\<forall>i. db_holds t' i \<in> {None, db_holds t i})) t"
      unfolding DbSessionCreate_def using v by - (rule wpt_bind, rule wpt_delete, simp, assumption)
    then show ?thesis by (simp add: databaseSessionStore_def)
  qed
qed

section \<open>Sessions are consumed once\<close>

text \<open>
  The service as \<open>cmd/v/main.go\<close> builds it: sessions in the database, accounts read
  from the user repository.
\<close>

definition production_service :: "string \<Rightarrow> int \<Rightarrow> int \<Rightarrow> auth_db auth_service" where
  "production_service secret tokenExpiry refreshExpiry =
     \<lparr>as_secret = secret, as_token_expiry = (if tokenExpiry = 0 then 24 * hour else tokenExpiry),
      as_refresh_expiry = (if refreshExpiry = 0 then 7 * 24 * hour else refreshExpiry),
      as_blacklist = None, as_sessions = databaseSessionStore, as_users = Some AccountGetByID\<rparr>"

definition db_account :: "auth_db \<Rightarrow> int \<Rightarrow> account_row option" where
  "db_account d u = find (\<lambda>a. ac_id a = u) (rows (accounts d))"

interpretation production: token_backend databaseSessionStore db_holds sessions_keyed
  "production_service secret te re" db_account for secret te re
  by unfold_locales
     (auto simp: production_service_def AccountGetByID_def db_account_def intro!: wpt_rules)

text \<open>The calls of the handlers on the service, with session identifiers other than \<open>i\<close> drawn.\<close>

inductive auth_step :: "token_lib \<Rightarrow> auth_db auth_service \<Rightarrow> string \<Rightarrow> auth_db \<Rightarrow> auth_db \<Rightarrow> bool" for lib svc i where
  pair: "hex_encode bytes \<noteq> i \<Longrightarrow> GenerateTokenPair lib svc now (Inr bytes) u n r e pw w = (res, w')
    \<Longrightarrow> auth_step lib svc i (tables w) (tables w')"
| token: "hex_encode bytes \<noteq> i \<Longrightarrow> GenerateTokenWithExpiry lib svc now (Inr bytes) u n r e pw w = (rT, w')
    \<Longrightarrow> auth_step lib svc i (tables w) (tables w')"
| challenge: "hex_encode bytes \<noteq> i \<Longrightarrow> GenerateLoginChallenge lib svc now (Inr bytes) u p w = (rT, w')
    \<Longrightarrow> auth_step lib svc i (tables w) (tables w')"
| refresh: "ConsumeRefreshToken lib svc now tok w = (rU, w') \<Longrightarrow> auth_step lib svc i (tables w) (tables w')"
| revoke: "AuthRevokeToken lib svc now tok w = (rU, w') \<Longrightarrow> auth_step lib svc i (tables w) (tables w')"
| challenge_done: "ConsumeLoginChallenge lib svc now tok u w = (rU, w') \<Longrightarrow> auth_step lib svc i (tables w) (tables w')"
| consume: "consumeSession svc j w = (rU, w') \<Longrightarrow> auth_step lib svc i (tables w) (tables w')"
| validate: "ValidateToken lib svc now tok w = (rC, w') \<Longrightarrow> auth_step lib svc i (tables w) (tables w')"

context token_backend
begin

lemma keeps_absentD:
  assumes "keeps_absent i m" and "m w = (r, w')" and "valid (tables w)" and "holds (tables w) i = None"
  shows "valid (tables w') \<and> holds (tables w') i = None"
proof -
  have "wpt m (\<lambda>_ t'. valid t' \<and> holds t' i = None) (\<lambda>_ t'. valid t' \<and> holds t' i = None) (tables w)"
    using assms(1,3,4) by (simp add: keeps_absent_def)
  from wpt_run [OF this assms(2)] show ?thesis by (cases r) simp_all
qed

end

lemma auth_step_absent:
  assumes "auth_step lib (production_service secret te re) i d d'" and "sessions_keyed d" and "db_holds d i = None"
  shows "sessions_keyed d' \<and> db_holds d' i = None"
  using assms(1)
proof (cases rule: auth_step.cases)
  case (pair bytes now u n r e pw w res w')
  have "sessions_keyed (tables w') \<and> db_holds (tables w') i = None"
    by (rule production.keeps_absentD [OF production.keeps_absent_api(1) pair(4)]) (use assms(2,3) pair in auto)
  with pair show ?thesis by simp
next
  case (token bytes now u n r e pw w rT w')
  have "sessions_keyed (tables w') \<and> db_holds (tables w') i = None"
    by (rule production.keeps_absentD [OF production.keeps_absent_api(2) token(4)]) (use assms(2,3) token in auto)
  with token show ?thesis by simp
next
  case (challenge bytes now u p w rT w')
  have "sessions_keyed (tables w') \<and> db_holds (tables w') i = None"
    by (rule production.keeps_absentD [OF production.keeps_absent_api(4) challenge(4)]) (use assms(2,3) challenge in auto)
  with challenge show ?thesis by simp
next
  case (refresh now tok w rU w')
  have "sessions_keyed (tables w') \<and> db_holds (tables w') i = None"
    by (rule production.keeps_absentD [OF production.keeps_absent_api(6) [of "Inl undefined"] refresh(3)]) (use assms(2,3) refresh in auto)
  with refresh show ?thesis by simp
next
  case (revoke now tok w rU w')
  have "sessions_keyed (tables w') \<and> db_holds (tables w') i = None"
    by (rule production.keeps_absentD [OF production.keeps_absent_api(5) [of "Inl undefined"] revoke(3)]) (use assms(2,3) revoke in auto)
  with revoke show ?thesis by simp
next
  case (challenge_done now tok u w rU w')
  have "sessions_keyed (tables w') \<and> db_holds (tables w') i = None"
    by (rule production.keeps_absentD [OF production.keeps_absent_api(7) [of "Inl undefined"] challenge_done(3)]) (use assms(2,3) challenge_done in auto)
  with challenge_done show ?thesis by simp
next
  case (consume j w rU w')
  have "sessions_keyed (tables w') \<and> db_holds (tables w') i = None"
    by (rule production.keeps_absentD [OF production.keeps_absent_consume consume(3)]) (use assms(2,3) consume in auto)
  with consume show ?thesis by simp
next
  case (validate now tok w rC w')
  have "sessions_keyed (tables w') \<and> db_holds (tables w') i = None"
    by (rule production.keeps_absentD [OF production.keeps_absent_validate validate(3)]) (use assms(2,3) validate in auto)
  with validate show ?thesis by simp
qed

context token_backend
begin

lemma consuming_wpt:
  assumes "valid t"
  shows "wpt (ConsumeRefreshToken lib svc now tok)
      (\<lambda>_ t'. valid t' \<and> (\<forall>cl. tl_parse lib (as_secret svc) now tok = Inr cl \<longrightarrow> holds t' (cl_id cl) = None)) (\<lambda>_ _. True) t"
    and "wpt (AuthRevokeToken lib svc now tok)
      (\<lambda>_ t'. valid t' \<and> (\<forall>cl. tl_parse lib (as_secret svc) now tok = Inr cl \<longrightarrow> holds t' (cl_id cl) = None)) (\<lambda>_ _. True) t"
    and "wpt (ConsumeLoginChallenge lib svc now tok u)
      (\<lambda>_ t'. valid t' \<and> (\<forall>cl. tl_parse lib (as_secret svc) now tok = Inr cl \<longrightarrow> holds t' (cl_id cl) = None)) (\<lambda>_ _. True) t"
  unfolding ConsumeRefreshToken_def AuthRevokeToken_def ValidateToken_def ConsumeLoginChallenge_def challengeClaims_def
  using assms
  by (auto intro!: wpt_rules wpt_mono [OF ValidateRefreshToken_wpt] wpt_mono [OF validateClaims_wpt] wpt_mono [OF consumeSession_wpt])

end

lemma production_secret [simp]: "as_secret (production_service secret te re) = secret"
  by (simp add: production_service_def)

lemma production_users [simp]: "as_users (production_service secret te re) = Some AccountGetByID"
  by (simp add: production_service_def)

lemma wpt_refused: "wpt m (\<lambda>_ _. False) E (tables w) \<Longrightarrow> isl (fst (m w))"
  using wpt_run [of m "\<lambda>_ _. False" E w "fst (m w)" "snd (m w)"] by (cases "m w"; cases "fst (m w)") auto

text \<open>
  (C12) Sessions are consumed once.  After a refresh token was consumed, or an access token
  revoked, whatever tokens are issued, checked, refreshed or revoked afterwards, with whatever
  faults of the database, as long as the random source does not draw the same identifier again:
  no token of that session is accepted, neither an access nor a refresh token, and of any further attempts
  to consume the session, also by requests that had validated it before, none succeeds.
\<close>

theorem session_consumed_once:
  fixes w w1 w2 :: "auth_db world"
  assumes "sessions_keyed (tables w)"
    and "ConsumeRefreshToken lib (production_service secret te re) now tok w = (Inr (), w1)
       \<or> AuthRevokeToken lib (production_service secret te re) now tok w = (Inr (), w1)"
    and "tl_parse lib secret now tok = Inr cl"
    and "(auth_step lib (production_service secret te re) (cl_id cl))\<^sup>*\<^sup>* (tables w1) (tables w2)"
    and "tl_parse lib secret now' tok' = Inr cl'" and "cl_id cl' = cl_id cl"
  shows "let svc = production_service secret te re in
     isl (fst (ValidateToken lib svc now' tok' w2)) \<and> isl (fst (ValidateRefreshToken lib svc now' tok' w2))
   \<and> isl (fst (ConsumeRefreshToken lib svc now' tok' w2)) \<and> isl (fst (AuthRevokeToken lib svc now' tok' w2))
   \<and> isl (fst (consumeSession svc (cl_id cl) w2))"
proof -
  let ?svc = "production_service secret te re"
  from assms(2) have "sessions_keyed (tables w1) \<and> db_holds (tables w1) (cl_id cl) = None"
  proof
    assume "ConsumeRefreshToken lib ?svc now tok w = (Inr (), w1)"
    from wptD_Inr [OF production.consuming_wpt(1) [OF assms(1)] this] assms(3) show ?thesis by simp
  next
    assume "AuthRevokeToken lib ?svc now tok w = (Inr (), w1)"
    from wptD_Inr [OF production.consuming_wpt(2) [OF assms(1)] this] assms(3) show ?thesis by simp
  qed
  with assms(4) have absent: "sessions_keyed (tables w2)" "db_holds (tables w2) (cl_id cl) = None"
    by (induction rule: rtranclp_induct) (auto dest: auth_step_absent)
  have p: "cl_id c = cl_id cl" if "tl_parse lib (as_secret ?svc) now' tok' = Inr c" for c
    using assms(5,6) that by simp
  show ?thesis
    unfolding Let_def using production.absent_rejected [OF absent p] by (intro conjI wpt_refused)
qed

definition sample_lib :: token_lib where
  "sample_lib = \<lparr>tl_sign = (\<lambda>secret c. Inr (cl_token_type c @ CHR ''.'' # cl_id c)),
     tl_parse = (\<lambda>secret now tok. Inr \<lparr>cl_token_type = takeWhile (\<lambda>c. c \<noteq> CHR ''.'') tok, cl_user_id = 1, cl_username = [],
        cl_role = [], cl_id = tl (dropWhile (\<lambda>c. c \<noteq> CHR ''.'') tok), cl_expires_at = now + 1, cl_issued_at = 0, cl_subject = []\<rparr>),
     tl_sha256_hex = rev\<rparr>"

definition sample_auth_world :: "auth_db world" where
  "sample_auth_world = \<lparr>tables = \<lparr>accounts = \<lparr>rows = [\<lparr>ac_id = 1, ac_enabled = True, ac_password_hash = ''pw''\<rparr>], seq = 1\<rparr>,
     auth_sessions = \<lparr>rows = [\<lparr>se_id = ''aa'', se_user_id = 1, se_kind = ''login'', se_credential = ''wp'', se_expires_at = 100\<rparr>],
       seq = 0\<rparr>\<rparr>, faults = [], in_tx = False\<rparr>"

theorem session_consumed_once_witness:
  "let svc = production_service ''s'' 0 0; w1 = snd (ConsumeRefreshToken sample_lib svc 5 ''refresh.aa'' sample_auth_world) in
   fst (ConsumeRefreshToken sample_lib svc 5 ''refresh.aa'' sample_auth_world) = Inr ()
   \<and> isl (fst (ValidateToken sample_lib svc 6 ''access.aa'' w1))
   \<and> isl (fst (ConsumeRefreshToken sample_lib svc 6 ''refresh.aa'' w1))"
proof -
  let ?svc = "production_service ''s'' 0 0" and ?cl = "projr (tl_parse sample_lib ''s'' 5 ''refresh.aa'')"
  let ?m = "ConsumeRefreshToken sample_lib ?svc 5 ''refresh.aa'' sample_auth_world"
  have k: "sessions_keyed (tables sample_auth_world)" and ok: "fst ?m = Inr ()" and cl: "tl_parse sample_lib ''s'' 5 ''refresh.aa'' = Inr ?cl"
    by code_simp+
  have p: "tl_parse sample_lib ''s'' 6 tok = Inr (projr (tl_parse sample_lib ''s'' 6 tok))" for tok
    by (simp add: sample_lib_def)
  have i: "cl_id (projr (tl_parse sample_lib ''s'' 6 ''access.aa'')) = cl_id ?cl" "cl_id (projr (tl_parse sample_lib ''s'' 6 ''refresh.aa'')) = cl_id ?cl"
    by code_simp+
  have m: "?m = (Inr (), snd ?m)" using ok by (simp add: prod_eq_iff)
  note o = session_consumed_once [OF k disjI1 [OF m] cl rtranclp.rtrancl_refl p, unfolded Let_def]
  show ?thesis unfolding Let_def using ok o [OF i(1)] o [OF i(2)] by blast
qed

text \<open>
  (C13) What an accepted token stands for.  A token that validates parses as an access token of a
  session that is stored, of kind login, not expired, for an account that is enabled, and
  bound to the fingerprint of the password hash the account has now: deleting the session,
  disabling the user or changing the password (to one with another fingerprint) ends
  every token.
\<close>

theorem token_needs_live_session:
  fixes w w' :: "auth_db world"
  assumes "sessions_keyed (tables w)" and "ValidateToken lib (production_service secret te re) now tok w = (Inr cl, w')"
  shows "tables w' = tables w \<and> tl_parse lib secret now tok = Inr cl \<and> cl_token_type cl = ''access''
    \<and> (\<exists>se \<in> set (rows (auth_sessions (tables w))). se_id se = cl_id cl \<and> se_user_id se = cl_user_id cl
         \<and> se_kind se = ''login'' \<and> now < se_expires_at se
         \<and> (\<exists>a \<in> set (rows (accounts (tables w))). ac_id a = cl_user_id cl \<and> ac_enabled a
              \<and> se_credential se = tl_sha256_hex lib (ac_password_hash a)))"
proof -
  from wptD_Inr [OF production.validateClaims_wpt [OF assms(1)] assms(2) [unfolded ValidateToken_def]]
  have v: "tables w' = tables w" "tl_parse lib secret now tok = Inr cl" "cl_token_type cl = ''access''"
    and l: "production.live_session secret te re lib now (cl_id cl) (cl_user_id cl) ''login'' (tables w)" by simp_all
  from l obtain se a where "db_holds (tables w) (cl_id cl) = Some se" "se_user_id se = cl_user_id cl" "se_kind se = ''login''"
    "now < se_expires_at se" "db_account (tables w) (cl_user_id cl) = Some a" "ac_enabled a"
    "se_credential se = tl_sha256_hex lib (ac_password_hash a)"
    by (auto simp: production.live_session_def)
  with v show ?thesis by (auto simp: db_holds_def db_account_def dest!: find_Some_iff_In)
qed

theorem token_needs_live_session_witness:
  "let m = ValidateToken sample_lib (production_service ''s'' 0 0) 5 ''access.aa'' sample_auth_world in
   \<not> isl (fst m) \<and> cl_token_type (projr (fst m)) = ''access'' \<and> tables (snd m) = tables sample_auth_world"
proof -
  let ?m = "ValidateToken sample_lib (production_service ''s'' 0 0) 5 ''access.aa'' sample_auth_world"
  have k: "sessions_keyed (tables sample_auth_world)" and ok: "\<not> isl (fst ?m)" by code_simp+
  then have "?m = (Inr (projr (fst ?m)), snd ?m)" by (simp add: prod_eq_iff)
  from token_needs_live_session [OF k this] ok show ?thesis by (simp only: Let_def simp_thms)
qed

section \<open>The blacklist\<close>

lemma revoked_until_expiry:
  "IsRevoked hashToken t token (BlacklistRevokeToken hashToken now token expiresAt tb) \<longleftrightarrow> t \<le> expiresAt"
  by (simp add: IsRevoked_def BlacklistRevokeToken_def update_conv' not_less)

lemma revocation_local:
  "hashToken token' \<noteq> hashToken token \<Longrightarrow>
     IsRevoked hashToken t token' (BlacklistRevokeToken hashToken now token expiresAt tb) = IsRevoked hashToken t token' tb"
  by (simp add: IsRevoked_def BlacklistRevokeToken_def update_conv')

lemma blacklist_cleanup_invisible:
  assumes "distinct (map fst tb)" and "now \<le> t"
  shows "IsRevoked hashToken t token (BlacklistCleanup now tb) = IsRevoked hashToken t token tb"
proof -
  have "map_of (filter (\<lambda>(h, bt). \<not> bt_expires_at bt < now) tb) k
      = (case map_of tb k of None \<Rightarrow> None | Some bt \<Rightarrow> if bt_expires_at bt < now then None else Some bt)" for k
    using assms(1) by (induction tb) (auto split: option.splits simp: map_of_eq_None_iff)
  with assms(2) show ?thesis by (auto simp: IsRevoked_def BlacklistCleanup_def split: option.splits)
qed

end
