(* ===== verification/RateLimits.thy ===== *)
theory RateLimits
  imports Errors
begin

text \<open>
  The two login rate limiters: \<open>internal/auth/rate_limiter.go\<close>, which guards the
  administration login, and the one of \<open>internal/portal/auth/service.go\<close> for the user
  portal.  Both keep a record per client address, count failures in a window that starts
  with the first of them, and lock the address for a while when the limit is reached.

  A call reads the clock once, at \<open>now\<close>, and runs alone (the source holds the lock; the
  reads of \<open>CheckRateLimit\<close> after it releases the read lock are not interleaved).

  The handlers use both in the same way: check first, and record the outcome of an attempt that was let
  through.  The contract of that use is the locale \<open>attempt_limiter\<close>, and the bound on
  failed attempts is proved there once for both.
\<close>

section \<open>The administration limiter\<close>

record limiter_config =
  lc_max_attempts :: int
  lc_window :: int
  lc_block_duration :: int
  lc_cleanup_interval :: int

definition DefaultRateLimiterConfig :: limiter_config where
  "DefaultRateLimiterConfig = \<lparr>lc_max_attempts = 5, lc_window = minute, lc_block_duration = minute,
     lc_cleanup_interval = 5 * minute\<rparr>"

record login_attempt =
  la_attempts :: int
  la_first :: time
  la_last :: time
  la_blocked :: bool
  la_blocked_until :: time

record rate_limiter =
  lm_config :: limiter_config
  lm_attempts :: "string \<rightharpoonup> login_attempt"

definition NewRateLimiter :: "limiter_config \<Rightarrow> rate_limiter" where
  "NewRateLimiter config =
     (let config = (if lc_max_attempts config \<le> 0 then config\<lparr>lc_max_attempts := 5\<rparr> else config);
          config = (if lc_window config \<le> 0 then config\<lparr>lc_window := minute\<rparr> else config);
          config = (if lc_block_duration config \<le> 0 then config\<lparr>lc_block_duration := lc_window config\<rparr> else config);
          config = (if lc_cleanup_interval config \<le> 0 then config\<lparr>lc_cleanup_interval := 5 * minute\<rparr> else config) in
      \<lparr>lm_config = config, lm_attempts = Map.empty\<rparr>)"

definition cleanupExpired :: "time \<Rightarrow> rate_limiter \<Rightarrow> rate_limiter" where
  "cleanupExpired now rl = rl\<lparr>lm_attempts := (\<lambda>ip. case lm_attempts rl ip of None \<Rightarrow> None
     | Some a \<Rightarrow>
       if lc_window (lm_config rl) < time_sub now (la_first a) \<and> \<not> la_blocked a then None
       else if la_blocked a \<and> la_blocked_until a < now then None
       else Some a)\<rparr>"

definition limit_error :: err where
  "limit_error = RateLimitError ''too many login attempts, please try again later''"

definition CheckRateLimit :: "time \<Rightarrow> string \<Rightarrow> rate_limiter \<Rightarrow> bool \<times> err option" where
  "CheckRateLimit now ip rl = (case lm_attempts rl ip of None \<Rightarrow> (True, None)
     | Some a \<Rightarrow>
       if la_blocked a then
         (if now < la_blocked_until a then (False, Some limit_error) else (True, None))
       else if lc_window (lm_config rl) < time_sub now (la_first a) then (True, None)
       else if lc_max_attempts (lm_config rl) \<le> la_attempts a then (False, Some limit_error)
       else (True, None))"

definition RecordLoginAttempt :: "time \<Rightarrow> string \<Rightarrow> bool \<Rightarrow> rate_limiter \<Rightarrow> rate_limiter" where
  "RecordLoginAttempt now ip success rl =
     (let a = (case lm_attempts rl ip of Some a \<Rightarrow> a
          | None \<Rightarrow> \<lparr>la_attempts = 0, la_first = now, la_last = zero_time, la_blocked = False, la_blocked_until = zero_time\<rparr>) in
      if success then rl\<lparr>lm_attempts := (lm_attempts rl)(ip := None)\<rparr>
      else
      let a = (if lc_window (lm_config rl) < time_sub now (la_first a)
               then a\<lparr>la_attempts := 0, la_first := now, la_blocked := False\<rparr> else a);
          a = a\<lparr>la_attempts := wrap64 (la_attempts a + 1), la_last := now\<rparr>;
          a = (if lc_max_attempts (lm_config rl) \<le> la_attempts a
               then a\<lparr>la_blocked := True, la_blocked_until := now + lc_block_duration (lm_config rl)\<rparr> else a) in
      rl\<lparr>lm_attempts := (lm_attempts rl)(ip \<mapsto> a)\<rparr>)"

definition GetAttemptCount :: "time \<Rightarrow> string \<Rightarrow> rate_limiter \<Rightarrow> int" where
  "GetAttemptCount now ip rl = (case lm_attempts rl ip of None \<Rightarrow> 0
     | Some a \<Rightarrow> if lc_window (lm_config rl) < time_sub now (la_first a) then 0 else la_attempts a)"

definition IsBlocked :: "time \<Rightarrow> string \<Rightarrow> rate_limiter \<Rightarrow> bool" where
  "IsBlocked now ip rl = (case lm_attempts rl ip of None \<Rightarrow> False
     | Some a \<Rightarrow> if \<not> la_blocked a then False else now < la_blocked_until a)"

definition LimiterReset :: "string \<Rightarrow> rate_limiter \<Rightarrow> rate_limiter" where
  "LimiterReset ip rl = rl\<lparr>lm_attempts := (lm_attempts rl)(ip := None)\<rparr>"

definition ResetAll :: "rate_limiter \<Rightarrow> rate_limiter" where
  "ResetAll rl = rl\<lparr>lm_attempts := Map.empty\<rparr>"

definition GetBlockedUntil :: "string \<Rightarrow> rate_limiter \<Rightarrow> time" where
  "GetBlockedUntil ip rl = (case lm_attempts rl ip of None \<Rightarrow> zero_time
     | Some a \<Rightarrow> if \<not> la_blocked a then zero_time else la_blocked_until a)"

definition RemainingAttempts :: "time \<Rightarrow> string \<Rightarrow> rate_limiter \<Rightarrow> int" where
  "RemainingAttempts now ip rl =
     (let remaining = wrap64 (lc_max_attempts (lm_config rl) - GetAttemptCount now ip rl) in
      if remaining < 0 then 0 else remaining)"

section \<open>The portal limiter\<close>

record portal_config =
  pl_max_attempts :: int
  pl_window_period :: int
  pl_lockout_period :: int

definition DefaultRateLimitConfig :: portal_config where
  "DefaultRateLimitConfig = \<lparr>pl_max_attempts = 5, pl_window_period = 15 * minute, pl_lockout_period = 15 * minute\<rparr>"

record portal_attempts =
  pa_count :: int
  pa_first_at :: time
  pa_locked_at :: "time option"

type_synonym portal_limiter = "string \<rightharpoonup> portal_attempts"

definition PortalCheckRateLimit :: "portal_config \<Rightarrow> time \<Rightarrow> string \<Rightarrow> portal_limiter \<Rightarrow> (bool \<times> int) \<times> portal_limiter" where
  "PortalCheckRateLimit c now ip r = (case r ip of None \<Rightarrow> ((True, pl_max_attempts c), r)
     | Some a \<Rightarrow> (case pa_locked_at a of
         Some l \<Rightarrow> if time_sub now l < pl_lockout_period c then ((False, 0), r)
                   else ((True, pl_max_attempts c), r(ip := None))
       | None \<Rightarrow>
           if pl_window_period c < time_sub now (pa_first_at a) then ((True, pl_max_attempts c), r(ip := None))
           else let remaining = wrap64 (pl_max_attempts c - pa_count a) in ((0 < remaining, remaining), r)))"

definition RecordFailedAttempt :: "portal_config \<Rightarrow> time \<Rightarrow> string \<Rightarrow> portal_limiter \<Rightarrow> portal_limiter" where
  "RecordFailedAttempt c now ip r = (case r ip of
       None \<Rightarrow> r(ip \<mapsto> \<lparr>pa_count = 1, pa_first_at = now, pa_locked_at = None\<rparr>)
     | Some a \<Rightarrow>
         if pl_window_period c < time_sub now (pa_first_at a)
         then r(ip \<mapsto> \<lparr>pa_count = 1, pa_first_at = now, pa_locked_at = None\<rparr>)
         else let a = a\<lparr>pa_count := wrap64 (pa_count a + 1)\<rparr>;
                  a = (if pl_max_attempts c \<le> pa_count a then a\<lparr>pa_locked_at := Some now\<rparr> else a) in
              r(ip \<mapsto> a))"

definition ResetAttempts :: "string \<Rightarrow> portal_limiter \<Rightarrow> portal_limiter" where
  "ResetAttempts ip r = r(ip := None)"

section \<open>How the login handlers use a limiter\<close>

text \<open>
  A login attempt from an address with its outcome, or a run of the cleanup.  The handler
  asks \<open>allow\<close>; an attempt that is let through is recorded with its outcome.
\<close>

datatype limiter_event = Attempt string bool | Tidy

fun limiter_step :: "(time \<Rightarrow> string \<Rightarrow> 's \<Rightarrow> bool \<times> 's) \<Rightarrow> (time \<Rightarrow> string \<Rightarrow> bool \<Rightarrow> 's \<Rightarrow> 's) \<Rightarrow> (time \<Rightarrow> 's \<Rightarrow> 's)
    \<Rightarrow> time \<times> limiter_event \<Rightarrow> 's \<Rightarrow> 's" where
  "limiter_step allow outcome tidy (now, Attempt ip success) s =
     (case allow now ip s of (True, s') \<Rightarrow> outcome now ip success s' | (False, s') \<Rightarrow> s')"
| "limiter_step allow outcome tidy (now, Tidy) s = tidy now s"

fun passes :: "(time \<Rightarrow> string \<Rightarrow> 's \<Rightarrow> bool \<times> 's) \<Rightarrow> string \<Rightarrow> time \<times> limiter_event \<Rightarrow> 's \<Rightarrow> int" where
  "passes allow ip (now, Attempt ip' success) s = (if ip' = ip \<and> fst (allow now ip s) then 1 else 0)"
| "passes allow ip (now, Tidy) s = 0"

fun limiter_run :: "(time \<Rightarrow> string \<Rightarrow> 's \<Rightarrow> bool \<times> 's) \<Rightarrow> (time \<Rightarrow> string \<Rightarrow> bool \<Rightarrow> 's \<Rightarrow> 's) \<Rightarrow> (time \<Rightarrow> 's \<Rightarrow> 's)
    \<Rightarrow> (time \<times> limiter_event) list \<Rightarrow> 's \<Rightarrow> 's" where
  "limiter_run allow outcome tidy [] s = s"
| "limiter_run allow outcome tidy (e # es) s = limiter_run allow outcome tidy es (limiter_step allow outcome tidy e s)"

text \<open>How many attempts from \<open>ip\<close> were let through.\<close>

fun let_through :: "(time \<Rightarrow> string \<Rightarrow> 's \<Rightarrow> bool \<times> 's) \<Rightarrow> (time \<Rightarrow> string \<Rightarrow> bool \<Rightarrow> 's \<Rightarrow> 's) \<Rightarrow> (time \<Rightarrow> 's \<Rightarrow> 's)
    \<Rightarrow> string \<Rightarrow> (time \<times> limiter_event) list \<Rightarrow> 's \<Rightarrow> int" where
  "let_through allow outcome tidy ip [] s = 0"
| "let_through allow outcome tidy ip (e # es) s = passes allow ip e s
     + let_through allow outcome tidy ip es (limiter_step allow outcome tidy e s)"

definition admin_allow :: "time \<Rightarrow> string \<Rightarrow> rate_limiter \<Rightarrow> bool \<times> rate_limiter" where
  "admin_allow now ip rl = (fst (CheckRateLimit now ip rl) \<and> snd (CheckRateLimit now ip rl) = None, rl)"

definition portal_allow :: "portal_config \<Rightarrow> time \<Rightarrow> string \<Rightarrow> portal_limiter \<Rightarrow> bool \<times> portal_limiter" where
  "portal_allow c now ip r = (fst (fst (PortalCheckRateLimit c now ip r)), snd (PortalCheckRateLimit c now ip r))"

definition portal_record :: "portal_config \<Rightarrow> time \<Rightarrow> string \<Rightarrow> bool \<Rightarrow> portal_limiter \<Rightarrow> portal_limiter" where
  "portal_record c now ip success r = (if success then ResetAttempts ip r else RecordFailedAttempt c now ip r)"

text \<open>
  The contract.  \<open>credit b ip s\<close> bounds the attempts \<open>ip\<close> can still get through before the
  instant \<open>b\<close>, in a period no longer than \<open>W\<close>: a failed attempt that is let through costs
  one, nothing but a success of \<open>ip\<close> itself raises it, and it never exceeds \<open>top\<close>.
  \<open>inv k s\<close> is the invariant, with all counters at most \<open>k\<close>.
\<close>

locale attempt_limiter =
  fixes allow :: "time \<Rightarrow> string \<Rightarrow> 's \<Rightarrow> bool \<times> 's" and outcome :: "time \<Rightarrow> string \<Rightarrow> bool \<Rightarrow> 's \<Rightarrow> 's"
    and tidy :: "time \<Rightarrow> 's \<Rightarrow> 's"
    and inv :: "int \<Rightarrow> 's \<Rightarrow> bool" and credit :: "time \<Rightarrow> string \<Rightarrow> 's \<Rightarrow> int" and W :: int and top :: int
  assumes inv_allow: "inv k s \<Longrightarrow> inv k (snd (allow t ip s))"
    and inv_record: "inv k s \<Longrightarrow> 0 \<le> k \<Longrightarrow> k < maxI64 \<Longrightarrow> fst (allow t ip s) \<Longrightarrow> inv (k + 1) (outcome t ip ok (snd (allow t ip s)))"
    and inv_tidy: "inv k s \<Longrightarrow> inv k (tidy t s)"
    and inv_mono: "inv k s \<Longrightarrow> k \<le> k' \<Longrightarrow> inv k' s"
    and credit_nonneg: "inv k s \<Longrightarrow> 0 \<le> credit b ip s"
    and credit_top: "inv k s \<Longrightarrow> credit b ip s \<le> top"
    and credit_allow: "inv k s \<Longrightarrow> b - W \<le> t \<Longrightarrow> t < b \<Longrightarrow> credit b ip (snd (allow t ip' s)) \<le> credit b ip s"
    and credit_fail: "inv k s \<Longrightarrow> 0 \<le> k \<Longrightarrow> k < maxI64 \<Longrightarrow> b - W \<le> t \<Longrightarrow> t < b \<Longrightarrow> fst (allow t ip s)
      \<Longrightarrow> credit b ip (outcome t ip False (snd (allow t ip s))) + 1 \<le> credit b ip s"
    and credit_other: "ip' \<noteq> ip \<Longrightarrow> credit b ip (outcome t ip' ok s) = credit b ip s"
    and credit_tidy: "inv k s \<Longrightarrow> b - W \<le> t \<Longrightarrow> t < b \<Longrightarrow> credit b ip (tidy t s) \<le> credit b ip s"
begin

lemma step_inv:
  assumes "inv k s" and "0 \<le> k" and "k < maxI64"
  shows "inv (k + 1) (limiter_step allow outcome tidy e s)"
proof (cases e)
  case (Pair t ev)
  show ?thesis
  proof (cases ev)
    case (Attempt ip ok)
    show ?thesis
    proof (cases "allow t ip s")
      case (Pair b s')
      then show ?thesis
        using inv_record [OF assms, of t ip ok] inv_allow [OF assms(1), of t ip] inv_mono [of k s' "k + 1"]
        by (cases b) (simp_all add: \<open>e = _\<close> Attempt)
    qed
  next
    case Tidy
    then show ?thesis using inv_tidy [OF assms(1), of t] inv_mono [of k _ "k + 1"] Pair by simp
  qed
qed

lemma run_inv:
  "inv k s \<Longrightarrow> 0 \<le> k \<Longrightarrow> k + int (length es) \<le> maxI64 \<Longrightarrow> inv (k + int (length es)) (limiter_run allow outcome tidy es s)"
proof (induction es arbitrary: k s)
  case (Cons e es)
  from Cons.IH [OF step_inv [OF Cons.prems(1,2)]] Cons.prems(2,3) show ?case by (simp add: algebra_simps)
qed simp

lemma step_credit:
  assumes "inv k s" and "0 \<le> k" and "k < maxI64" and "b - W \<le> fst e" and "fst e < b" and "snd e \<noteq> Attempt ip True"
  shows "passes allow ip e s + credit b ip (limiter_step allow outcome tidy e s) \<le> credit b ip s"
proof (cases e)
  case (Pair t ev)
  have t: "b - W \<le> t" "t < b" using assms(4,5) Pair by simp_all
  show ?thesis
  proof (cases ev)
    case (Attempt ip' ok)
    obtain a s' where a: "allow t ip' s = (a, s')" by (cases "allow t ip' s")
    have l: "credit b ip s' \<le> credit b ip s" using credit_allow [OF assms(1) t, of ip ip'] a by simp
    show ?thesis
    proof (cases "ip' = ip")
      case True
      with assms(6) Attempt Pair have "\<not> ok" by simp
      with True a l credit_fail [OF assms(1-3) t, of ip] show ?thesis by (cases a) (simp_all add: Pair Attempt)
    next
      case False
      with a l credit_other [OF False, of b t ok s'] show ?thesis by (cases a) (simp_all add: Pair Attempt)
    qed
  next
    case Tidy
    then show ?thesis using credit_tidy [OF assms(1) t, of ip] Pair by simp
  qed
qed

lemma run_credit:
  "inv k s \<Longrightarrow> 0 \<le> k \<Longrightarrow> k + int (length es) \<le> maxI64 \<Longrightarrow>
   (\<And>t ev. (t, ev) \<in> set es \<Longrightarrow> b - W \<le> t \<and> t < b \<and> ev \<noteq> Attempt ip True)
   \<Longrightarrow> let_through allow outcome tidy ip es s \<le> credit b ip s"
proof (induction es arbitrary: k s)
  case Nil
  then show ?case by (simp add: credit_nonneg)
next
  case (Cons e es)
  have e: "b - W \<le> fst e" "fst e < b" "snd e \<noteq> Attempt ip True" using Cons.prems(4) [of "fst e" "snd e"] by simp_all
  have "let_through allow outcome tidy ip es (limiter_step allow outcome tidy e s) \<le> credit b ip (limiter_step allow outcome tidy e s)"
    by (rule Cons.IH [OF step_inv [OF Cons.prems(1,2)]]) (use Cons.prems(2-4) in auto)
  with step_credit [OF Cons.prems(1,2) _ e] Cons.prems(3) show ?case by simp
qed

lemma failures_bounded:
  assumes "inv 0 s" and "int (length (before @ period)) \<le> maxI64"
    and "\<And>t ev. (t, ev) \<in> set period \<Longrightarrow> b - W \<le> t \<and> t < b \<and> ev \<noteq> Attempt ip True"
  shows "let_through allow outcome tidy ip period (limiter_run allow outcome tidy before s) \<le> top"
proof -
  have i: "inv (int (length before)) (limiter_run allow outcome tidy before s)"
    using run_inv [OF assms(1), of before] assms(2) by simp
  have "let_through allow outcome tidy ip period (limiter_run allow outcome tidy before s)
      \<le> credit b ip (limiter_run allow outcome tidy before s)"
    by (rule run_credit [OF i]) (use assms(2,3) in auto)
  with credit_top [OF i, of b ip] show ?thesis by simp
qed

end

section \<open>Both limiters keep the contract\<close>

lemma time_sub_less: "0 \<le> d \<Longrightarrow> d < maxI64 \<Longrightarrow> d < time_sub t u \<longleftrightarrow> d < t - u"
  by (auto simp: time_sub_def i64_defs min_def max_def)

lemma time_sub_less': "0 \<le> d \<Longrightarrow> d \<le> maxI64 \<Longrightarrow> time_sub t u < d \<longleftrightarrow> t - u < d"
  by (auto simp: time_sub_def i64_defs min_def max_def)

lemma time_sub_self [simp]: "time_sub t t = 0"
  by (simp add: time_sub_def i64_defs)

definition admin_sane :: "limiter_config \<Rightarrow> bool" where
  "admin_sane c \<longleftrightarrow> 0 < lc_max_attempts c \<and> lc_max_attempts c \<le> maxI64 \<and> 0 \<le> lc_window c \<and> lc_window c < maxI64 \<and> lc_window c \<le> lc_block_duration c"

definition admin_inv :: "limiter_config \<Rightarrow> int \<Rightarrow> rate_limiter \<Rightarrow> bool" where
  "admin_inv c k rl \<longleftrightarrow> lm_config rl = c \<and> admin_sane c
     \<and> (\<forall>ip a. lm_attempts rl ip = Some a \<longrightarrow> la_attempts a \<le> k
          \<and> (if la_blocked a then lc_max_attempts c \<le> la_attempts a else 1 \<le> la_attempts a \<and> la_attempts a < lc_max_attempts c))"

definition admin_credit :: "limiter_config \<Rightarrow> time \<Rightarrow> string \<Rightarrow> rate_limiter \<Rightarrow> int" where
  "admin_credit c b ip rl = (case lm_attempts rl ip of None \<Rightarrow> lc_max_attempts c
     | Some a \<Rightarrow>
       if la_blocked a then (if b \<le> la_blocked_until a then 0 else lc_max_attempts c)
       else if b \<le> la_first a + lc_window c then lc_max_attempts c - la_attempts a
       else 2 * lc_max_attempts c - 1 - la_attempts a)"

definition failure_bound :: "int \<Rightarrow> int" where
  "failure_bound m = max m (2 * m - 2)"

definition admin_entry :: "time \<Rightarrow> string \<Rightarrow> rate_limiter \<Rightarrow> login_attempt" where
  "admin_entry t ip rl = the (lm_attempts (RecordLoginAttempt t ip False rl) ip)"

lemma admin_record_attempts:
  "lm_attempts (RecordLoginAttempt t ip False rl) = (lm_attempts rl)(ip \<mapsto> admin_entry t ip rl)"
  "lm_config (RecordLoginAttempt t ip ok rl) = lm_config rl"
  by (simp_all add: admin_entry_def RecordLoginAttempt_def Let_def)

lemma admin_entry_new:
  assumes "admin_inv c k rl" "lm_attempts rl ip = None"
  shows "la_attempts (admin_entry t ip rl) = 1" "la_first (admin_entry t ip rl) = t"
    "la_blocked (admin_entry t ip rl) \<longleftrightarrow> lc_max_attempts c \<le> 1"
    "la_blocked (admin_entry t ip rl) \<Longrightarrow> la_blocked_until (admin_entry t ip rl) = t + lc_block_duration c"
  using assms by (auto simp: admin_entry_def RecordLoginAttempt_def Let_def admin_inv_def admin_sane_def i64_defs)

lemma admin_entry_old:
  fixes t :: time
  assumes "admin_inv c k rl" "k < maxI64" "lm_attempts rl ip = Some a"
  defines "reset \<equiv> lc_window c < t - la_first a"
  shows "la_attempts (admin_entry t ip rl) = (if reset then 1 else la_attempts a + 1)"
    "la_first (admin_entry t ip rl) = (if reset then t else la_first a)"
    "la_blocked (admin_entry t ip rl) \<longleftrightarrow> lc_max_attempts c \<le> la_attempts (admin_entry t ip rl)"
    "la_blocked (admin_entry t ip rl) \<Longrightarrow> la_blocked_until (admin_entry t ip rl) = t + lc_block_duration c"
proof -
  note i = assms(1) [unfolded admin_inv_def admin_sane_def]
  have a: "la_attempts a \<le> k" "la_blocked a \<longrightarrow> lc_max_attempts c \<le> la_attempts a" "1 \<le> la_attempts a"
    and c: "lm_config rl = c" using i assms(3) by (force split: if_splits)+
  have w: "wrap64 (la_attempts a + 1) = la_attempts a + 1" "wrap64 1 = 1"
    using a assms(2) by (auto intro!: wrap64_id simp: i64_defs)
  have r: "lc_window c < time_sub t (la_first a) \<longleftrightarrow> reset"
    using i time_sub_less by (auto simp: reset_def)
  note d = admin_entry_def RecordLoginAttempt_def Let_def
  show "la_attempts (admin_entry t ip rl) = (if reset then 1 else la_attempts a + 1)"
    "la_first (admin_entry t ip rl) = (if reset then t else la_first a)"
    "la_blocked (admin_entry t ip rl) \<longleftrightarrow> lc_max_attempts c \<le> la_attempts (admin_entry t ip rl)"
    "la_blocked (admin_entry t ip rl) \<Longrightarrow> la_blocked_until (admin_entry t ip rl) = t + lc_block_duration c"
    using assms(3) a(2) by (auto simp: d c w r split: if_splits)
qed

lemma admin_entry_ok:
  assumes "admin_inv c k rl" "0 \<le> k" "k < maxI64"
  shows "la_attempts (admin_entry t ip rl) \<le> k + 1"
    "if la_blocked (admin_entry t ip rl) then lc_max_attempts c \<le> la_attempts (admin_entry t ip rl)
     else 1 \<le> la_attempts (admin_entry t ip rl) \<and> la_attempts (admin_entry t ip rl) < lc_max_attempts c"
proof -
  have "la_attempts (admin_entry t ip rl) \<le> k + 1 \<and> 1 \<le> la_attempts (admin_entry t ip rl)
      \<and> (la_blocked (admin_entry t ip rl) \<longleftrightarrow> lc_max_attempts c \<le> la_attempts (admin_entry t ip rl))"
  proof (cases "lm_attempts rl ip")
    case None
    with admin_entry_new [OF assms(1) None, of t] assms(2) show ?thesis by simp
  next
    case (Some a)
    have "la_attempts a \<le> k" "1 \<le> la_attempts a"
      using assms(1) Some unfolding admin_inv_def admin_sane_def by (force split: if_splits)+
    with admin_entry_old [OF assms(1,3) Some, of t] assms(2) show ?thesis by simp
  qed
  then show "la_attempts (admin_entry t ip rl) \<le> k + 1"
    "if la_blocked (admin_entry t ip rl) then lc_max_attempts c \<le> la_attempts (admin_entry t ip rl)
     else 1 \<le> la_attempts (admin_entry t ip rl) \<and> la_attempts (admin_entry t ip rl) < lc_max_attempts c"
    by auto
qed

lemma admin_failure_costs:
  assumes i: "admin_inv c k s" and k: "k < maxI64" and t: "b - lc_window c \<le> t" "t < b" and a: "fst (admin_allow t ip s)"
  shows "admin_credit c b ip (RecordLoginAttempt t ip False s) + 1 \<le> admin_credit c b ip s"
proof -
  have c: "lm_config s = c" "0 < lc_max_attempts c" "lc_window c \<le> lc_block_duration c"
    using i by (simp_all add: admin_inv_def admin_sane_def)
  show ?thesis
  proof (cases "lm_attempts s ip")
    case None
    with admin_entry_new [OF i None, of t] c t show ?thesis by (auto simp: admin_credit_def admin_record_attempts)
  next
    case (Some a0)
    have "if la_blocked a0 then lc_max_attempts c \<le> la_attempts a0 else 1 \<le> la_attempts a0 \<and> la_attempts a0 < lc_max_attempts c"
      using i Some by (auto simp: admin_inv_def)
    moreover have "la_blocked a0 \<Longrightarrow> la_blocked_until a0 \<le> t"
      using a Some by (auto simp: admin_allow_def CheckRateLimit_def split: if_splits)
    ultimately show ?thesis
      using admin_entry_old [OF i k Some, of t] c t Some by (auto simp: admin_credit_def admin_record_attempts split: if_splits)
  qed
qed

interpretation admin: attempt_limiter admin_allow RecordLoginAttempt cleanupExpired "admin_inv c" "admin_credit c" "lc_window c"
  "failure_bound (lc_max_attempts c)" for c
proof
  fix k s t ip ip' b ok
  show "admin_inv c k (snd (admin_allow t ip s))" if "admin_inv c k s" for k s t ip
    using that by (simp add: admin_allow_def)
  show "admin_inv c (k + 1) (RecordLoginAttempt t ip ok (snd (admin_allow t ip s)))"
    if i: "admin_inv c k s" and k: "0 \<le> k" "k < maxI64" and a: "fst (admin_allow t ip s)" for k s t ip ok
  proof (cases ok)
    case True
    with i show ?thesis by (fastforce simp: admin_allow_def RecordLoginAttempt_def admin_inv_def Let_def)
  next
    case False
    have "admin_inv c (k + 1) (RecordLoginAttempt t ip False s)"
      using i admin_entry_ok [OF i k, of t ip] unfolding admin_inv_def admin_record_attempts by force
    with False show ?thesis by (simp add: admin_allow_def)
  qed
  show "admin_inv c k (cleanupExpired t s)" if "admin_inv c k s" for k s t
    using that by (auto simp: admin_inv_def cleanupExpired_def split: option.splits if_splits)
  show "admin_inv c k' s" if "admin_inv c k s" and "k \<le> k'" for k s k'
    using that by (fastforce simp: admin_inv_def)
  show "0 \<le> admin_credit c b ip s" if "admin_inv c k s" for k s b ip
    using that by (fastforce simp: admin_inv_def admin_sane_def admin_credit_def split: option.split)
  show "admin_credit c b ip s \<le> failure_bound (lc_max_attempts c)" if "admin_inv c k s" for k s b ip
    using that by (fastforce simp: admin_inv_def admin_sane_def admin_credit_def failure_bound_def split: option.split)
  show "admin_credit c b ip (snd (admin_allow t ip' s)) \<le> admin_credit c b ip s" for k s b t ip ip'
    by (simp add: admin_allow_def)
  show "admin_credit c b ip (RecordLoginAttempt t ip' ok s) = admin_credit c b ip s" if "ip' \<noteq> ip" for ip' ip b t ok s
    using that by (simp add: admin_credit_def RecordLoginAttempt_def Let_def)
  show "admin_credit c b ip (cleanupExpired t s) \<le> admin_credit c b ip s"
    if "admin_inv c k s" and "b - lc_window c \<le> t" and "t < b" for k s b t ip
    using that time_sub_less [of "lc_window c" t] by (fastforce simp: admin_inv_def admin_sane_def admin_credit_def cleanupExpired_def split: option.split)
  show "admin_credit c b ip (RecordLoginAttempt t ip False (snd (admin_allow t ip s))) + 1 \<le> admin_credit c b ip s"
    if i: "admin_inv c k s" and k: "0 \<le> k" "k < maxI64" and t: "b - lc_window c \<le> t" "t < b" and a: "fst (admin_allow t ip s)" for k s b t ip
    using admin_failure_costs [OF i k(2) t a] by (simp add: admin_allow_def)
qed

definition portal_inv :: "portal_config \<Rightarrow> int \<Rightarrow> portal_limiter \<Rightarrow> bool" where
  "portal_inv c k r \<longleftrightarrow> 0 < pl_max_attempts c \<and> pl_max_attempts c \<le> maxI64
     \<and> 0 \<le> pl_window_period c \<and> pl_window_period c < maxI64
     \<and> pl_window_period c \<le> pl_lockout_period c \<and> pl_lockout_period c \<le> maxI64
     \<and> (\<forall>ip a. r ip = Some a \<longrightarrow> 1 \<le> pa_count a \<and> pa_count a \<le> k
          \<and> (pa_locked_at a = None \<longrightarrow> pa_count a = 1 \<or> pa_count a < pl_max_attempts c))"

definition portal_credit :: "portal_config \<Rightarrow> time \<Rightarrow> string \<Rightarrow> portal_limiter \<Rightarrow> int" where
  "portal_credit c b ip r = (case r ip of None \<Rightarrow> pl_max_attempts c
     | Some a \<Rightarrow> (case pa_locked_at a of
         Some l \<Rightarrow> if b \<le> l + pl_lockout_period c then 0 else pl_max_attempts c
       | None \<Rightarrow> if b \<le> pa_first_at a + pl_window_period c then pl_max_attempts c - pa_count a
           else max (pl_max_attempts c) (2 * pl_max_attempts c - 1 - pa_count a)))"

lemma portal_allow_cases:
  assumes "portal_inv c k r"
  obtains (new) "r ip = None" "portal_allow c t ip r = (True, r)"
  | (locked) a l where "r ip = Some a" "pa_locked_at a = Some l" "t < l + pl_lockout_period c" "portal_allow c t ip r = (False, r)"
  | (released) a l where "r ip = Some a" "pa_locked_at a = Some l" "l + pl_lockout_period c \<le> t" "portal_allow c t ip r = (True, r(ip := None))"
  | (expired) a where "r ip = Some a" "pa_locked_at a = None" "pa_first_at a + pl_window_period c < t" "portal_allow c t ip r = (True, r(ip := None))"
  | (counting) a where "r ip = Some a" "pa_locked_at a = None" "t \<le> pa_first_at a + pl_window_period c"
      "portal_allow c t ip r = (pa_count a < pl_max_attempts c, r)"
proof (cases "r ip")
  case None
  then show thesis by (intro new) (simp_all add: portal_allow_def PortalCheckRateLimit_def)
next
  case (Some a)
  note i = assms [unfolded portal_inv_def]
  have a: "1 \<le> pa_count a" "pa_locked_at a = None \<longrightarrow> pa_count a = 1 \<or> pa_count a < pl_max_attempts c" using i Some by auto
  show thesis
  proof (cases "pa_locked_at a")
    case (Some l)
    have "time_sub t l < pl_lockout_period c \<longleftrightarrow> t < l + pl_lockout_period c"
      using i by (subst time_sub_less') auto
    with Some \<open>r ip = Some a\<close> show thesis
      by (cases "t < l + pl_lockout_period c")
         (auto simp: portal_allow_def PortalCheckRateLimit_def intro: locked released)
  next
    case None
    have w: "pl_window_period c < time_sub t (pa_first_at a) \<longleftrightarrow> pa_first_at a + pl_window_period c < t"
      using i by (subst time_sub_less) auto
    have "wrap64 (pl_max_attempts c - pa_count a) = pl_max_attempts c - pa_count a"
      using i a None by (intro wrap64_id) (auto simp: i64_defs)
    with w None \<open>r ip = Some a\<close> show thesis
      by (cases "pa_first_at a + pl_window_period c < t")
         (auto simp: portal_allow_def PortalCheckRateLimit_def Let_def intro: expired counting)
  qed
qed

lemma portal_fail_new: "r ip = None \<Longrightarrow> portal_record c t ip False r = r(ip \<mapsto> \<lparr>pa_count = 1, pa_first_at = t, pa_locked_at = None\<rparr>)"
  by (simp add: portal_record_def RecordFailedAttempt_def)

lemma portal_fail_counting:
  assumes "portal_inv c k r" "k < maxI64" "r ip = Some a" "t \<le> pa_first_at a + pl_window_period c"
    "pa_locked_at a = None" "pa_count a < pl_max_attempts c"
  shows "portal_record c t ip False r = r(ip \<mapsto> a\<lparr>pa_count := pa_count a + 1,
    pa_locked_at := (if pl_max_attempts c \<le> pa_count a + 1 then Some t else None)\<rparr>)"
proof -
  note i = assms(1) [unfolded portal_inv_def]
  have "\<not> pl_window_period c < time_sub t (pa_first_at a)" using i assms(4) by (subst time_sub_less) auto
  moreover have "wrap64 (pa_count a + 1) = pa_count a + 1"
    using i assms(3,6) by (intro wrap64_id) (force simp: i64_defs)
  ultimately show ?thesis using assms(3,5)
    by (auto simp: portal_record_def RecordFailedAttempt_def Let_def intro!: arg_cong [where f = "fun_upd r ip"])
qed

interpretation portal: attempt_limiter "portal_allow c" "portal_record c" "\<lambda>t s. s" "portal_inv c" "portal_credit c"
  "pl_window_period c" "failure_bound (pl_max_attempts c)" for c
proof
  show "portal_inv c k (snd (portal_allow c t ip s))" if i: "portal_inv c k s" for k s t ip
    using i by (cases rule: portal_allow_cases [OF i, of ip t]) (auto simp: portal_inv_def)
  show "portal_inv c (k + 1) (portal_record c t ip ok (snd (portal_allow c t ip s)))"
    if i: "portal_inv c k s" and k: "0 \<le> k" "k < maxI64" and a: "fst (portal_allow c t ip s)" for k s t ip ok
  proof (cases ok)
    case True
    with i show ?thesis
      by (cases rule: portal_allow_cases [OF i, of ip t]) (fastforce simp: portal_inv_def portal_record_def ResetAttempts_def)+
  next
    case False
    show ?thesis
      using i k(1) a False
      by (cases rule: portal_allow_cases [OF i, of ip t])
         (fastforce simp: portal_inv_def portal_fail_new portal_fail_counting [OF i k(2)])+
  qed
  show "portal_inv c k' s" if "portal_inv c k s" and "k \<le> k'" for k s k'
    using that by (fastforce simp: portal_inv_def)
  show "0 \<le> portal_credit c b ip s" if "portal_inv c k s" for k s b ip
    using that by (fastforce simp: portal_inv_def portal_credit_def split: option.split)
  show "portal_credit c b ip s \<le> failure_bound (pl_max_attempts c)" if i: "portal_inv c k s" for k s b ip
  proof -
    have "1 \<le> pa_count a" if "s ip = Some a" for a using i that by (auto simp: portal_inv_def)
    moreover have "0 < pl_max_attempts c" using i by (simp add: portal_inv_def)
    ultimately show ?thesis by (fastforce simp: portal_credit_def failure_bound_def max_def split: option.split)
  qed
  show "portal_credit c b ip (snd (portal_allow c t ip' s)) \<le> portal_credit c b ip s"
    if i: "portal_inv c k s" and "b - pl_window_period c \<le> t" "t < b" for k s b t ip ip'
    using that by (cases rule: portal_allow_cases [OF i, of ip' t]) (auto simp: portal_credit_def)
  show "portal_credit c b ip (portal_record c t ip False (snd (portal_allow c t ip s))) + 1 \<le> portal_credit c b ip s"
    if i: "portal_inv c k s" and k: "0 \<le> k" "k < maxI64" and t: "b - pl_window_period c \<le> t" "t < b"
      and a: "fst (portal_allow c t ip s)" for k s b t ip
  proof -
    have c: "0 < pl_max_attempts c" "pl_window_period c \<le> pl_lockout_period c" using i by (auto simp: portal_inv_def)
    from a t c show ?thesis
      by (cases rule: portal_allow_cases [OF i, of ip t])
         (auto simp: portal_credit_def portal_fail_new portal_fail_counting [OF i k(2)])
  qed
  show "portal_credit c b ip (portal_record c t ip' ok s) = portal_credit c b ip s" if "ip' \<noteq> ip" for ip' ip b t ok s
    using that by (auto simp: portal_credit_def portal_record_def ResetAttempts_def RecordFailedAttempt_def Let_def split: option.split)
qed auto

section \<open>Brute force is bounded\<close>


definition sample_attempts :: "(time \<times> limiter_event) list" where
  "sample_attempts = map (\<lambda>t. (t, Attempt ''ip'' False)) [100, 101, 102, 103, 104, 105, 106, 107, 108, 109]"


text \<open>
  The cleanup is invisible: it changes no answer of the limiter at any later instant.
\<close>

lemma cleanup_invisible:
  assumes "now \<le> t" and "0 \<le> lc_window (lm_config rl)" and "lc_window (lm_config rl) < maxI64"
  shows "CheckRateLimit t ip (cleanupExpired now rl) = CheckRateLimit t ip rl"
    and "IsBlocked t ip (cleanupExpired now rl) = IsBlocked t ip rl"
  using assms time_sub_less [of "lc_window (lm_config rl)"]
  by (auto simp: CheckRateLimit_def IsBlocked_def cleanupExpired_def split: option.splits)

text \<open>
  A failure recorded while an address is blocked lifts the block once the window of its first
  failure is over: two attempts in flight, checked before the block, suffice.
\<close>

lemma record_lifts_block:
  "let rl = NewRateLimiter \<lparr>lc_max_attempts = 2, lc_window = 10, lc_block_duration = 100, lc_cleanup_interval = 1\<rparr>;
       rl1 = RecordLoginAttempt 1 ''ip'' False (RecordLoginAttempt 0 ''ip'' False rl);
       rl2 = RecordLoginAttempt 12 ''ip'' False rl1 in
   \<not> fst (CheckRateLimit 12 ''ip'' rl1) \<and> fst (CheckRateLimit 12 ''ip'' rl2)"
  by code_simp

end
