(* ===== verification/Accounts.thy ===== *)
theory Accounts
  imports Sessions RateLimits
begin

text \<open>
  The accounts of the user portal: \<open>internal/portal/auth/service.go\<close> over the user table and
  the tables of \<open>auth_token_repository.go\<close> (password reset and e-mail verification tokens,
  invite codes, two-factor secrets).

  The portal runs on one state: these tables, the login sessions and the login rate limiter
  (which lives in memory and cannot fail).  The token service of \<open>Sessions\<close> sees of it the
  sessions and, of each user, identifier, enabled flag and password hash: \<open>zoom\<close> runs an
  operation of that service on this view.

  Arguments, as they are in the source or because they are not under \<open>src\<close>: hashing and
  verifying passwords, checking a TOTP code, JSON web tokens, random draws.  E-mail
  addresses, user names and passwords are ASCII strings; one reading of the clock serves a whole call.
\<close>

section \<open>Rows and state\<close>

record portal_user =
  pu_id :: int
  pu_username :: string
  pu_password_hash :: string
  pu_email :: string
  pu_role :: string
  pu_enabled :: bool
  pu_force_password_change :: bool
  pu_email_verified :: bool
  pu_email_verified_at :: "time option"
  pu_two_factor_enabled :: bool
  pu_created_at :: time

record reset_token_row =
  rt_id :: int
  rt_user_id :: int
  rt_token :: string
  rt_expires_at :: time
  rt_used_at :: "time option"
  rt_created_at :: time

record verify_token_row =
  vt_id :: int
  vt_user_id :: int
  vt_email :: string
  vt_token :: string
  vt_expires_at :: time
  vt_verified_at :: "time option"
  vt_created_at :: time

record portal_invite_row =
  pi_id :: int
  pi_code :: string
  pi_created_by :: "int option"
  pi_used_by :: "int option"
  pi_max_uses :: int
  pi_used_count :: int
  pi_expires_at :: "time option"
  pi_created_at :: time
  pi_used_at :: "time option"

record two_factor_row =
  tf_id :: int
  tf_user_id :: int
  tf_secret :: string
  tf_backup_codes :: string
  tf_enabled :: bool
  tf_enabled_at :: "time option"
  tf_created_at :: time

record portal_state =
  pt_users :: "portal_user table"
  pt_resets :: "reset_token_row table"
  pt_verifications :: "verify_token_row table"
  pt_invites :: "portal_invite_row table"
  pt_secrets :: "two_factor_row table"
  pt_sessions :: "session table"
  pt_limiter :: portal_limiter

type_synonym 'a portalop = "(portal_state, 'a) op"

section \<open>The token service on the portal's state\<close>

definition account_of :: "portal_user \<Rightarrow> account_row" where
  "account_of u = \<lparr>ac_id = pu_id u, ac_enabled = pu_enabled u, ac_password_hash = pu_password_hash u\<rparr>"

definition auth_view :: "portal_state \<Rightarrow> auth_db" where
  "auth_view d = \<lparr>accounts = \<lparr>rows = map account_of (rows (pt_users d)), seq = seq (pt_users d)\<rparr>,
     auth_sessions = pt_sessions d\<rparr>"

definition zoom :: "'a authop \<Rightarrow> 'a portalop" where
  "zoom = on_part auth_view (\<lambda>v t. t\<lparr>pt_sessions := auth_sessions v\<rparr>)"

definition portal_sessions :: "portal_state session_store" where
  "portal_sessions = \<lparr>ss_create = (\<lambda>now s. zoom (DbSessionCreate now s)), ss_get = (\<lambda>i. zoom (DbSessionGet i)),
     ss_consume = (\<lambda>i. zoom (DbSessionConsume i))\<rparr>"

definition portal_service :: "string \<Rightarrow> int \<Rightarrow> int \<Rightarrow> portal_state auth_service" where
  "portal_service secret tokenExpiry refreshExpiry =
     \<lparr>as_secret = secret, as_token_expiry = (if tokenExpiry = 0 then 24 * hour else tokenExpiry),
      as_refresh_expiry = (if refreshExpiry = 0 then 7 * 24 * hour else refreshExpiry),
      as_blacklist = None, as_sessions = portal_sessions, as_users = Some (\<lambda>i. zoom (AccountGetByID i))\<rparr>"

section \<open>User repository\<close>

text \<open>SQL's TRIM removes blanks.\<close>

definition sql_trim :: "string \<Rightarrow> string" where
  "sql_trim s = rev (dropWhile (\<lambda>c. c = CHR '' '') (rev (dropWhile (\<lambda>c. c = CHR '' '') s)))"

definition normalize_user :: "portal_user \<Rightarrow> portal_user" where
  "normalize_user u = u\<lparr>pu_username := trim_space (pu_username u),
     pu_email := (if pu_email u \<noteq> [] then to_lower (trim_space (pu_email u)) else pu_email u)\<rparr>"

definition username_clash :: "portal_user \<Rightarrow> portal_user \<Rightarrow> bool" where
  "username_clash a b \<longleftrightarrow> pu_username a = pu_username b"

definition not_found_or :: "err \<Rightarrow> string \<Rightarrow> err \<Rightarrow> err" where
  "not_found_or missing msg e = (if e = Gorm ErrRecordNotFound then missing else DatabaseError msg e)"

definition PortalUserCreate :: "portal_user \<Rightarrow> portal_user portalop" where
  "PortalUserCreate u = map_err (DatabaseError ''failed to create user'')
     (create pt_users pt_users_update username_clash (\<lambda>i. (normalize_user u)\<lparr>pu_id := i\<rparr>))"

definition PortalUserGetByID :: "int \<Rightarrow> portal_user portalop" where
  "PortalUserGetByID i = map_err (not_found_or (NotFoundError ''user'' i) ''failed to get user'')
     (first pt_users (\<lambda>u. pu_id u = i))"

definition GetByUsername :: "string \<Rightarrow> portal_user portalop" where
  "GetByUsername username = (let name = to_lower (trim_space username) in
     map_err (not_found_or (NotFoundKey ''user'' name) ''failed to get user'')
       (first pt_users (\<lambda>u. to_lower (sql_trim (pu_username u)) = name)))"

definition GetByEmail :: "string \<Rightarrow> portal_user portalop" where
  "GetByEmail email = (let addr = to_lower (trim_space email) in
     map_err (not_found_or (NotFoundKey ''user'' addr) ''failed to get user'')
       (first pt_users (\<lambda>u. to_lower (sql_trim (pu_email u)) = addr)))"

definition PortalUserUpdate :: "portal_user \<Rightarrow> unit portalop" where
  "PortalUserUpdate u = map_err (DatabaseError ''failed to update user'')
     (save pt_users pt_users_update username_clash pu_id (normalize_user u))"

section \<open>Token repository\<close>

definition affected_or :: "string \<Rightarrow> err \<Rightarrow> int portalop \<Rightarrow> unit portalop" where
  "affected_or msg missing m = bindE (map_err (DatabaseError msg) m) (\<lambda>n. guardE (n \<noteq> 0) missing)"

definition ResetIsExpired :: "time \<Rightarrow> reset_token_row \<Rightarrow> bool" where
  "ResetIsExpired now t \<longleftrightarrow> rt_expires_at t < now"

definition ResetIsUsed :: "reset_token_row \<Rightarrow> bool" where
  "ResetIsUsed t \<longleftrightarrow> rt_used_at t \<noteq> None"

definition CreatePasswordResetToken :: "reset_token_row \<Rightarrow> reset_token_row portalop" where
  "CreatePasswordResetToken t = map_err (DatabaseError ''failed to create password reset token'')
     (create pt_resets pt_resets_update (\<lambda>a b. rt_token a = rt_token b) (\<lambda>i. t\<lparr>rt_id := i\<rparr>))"

definition GetPasswordResetTokenByToken :: "string \<Rightarrow> reset_token_row portalop" where
  "GetPasswordResetTokenByToken token =
     map_err (not_found_or (NotFoundKey ''password_reset_token'' token) ''failed to get password reset token'')
       (first pt_resets (\<lambda>t. rt_token t = token))"

definition MarkPasswordResetTokenUsed :: "time \<Rightarrow> int \<Rightarrow> unit portalop" where
  "MarkPasswordResetTokenUsed now i =
     affected_or ''failed to mark password reset token as used'' (NotFoundError ''password_reset_token'' i)
       (update_where pt_resets pt_resets_update (\<lambda>t. rt_id t = i) (\<lambda>t. t\<lparr>rt_used_at := Some now\<rparr>))"

definition DeleteExpiredPasswordResetTokens :: "time \<Rightarrow> int portalop" where
  "DeleteExpiredPasswordResetTokens now = map_err (DatabaseError ''failed to delete expired password reset tokens'')
     (delete_where pt_resets pt_resets_update (\<lambda>t. rt_expires_at t < now))"

definition CountPasswordResetTokensByUser :: "int \<Rightarrow> time \<Rightarrow> int portalop" where
  "CountPasswordResetTokensByUser userID since = map_err (DatabaseError ''failed to count password reset tokens'')
     (query (\<lambda>d. count_rows (\<lambda>t. rt_user_id t = userID \<and> since \<le> rt_created_at t) (pt_resets d)))"

definition VerifyIsExpired :: "time \<Rightarrow> verify_token_row \<Rightarrow> bool" where
  "VerifyIsExpired now t \<longleftrightarrow> vt_expires_at t < now"

definition VerifyIsVerified :: "verify_token_row \<Rightarrow> bool" where
  "VerifyIsVerified t \<longleftrightarrow> vt_verified_at t \<noteq> None"

definition RepoCreateEmailVerificationToken :: "verify_token_row \<Rightarrow> verify_token_row portalop" where
  "RepoCreateEmailVerificationToken t = map_err (DatabaseError ''failed to create email verification token'')
     (create pt_verifications pt_verifications_update (\<lambda>a b. vt_token a = vt_token b) (\<lambda>i. t\<lparr>vt_id := i\<rparr>))"

definition GetEmailVerificationTokenByToken :: "string \<Rightarrow> verify_token_row portalop" where
  "GetEmailVerificationTokenByToken token =
     map_err (not_found_or (NotFoundKey ''email_verification_token'' token) ''failed to get email verification token'')
       (first pt_verifications (\<lambda>t. vt_token t = token))"

definition MarkEmailVerified :: "time \<Rightarrow> int \<Rightarrow> unit portalop" where
  "MarkEmailVerified now i =
     affected_or ''failed to mark email as verified'' (NotFoundError ''email_verification_token'' i)
       (update_where pt_verifications pt_verifications_update (\<lambda>t. vt_id t = i) (\<lambda>t. t\<lparr>vt_verified_at := Some now\<rparr>))"

definition CountPendingEmailVerificationTokensByUser :: "time \<Rightarrow> int \<Rightarrow> int portalop" where
  "CountPendingEmailVerificationTokensByUser now userID =
     map_err (DatabaseError ''failed to count pending email verification tokens'')
     (query (\<lambda>d. count_rows (\<lambda>t. vt_user_id t = userID \<and> vt_verified_at t = None \<and> now < vt_expires_at t) (pt_verifications d)))"

definition DeleteExpiredEmailVerificationTokens :: "time \<Rightarrow> int portalop" where
  "DeleteExpiredEmailVerificationTokens now = map_err (DatabaseError ''failed to delete expired email verification tokens'')
     (delete_where pt_verifications pt_verifications_update (\<lambda>t. vt_expires_at t < now))"

definition InviteIsExpired :: "time \<Rightarrow> portal_invite_row \<Rightarrow> bool" where
  "InviteIsExpired now c = (case pi_expires_at c of None \<Rightarrow> False | Some t \<Rightarrow> t < now)"

definition InviteIsExhausted :: "portal_invite_row \<Rightarrow> bool" where
  "InviteIsExhausted c \<longleftrightarrow> pi_max_uses c \<le> pi_used_count c"

definition InviteIsValid :: "time \<Rightarrow> portal_invite_row \<Rightarrow> bool" where
  "InviteIsValid now c \<longleftrightarrow> \<not> InviteIsExpired now c \<and> \<not> InviteIsExhausted c"

definition CreateInviteCode :: "portal_invite_row \<Rightarrow> portal_invite_row portalop" where
  "CreateInviteCode c = map_err (DatabaseError ''failed to create invite code'')
     (create pt_invites pt_invites_update (\<lambda>a b. pi_code a = pi_code b) (\<lambda>i. c\<lparr>pi_id := i\<rparr>))"

definition GetInviteCodeByCode :: "string \<Rightarrow> portal_invite_row portalop" where
  "GetInviteCodeByCode code = map_err (not_found_or (NotFoundKey ''invite_code'' code) ''failed to get invite code'')
     (first pt_invites (\<lambda>c. pi_code c = code))"

definition UseInviteCode :: "time \<Rightarrow> string \<Rightarrow> int \<Rightarrow> unit portalop" where
  "UseInviteCode now code userID = affected_or ''failed to use invite code'' (NotFoundKey ''invite_code'' code)
     (update_where pt_invites pt_invites_update (\<lambda>c. pi_code c = code)
       (\<lambda>c. c\<lparr>pi_used_by := Some userID, pi_used_count := pi_used_count c + 1, pi_used_at := Some now\<rparr>))"

definition ListInviteCodes :: "int \<Rightarrow> int \<Rightarrow> (portal_invite_row list \<times> int) portalop" where
  "ListInviteCodes limit offset =
     bindE (map_err (DatabaseError ''failed to count invite codes'') (query (\<lambda>d. count_rows (\<lambda>_. True) (pt_invites d)))) (\<lambda>total.
     bindE (map_err (DatabaseError ''failed to list invite codes'') (query (\<lambda>d.
       let cs = sort_key (\<lambda>c. - pi_created_at c) (rows (pt_invites d));
           cs = (if 0 < offset then drop (nat offset) cs else cs) in
       if 0 < limit then take (nat limit) cs else cs))) (\<lambda>cs. ret (cs, total)))"

definition DeleteInviteCode :: "int \<Rightarrow> unit portalop" where
  "DeleteInviteCode i = affected_or ''failed to delete invite code'' (NotFoundError ''invite_code'' i)
     (delete_where pt_invites pt_invites_update (\<lambda>c. pi_id c = i))"

definition CreateTwoFactorSecret :: "two_factor_row \<Rightarrow> two_factor_row portalop" where
  "CreateTwoFactorSecret s = map_err (DatabaseError ''failed to create 2FA secret'')
     (create pt_secrets pt_secrets_update (\<lambda>a b. tf_user_id a = tf_user_id b) (\<lambda>i. s\<lparr>tf_id := i\<rparr>))"

definition GetTwoFactorSecretByUserID :: "int \<Rightarrow> two_factor_row portalop" where
  "GetTwoFactorSecretByUserID userID =
     map_err (not_found_or (NotFoundError ''two_factor_secret'' userID) ''failed to get 2FA secret'')
       (first pt_secrets (\<lambda>s. tf_user_id s = userID))"

definition UpdateTwoFactorSecret :: "two_factor_row \<Rightarrow> unit portalop" where
  "UpdateTwoFactorSecret s = map_err (DatabaseError ''failed to update 2FA secret'')
     (save pt_secrets pt_secrets_update (\<lambda>a b. tf_user_id a = tf_user_id b) tf_id s)"

definition DeleteTwoFactorSecret :: "int \<Rightarrow> unit portalop" where
  "DeleteTwoFactorSecret userID = affected_or ''failed to delete 2FA secret'' (NotFoundError ''two_factor_secret'' userID)
     (delete_where pt_secrets pt_secrets_update (\<lambda>s. tf_user_id s = userID))"

text \<open>The result of the second UPDATE, of the user's flag, is ignored.\<close>

definition EnableTwoFactor :: "time \<Rightarrow> int \<Rightarrow> unit portalop" where
  "EnableTwoFactor now userID =
     bindE (affected_or ''failed to enable 2FA'' (NotFoundError ''two_factor_secret'' userID)
       (update_where pt_secrets pt_secrets_update (\<lambda>s. tf_user_id s = userID)
         (\<lambda>s. s\<lparr>tf_enabled := True, tf_enabled_at := Some now\<rparr>))) (\<lambda>_.
     bindE (attempt (update_where pt_users pt_users_update (\<lambda>u. pu_id u = userID)
       (\<lambda>u. u\<lparr>pu_two_factor_enabled := True\<rparr>))) (\<lambda>_. ret ()))"

text \<open>The first entry equal to the code is left out, and empty entries are.\<close>

fun drop_code :: "string \<Rightarrow> bool \<Rightarrow> string list \<Rightarrow> bool \<times> string list" where
  "drop_code code found [] = (found, [])"
| "drop_code code found (c # cs) =
     (if c = code \<and> \<not> found then drop_code code True cs
      else (case drop_code code found cs of (f, rest) \<Rightarrow> (f, if c \<noteq> [] then c # rest else rest)))"

definition VerifyBackupCode :: "int \<Rightarrow> string \<Rightarrow> bool portalop" where
  "VerifyBackupCode userID code =
     bindE (GetTwoFactorSecretByUserID userID) (\<lambda>secret.
     case drop_code code False (split_char (CHR '','') (tf_backup_codes secret)) of (found, newCodes) \<Rightarrow>
     if \<not> found then ret False
     else bindE (UpdateTwoFactorSecret (secret\<lparr>tf_backup_codes := join_char (CHR '','') newCodes\<rparr>)) (\<lambda>_. ret True))"

section \<open>Requests and their validation\<close>

text \<open>The messages of the service, in UTF-8.\<close>

definition pm_username_empty :: string where
  "pm_username_empty = utf8 [231, 148, 168, 230, 136, 183, 229, 144, 141, 228, 184, 141, 232, 131, 189, 228, 184,
     186, 231, 169, 186]"

definition pm_username_length :: string where
  "pm_username_length = utf8 [231, 148, 168, 230, 136, 183, 229, 144, 141, 233, 149, 191, 229, 186, 166, 229, 191,
     133, 233, 161, 187, 229, 156, 168, 51, 45, 53, 48, 228, 184, 170, 229, 173, 151, 231,
     172, 166, 228, 185, 139, 233, 151, 180]"

definition pm_email_empty :: string where
  "pm_email_empty = utf8 [233, 130, 174, 231, 174, 177, 228, 184, 141, 232, 131, 189, 228, 184, 186, 231, 169, 186]"

definition pm_email_format :: string where
  "pm_email_format = utf8 [233, 130, 174, 231, 174, 177, 230, 160, 188, 229, 188, 143, 228, 184, 141, 230, 173,
     163, 231, 161, 174]"

definition pm_password_empty :: string where
  "pm_password_empty = utf8 [229, 175, 134, 231, 160, 129, 228, 184, 141, 232, 131, 189, 228, 184, 186, 231, 169, 186]"

definition pm_password_weak :: string where
  "pm_password_weak = utf8 [229, 175, 134, 231, 160, 129, 229, 191, 133, 233, 161, 187, 232, 135, 179, 229, 176,
     145, 56, 228, 184, 170, 229, 173, 151, 231, 172, 166, 239, 188, 140, 229, 140, 133, 229,
     144, 171, 229, 173, 151, 230, 175, 141, 229, 146, 140, 230, 149, 176, 229, 173, 151]"

definition pm_login_empty :: string where
  "pm_login_empty = utf8 [231, 148, 168, 230, 136, 183, 229, 144, 141, 230, 136, 150, 233, 130, 174, 231, 174,
     177, 228, 184, 141, 232, 131, 189, 228, 184, 186, 231, 169, 186]"

definition pm_current_empty :: string where
  "pm_current_empty = utf8 [229, 189, 147, 229, 137, 141, 229, 175, 134, 231, 160, 129, 228, 184, 141, 232, 131,
     189, 228, 184, 186, 231, 169, 186]"

definition pm_new_empty :: string where
  "pm_new_empty = utf8 [230, 150, 176, 229, 175, 134, 231, 160, 129, 228, 184, 141, 232, 131, 189, 228, 184,
     186, 231, 169, 186]"

definition pm_new_weak :: string where
  "pm_new_weak = utf8 [230, 150, 176, 229, 175, 134, 231, 160, 129, 229, 191, 133, 233, 161, 187, 232, 135,
     179, 229, 176, 145, 56, 228, 184, 170, 229, 173, 151, 231, 172, 166, 239, 188, 140, 229,
     140, 133, 229, 144, 171, 229, 173, 151, 230, 175, 141, 229, 146, 140, 230, 149, 176,
     229, 173, 151]"

definition pm_reset_empty :: string where
  "pm_reset_empty = utf8 [233, 135, 141, 231, 189, 174, 228, 187, 164, 231, 137, 140, 228, 184, 141, 232, 131,
     189, 228, 184, 186, 231, 169, 186]"

definition pm_email_taken :: string where
  "pm_email_taken = utf8 [232, 175, 165, 233, 130, 174, 231, 174, 177, 229, 183, 178, 232, 162, 171, 230, 179,
     168, 229, 134, 140]"

definition pm_invite_invalid :: string where
  "pm_invite_invalid = utf8 [233, 130, 128, 232, 175, 183, 231, 160, 129, 230, 151, 160, 230, 149, 136]"

definition pm_invite_used :: string where
  "pm_invite_used = utf8 [233, 130, 128, 232, 175, 183, 231, 160, 129, 229, 183, 178, 232, 191, 135, 230, 156,
     159, 230, 136, 150, 229, 183, 178, 231, 148, 168, 229, 174, 140]"

definition pm_invite_needed :: string where
  "pm_invite_needed = utf8 [233, 156, 128, 232, 166, 129, 233, 130, 128, 232, 175, 183, 231, 160, 129, 230, 137,
     141, 232, 131, 189, 230, 179, 168, 229, 134, 140]"

definition pm_verify_invalid :: string where
  "pm_verify_invalid = utf8 [233, 170, 140, 232, 175, 129, 228, 187, 164, 231, 137, 140, 230, 151, 160, 230, 149, 136]"

definition pm_already_verified :: string where
  "pm_already_verified = utf8 [233, 130, 174, 231, 174, 177, 229, 183, 178, 233, 170, 140, 232, 175, 129]"

definition pm_verify_expired :: string where
  "pm_verify_expired = utf8 [233, 170, 140, 232, 175, 129, 228, 187, 164, 231, 137, 140, 229, 183, 178, 232, 191,
     135, 230, 156, 159]"

definition pm_too_many :: string where
  "pm_too_many = utf8 [231, 153, 187, 229, 189, 149, 229, 176, 157, 232, 175, 149, 230, 172, 161, 230, 149,
     176, 232, 191, 135, 229, 164, 154, 239, 188, 140, 232, 175, 183, 231, 168, 141, 229,
     144, 142, 229, 134, 141, 232, 175, 149]"

definition pm_bad_login :: string where
  "pm_bad_login = utf8 [231, 148, 168, 230, 136, 183, 229, 144, 141, 230, 136, 150, 229, 175, 134, 231, 160,
     129, 233, 148, 153, 232, 175, 175]"

definition pm_disabled :: string where
  "pm_disabled = utf8 [232, 180, 166, 230, 136, 183, 229, 183, 178, 232, 162, 171, 231, 166, 129, 231, 148, 168]"

definition pm_unverified :: string where
  "pm_unverified = utf8 [232, 175, 183, 229, 133, 136, 233, 170, 140, 232, 175, 129, 233, 130, 174, 231, 174,
     177, 229, 144, 142, 229, 134, 141, 231, 153, 187, 229, 189, 149]"

definition pm_user_id_empty :: string where
  "pm_user_id_empty = utf8 [231, 148, 168, 230, 136, 183, 73, 68, 228, 184, 141, 232, 131, 189, 228, 184, 186, 231,
     169, 186]"

definition pm_code_empty :: string where
  "pm_code_empty = utf8 [233, 170, 140, 232, 175, 129, 231, 160, 129, 228, 184, 141, 232, 131, 189, 228, 184,
     186, 231, 169, 186]"

definition pm_code_format :: string where
  "pm_code_format = utf8 [233, 170, 140, 232, 175, 129, 231, 160, 129, 230, 160, 188, 229, 188, 143, 228, 184,
     141, 230, 173, 163, 231, 161, 174]"

definition pm_need_password :: string where
  "pm_need_password = utf8 [233, 156, 128, 232, 166, 129, 233, 135, 141, 230, 150, 176, 233, 170, 140, 232, 175,
     129, 229, 175, 134, 231, 160, 129]"

definition pm_challenge_invalid :: string where
  "pm_challenge_invalid = utf8 [231, 153, 187, 229, 189, 149, 233, 170, 140, 232, 175, 129, 229, 183, 178, 229, 164,
     177, 230, 149, 136, 239, 188, 140, 232, 175, 183, 233, 135, 141, 230, 150, 176, 231,
     153, 187, 229, 189, 149]"

definition pm_no_2fa :: string where
  "pm_no_2fa = utf8 [228, 184, 164, 230, 173, 165, 233, 170, 140, 232, 175, 129, 230, 156, 170, 229, 144,
     175, 231, 148, 168]"

definition pm_bad_code :: string where
  "pm_bad_code = utf8 [233, 170, 140, 232, 175, 129, 231, 160, 129, 233, 148, 153, 232, 175, 175]"

definition pm_bad_backup :: string where
  "pm_bad_backup = utf8 [229, 164, 135, 228, 187, 189, 231, 160, 129, 233, 148, 153, 232, 175, 175, 230, 136,
     150, 229, 183, 178, 228, 189, 191, 231, 148, 168]"

definition pm_challenge_used :: string where
  "pm_challenge_used = utf8 [231, 153, 187, 229, 189, 149, 233, 170, 140, 232, 175, 129, 229, 183, 178, 228, 189,
     191, 231, 148, 168, 239, 188, 140, 232, 175, 183, 233, 135, 141, 230, 150, 176, 231,
     153, 187, 229, 189, 149]"

definition pm_bad_password :: string where
  "pm_bad_password = utf8 [229, 175, 134, 231, 160, 129, 233, 148, 153, 232, 175, 175]"

definition pm_too_many_resets :: string where
  "pm_too_many_resets = utf8 [229, 175, 134, 231, 160, 129, 233, 135, 141, 231, 189, 174, 232, 175, 183, 230, 177,
     130, 232, 191, 135, 228, 186, 142, 233, 162, 145, 231, 185, 129, 239, 188, 140, 232,
     175, 183, 231, 168, 141, 229, 144, 142, 229, 134, 141, 232, 175, 149]"

definition pm_reset_invalid :: string where
  "pm_reset_invalid = utf8 [233, 135, 141, 231, 189, 174, 228, 187, 164, 231, 137, 140, 230, 151, 160, 230, 149, 136]"

definition pm_reset_used :: string where
  "pm_reset_used = utf8 [233, 135, 141, 231, 189, 174, 228, 187, 164, 231, 137, 140, 229, 183, 178, 228, 189,
     191, 231, 148, 168]"

definition pm_reset_expired :: string where
  "pm_reset_expired = utf8 [233, 135, 141, 231, 189, 174, 228, 187, 164, 231, 137, 140, 229, 183, 178, 232, 191,
     135, 230, 156, 159]"

definition pm_bad_current :: string where
  "pm_bad_current = utf8 [229, 189, 147, 229, 137, 141, 229, 175, 134, 231, 160, 129, 233, 148, 153, 232, 175, 175]"

definition normalizeEmail :: "string \<Rightarrow> string" where
  "normalizeEmail email = to_lower (trim_space email)"

definition is_letter :: "char \<Rightarrow> bool" where
  "is_letter c = (97 \<le> (of_char c :: nat) \<and> of_char c \<le> (122::nat) \<or> 65 \<le> (of_char c :: nat) \<and> of_char c \<le> (90::nat))"

definition local_char :: "char \<Rightarrow> bool" where
  "local_char c = (is_letter c \<or> is_digit c \<or> c \<in> set ''._%+-'')"

definition domain_char :: "char \<Rightarrow> bool" where
  "domain_char c = (is_letter c \<or> is_digit c \<or> c \<in> set ''.-'')"

text \<open>
  Matching \<open>^[a-zA-Z0-9._%+\-]+@[a-zA-Z0-9.\-]+\.[a-zA-Z]{2,}$\<close>: the part before the
  first @, and after it the part behind the last dot.
\<close>

definition emailRegex_match :: "string \<Rightarrow> bool" where
  "emailRegex_match s =
     (let loc = takeWhile (\<lambda>c. c \<noteq> CHR ''@'') s in
      case dropWhile (\<lambda>c. c \<noteq> CHR ''@'') s of
        [] \<Rightarrow> False
      | _ # dmn \<Rightarrow>
          (let top = rev (takeWhile (\<lambda>c. c \<noteq> CHR ''.'') (rev dmn)) in
           case dropWhile (\<lambda>c. c \<noteq> CHR ''.'') (rev dmn) of
             [] \<Rightarrow> False
           | _ # sub \<Rightarrow> loc \<noteq> [] \<and> list_all local_char loc \<and> sub \<noteq> [] \<and> list_all domain_char sub
               \<and> 2 \<le> length top \<and> list_all is_letter top))"

definition ValidateEmail :: "string \<Rightarrow> bool" where
  "ValidateEmail email =
     (if email = [] then False
      else (let email = normalizeEmail email in if 254 < length email then False else emailRegex_match email))"

definition ValidatePassword :: "string \<Rightarrow> bool" where
  "ValidatePassword password =
     (if length password < 8 then False else list_ex is_letter password \<and> list_ex is_digit password)"

record register_request =
  rg_username :: string
  rg_email :: string
  rg_password :: string
  rg_invite_code :: string

type_synonym field_errors = "(string \<times> string) list"

definition RegisterValidate :: "register_request \<Rightarrow> field_errors \<times> register_request" where
  "RegisterValidate r0 =
     (let r = r0\<lparr>rg_username := trim_space (rg_username r0), rg_email := normalizeEmail (rg_email r0)\<rparr> in
      ((if rg_username r = [] then [(''username'', pm_username_empty)]
        else if length (rg_username r) < 3 \<or> 50 < length (rg_username r) then [(''username'', pm_username_length)] else [])
     @ (if rg_email r = [] then [(''email'', pm_email_empty)]
        else if \<not> ValidateEmail (rg_email r) then [(''email'', pm_email_format)] else [])
     @ (if rg_password r = [] then [(''password'', pm_password_empty)]
        else if \<not> ValidatePassword (rg_password r) then [(''password'', pm_password_weak)] else []), r))"

record login_request =
  lq_username :: string
  lq_password :: string
  lq_remember :: bool

definition LoginValidate :: "login_request \<Rightarrow> field_errors \<times> login_request" where
  "LoginValidate r0 =
     (let name = trim_space (lq_username r0);
          r = r0\<lparr>lq_username := (if ValidateEmail name then normalizeEmail name else name)\<rparr> in
      ((if lq_username r = [] then [(''username'', pm_login_empty)] else [])
     @ (if lq_password r = [] then [(''password'', pm_password_empty)] else []), r))"

record change_password_request =
  cq_current :: string
  cq_new :: string

definition new_password_errors :: "string \<Rightarrow> field_errors" where
  "new_password_errors p =
     (if p = [] then [(''new_password'', pm_new_empty)]
      else if \<not> ValidatePassword p then [(''new_password'', pm_new_weak)] else [])"

definition ChangeValidate :: "change_password_request \<Rightarrow> field_errors" where
  "ChangeValidate r = (if cq_current r = [] then [(''current_password'', pm_current_empty)] else [])
     @ new_password_errors (cq_new r)"

record reset_password_request =
  rq_token :: string
  rq_new :: string

definition ResetValidate :: "reset_password_request \<Rightarrow> field_errors" where
  "ResetValidate r = (if rq_token r = [] then [(''token'', pm_reset_empty)] else []) @ new_password_errors (rq_new r)"

definition RequestResetValidate :: "string \<Rightarrow> field_errors \<times> string" where
  "RequestResetValidate email0 = (let email = normalizeEmail email0 in
     (if email = [] then [(''email'', pm_email_empty)]
      else if \<not> ValidateEmail email then [(''email'', pm_email_format)] else [], email))"

record two_factor_request =
  tq_challenge :: string
  tq_user_id :: int
  tq_code :: string

definition TwoFactorValidate :: "two_factor_request \<Rightarrow> field_errors" where
  "TwoFactorValidate r = (if tq_user_id r = 0 then [(''user_id'', pm_user_id_empty)] else [])
     @ (if tq_code r = [] then [(''code'', pm_code_empty)]
        else if length (tq_code r) \<noteq> 6 \<and> length (tq_code r) \<noteq> 8 then [(''code'', pm_code_format)] else [])"

definition valid_or_raise :: "field_errors \<Rightarrow> unit portalop" where
  "valid_or_raise errs = (case errs of [] \<Rightarrow> ret () | (f, m) # _ \<Rightarrow> raise (ValidationError ''validation failed'' m))"

section \<open>The service\<close>

record portal_env =
  pe_lib :: token_lib
  pe_svc :: "portal_state auth_service option"
  pe_hash :: "string \<Rightarrow> err + string"
  pe_verify :: "string \<Rightarrow> string \<Rightarrow> bool"
  pe_totp :: "string \<Rightarrow> string \<Rightarrow> bool"
  pe_token :: "int \<Rightarrow> string \<Rightarrow> string \<Rightarrow> err + string"
  pe_random :: "err + nat list"

text \<open>\<open>draws\<close> are the numbers below 62 the random source delivers.\<close>

definition token_charset :: string where
  "token_charset = ''abcdefghijklmnopqrstuvwxyzABCDEFGHIJKLMNOPQRSTUVWXYZ0123456789''"

definition generateSecureToken :: "nat list \<Rightarrow> nat \<Rightarrow> string" where
  "generateSecureToken draws len = map (\<lambda>n. token_charset ! n) (take len draws)"

definition CheckUsernameExists :: "string \<Rightarrow> bool portalop" where
  "CheckUsernameExists username = bindE (attempt (GetByUsername username)) (\<lambda>r. case r of
      Inr _ \<Rightarrow> ret True | Inl e \<Rightarrow> if IsNotFound e then ret False else raise e)"

record register_result =
  rr_user_id :: int
  rr_username :: string
  rr_email :: string
  rr_verification_token :: string

definition hashed :: "portal_env \<Rightarrow> string \<Rightarrow> string portalop" where
  "hashed env p = (case pe_hash env p of Inl e \<Rightarrow> raise (InternalError ''failed to hash password'' (Some e)) | Inr h \<Rightarrow> ret h)"

definition check_invite :: "time \<Rightarrow> bool \<Rightarrow> string \<Rightarrow> unit portalop" where
  "check_invite now inviteRequired code =
     (if inviteRequired \<and> code \<noteq> [] then
        bindE (attempt (GetInviteCodeByCode code)) (\<lambda>r. case r of
           Inl e \<Rightarrow> raise (if IsNotFound e then ValidationError ''invite_code'' pm_invite_invalid else e)
         | Inr c \<Rightarrow> guardE (InviteIsValid now c) (ValidationError ''invite_code'' pm_invite_used))
      else if inviteRequired then raise (ValidationError ''invite_code'' pm_invite_needed)
      else ret ())"

definition new_user :: "time \<Rightarrow> register_request \<Rightarrow> string \<Rightarrow> portal_user" where
  "new_user now req hash = \<lparr>pu_id = 0, pu_username = rg_username req, pu_password_hash = hash, pu_email = rg_email req,
     pu_role = ''user'', pu_enabled = True, pu_force_password_change = False, pu_email_verified = False,
     pu_email_verified_at = None, pu_two_factor_enabled = False, pu_created_at = now\<rparr>"

definition Register :: "portal_env \<Rightarrow> time \<Rightarrow> nat list \<Rightarrow> register_request \<Rightarrow> bool \<Rightarrow> register_result portalop" where
  "Register env now draws req0 inviteRequired =
     (case RegisterValidate req0 of (errs, req) \<Rightarrow>
      bindE (valid_or_raise errs) (\<lambda>_.
      bindE (CheckUsernameExists (rg_username req)) (\<lambda>taken.
      bindE (guardE (\<not> taken) (ConflictError (''user with username '' @ rg_username req @ '' already exists''))) (\<lambda>_.
      bindE (attempt (GetByEmail (rg_email req))) (\<lambda>existing.
      bindE (case existing of Inl e \<Rightarrow> (if IsNotFound e then ret () else raise e)
             | Inr _ \<Rightarrow> raise (ConflictError pm_email_taken)) (\<lambda>_.
      bindE (check_invite now inviteRequired (rg_invite_code req)) (\<lambda>_.
      bindE (hashed env (rg_password req)) (\<lambda>hash.
      bindE (PortalUserCreate (new_user now req hash)) (\<lambda>user.
      bindE (if rg_invite_code req \<noteq> []
             then bindE (attempt (UseInviteCode now (rg_invite_code req) (pu_id user))) (\<lambda>_. ret ()) else ret ()) (\<lambda>_.
      ret \<lparr>rr_user_id = pu_id user, rr_username = pu_username user, rr_email = pu_email user,
        rr_verification_token = generateSecureToken draws 32\<rparr>))))))))))"

definition CreateEmailVerificationToken :: "time \<Rightarrow> nat list \<Rightarrow> int \<Rightarrow> string \<Rightarrow> string portalop" where
  "CreateEmailVerificationToken now draws userID email =
     (let token = generateSecureToken draws 32 in
      bindE (RepoCreateEmailVerificationToken \<lparr>vt_id = 0, vt_user_id = userID, vt_email = email, vt_token = token,
        vt_expires_at = now + 24 * hour, vt_verified_at = None, vt_created_at = now\<rparr>) (\<lambda>_. ret token))"

definition ResendVerificationEmail :: "time \<Rightarrow> nat list \<Rightarrow> int \<Rightarrow> string \<Rightarrow> string portalop" where
  "ResendVerificationEmail now draws userID email = CreateEmailVerificationToken now draws userID email"

definition VerifyEmail :: "time \<Rightarrow> string \<Rightarrow> unit portalop" where
  "VerifyEmail now token =
     bindE (map_err (\<lambda>e. if IsNotFound e then ValidationError ''token'' pm_verify_invalid else e)
       (GetEmailVerificationTokenByToken token)) (\<lambda>vt.
     bindE (guardE (\<not> VerifyIsVerified vt) (ValidationError ''token'' pm_already_verified)) (\<lambda>_.
     bindE (guardE (\<not> VerifyIsExpired now vt) (ValidationError ''token'' pm_verify_expired)) (\<lambda>_.
     bindE (MarkEmailVerified now (vt_id vt)) (\<lambda>_.
     bindE (PortalUserGetByID (vt_user_id vt)) (\<lambda>user.
     PortalUserUpdate (user\<lparr>pu_email_verified := True, pu_email_verified_at := Some now\<rparr>))))))"

text \<open>The rate limiter, which is not a table: no statement, no fault.\<close>

definition check_limit :: "portal_config \<Rightarrow> time \<Rightarrow> string \<Rightarrow> bool portalop" where
  "check_limit cfg now ip w = (case PortalCheckRateLimit cfg now ip (pt_limiter (tables w)) of
     ((allowed, _), l) \<Rightarrow> (Inr allowed, w\<lparr>tables := (tables w)\<lparr>pt_limiter := l\<rparr>\<rparr>))"

definition set_limiter :: "(portal_limiter \<Rightarrow> portal_limiter) \<Rightarrow> unit portalop" where
  "set_limiter f w = (Inr (), w\<lparr>tables := (tables w)\<lparr>pt_limiter := f (pt_limiter (tables w))\<rparr>\<rparr>)"

record login_result =
  lr_user_id :: int
  lr_username :: string
  lr_email :: string
  lr_role :: string
  lr_token :: "string option"
  lr_refresh_token :: "string option"
  lr_requires_2fa :: bool
  lr_challenge_token :: "string option"
  lr_force_password_change :: bool

definition result_for :: "portal_user \<Rightarrow> login_result" where
  "result_for u = \<lparr>lr_user_id = pu_id u, lr_username = pu_username u, lr_email = pu_email u, lr_role = pu_role u,
     lr_token = None, lr_refresh_token = None, lr_requires_2fa = False, lr_challenge_token = None,
     lr_force_password_change = pu_force_password_change u\<rparr>"

text \<open>The expiry of the access token: the caller's when it is positive, else the service's.\<close>

definition token_expiry :: "'t auth_service \<Rightarrow> int option \<Rightarrow> int" where
  "token_expiry svc e = (case e of Some x \<Rightarrow> if 0 < x then x else as_token_expiry svc | None \<Rightarrow> as_token_expiry svc)"

definition Login :: "portal_env \<Rightarrow> time \<Rightarrow> login_request \<Rightarrow> string \<Rightarrow> portal_config option \<Rightarrow> int option \<Rightarrow> login_result portalop" where
  "Login env now req0 ip limiter expiry =
     (case LoginValidate req0 of (errs, req) \<Rightarrow>
      bindE (valid_or_raise errs) (\<lambda>_.
      bindE (case limiter of None \<Rightarrow> ret True | Some cfg \<Rightarrow> check_limit cfg now ip) (\<lambda>allowed.
      bindE (guardE allowed (RateLimitError pm_too_many)) (\<lambda>_.
      let failed = (case limiter of None \<Rightarrow> ret () | Some cfg \<Rightarrow> set_limiter (RecordFailedAttempt cfg now ip)) in
      bindE (attempt (if ValidateEmail (lq_username req) then GetByEmail (normalizeEmail (lq_username req))
                      else GetByUsername (trim_space (lq_username req)))) (\<lambda>found. case found of
        Inl e \<Rightarrow> if IsNotFound e then bindE failed (\<lambda>_. raise (UnauthorizedError pm_bad_login)) else raise e
      | Inr user \<Rightarrow>
        bindE (guardE (pu_enabled user) (ForbiddenError pm_disabled)) (\<lambda>_.
        bindE (if \<not> pu_email_verified user \<and> trim_space (pu_email user) \<noteq> []
               then bindE (CountPendingEmailVerificationTokensByUser now (pu_id user)) (\<lambda>pending.
                 guardE (\<not> 0 < pending) (ForbiddenError pm_unverified))
               else ret ()) (\<lambda>_.
        if \<not> pe_verify env (lq_password req) (pu_password_hash user)
        then bindE failed (\<lambda>_. raise (UnauthorizedError pm_bad_login))
        else if pu_two_factor_enabled user then
          (case pe_svc env of
             None \<Rightarrow> raise (InternalError ''2FA challenge service unavailable'' None)
           | Some svc \<Rightarrow>
             bindE (GenerateLoginChallenge (pe_lib env) svc now (pe_random env) (pu_id user) (pu_password_hash user)) (\<lambda>challenge.
             ret ((result_for user)\<lparr>lr_requires_2fa := True, lr_challenge_token := Some challenge\<rparr>)))
        else
          bindE (map_err (\<lambda>e. InternalError ''failed to generate token'' (Some e)) (case pe_svc env of
              Some svc \<Rightarrow> GenerateTokenWithExpiry (pe_lib env) svc now (pe_random env) (pu_id user) (pu_username user)
                (pu_role user) (token_expiry svc expiry) (Some (pu_password_hash user))
            | None \<Rightarrow> lift_auth (pe_token env (pu_id user) (pu_username user) (pu_role user)))) (\<lambda>token.
          bindE (case limiter of None \<Rightarrow> ret () | Some _ \<Rightarrow> set_limiter (ResetAttempts ip)) (\<lambda>_.
          ret ((result_for user)\<lparr>lr_token := Some token\<rparr>))))))))))"

definition Verify2FA :: "portal_env \<Rightarrow> time \<Rightarrow> two_factor_request \<Rightarrow> int option \<Rightarrow> login_result portalop" where
  "Verify2FA env now req expiry =
     bindE (valid_or_raise (TwoFactorValidate req)) (\<lambda>_.
     case pe_svc env of
       None \<Rightarrow> raise (UnauthorizedError pm_need_password)
     | Some svc \<Rightarrow>
       bindE (map_err (\<lambda>_. UnauthorizedError pm_challenge_invalid)
         (ValidateLoginChallenge (pe_lib env) svc now (tq_challenge req) (tq_user_id req))) (\<lambda>_.
       bindE (PortalUserGetByID (tq_user_id req)) (\<lambda>user.
       bindE (guardE (pu_two_factor_enabled user) (ValidationError ''2fa'' pm_no_2fa)) (\<lambda>_.
       bindE (guardE (pu_enabled user) (ForbiddenError pm_disabled)) (\<lambda>_.
       bindE (GetTwoFactorSecretByUserID (tq_user_id req)) (\<lambda>secret.
       bindE (if length (tq_code req) = 6
              then guardE (pe_totp env (tf_secret secret) (tq_code req)) (UnauthorizedError pm_bad_code)
              else bindE (VerifyBackupCode (tq_user_id req) (tq_code req)) (\<lambda>valid.
                guardE valid (UnauthorizedError pm_bad_backup))) (\<lambda>_.
       bindE (map_err (\<lambda>_. UnauthorizedError pm_challenge_used)
         (ConsumeLoginChallenge (pe_lib env) svc now (tq_challenge req) (tq_user_id req))) (\<lambda>_.
       bindE (map_err (\<lambda>e. InternalError ''failed to generate token'' (Some e))
         (GenerateTokenPair (pe_lib env) svc now (pe_random env) (pu_id user) (pu_username user) (pu_role user)
           (token_expiry svc expiry) (Some (pu_password_hash user)))) (\<lambda>(token, refreshToken).
       ret ((result_for user)\<lparr>lr_token := Some token, lr_refresh_token := Some refreshToken\<rparr>))))))))))"

definition Setup2FA :: "time \<Rightarrow> err + string \<Rightarrow> nat list list \<Rightarrow> int \<Rightarrow> (string \<times> string list) portalop" where
  "Setup2FA now generated draws userID =
     (case generated of
        Inl e \<Rightarrow> raise (InternalError ''failed to generate 2FA secret'' (Some e))
      | Inr secret \<Rightarrow>
        (let backupCodes = map (\<lambda>i. generateSecureToken (draws ! i) 8) [0..<10] in
         bindE (CreateTwoFactorSecret \<lparr>tf_id = 0, tf_user_id = userID, tf_secret = secret,
           tf_backup_codes = join_char (CHR '','') backupCodes, tf_enabled = False, tf_enabled_at = None, tf_created_at = now\<rparr>)
         (\<lambda>_. ret (secret, backupCodes))))"

definition Enable2FA :: "portal_env \<Rightarrow> time \<Rightarrow> int \<Rightarrow> string \<Rightarrow> unit portalop" where
  "Enable2FA env now userID code =
     bindE (GetTwoFactorSecretByUserID userID) (\<lambda>secret.
     bindE (guardE (pe_totp env (tf_secret secret) code) (UnauthorizedError pm_bad_code)) (\<lambda>_.
     EnableTwoFactor now userID))"

definition Disable2FA :: "portal_env \<Rightarrow> int \<Rightarrow> string \<Rightarrow> unit portalop" where
  "Disable2FA env userID password =
     bindE (PortalUserGetByID userID) (\<lambda>user.
     bindE (guardE (pe_verify env password (pu_password_hash user)) (UnauthorizedError pm_bad_password)) (\<lambda>_.
     DeleteTwoFactorSecret userID))"

definition RequestPasswordReset :: "time \<Rightarrow> nat list \<Rightarrow> string \<Rightarrow> string portalop" where
  "RequestPasswordReset now draws email0 =
     (case RequestResetValidate email0 of (errs, email) \<Rightarrow>
      bindE (valid_or_raise errs) (\<lambda>_.
      bindE (attempt (GetByEmail email)) (\<lambda>found. case found of
        Inl e \<Rightarrow> if IsNotFound e then ret [] else raise e
      | Inr user \<Rightarrow>
        bindE (CountPasswordResetTokensByUser (pu_id user) (now - hour)) (\<lambda>n.
        bindE (guardE (n < 3) (RateLimitError pm_too_many_resets)) (\<lambda>_.
        let token = generateSecureToken draws 32 in
        bindE (CreatePasswordResetToken \<lparr>rt_id = 0, rt_user_id = pu_id user, rt_token = token,
          rt_expires_at = now + hour, rt_used_at = None, rt_created_at = now\<rparr>) (\<lambda>_. ret token))))))"

definition ExecutePasswordReset :: "portal_env \<Rightarrow> time \<Rightarrow> reset_password_request \<Rightarrow> unit portalop" where
  "ExecutePasswordReset env now req =
     bindE (valid_or_raise (ResetValidate req)) (\<lambda>_.
     bindE (map_err (\<lambda>e. if IsNotFound e then ValidationError ''token'' pm_reset_invalid else e)
       (GetPasswordResetTokenByToken (rq_token req))) (\<lambda>rt.
     bindE (guardE (\<not> ResetIsUsed rt) (ValidationError ''token'' pm_reset_used)) (\<lambda>_.
     bindE (guardE (\<not> ResetIsExpired now rt) (ValidationError ''token'' pm_reset_expired)) (\<lambda>_.
     bindE (hashed env (rq_new req)) (\<lambda>hash.
     bindE (PortalUserGetByID (rt_user_id rt)) (\<lambda>user.
     bindE (PortalUserUpdate (user\<lparr>pu_password_hash := hash, pu_force_password_change := False\<rparr>)) (\<lambda>_.
     MarkPasswordResetTokenUsed now (rt_id rt))))))))"

definition ChangePassword :: "portal_env \<Rightarrow> int \<Rightarrow> change_password_request \<Rightarrow> unit portalop" where
  "ChangePassword env userID req =
     bindE (valid_or_raise (ChangeValidate req)) (\<lambda>_.
     bindE (PortalUserGetByID userID) (\<lambda>user.
     bindE (guardE (pe_verify env (cq_current req) (pu_password_hash user)) (UnauthorizedError pm_bad_current)) (\<lambda>_.
     bindE (hashed env (cq_new req)) (\<lambda>hash.
     PortalUserUpdate (user\<lparr>pu_password_hash := hash, pu_force_password_change := False\<rparr>)))))"

section \<open>The token service on the portal's tables\<close>

lemma view_sessions [simp]:
  "auth_view (t\<lparr>pt_sessions := s\<rparr>) = (auth_view t)\<lparr>auth_sessions := s\<rparr>" "auth_sessions (auth_view t) = pt_sessions t"
  "accounts (auth_view t) = \<lparr>rows = map account_of (rows (pt_users t)), seq = seq (pt_users t)\<rparr>"
  by (simp_all add: auth_view_def)

lemma wpt_zoom [wpt_rules]:
  assumes "wpt m (\<lambda>x v. Q x (t\<lparr>pt_sessions := auth_sessions v\<rparr>)) (\<lambda>e v. E e (t\<lparr>pt_sessions := auth_sessions v\<rparr>)) (auth_view t)"
  shows "wpt (zoom m) Q E t"
  unfolding zoom_def using assms by (rule wpt_part)

text \<open>What a session operation leaves of the view is read off its sessions.\<close>

lemma holds_of_sessions: "db_holds (v\<lparr>auth_sessions := auth_sessions u\<rparr>) = db_holds u"
  "sessions_keyed (v\<lparr>auth_sessions := auth_sessions u\<rparr>) = sessions_keyed u"
  by (simp_all add: db_holds_def sessions_keyed_def fun_eq_iff)

lemma same_sessions: "auth_sessions v = pt_sessions t \<Longrightarrow> t\<lparr>pt_sessions := auth_sessions v\<rparr> = t"
  by simp

definition portal_holds :: "portal_state \<Rightarrow> string \<Rightarrow> session option" where
  "portal_holds t = db_holds (auth_view t)"

definition portal_keyed :: "portal_state \<Rightarrow> bool" where
  "portal_keyed t = sessions_keyed (auth_view t)"

definition portal_account :: "portal_state \<Rightarrow> int \<Rightarrow> account_row option" where
  "portal_account t i = db_account (auth_view t) i"

lemma portal_service_sel [simp]:
  "as_sessions (portal_service secret te re) = portal_sessions"
  "as_users (portal_service secret te re) = Some (\<lambda>i. zoom (AccountGetByID i))"
  "as_secret (portal_service secret te re) = secret"
  "as_blacklist (portal_service secret te re) = None"
  by (simp_all add: portal_service_def)

interpretation portal: token_backend portal_sessions portal_holds portal_keyed
  "portal_service secret te re" portal_account for secret te re
proof
  fix t :: portal_state and i :: string and now se
  assume v: "portal_keyed t"
  note s = database_sessions.get [OF v [unfolded portal_keyed_def], of i]
    database_sessions.consume [OF v [unfolded portal_keyed_def], of i]
    database_sessions.create [OF v [unfolded portal_keyed_def], of now se]
  show "wpt (ss_get portal_sessions i) (\<lambda>se t'. t' = t \<and> portal_holds t i = Some se) (\<lambda>_ t'. t' = t) t"
    unfolding portal_sessions_def portal_holds_def
    by (simp, rule wpt_zoom, rule wpt_mono [OF s(1) [unfolded databaseSessionStore_def, simplified]]) auto
  show "wpt (ss_consume portal_sessions i)
      (\<lambda>ok t'. portal_keyed t' \<and> (ok \<longleftrightarrow> portal_holds t i \<noteq> None) \<and> portal_holds t' = (portal_holds t)(i := None)) (\<lambda>_ t'. t' = t) t"
    unfolding portal_sessions_def portal_holds_def portal_keyed_def
    by (simp, rule wpt_zoom, rule wpt_mono [OF s(2) [unfolded databaseSessionStore_def, simplified]]) (auto simp: holds_of_sessions)
  show "wpt (ss_create portal_sessions now se)
      (\<lambda>_ t'. portal_keyed t' \<and> portal_holds t' (se_id se) = Some se
         \<and> (\<forall>i. i \<noteq> se_id se \<longrightarrow> portal_holds t' i \<in> {None, portal_holds t i}))
      (\<lambda>_ t'. portal_keyed t' \<and> (\<forall>i. portal_holds t' i \<in> {None, portal_holds t i})) t"
    unfolding portal_sessions_def portal_holds_def portal_keyed_def
    by (simp, rule wpt_zoom, rule wpt_mono [OF s(3) [unfolded databaseSessionStore_def, simplified]]) (auto simp: holds_of_sessions)
next
  fix g u t
  assume "as_users (portal_service secret te re) = Some g"
  then have g: "g = (\<lambda>i. zoom (AccountGetByID i))" by simp
  show "wpt (g u) (\<lambda>a t'. t' = t \<and> portal_account t u = Some a) (\<lambda>_ t'. t' = t) t"
    unfolding g AccountGetByID_def portal_account_def db_account_def by (auto intro!: wpt_rules)
qed simp

text \<open>
  The token service writes sessions only: whatever holds of the other tables, it keeps.
\<close>

definition session_blind :: "(portal_state \<Rightarrow> bool) \<Rightarrow> bool" where
  "session_blind P \<longleftrightarrow> (\<forall>t s. P (t\<lparr>pt_sessions := s\<rparr>) = P t)"

lemma zoom_keeps: "session_blind P \<Longrightarrow> preserves P (zoom m)"
  unfolding zoom_def by (rule part_keeps) (simp add: session_blind_def)

lemma preserves_lift [keep_rules]: "preserves P (lift_auth r)"
  by (cases r) (simp_all add: lift_auth_def preserves_basic)

lemma token_service_keeps:
  assumes "session_blind P"
  shows "preserves P (GenerateTokenPair lib (portal_service secret te re) now random u n r e pw)"
    "preserves P (GenerateTokenWithExpiry lib (portal_service secret te re) now random u n r e pw)"
    "preserves P (GenerateLoginChallenge lib (portal_service secret te re) now random u p)"
    "preserves P (ValidateLoginChallenge lib (portal_service secret te re) now token u)"
    "preserves P (ConsumeLoginChallenge lib (portal_service secret te re) now token u)"
  unfolding GenerateTokenPair_def GenerateTokenWithExpiry_def GenerateLoginChallenge_def newSession_def validateSession_def
    ConsumeLoginChallenge_def ValidateLoginChallenge_def challengeClaims_def consumeSession_def validateClaims_def Let_def
    portal_service_sel portal_sessions_def session_store.simps option.case
  by (intro keep_rules zoom_keeps assms)+

section \<open>Password reset tokens\<close>

text \<open>
  The calls of the portal's handlers, at time \<open>now\<close>, on a service wired as the server wires
  it (or without a token service), with random tokens that satisfy \<open>ok\<close>.
\<close>

definition wired :: "portal_env \<Rightarrow> bool" where
  "wired env \<longleftrightarrow> pe_svc env = None \<or> (\<exists>secret te re. pe_svc env = Some (portal_service secret te re))"

inductive portal_op :: "portal_env \<Rightarrow> (string \<Rightarrow> bool) \<Rightarrow> time \<Rightarrow> unit portalop \<Rightarrow> bool" for env ok now where
  register: "portal_op env ok now (bindE (Register env now draws rg needed) (\<lambda>_. ret ()))"
| verification: "portal_op env ok now (bindE (CreateEmailVerificationToken now draws u mail) (\<lambda>_. ret ()))"
| resend: "portal_op env ok now (bindE (ResendVerificationEmail now draws u mail) (\<lambda>_. ret ()))"
| verify_email: "portal_op env ok now (VerifyEmail now tok)"
| login: "portal_op env ok now (bindE (Login env now lq ip limit ex) (\<lambda>_. ret ()))"
| second_factor: "portal_op env ok now (bindE (Verify2FA env now tq ex) (\<lambda>_. ret ()))"
| setup_secret: "portal_op env ok now (bindE (Setup2FA now gen drawss u) (\<lambda>_. ret ()))"
| enable: "portal_op env ok now (Enable2FA env now u code)"
| disable: "portal_op env ok now (Disable2FA env u pw)"
| request_reset: "ok (generateSecureToken draws 32) \<Longrightarrow> portal_op env ok now (bindE (RequestPasswordReset now draws mail) (\<lambda>_. ret ()))"
| reset: "portal_op env ok now (ExecutePasswordReset env now rq)"
| change: "portal_op env ok now (ChangePassword env u cq)"
| invite: "portal_op env ok now (bindE (CreateInviteCode ic) (\<lambda>_. ret ()))"
| delete_invite: "portal_op env ok now (DeleteInviteCode i)"
| sweep_resets: "portal_op env ok now (bindE (DeleteExpiredPasswordResetTokens now) (\<lambda>_. ret ()))"
| sweep_verifications: "portal_op env ok now (bindE (DeleteExpiredEmailVerificationTokens now) (\<lambda>_. ret ()))"

inductive portal_step :: "portal_env \<Rightarrow> (string \<Rightarrow> bool) \<Rightarrow> portal_state \<Rightarrow> portal_state \<Rightarrow> bool" for env ok where
  step: "portal_op env ok now m \<Longrightarrow> m w = (r, w') \<Longrightarrow> portal_step env ok (tables w) (tables w')"

text \<open>Only three operations touch the reset tokens: what the others are made of keeps every property of that table.\<close>

definition resets_only :: "(portal_state \<Rightarrow> bool) \<Rightarrow> bool" where
  "resets_only P \<longleftrightarrow> (\<forall>t t'. pt_resets t = pt_resets t' \<longrightarrow> P t = P t')"

lemma resets_only_eq: "resets_only P \<Longrightarrow> pt_resets t = pt_resets t' \<Longrightarrow> P t = P t'"
  unfolding resets_only_def by blast

lemma resets_only_same:
  assumes "resets_only P"
  shows "P (pt_users_update f t) = P t" "P (pt_verifications_update fv t) = P t" "P (pt_invites_update fi t) = P t"
    "P (pt_secrets_update fs t) = P t" "P (pt_sessions_update fe t) = P t" "P (pt_limiter_update fl t) = P t"
  by (rule resets_only_eq [OF assms], simp)+

lemma resets_only_blind: "resets_only P \<Longrightarrow> session_blind P"
  unfolding session_blind_def by (simp add: resets_only_same)

lemma other_tables_keep:
  assumes "resets_only P"
  shows "preserves P (create pt_users pt_users_update cu mu)" "preserves P (save pt_users pt_users_update cu ku u)"
    "preserves P (update_where pt_users pt_users_update pu fu)"
    "preserves P (create pt_verifications pt_verifications_update cv mv)"
    "preserves P (update_where pt_verifications pt_verifications_update pv fv)"
    "preserves P (delete_where pt_verifications pt_verifications_update pv)"
    "preserves P (create pt_invites pt_invites_update ci mi)" "preserves P (update_where pt_invites pt_invites_update pv2 fi)"
    "preserves P (delete_where pt_invites pt_invites_update pv2)"
    "preserves P (create pt_secrets pt_secrets_update cs ms)" "preserves P (save pt_secrets pt_secrets_update cs ks s)"
    "preserves P (update_where pt_secrets pt_secrets_update ps fs)" "preserves P (delete_where pt_secrets pt_secrets_update ps)"
    "preserves P (check_limit cfg now ip)" "preserves P (set_limiter f)"
  by (auto intro!: preservesI wpt_create wpt_save wpt_update wpt_delete
      simp: resets_only_same [OF assms])
     (auto simp: wpt_def check_limit_def set_limiter_def resets_only_same [OF assms] split: prod.splits)

lemma affected_keeps: "preserves P m \<Longrightarrow> preserves P (affected_or msg e m)"
  unfolding affected_or_def by (intro keep_rules)

lemma valid_keeps: "preserves P (valid_or_raise errs)"
  unfolding valid_or_raise_def by (auto intro: keep_rules split: list.split)

lemma hashed_keeps: "preserves P (hashed env p)"
  unfolding hashed_def by (intro keep_rules)

lemma case_prod_keeps: "(\<And>a b. preserves P (f a b)) \<Longrightarrow> preserves P (case p of (a, b) \<Rightarrow> f a b)"
  by (cases p) simp

lemmas portal_keeps = affected_keeps valid_keeps hashed_keeps case_prod_keeps

lemma user_ops_keep:
  assumes "resets_only P"
  shows "preserves P (PortalUserCreate u)" "preserves P (PortalUserGetByID i)" "preserves P (GetByUsername n)"
    "preserves P (GetByEmail n)" "preserves P (PortalUserUpdate u)" "preserves P (CheckUsernameExists n)"
    "preserves P (GetPasswordResetTokenByToken n)"
    "preserves P (CountPasswordResetTokensByUser i since)"
    "preserves P (check_invite now needed code)" "preserves P (UseInviteCode now code i)"
    "preserves P (CreateEmailVerificationToken now draws i n)" "preserves P (VerifyEmail now tok)"
    "preserves P (CountPendingEmailVerificationTokensByUser now i)" "preserves P (GetTwoFactorSecretByUserID i)"
    "preserves P (VerifyBackupCode i code)"
  unfolding PortalUserCreate_def PortalUserGetByID_def GetByUsername_def GetByEmail_def PortalUserUpdate_def CheckUsernameExists_def
    GetPasswordResetTokenByToken_def CountPasswordResetTokensByUser_def check_invite_def GetInviteCodeByCode_def UseInviteCode_def
    CreateEmailVerificationToken_def RepoCreateEmailVerificationToken_def VerifyEmail_def GetEmailVerificationTokenByToken_def
    MarkEmailVerified_def CountPendingEmailVerificationTokensByUser_def GetTwoFactorSecretByUserID_def VerifyBackupCode_def
    UpdateTwoFactorSecret_def Let_def
  by (intro keep_rules portal_keeps other_tables_keep assms)+

lemma session_ops_keep:
  assumes "resets_only P" and "wired env"
  shows "preserves P (Login env now lq ip limit ex)" "preserves P (Verify2FA env now tq ex)"
proof -
  note b = resets_only_blind [OF assms(1)]
  from assms(2) consider "pe_svc env = None" | secret te re where "pe_svc env = Some (portal_service secret te re)"
    by (auto simp: wired_def)
  then have "preserves P (Login env now lq ip limit ex) \<and> preserves P (Verify2FA env now tq ex)"
  proof cases
    case 1
    show ?thesis unfolding Login_def Verify2FA_def Let_def 1 option.case
      by (intro conjI keep_rules portal_keeps other_tables_keep user_ops_keep preserves_lift assms(1))
  next
    case 2
    show ?thesis unfolding Login_def Verify2FA_def Let_def 2 option.case
      by (intro conjI keep_rules portal_keeps other_tables_keep user_ops_keep token_service_keeps b assms(1))
  qed
  then show "preserves P (Login env now lq ip limit ex)" "preserves P (Verify2FA env now tq ex)" by blast+
qed

lemma portal_op_keeps:
  assumes "portal_op env ok now m" and "wired env" and "resets_only P"
    and "\<And>draws mail. ok (generateSecureToken draws 32) \<Longrightarrow> preserves P (RequestPasswordReset now draws mail)"
    and "\<And>i. preserves P (MarkPasswordResetTokenUsed now i)" and "preserves P (DeleteExpiredPasswordResetTokens now)"
  shows "preserves P m"
  using assms(1)
proof cases
  case register
  show ?thesis unfolding register Register_def
    by (intro keep_rules portal_keeps other_tables_keep user_ops_keep assms(3))
next
  case verification
  show ?thesis unfolding verification by (intro keep_rules user_ops_keep assms(3))
next
  case resend
  show ?thesis unfolding resend ResendVerificationEmail_def by (intro keep_rules user_ops_keep assms(3))
next
  case verify_email
  show ?thesis unfolding verify_email by (intro user_ops_keep assms(3))
next
  case login
  show ?thesis unfolding login by (intro keep_rules session_ops_keep assms(2,3))
next
  case second_factor
  show ?thesis unfolding second_factor by (intro keep_rules session_ops_keep assms(2,3))
next
  case setup_secret
  show ?thesis unfolding setup_secret Setup2FA_def CreateTwoFactorSecret_def Let_def
    by (intro keep_rules other_tables_keep assms(3))
next
  case enable
  show ?thesis unfolding enable Enable2FA_def EnableTwoFactor_def
    by (intro keep_rules portal_keeps user_ops_keep other_tables_keep assms(3))
next
  case disable
  show ?thesis unfolding disable Disable2FA_def DeleteTwoFactorSecret_def
    by (intro keep_rules portal_keeps user_ops_keep other_tables_keep assms(3))
next
  case request_reset
  show ?thesis unfolding request_reset by (intro keep_rules assms(4) request_reset)
next
  case reset
  show ?thesis unfolding reset ExecutePasswordReset_def
    by (intro keep_rules portal_keeps user_ops_keep assms(3,5))
next
  case change
  show ?thesis unfolding change ChangePassword_def by (intro keep_rules portal_keeps user_ops_keep assms(3))
next
  case invite
  show ?thesis unfolding invite CreateInviteCode_def by (intro keep_rules other_tables_keep assms(3))
next
  case delete_invite
  show ?thesis unfolding delete_invite DeleteInviteCode_def by (intro keep_rules portal_keeps other_tables_keep assms(3))
next
  case sweep_resets
  show ?thesis unfolding sweep_resets by (intro keep_rules assms(6))
next
  case sweep_verifications
  show ?thesis unfolding sweep_verifications DeleteExpiredEmailVerificationTokens_def
    by (intro keep_rules other_tables_keep assms(3))
qed

lemma normalizeEmail_idem: "to_lower (trim_space (normalizeEmail s)) = normalizeEmail s"
  by (simp add: normalizeEmail_def trim_space_lower)

text \<open>The token \<open>tk\<close> is spent: every row that carries it is marked.\<close>

definition spent :: "string \<Rightarrow> portal_state \<Rightarrow> bool" where
  "spent tk t \<longleftrightarrow> (\<forall>r \<in> set (rows (pt_resets t)). rt_token r = tk \<longrightarrow> rt_used_at r \<noteq> None)"

definition reset_tokens_unique :: "portal_state \<Rightarrow> bool" where
  "reset_tokens_unique t \<longleftrightarrow> distinct (map rt_token (rows (pt_resets t)))"

lemma spent_resets: "resets_only (spent tk)"
  by (simp add: resets_only_def spent_def)

lemma case_prod_wpt: "(\<And>a b. p = (a, b) \<Longrightarrow> wpt (f a b) Q E t) \<Longrightarrow> wpt (case p of (a, b) \<Rightarrow> f a b) Q E t"
  by (cases p) simp

text \<open>
  Asking for a reset: the table of reset tokens is left alone, or a token drawn now is added for
  a user with fewer than three of the last hour.
\<close>

definition reset_added :: "time \<Rightarrow> string \<Rightarrow> int \<Rightarrow> portal_state \<Rightarrow> portal_state \<Rightarrow> bool" where
  "reset_added now tk u t t' \<longleftrightarrow>
     count_rows (\<lambda>r. rt_user_id r = u \<and> now - hour \<le> rt_created_at r) (pt_resets t) < 3
   \<and> (\<forall>r \<in> set (rows (pt_resets t)). rt_token r \<noteq> tk)
   \<and> t' = t\<lparr>pt_resets := add_row (\<lambda>i. \<lparr>rt_id = i, rt_user_id = u, rt_token = tk, rt_expires_at = now + hour,
        rt_used_at = None, rt_created_at = now\<rparr>) (pt_resets t)\<rparr>"

lemma reset_addedI:
  "count_rows (\<lambda>r. rt_user_id r = u \<and> now - hour \<le> rt_created_at r) (pt_resets t) < 3
    \<Longrightarrow> (\<And>r. r \<in> set (rows (pt_resets t)) \<Longrightarrow> tk \<noteq> rt_token r)
    \<Longrightarrow> reset_added now tk u t (t\<lparr>pt_resets := add_row (\<lambda>i. \<lparr>rt_id = i, rt_user_id = u, rt_token = tk,
         rt_expires_at = now + hour, rt_used_at = None, rt_created_at = now\<rparr>) (pt_resets t)\<rparr>)"
  unfolding reset_added_def by blast

lemma wpt_valid:
  "(errs = [] \<Longrightarrow> wpt (f ()) Q E t) \<Longrightarrow> (\<And>e. E e t) \<Longrightarrow> wpt (bindE (valid_or_raise errs) f) Q E t"
  unfolding valid_or_raise_def by (rule wpt_bind) (auto intro: wpt_rules split: list.split)

lemma add_reset_spec:
  "wpt (bindE (CountPasswordResetTokensByUser i (now - hour)) (\<lambda>n.
        bindE (guardE (n < 3) (RateLimitError pm_too_many_resets)) (\<lambda>_.
        bindE (CreatePasswordResetToken \<lparr>rt_id = 0, rt_user_id = i, rt_token = token,
          rt_expires_at = now + hour, rt_used_at = None, rt_created_at = now\<rparr>) (\<lambda>_. ret token))))
     (\<lambda>tk t'. tk = token \<and> reset_added now token i t t') (\<lambda>_ t'. t' = t) t"
  unfolding CountPasswordResetTokensByUser_def CreatePasswordResetToken_def
  by (auto intro!: wpt_rules reset_addedI)

lemma request_reset_spec:
  "wpt (RequestPasswordReset now draws mail)
     (\<lambda>tk t'. tk = [] \<and> t' = t \<or> tk = generateSecureToken draws 32
        \<and> (\<exists>u \<in> set (rows (pt_users t)). to_lower (sql_trim (pu_email u)) = normalizeEmail mail \<and> reset_added now tk (pu_id u) t t'))
     (\<lambda>_ t'. t' = t) t"
  unfolding RequestPasswordReset_def RequestResetValidate_def GetByEmail_def Let_def prod.case
  apply (rule wpt_valid)
   apply (rule wpt_bind, rule wpt_attempt, rule wpt_map_err, rule wpt_first)
     apply (simp_all add: wpt_rules normalizeEmail_idem)
  apply (rule wpt_mono [OF add_reset_spec], blast+)
  done

lemma spent_kept:
  assumes "portal_step env (\<lambda>s. s \<noteq> tk) t t'" and "wired env" and "spent tk t"
  shows "spent tk t'"
  using assms(1)
proof cases
  case (step now m w r w')
  have "preserves (spent tk) m"
  proof (rule portal_op_keeps [OF step(3) assms(2) spent_resets])
    fix draws mail
    assume "generateSecureToken draws 32 \<noteq> tk"
    then show "preserves (spent tk) (RequestPasswordReset now draws mail)"
      by - (rule preservesI, rule wpt_mono [OF request_reset_spec], auto simp: spent_def reset_added_def add_row_def)
  next
    show "preserves (spent tk) (MarkPasswordResetTokenUsed now i)" for i
      unfolding MarkPasswordResetTokenUsed_def affected_or_def
      by (rule preservesI, intro wpt_rules) (auto simp: spent_def upd_rows_def)
    show "preserves (spent tk) (DeleteExpiredPasswordResetTokens now)"
      unfolding DeleteExpiredPasswordResetTokens_def
      by (rule preservesI) (auto intro!: wpt_rules simp: spent_def del_rows_def)
  qed
  from preserves_run [OF this _ step(4)] assms(3) step show ?thesis by simp
qed

text \<open>Replacing the password of a user, which a reset and a change do.\<close>

definition password_set :: "int \<Rightarrow> string \<Rightarrow> portal_state \<Rightarrow> portal_state \<Rightarrow> bool" where
  "password_set i h t t' \<longleftrightarrow> (\<exists>u \<in> set (rows (pt_users t)). pu_id u = i
     \<and> t' = t\<lparr>pt_users := upd_rows (\<lambda>r. pu_id r = i)
         (\<lambda>_. normalize_user (u\<lparr>pu_password_hash := h, pu_force_password_change := False\<rparr>)) (pt_users t)\<rparr>)"

lemma normalize_user_id [simp]: "pu_id (normalize_user u) = pu_id u"
  "pu_password_hash (normalize_user u) = pu_password_hash u"
  by (simp_all add: normalize_user_def)

lemma set_password_spec:
  "wpt (bindE (PortalUserGetByID i) (\<lambda>u. PortalUserUpdate (u\<lparr>pu_password_hash := h, pu_force_password_change := False\<rparr>)))
     (\<lambda>_ t'. password_set i h t t') (\<lambda>_ t'. t' = t) t"
  unfolding PortalUserGetByID_def PortalUserUpdate_def
  by (auto intro!: wpt_rules simp: password_set_def)

lemma password_set_resets: "password_set i h t t' \<Longrightarrow> pt_resets t' = pt_resets t \<and> pt_sessions t' = pt_sessions t"
  by (auto simp: password_set_def)

lemma bind_assoc: "bindE (bindE m f) g = bindE m (\<lambda>x. bindE (f x) g)"
  by (auto simp: bindE_def fun_eq_iff split: prod.split sum.split)

lemma mark_used_spec:
  "r \<in> set (rows (pt_resets t)) \<Longrightarrow> wpt (MarkPasswordResetTokenUsed now (rt_id r))
     (\<lambda>_ t'. t' = t\<lparr>pt_resets := upd_rows (\<lambda>s. rt_id s = rt_id r) (\<lambda>s. s\<lparr>rt_used_at := Some now\<rparr>) (pt_resets t)\<rparr>) (\<lambda>_ t'. t' = t) t"
  unfolding MarkPasswordResetTokenUsed_def affected_or_def by (auto intro!: wpt_rules simp: count_rows_zero)

lemma execute_reset_spec:
  "wpt (ExecutePasswordReset env now req)
     (\<lambda>_ t'. \<exists>r \<in> set (rows (pt_resets t)). \<exists>h u. rt_token r = rq_token req \<and> rt_used_at r = None \<and> now \<le> rt_expires_at r
        \<and> pe_hash env (rq_new req) = Inr h \<and> password_set (rt_user_id r) h t u
        \<and> t' = u\<lparr>pt_resets := upd_rows (\<lambda>s. rt_id s = rt_id r) (\<lambda>s. s\<lparr>rt_used_at := Some now\<rparr>) (pt_resets t)\<rparr>)
     (\<lambda>_ t'. t' = t \<or> (\<exists>i h. pe_hash env (rq_new req) = Inr h \<and> password_set i h t t')) t"
proof -
  have pw: "wpt (bindE (PortalUserGetByID i) (\<lambda>u. bindE (PortalUserUpdate (u\<lparr>pu_password_hash := h, pu_force_password_change := False\<rparr>)) f)) Q E t"
    if "\<And>t'. password_set i h t t' \<Longrightarrow> wpt (f ()) Q E t'" and "\<And>e. E e t" for i h Q E and f :: "unit \<Rightarrow> unit portalop"
    unfolding bind_assoc [symmetric]
    by (rule wpt_bind, rule wpt_mono [OF set_password_spec]) (use that in auto)
  show ?thesis
    unfolding ExecutePasswordReset_def GetPasswordResetTokenByToken_def hashed_def
    apply (rule wpt_valid, rule wpt_bind, rule wpt_map_err, rule wpt_map_err, rule wpt_first)
       apply simp
      apply (simp add: not_found_or_def)
     apply (rule wpt_bind, rule wpt_guard)
      apply (rule wpt_bind, rule wpt_guard)
       apply (rule wpt_bind, rule wpt_case_sum, rule wpt_raise, simp, rule wpt_ret)
       apply (rule pw)
        apply (frule password_set_resets, elim conjE)
        apply (rule wpt_mono [OF mark_used_spec])
          apply (auto simp: ResetIsUsed_def ResetIsExpired_def not_less)
    done
qed

lemma spent_refused:
  assumes "spent (rq_token req) t"
  shows "wpt (ExecutePasswordReset env now req) (\<lambda>_ _. False) (\<lambda>_ t'. t' = t) t"
  unfolding ExecutePasswordReset_def GetPasswordResetTokenByToken_def
  by (rule wpt_valid, rule wpt_bind, rule wpt_map_err, rule wpt_map_err, rule wpt_first)
     (use assms in \<open>auto intro!: wpt_rules simp: spent_def ResetIsUsed_def\<close>)

lemma reset_spends:
  assumes "reset_tokens_unique (tables w)" and "ExecutePasswordReset env now req w = (Inr (), w1)"
  shows "spent (rq_token req) (tables w1)"
proof -
  from wptD_Inr [OF execute_reset_spec assms(2)] obtain r h u where r: "r \<in> set (rows (pt_resets (tables w)))" "rt_token r = rq_token req"
    and t: "tables w1 = u\<lparr>pt_resets := upd_rows (\<lambda>s. rt_id s = rt_id r) (\<lambda>s. s\<lparr>rt_used_at := Some now\<rparr>) (pt_resets (tables w))\<rparr>"
    by blast
  have "s = r" if "s \<in> set (rows (pt_resets (tables w)))" "rt_token s = rq_token req" for s
    using assms(1) r that by (auto simp: reset_tokens_unique_def distinct_map inj_on_def)
  with t show ?thesis by (auto simp: spent_def upd_rows_def)
qed

text \<open>
  (C16) A reset token resets one password, once.  After a reset with a token succeeded, whatever
  registrations, logins, second factors, further reset requests, resets and changes of
  passwords, sweeps and invitations follow, with whatever faults of the database, as long as the random
  source does not draw that token again: a reset with the token is refused and changes nothing.
\<close>

theorem reset_token_once:
  fixes w w1 w2 :: "portal_state world"
  assumes "wired env" and "reset_tokens_unique (tables w)" and "ExecutePasswordReset env now req w = (Inr (), w1)"
    and "(portal_step env (\<lambda>s. s \<noteq> rq_token req))\<^sup>*\<^sup>* (tables w1) (tables w2)" and "rq_token req' = rq_token req"
  shows "isl (fst (ExecutePasswordReset env now' req' w2)) \<and> tables (snd (ExecutePasswordReset env now' req' w2)) = tables w2"
proof -
  from assms(4) reset_spends [OF assms(2,3)] have "spent (rq_token req') (tables w2)" unfolding assms(5)
    by (induction rule: rtranclp_induct) (auto intro: spent_kept [OF _ assms(1)])
  from wpt_run [OF spent_refused [OF this], of env now' "fst (ExecutePasswordReset env now' req' w2)" "snd (ExecutePasswordReset env now' req' w2)"]
  show ?thesis by (auto split: sum.splits)
qed

definition sample_env :: portal_env where
  "sample_env = \<lparr>pe_lib = sample_lib, pe_svc = Some (portal_service ''s'' 0 0), pe_hash = (\<lambda>p. Inr (''h'' @ p)),
     pe_verify = (\<lambda>p h. h = ''h'' @ p), pe_totp = (\<lambda>s c. s = c), pe_token = (\<lambda>_ _ _. Inr []), pe_random = Inr [1]\<rparr>"

definition sample_portal_user :: portal_user where
  "sample_portal_user = \<lparr>pu_id = 1, pu_username = ''eve'', pu_password_hash = ''hold'', pu_email = ''e@x.org'', pu_role = ''user'',
     pu_enabled = True, pu_force_password_change = False, pu_email_verified = True, pu_email_verified_at = None,
     pu_two_factor_enabled = False, pu_created_at = 0\<rparr>"

definition sample_portal :: portal_state where
  "sample_portal = \<lparr>pt_users = \<lparr>rows = [sample_portal_user], seq = 1\<rparr>,
     pt_resets = \<lparr>rows = [\<lparr>rt_id = 1, rt_user_id = 1, rt_token = ''tok'', rt_expires_at = 100, rt_used_at = None, rt_created_at = 0\<rparr>], seq = 1\<rparr>,
     pt_verifications = \<lparr>rows = [], seq = 0\<rparr>, pt_invites = \<lparr>rows = [], seq = 0\<rparr>, pt_secrets = \<lparr>rows = [], seq = 0\<rparr>,
     pt_sessions = \<lparr>rows = [\<lparr>se_id = ''aa'', se_user_id = 1, se_kind = ''login'', se_credential = ''dloh'', se_expires_at = 100\<rparr>], seq = 0\<rparr>,
     pt_limiter = Map.empty\<rparr>"

definition portal_world :: "portal_state \<Rightarrow> portal_state world" where
  "portal_world d = \<lparr>tables = d, faults = [], in_tx = False\<rparr>"

lemma sample_wired: "wired sample_env"
  by (auto simp: wired_def sample_env_def)

theorem reset_token_once_witness:
  "let req = \<lparr>rq_token = ''tok'', rq_new = ''passw0rd''\<rparr>; m = ExecutePasswordReset sample_env 5 req (portal_world sample_portal) in
   \<not> isl (fst m) \<and> isl (fst (ExecutePasswordReset sample_env 6 req (snd m)))"
proof -
  let ?req = "\<lparr>rq_token = ''tok'', rq_new = ''passw0rd''\<rparr>"
  let ?m = "ExecutePasswordReset sample_env 5 ?req (portal_world sample_portal)"
  have ok: "\<not> isl (fst ?m)" and k: "reset_tokens_unique (tables (portal_world sample_portal))" by code_simp+
  from run_Inr [OF ok] have m: "?m = (Inr (), snd ?m)" by simp
  from reset_token_once [OF sample_wired k m rtranclp.rtrancl_refl refl] ok show ?thesis by (simp only: Let_def simp_thms)
qed

section \<open>Reset requests are rationed\<close>

text \<open>
  The states a running portal goes through: at first no reset tokens, then any calls at times
  that do not decrease.
\<close>

inductive portal_history :: "portal_env \<Rightarrow> time \<Rightarrow> portal_state \<Rightarrow> bool" for env where
  start: "rows (pt_resets t) = [] \<Longrightarrow> portal_history env T t"
| call: "portal_history env T (tables w) \<Longrightarrow> T \<le> now \<Longrightarrow> portal_op env (\<lambda>_. True) now m \<Longrightarrow> m w = (r, w')
    \<Longrightarrow> portal_history env now (tables w')"

definition reset_ration :: "time \<Rightarrow> portal_state \<Rightarrow> bool" where
  "reset_ration T t \<longleftrightarrow> (\<forall>r \<in> set (rows (pt_resets t)). rt_created_at r \<le> T)
     \<and> (\<forall>u s. count_rows (\<lambda>r. rt_user_id r = u \<and> s \<le> rt_created_at r \<and> rt_created_at r \<le> s + hour) (pt_resets t) \<le> 3)"

lemma ration_resets: "resets_only (reset_ration T)"
  by (simp add: resets_only_def reset_ration_def)

lemma ration_mono: "reset_ration T t \<Longrightarrow> T \<le> T' \<Longrightarrow> reset_ration T' t"
  by (auto simp: reset_ration_def)

lemma count_rows_mono: "(\<And>r. r \<in> set (rows t) \<Longrightarrow> p r \<Longrightarrow> q r) \<Longrightarrow> count_rows p t \<le> count_rows q t"
proof -
  assume "\<And>r. r \<in> set (rows t) \<Longrightarrow> p r \<Longrightarrow> q r"
  then have "length (filter p xs) \<le> length (filter q xs)" if "set xs \<subseteq> set (rows t)" for xs
    using that by (induction xs) auto
  then show ?thesis by (simp add: count_rows_def)
qed

lemma count_rows_del: "count_rows p (del_rows q t) \<le> count_rows p t"
proof -
  have "filter p (filter (\<lambda>r. \<not> q r) (rows t)) = filter (\<lambda>r. \<not> q r) (filter p (rows t))" by (simp add: conj_commute)
  then show ?thesis by (simp only: count_rows_def rows_del of_nat_le_iff length_filter_le)
qed

lemma ration_added:
  assumes "reset_ration now t" and "reset_added now tk i t t'"
  shows "reset_ration now t'"
proof -
  let ?p = "\<lambda>u s r. rt_user_id r = u \<and> s \<le> rt_created_at r \<and> rt_created_at r \<le> s + hour"
  have n: "count_rows (?p u s) (pt_resets t') \<le> 3" for u s
  proof (cases "u = i \<and> s \<le> now \<and> now \<le> s + hour")
    case True
    then have "count_rows (?p u s) (pt_resets t) \<le> count_rows (\<lambda>r. rt_user_id r = i \<and> now - hour \<le> rt_created_at r) (pt_resets t)"
      by (intro count_rows_mono) auto
    with assms(2) show ?thesis by (auto simp: reset_added_def count_rows_def add_row_def)
  next
    case False
    with assms show ?thesis by (auto simp: reset_added_def reset_ration_def count_rows_def add_row_def)
  qed
  with assms show ?thesis by (auto simp: reset_added_def reset_ration_def add_row_def)
qed

lemma portal_history_ration:
  assumes "wired env" and "portal_history env T t"
  shows "reset_ration T t"
  using assms(2)
proof induction
  case (start t T)
  then show ?case by (simp add: reset_ration_def count_rows_def)
next
  case (call T w now m r w')
  have "preserves (reset_ration now) m"
  proof (rule portal_op_keeps [OF call(3) assms(1) ration_resets])
    fix draws mail
    show "preserves (reset_ration now) (RequestPasswordReset now draws mail)"
      by (rule preservesI, rule wpt_mono [OF request_reset_spec]) (auto intro: ration_added)
  next
    show "preserves (reset_ration now) (MarkPasswordResetTokenUsed now i)" for i
      unfolding MarkPasswordResetTokenUsed_def affected_or_def
      by (rule preservesI, intro wpt_rules) (auto simp: reset_ration_def upd_rows_def count_rows_def filter_map o_def if_distrib cong: if_cong)
    show "preserves (reset_ration now) (DeleteExpiredPasswordResetTokens now)"
      unfolding DeleteExpiredPasswordResetTokens_def
      by (rule preservesI, intro wpt_rules) (auto simp: reset_ration_def table_simps intro: order_trans [OF count_rows_del])
  qed
  with call show ?case by (blast intro: preserves_run ration_mono)
qed


text \<open>
  (C31) Reset mails are rationed.  From a portal without reset tokens, through any calls
  in the order of time: of the tokens issued to one user, at most three were issued within any one hour.
\<close>

theorem resets_rationed:
  assumes "wired env" and "portal_history env T d"
  shows "count_rows (\<lambda>r. rt_user_id r = u \<and> s \<le> rt_created_at r \<and> rt_created_at r \<le> s + hour) (pt_resets d) \<le> 3"
  using portal_history_ration [OF assms] by (simp add: reset_ration_def)

theorem resets_rationed_witness:
  "let m = bindE (RequestPasswordReset 5 (replicate 32 7) ''e@x.org'') (\<lambda>_. ret ())
        (portal_world (sample_portal\<lparr>pt_resets := \<lparr>rows = [], seq = 1\<rparr>\<rparr>)) in
   length (rows (pt_resets (tables (snd m)))) = 1
   \<and> count_rows (\<lambda>r. rt_user_id r = 1 \<and> 0 \<le> rt_created_at r \<and> rt_created_at r \<le> 0 + hour) (pt_resets (tables (snd m))) \<le> 3"
proof -
  let ?w = "portal_world (sample_portal\<lparr>pt_resets := \<lparr>rows = [], seq = 1\<rparr>\<rparr>)"
  let ?m = "bindE (RequestPasswordReset 5 (replicate 32 7) ''e@x.org'') (\<lambda>_. ret ())"
  have "portal_history sample_env 5 (tables (snd (?m ?w)))"
    by (rule portal_history.call [where w = ?w and T = 0 and m = ?m and r = "fst (?m ?w)"])
       (auto simp: portal_world_def intro: portal_history.start portal_op.request_reset)
  from resets_rationed [OF sample_wired this, of 1 0]
  have "count_rows (\<lambda>r. rt_user_id r = 1 \<and> 0 \<le> rt_created_at r \<and> rt_created_at r \<le> 0 + hour) (pt_resets (tables (snd (?m ?w)))) \<le> 3" .
  moreover have "length (rows (pt_resets (tables (snd (?m ?w))))) = 1" by code_simp
  ultimately show ?thesis unfolding Let_def by blast
qed

section \<open>A new password ends every session\<close>

lemma change_password_spec:
  "wpt (ChangePassword env i req)
     (\<lambda>_ t'. \<exists>h. pe_hash env (cq_new req) = Inr h \<and> password_set i h t t'
        \<and> (\<exists>u \<in> set (rows (pt_users t)). pu_id u = i \<and> pe_verify env (cq_current req) (pu_password_hash u))) (\<lambda>_ t'. t' = t) t"
  unfolding ChangePassword_def PortalUserGetByID_def PortalUserUpdate_def hashed_def
  by (rule wpt_valid) (auto intro!: wpt_rules simp: password_set_def)

lemma password_set_account:
  assumes "password_set i h t t'" and "portal_account t' i = Some a"
  shows "ac_password_hash a = h"
proof -
  from assms(1) obtain u where t': "t' = t\<lparr>pt_users := upd_rows (\<lambda>r. pu_id r = i)
      (\<lambda>_. normalize_user (u\<lparr>pu_password_hash := h, pu_force_password_change := False\<rparr>)) (pt_users t)\<rparr>"
    by (auto simp: password_set_def)
  from find_Some_iff_In [OF assms(2) [unfolded portal_account_def db_account_def]]
  show ?thesis unfolding t' by (auto simp: upd_rows_def account_of_def split: if_splits)
qed

lemma password_set_ends:
  assumes "password_set i h t t'" and "portal_keyed t"
    and "\<And>se. se \<in> set (rows (pt_sessions t)) \<Longrightarrow> se_user_id se = i \<Longrightarrow> se_credential se \<noteq> tl_sha256_hex lib h"
  shows "\<not> portal.live_session secret te re lib now j i kind t'"
proof
  assume "portal.live_session secret te re lib now j i kind t'"
  then obtain se a where "portal_holds t' j = Some se" "se_user_id se = i" "portal_account t' i = Some a"
    "se_credential se = tl_sha256_hex lib (ac_password_hash a)"
    by (auto simp: portal.live_session_def)
  with password_set_account [OF assms(1)] password_set_resets [OF assms(1)] assms(3) [of se] show False
    by (auto simp: portal_holds_def db_holds_def dest!: find_Some_iff_In)
qed


text \<open>
  (C17) A new password ends every session.  After a user changed the password, or reset it with a
  mailed token, no access token, refresh token or login challenge of that user issued before is accepted: the
  sessions are bound to the fingerprint of the old hash.  The hypothesis on fingerprints is that
  the hash of the new password, salted, has one no session carries.
\<close>

theorem new_password_ends_sessions:
  fixes w w' :: "portal_state world"
  assumes "portal_keyed (tables w)"
    and "ChangePassword env i cq w = (Inr (), w') \<and> pe_hash env (cq_new cq) = Inr h
       \<or> ExecutePasswordReset env now rq w = (Inr (), w') \<and> pe_hash env (rq_new rq) = Inr h
         \<and> (\<forall>r \<in> set (rows (pt_resets (tables w))). rt_token r = rq_token rq \<longrightarrow> rt_user_id r = i)"
    and "\<forall>se \<in> set (rows (pt_sessions (tables w))). se_user_id se = i \<longrightarrow> se_credential se \<noteq> tl_sha256_hex lib h"
    and "\<forall>cl. tl_parse lib secret now' tok = Inr cl \<longrightarrow> cl_user_id cl = i"
  shows "let svc = portal_service secret te re in
    isl (fst (ValidateToken lib svc now' tok w')) \<and> isl (fst (ValidateRefreshToken lib svc now' tok w'))
    \<and> isl (fst (ValidateLoginChallenge lib svc now' tok i w'))"
proof -
  have n: "\<not> portal.live_session secret te re lib now' j i kind (tables w') \<and> portal_keyed (tables w')" for j kind
    using assms(2)
  proof
    assume a: "ChangePassword env i cq w = (Inr (), w') \<and> pe_hash env (cq_new cq) = Inr h"
    with wptD_Inr [OF change_password_spec [of env i cq]] have s: "password_set i h (tables w) (tables w')" by fastforce
    from password_set_ends [OF s assms(1)] password_set_resets [OF s] assms(1,3) show ?thesis
      by (simp add: portal_keyed_def sessions_keyed_def)
  next
    assume a: "ExecutePasswordReset env now rq w = (Inr (), w') \<and> pe_hash env (rq_new rq) = Inr h
         \<and> (\<forall>r \<in> set (rows (pt_resets (tables w))). rt_token r = rq_token rq \<longrightarrow> rt_user_id r = i)"
    with wptD_Inr [OF execute_reset_spec [of env now rq]] obtain r u where
      s: "password_set i h (tables w) u" and t: "tables w' = u\<lparr>pt_resets := r\<rparr>" by fastforce
    have e: "portal.live_session secret te re lib now' j i kind (tables w') = portal.live_session secret te re lib now' j i kind u"
      unfolding t portal.live_session_def portal_holds_def portal_account_def by (simp add: auth_view_def)
    from password_set_ends [OF s assms(1)] password_set_resets [OF s] assms(1,3) show ?thesis unfolding e
      by (simp add: portal_keyed_def sessions_keyed_def t)
  qed
  have v: "wpt (validateClaims lib (portal_service secret te re) now' tok ty kind) (\<lambda>_ _. False) (\<lambda>_ _. True) (tables w')" for ty kind
    by (rule wpt_mono [OF portal.validateClaims_wpt]) (use n assms(4) in auto)
  have r: "wpt (ValidateRefreshToken lib (portal_service secret te re) now' tok) (\<lambda>_ _. False) (\<lambda>_ _. True) (tables w')"
    by (rule wpt_mono [OF portal.ValidateRefreshToken_wpt]) (use n assms(4) in auto)
  have c: "wpt (ValidateLoginChallenge lib (portal_service secret te re) now' tok i) (\<lambda>_ _. False) (\<lambda>_ _. True) (tables w')"
    unfolding ValidateLoginChallenge_def challengeClaims_def
    by (rule wpt_bind, rule wpt_bind, rule wpt_mono [OF v]) auto
  show ?thesis unfolding Let_def
    using wpt_refused [OF v [of "''access''" "''login''"], folded ValidateToken_def] wpt_refused [OF r] wpt_refused [OF c] by blast
qed

theorem new_password_ends_sessions_witness:
  "let w = portal_world sample_portal; m = ChangePassword sample_env 1 \<lparr>cq_current = ''old'', cq_new = ''passw0rd''\<rparr> w;
       svc = portal_service ''s'' 0 0 in
   \<not> isl (fst (ValidateToken sample_lib svc 5 ''access.aa'' w)) \<and> \<not> isl (fst m)
   \<and> isl (fst (ValidateToken sample_lib svc 5 ''access.aa'' (snd m)))"
proof -
  let ?w = "portal_world sample_portal" and ?cq = "\<lparr>cq_current = ''old'', cq_new = ''passw0rd''\<rparr>"
  let ?m = "ChangePassword sample_env 1 ?cq ?w"
  have ok: "\<not> isl (fst ?m)" and k: "portal_keyed (tables ?w)"
    and v: "\<not> isl (fst (ValidateToken sample_lib (portal_service ''s'' 0 0) 5 ''access.aa'' ?w))" by code_simp+
  from run_Inr [OF ok] have m: "?m = (Inr (), snd ?m)" by simp
  have h: "pe_hash sample_env (cq_new ?cq) = Inr ''hpassw0rd''" by code_simp
  have s: "\<forall>se \<in> set (rows (pt_sessions (tables ?w))). se_user_id se = 1 \<longrightarrow> se_credential se \<noteq> tl_sha256_hex sample_lib ''hpassw0rd''"
    by code_simp
  have p: "\<forall>cl. tl_parse sample_lib ''s'' 5 ''access.aa'' = Inr cl \<longrightarrow> cl_user_id cl = 1" by (auto simp: sample_lib_def)
  from new_password_ends_sessions [OF k disjI1 [OF conjI [OF m h]] s p, of 0 0] ok v show ?thesis by (simp only: Let_def simp_thms)
qed

section \<open>Backup codes\<close>

lemma drop_code_eq:
  "drop_code code found cs = (found \<or> code \<in> set cs, filter (\<lambda>c. c \<noteq> []) (if found then cs else remove1 code cs))"
  by (induction cs arbitrary: found) auto

lemma split_no_sep: "p \<in> set (split_char d s) \<Longrightarrow> d \<notin> set p"
  by (induction s arbitrary: p) (auto split: list.splits if_splits)

definition codes_of :: "string \<Rightarrow> string list" where
  "codes_of s = filter (\<lambda>c. c \<noteq> []) (split_char (CHR '','') s)"

definition backup_codes :: "portal_state \<Rightarrow> int \<Rightarrow> string list" where
  "backup_codes t i = (case find (\<lambda>s. tf_user_id s = i) (rows (pt_secrets t)) of None \<Rightarrow> [] | Some s \<Rightarrow> codes_of (tf_backup_codes s))"

lemma codes_of_join:
  assumes "\<forall>c \<in> set cs. CHR '','' \<notin> set c \<and> c \<noteq> []"
  shows "codes_of (join_char (CHR '','') cs) = cs"
proof (cases cs)
  case Nil
  then show ?thesis by (simp add: codes_of_def)
next
  case (Cons a list)
  then have "split_char (CHR '','') (join_char (CHR '','') cs) = cs" using assms by (intro split_join) auto
  then show ?thesis using assms by (simp add: codes_of_def filter_id_conv)
qed

lemma codes_after:
  "code \<noteq> [] \<Longrightarrow> codes_of (join_char (CHR '','') (filter (\<lambda>c. c \<noteq> []) (remove1 code (split_char (CHR '','') s)))) = remove1 code (codes_of s)"
proof -
  have "\<forall>c \<in> set (filter (\<lambda>c. c \<noteq> []) (remove1 code (split_char (CHR '','') s))). CHR '','' \<notin> set c \<and> c \<noteq> []"
    using set_remove1_subset [of code "split_char (CHR '','') s"] by (auto dest: split_no_sep)
  from codes_of_join [OF this] show ?thesis by (simp add: codes_of_def filter_remove1)
qed

lemma find_replaced:
  assumes "find (\<lambda>s. k s = i) xs = Some r" and "k r' = k r" and "distinct (map g xs)"
  shows "find (\<lambda>s. k s = j) (map (\<lambda>s. if g s = g r then r' else s) xs) = (if j = i then Some r' else find (\<lambda>s. k s = j) xs)"
  using assms
proof (induction xs)
  case (Cons x xs)
  show ?case
  proof (cases "g x = g r")
    case True
    have "x = r"
    proof (rule ccontr)
      assume "x \<noteq> r"
      with Cons.prems(1) have "find (\<lambda>s. k s = i) xs = Some r" by (auto split: if_splits)
      then have "r \<in> set xs" by (blast dest: find_Some_iff_In)
      with True Cons.prems(3) show False by force
    qed
    with Cons.prems(3) have "map (\<lambda>s. if g s = g r then r' else s) xs = xs" by (intro map_idI) (auto simp: rev_image_eqI)
    with \<open>x = r\<close> Cons.prems(1,2) show ?thesis by (auto split: if_splits dest: find_Some_iff_In)
  next
    case False
    with Cons show ?thesis by (auto split: if_splits)
  qed
qed simp

text \<open>
  A backup code of user \<open>i\<close> is taken: one of its occurrences is gone, and nothing else of
  any user's codes.
\<close>

definition code_taken :: "int \<Rightarrow> string \<Rightarrow> portal_state \<Rightarrow> portal_state \<Rightarrow> bool" where
  "code_taken i code t t' \<longleftrightarrow> code \<in> set (backup_codes t i) \<and> pt_sessions t' = pt_sessions t \<and> pt_users t' = pt_users t
     \<and> (\<forall>j. backup_codes t' j = (if j = i then remove1 code (backup_codes t i) else backup_codes t j))"

definition secrets_keyed :: "portal_state \<Rightarrow> bool" where
  "secrets_keyed t \<longleftrightarrow> keyed tf_id (pt_secrets t)"

lemma backup_code_spec:
  assumes "secrets_keyed t" and "code \<noteq> []"
  shows "wpt (VerifyBackupCode i code)
     (\<lambda>ok t'. if ok then code_taken i code t t' else t' = t \<and> code \<notin> set (backup_codes t i)) (\<lambda>_ t'. t' = t) t"
proof -
  have taken: "code_taken i code t (t\<lparr>pt_secrets := upd_rows (\<lambda>s. tf_id s = tf_id r)
      (\<lambda>_. r\<lparr>tf_backup_codes := join_char (CHR '','') (filter (\<lambda>c. c \<noteq> []) (remove1 code (split_char (CHR '','') (tf_backup_codes r))))\<rparr>) (pt_secrets t)\<rparr>)"
    if "find (\<lambda>s. tf_user_id s = i) (rows (pt_secrets t)) = Some r" and "code \<in> set (split_char (CHR '','') (tf_backup_codes r))" for r
    unfolding code_taken_def backup_codes_def
    using find_replaced [OF that(1), of "r\<lparr>tf_backup_codes := join_char (CHR '','') (filter (\<lambda>c. c \<noteq> []) (remove1 code (split_char (CHR '','') (tf_backup_codes r))))\<rparr>" tf_id]
      assms that codes_after [OF assms(2), of "tf_backup_codes r"]
    by (auto simp: upd_rows_def secrets_keyed_def keyed_def codes_of_def)
  show ?thesis
    unfolding VerifyBackupCode_def GetTwoFactorSecretByUserID_def UpdateTwoFactorSecret_def drop_code_eq
    apply (rule wpt_bind, rule wpt_map_err, rule wpt_first)
      apply simp
     apply simp
    apply (simp only: prod.case simp_thms if_False, rule wpt_if, rule wpt_ret, simp add: backup_codes_def codes_of_def)
    apply (rule wpt_bind, rule wpt_map_err, rule wpt_save)
       apply simp
      apply simp
     apply (rule wpt_ret, simp, rule taken, assumption, simp)
    apply (drule find_Some_iff_In, force)
    done
qed


section \<open>The second factor\<close>

lemma challenge_wpt:
  assumes "portal_keyed t"
  shows "wpt (ValidateLoginChallenge lib (portal_service secret te re) now token i)
     (\<lambda>_ t'. t' = t \<and> (\<exists>cl. tl_parse lib secret now token = Inr cl \<and> cl_token_type cl = ''2fa'' \<and> cl_user_id cl = i
        \<and> portal.live_session secret te re lib now (cl_id cl) i ''2fa'' t)) (\<lambda>_ t'. t' = t) t"
  unfolding ValidateLoginChallenge_def challengeClaims_def
  by (rule wpt_bind, rule wpt_bind, rule wpt_mono [OF portal.validateClaims_wpt [OF assms]]) (auto intro!: wpt_rules)

lemma wpt_const: "C \<Longrightarrow> wpt m (\<lambda>_ _. C) (\<lambda>_ _. True) t"
  by (auto simp: wpt_def split: prod.split sum.split)

lemma code_check_spec:
  assumes "secrets_keyed t" and "code \<noteq> []"
  shows "wpt (if length code = 6 then guardE totp e else bindE (VerifyBackupCode i code) (\<lambda>valid. guardE valid e'))
     (\<lambda>_ t'. if length code = 6 then totp \<and> t' = t else code_taken i code t t') (\<lambda>_ _. True) t"
  by (auto intro!: wpt_rules wpt_mono [OF backup_code_spec [OF assms]] split: if_splits)

text \<open>What \<open>Verify2FA\<close> found before it issued tokens.\<close>

definition second_factor :: "portal_env \<Rightarrow> string \<Rightarrow> time \<Rightarrow> two_factor_request \<Rightarrow> portal_state \<Rightarrow> bool" where
  "second_factor env secret now req t \<longleftrightarrow>
     (\<exists>cl se. tl_parse (pe_lib env) secret now (tq_challenge req) = Inr cl \<and> cl_token_type cl = ''2fa'' \<and> cl_user_id cl = tq_user_id req
        \<and> portal_holds t (cl_id cl) = Some se \<and> se_user_id se = tq_user_id req \<and> se_kind se = ''2fa'' \<and> now < se_expires_at se)
   \<and> (\<exists>u \<in> set (rows (pt_users t)). pu_id u = tq_user_id req \<and> pu_enabled u \<and> pu_two_factor_enabled u)
   \<and> (\<exists>s \<in> set (rows (pt_secrets t)). tf_user_id s = tq_user_id req
        \<and> (if length (tq_code req) = 6 then pe_totp env (tf_secret s) (tq_code req) else tq_code req \<in> set (backup_codes t (tq_user_id req))))"

text \<open>The part of \<open>Verify2FA\<close> behind the checks, as a continuation.\<close>

lemma verify_prefix:
  assumes svc: "pe_svc env = Some (portal_service secret te re)" and keyed: "portal_keyed t" "secrets_keyed t"
    and rest: "\<And>u t'. second_factor env secret now req t \<Longrightarrow> u \<in> set (rows (pt_users t)) \<Longrightarrow> pu_id u = tq_user_id req
     \<Longrightarrow> (if length (tq_code req) = 6 then t' = t else code_taken (tq_user_id req) (tq_code req) t t')
     \<Longrightarrow> wpt (bindE (map_err (\<lambda>_. UnauthorizedError pm_challenge_used)
         (ConsumeLoginChallenge (pe_lib env) (portal_service secret te re) now (tq_challenge req) (tq_user_id req))) (\<lambda>_.
       bindE (map_err (\<lambda>e. InternalError ''failed to generate token'' (Some e))
         (GenerateTokenPair (pe_lib env) (portal_service secret te re) now (pe_random env) (pu_id u) (pu_username u) (pu_role u)
           (token_expiry (portal_service secret te re) expiry) (Some (pu_password_hash u)))) (\<lambda>(token, refreshToken).
       ret ((result_for u)\<lparr>lr_token := Some token, lr_refresh_token := Some refreshToken\<rparr>)))) Q (\<lambda>_ _. True) t'"
  shows "wpt (Verify2FA env now req expiry) Q (\<lambda>_ _. True) t"
  unfolding Verify2FA_def svc option.case
  apply (rule wpt_valid)
   apply (rule wpt_bind, rule wpt_map_err, rule wpt_mono [OF challenge_wpt [OF keyed(1)]])
    apply (elim conjE, hypsubst, elim exE conjE)
    apply (rule wpt_bind, unfold PortalUserGetByID_def, rule wpt_map_err, rule wpt_first)
      apply simp
     apply simp
    apply (rule wpt_bind, rule wpt_guard)
     apply (rule wpt_bind, rule wpt_guard)
      apply (rule wpt_bind, unfold GetTwoFactorSecretByUserID_def, rule wpt_map_err, rule wpt_first)
        apply simp
       apply simp
      apply (rule wpt_bind, rule wpt_mono [OF code_check_spec [OF keyed(2)]])
        apply (simp add: TwoFactorValidate_def split: if_splits)
       apply (rule rest)
          apply (auto simp: second_factor_def portal.live_session_def code_taken_def split: if_splits)
  done

lemma code_check_frame:
  assumes "if length (tq_code req) = 6 then t' = t else code_taken (tq_user_id req) (tq_code req) t t'"
  shows "portal_keyed t = portal_keyed t'" and "portal_holds t' = portal_holds t"
    and "length (tq_code req) \<noteq> 6 \<Longrightarrow> backup_codes t' (tq_user_id req) = remove1 (tq_code req) (backup_codes t (tq_user_id req))"
  using assms by (auto simp: code_taken_def portal_keyed_def portal_holds_def sessions_keyed_def db_holds_def fun_eq_iff split: if_splits)

lemma verify_spec:
  assumes svc: "pe_svc env = Some (portal_service secret te re)" and keyed: "portal_keyed t" "secrets_keyed t"
    and fresh: "\<And>bytes. pe_random env = Inr bytes \<Longrightarrow> hex_encode bytes \<noteq> cl_id cl"
    and cl: "tl_parse (pe_lib env) secret now (tq_challenge req) = Inr cl"
  shows "wpt (Verify2FA env now req expiry) (\<lambda>_ t'. second_factor env secret now req t \<and> portal_holds t' (cl_id cl) = None
     \<and> (length (tq_code req) \<noteq> 6 \<longrightarrow> backup_codes t' (tq_user_id req) = remove1 (tq_code req) (backup_codes t (tq_user_id req)))) (\<lambda>_ _. True) t"
proof (rule verify_prefix [OF svc keyed], goal_cases)
  case (1 u t')
  note f = code_check_frame [OF 1(4)]
  let ?svc = "portal_service secret te re"
  let ?P = "\<lambda>x. backup_codes x (tq_user_id req) = backup_codes t' (tq_user_id req)"
  have blind: "session_blind ?P" by (simp add: session_blind_def backup_codes_def)
  have c: "wpt (ConsumeLoginChallenge (pe_lib env) ?svc now (tq_challenge req) (tq_user_id req))
      (\<lambda>_ t2. (portal_keyed t2 \<and> portal_holds t2 (cl_id cl) = None) \<and> ?P t2) (\<lambda>_ t2. True \<and> ?P t2) t'"
    by (rule wpt_conj [OF wpt_mono [OF portal.consuming_wpt(3)]])
       (use keyed f cl token_service_keeps(5) [OF blind, unfolded preserves_def] in auto)
  have g: "wpt (GenerateTokenPair (pe_lib env) ?svc now (pe_random env) (pu_id u) (pu_username u) (pu_role u)
           (token_expiry ?svc expiry) (Some (pu_password_hash u)))
      (\<lambda>_ t3. (portal_keyed t3 \<and> portal_holds t3 (cl_id cl) = None) \<and> ?P t3) (\<lambda>_ t3. (portal_keyed t3 \<and> portal_holds t3 (cl_id cl) = None) \<and> ?P t3) t2"
    if "portal_keyed t2" "portal_holds t2 (cl_id cl) = None" "?P t2" for t2
    by (rule wpt_conj)
       (use that portal.keeps_absent_api(1) [OF fresh, unfolded portal.keeps_absent_def] token_service_keeps(1) [OF blind, unfolded preserves_def] in auto)
  show ?case
    by (rule wpt_bind, rule wpt_map_err, rule wpt_mono [OF c])
       (auto intro!: wpt_bind wpt_map_err wpt_mono [OF g] case_prod_wpt wpt_ret simp: 1(1) f(3))
qed

text \<open>Signing in: who may, and what the answer holds.\<close>

definition names_user :: "string \<Rightarrow> portal_user \<Rightarrow> bool" where
  "names_user name u \<longleftrightarrow> (if ValidateEmail (trim_space name) then to_lower (sql_trim (pu_email u)) = normalizeEmail name
     else to_lower (sql_trim (pu_username u)) = to_lower (trim_space name))"

definition signs_in :: "portal_env \<Rightarrow> time \<Rightarrow> login_request \<Rightarrow> portal_state \<Rightarrow> portal_user \<Rightarrow> bool" where
  "signs_in env now req t u \<longleftrightarrow> u \<in> set (rows (pt_users t)) \<and> names_user (lq_username req) u \<and> pu_enabled u
     \<and> pe_verify env (lq_password req) (pu_password_hash u)
     \<and> (pu_email_verified u \<or> trim_space (pu_email u) = []
        \<or> (\<forall>v \<in> set (rows (pt_verifications t)). vt_user_id v = pu_id u \<longrightarrow> vt_verified_at v \<noteq> None \<or> vt_expires_at v \<le> now))"

lemma normalizeEmail_trim [simp]: "normalizeEmail (trim_space s) = normalizeEmail s" "trim_space (normalizeEmail s) = normalizeEmail s"
  "normalizeEmail (normalizeEmail s) = normalizeEmail s"
  by (simp_all add: normalizeEmail_def trim_space_lower)

lemma ValidateEmail_norm: "s \<noteq> [] \<Longrightarrow> normalizeEmail s \<noteq> [] \<Longrightarrow> ValidateEmail (normalizeEmail s) = ValidateEmail s"
  by (simp add: ValidateEmail_def)

lemma ValidateEmail_nonempty: "ValidateEmail s \<Longrightarrow> s \<noteq> [] \<and> normalizeEmail s \<noteq> []"
  by (auto simp: ValidateEmail_def emailRegex_match_def Let_def split: if_splits)

lemma lower_normalizeEmail [simp]: "to_lower (normalizeEmail s) = normalizeEmail s"
  by (simp add: to_lower_def normalizeEmail_def)

lemma login_lookup:
  "wpt (if ValidateEmail (lq_username (snd (LoginValidate req))) then GetByEmail (normalizeEmail (lq_username (snd (LoginValidate req))))
        else GetByUsername (trim_space (lq_username (snd (LoginValidate req)))))
     (\<lambda>u t'. t' = t \<and> u \<in> set (rows (pt_users t)) \<and> names_user (lq_username req) u) (\<lambda>_ t'. t' = t) t"
proof (cases "ValidateEmail (trim_space (lq_username req))")
  case True
  then have "ValidateEmail (normalizeEmail (lq_username req))"
    using ValidateEmail_norm [of "trim_space (lq_username req)"] ValidateEmail_nonempty [OF True] by simp
  with True show ?thesis
    by (auto intro!: wpt_rules simp: LoginValidate_def Let_def GetByEmail_def normalizeEmail_idem names_user_def)
next
  case False
  then show ?thesis
    by (auto intro!: wpt_rules simp: LoginValidate_def Let_def GetByUsername_def names_user_def)
qed

lemma login_password [simp]: "lq_password (snd (LoginValidate req)) = lq_password req"
  by (simp add: LoginValidate_def Let_def)

lemma limit_step:
  "wpt (case limiter of None \<Rightarrow> ret True | Some cfg \<Rightarrow> check_limit cfg now ip) (\<lambda>_ t1. \<exists>l. t1 = t\<lparr>pt_limiter := l\<rparr>) (\<lambda>_ _. False) t"
  "wpt (case limiter of None \<Rightarrow> ret () | Some cfg \<Rightarrow> set_limiter (g cfg)) (\<lambda>_ t1. \<exists>l. t1 = t\<lparr>pt_limiter := l\<rparr>) (\<lambda>_ _. False) t"
  by (cases limiter; auto intro!: wpt_ret exI [of _ "pt_limiter t"]; auto simp: wpt_def check_limit_def set_limiter_def split: prod.split)+

lemma pending_spec:
  "wpt (if \<not> pu_email_verified u \<and> trim_space (pu_email u) \<noteq> []
        then bindE (CountPendingEmailVerificationTokensByUser now (pu_id u)) (\<lambda>pending. guardE (\<not> 0 < pending) e) else ret ())
     (\<lambda>_ t'. t' = t \<and> (pu_email_verified u \<or> trim_space (pu_email u) = []
        \<or> (\<forall>v \<in> set (rows (pt_verifications t)). vt_user_id v = pu_id u \<longrightarrow> vt_verified_at v \<noteq> None \<or> vt_expires_at v \<le> now)))
     (\<lambda>_ t'. t' = t) t"
  unfolding CountPendingEmailVerificationTokensByUser_def
  by (auto intro!: wpt_rules simp: count_rows_pos) (fastforce simp: not_less)

definition login_answer :: "portal_user \<Rightarrow> login_result \<Rightarrow> bool" where
  "login_answer u r \<longleftrightarrow> lr_user_id r = pu_id u \<and> lr_username r = pu_username u \<and> lr_role r = pu_role u
     \<and> lr_requires_2fa r = pu_two_factor_enabled u
     \<and> (if pu_two_factor_enabled u then lr_token r = None \<and> lr_refresh_token r = None \<and> lr_challenge_token r \<noteq> None
        else lr_token r \<noteq> None \<and> lr_challenge_token r = None)"

lemma login_spec:
  "wpt (Login env now req ip limiter expiry) (\<lambda>r _. \<exists>u. signs_in env now req t u \<and> login_answer u r) (\<lambda>_ _. True) t"
proof -
  define r where "r = snd (LoginValidate req)"
  obtain errs where v: "LoginValidate req = (errs, r)" unfolding r_def by (cases "LoginValidate req") simp
  have pw: "lq_password r = lq_password req" by (simp add: r_def)
  note look = login_lookup [of req, folded r_def]
  show ?thesis
    unfolding Login_def v prod.case Let_def
    apply (rule wpt_valid)
     apply (rule wpt_bind, rule wpt_mono [OF limit_step(1)])
      apply (elim exE, hypsubst)
      apply (rule wpt_bind, rule wpt_guard)
       apply (rule wpt_bind, rule wpt_attempt, rule wpt_mono [OF look])
        apply (elim conjE, hypsubst, simp only: sum.case)
        apply (rule wpt_bind, rule wpt_guard)
         apply (rule wpt_bind, rule wpt_mono [OF pending_spec])
          apply (elim conjE, hypsubst)
          apply (rule wpt_if)
           apply (rule wpt_bind, rule wpt_mono [OF limit_step(2)], rule wpt_raise, simp, simp)
          apply (rule wpt_if)
           apply (rule wpt_case_option, rule wpt_raise, simp)
           apply (rule wpt_bind, rule wpt_mono [OF wpt_const [of True]], simp)
            apply (rule wpt_ret)
    subgoal for x a l u
      by (intro exI [of _ u]) (auto simp: signs_in_def login_answer_def result_for_def pw)
    apply simp
    apply (rule wpt_bind, rule wpt_map_err, rule wpt_mono [OF wpt_const [of True]], simp)
    apply (rule wpt_bind, rule wpt_mono [OF limit_step(2)], rule wpt_ret)
    subgoal for x a l u
      by (intro exI [of _ u]) (auto simp: signs_in_def login_answer_def result_for_def pw)
    apply simp_all
    apply (auto intro!: wpt_rules wpt_mono [OF limit_step(2)])
    done
qed


definition sample_two_factor :: portal_state where
  "sample_two_factor = sample_portal
     \<lparr>pt_users := \<lparr>rows = [sample_portal_user\<lparr>pu_two_factor_enabled := True\<rparr>], seq = 1\<rparr>,
      pt_secrets := \<lparr>rows = [\<lparr>tf_id = 1, tf_user_id = 1, tf_secret = ''123456'', tf_backup_codes = ''aa,ijklmnop'',
        tf_enabled = True, tf_enabled_at = None, tf_created_at = 0\<rparr>], seq = 1\<rparr>,
      pt_sessions := \<lparr>rows = [\<lparr>se_id = ''aa'', se_user_id = 1, se_kind = ''2fa'', se_credential = ''dloh'', se_expires_at = 100\<rparr>], seq = 0\<rparr>\<rparr>"


text \<open>
  (C18) The second step of a login.  \<open>Verify2FA\<close> issues tokens only against a challenge of the same user that is stored,
  of kind 2fa and not expired, for a user that is enabled and has the second factor, and only for
  a code the stored secret confirms or a backup code of the user; the challenge is gone
  afterwards, and so is one occurrence of the backup code, so neither serves again.
\<close>

theorem second_factor_needed:
  fixes w w' :: "portal_state world"
  assumes "pe_svc env = Some (portal_service secret te re)" and "portal_keyed (tables w)" and "secrets_keyed (tables w)"
    and "Verify2FA env now req expiry w = (Inr r, w')"
    and "tl_parse (pe_lib env) secret now (tq_challenge req) = Inr cl" and "pe_random env = Inr bytes" and "hex_encode bytes \<noteq> cl_id cl"
  shows "second_factor env secret now req (tables w) \<and> portal_holds (tables w') (cl_id cl) = None
    \<and> (length (tq_code req) \<noteq> 6 \<longrightarrow>
        backup_codes (tables w') (tq_user_id req) = remove1 (tq_code req) (backup_codes (tables w) (tq_user_id req)))"
  by (rule wptD_Inr [OF verify_spec [OF assms(1-3) _ assms(5)] assms(4)]) (use assms(6,7) in simp)

theorem second_factor_needed_witness:
  "let req = \<lparr>tq_challenge = ''2fa.aa'', tq_user_id = 1, tq_code = ''ijklmnop''\<rparr>;
       m = Verify2FA sample_env 5 req None (portal_world sample_two_factor) in
   \<not> isl (fst m) \<and> backup_codes (tables (snd m)) 1 = remove1 ''ijklmnop'' (backup_codes sample_two_factor 1)
   \<and> portal_holds (tables (snd m)) ''aa'' = None"
proof -
  let ?req = "\<lparr>tq_challenge = ''2fa.aa'', tq_user_id = 1, tq_code = ''ijklmnop''\<rparr>"
  let ?m = "Verify2FA sample_env 5 ?req None (portal_world sample_two_factor)"
  let ?cl = "projr (tl_parse sample_lib ''s'' 5 ''2fa.aa'')"
  have ok: "\<not> isl (fst ?m)" and k: "portal_keyed (tables (portal_world sample_two_factor))" "secrets_keyed (tables (portal_world sample_two_factor))"
    and ne: "hex_encode [1] \<noteq> cl_id ?cl" and i: "cl_id ?cl = ''aa''" and l: "length (tq_code ?req) \<noteq> 6" by code_simp+
  have s: "pe_svc sample_env = Some (portal_service ''s'' 0 0)" "pe_random sample_env = Inr [1]" by (simp_all add: sample_env_def)
  have cl: "tl_parse (pe_lib sample_env) ''s'' 5 (tq_challenge ?req) = Inr ?cl" by (simp add: sample_env_def sample_lib_def)
  have w: "tables (portal_world sample_two_factor) = sample_two_factor" by (simp add: portal_world_def)
  from second_factor_needed [OF s(1) k run_Inr [OF ok] cl s(2) ne] l ok i show ?thesis
    by (simp only: Let_def w simp_thms two_factor_request.simps)
qed

section \<open>Switching the second factor off\<close>

lemma disable_spec:
  "wpt (Disable2FA env i pw) (\<lambda>_ t'. t' = t\<lparr>pt_secrets := del_rows (\<lambda>s. tf_user_id s = i) (pt_secrets t)\<rparr>) (\<lambda>_ t'. True) t"
  unfolding Disable2FA_def PortalUserGetByID_def DeleteTwoFactorSecret_def affected_or_def
  by (auto intro!: wpt_rules)

lemma no_secret_no_tokens:
  assumes "\<forall>s \<in> set (rows (pt_secrets t)). tf_user_id s \<noteq> tq_user_id req" and "wired env" and "portal_keyed t"
  shows "wpt (Verify2FA env now req expiry) (\<lambda>_ _. False) (\<lambda>_ _. True) t"
proof -
  from assms(2) consider "pe_svc env = None" | secret te re where "pe_svc env = Some (portal_service secret te re)"
    by (auto simp: wired_def)
  then show ?thesis
  proof cases
    case 1
    show ?thesis unfolding Verify2FA_def 1 option.case by (rule wpt_valid) (auto intro!: wpt_rules)
  next
    case 2
    show ?thesis unfolding Verify2FA_def 2 option.case PortalUserGetByID_def GetTwoFactorSecretByUserID_def
      by (rule wpt_valid, rule wpt_bind, rule wpt_map_err, rule wpt_mono [OF challenge_wpt [OF assms(3)]])
         (use assms(1) in \<open>auto intro!: wpt_bind wpt_map_err wpt_first wpt_guard\<close>)
  qed
qed

text \<open>
  (C32) Switching the second factor off locks the user out.  \<open>Disable2FA\<close> removes the secret and
  leaves the user's flag set: afterwards, for a user with the flag, a login answers with a challenge
  and no token, and \<open>Verify2FA\<close> fails whatever the code.
\<close>

theorem disable_locks_out:
  fixes w w' :: "portal_state world"
  assumes "wired env" and "portal_keyed (tables w)" and "Disable2FA env i pw w = (Inr (), w')"
    and "\<forall>u \<in> set (rows (pt_users (tables w))). pu_id u = i \<longrightarrow> pu_two_factor_enabled u"
  shows "(\<forall>r. fst (Login env now lq ip limiter expiry w') = Inr r \<longrightarrow> lr_user_id r = i \<longrightarrow> lr_token r = None)
    \<and> (tq_user_id tq = i \<longrightarrow> isl (fst (Verify2FA env now tq expiry w')))"
proof -
  from wptD_Inr [OF disable_spec assms(3)]
  have t: "tables w' = (tables w)\<lparr>pt_secrets := del_rows (\<lambda>s. tf_user_id s = i) (pt_secrets (tables w))\<rparr>" .
  have "lr_token r = None" if "fst (Login env now lq ip limiter expiry w') = Inr r" "lr_user_id r = i" for r
  proof -
    have "Login env now lq ip limiter expiry w' = (Inr r, snd (Login env now lq ip limiter expiry w'))"
      using that(1) by (simp add: prod_eq_iff)
    from wptD_Inr [OF login_spec this] obtain u where "signs_in env now lq (tables w') u" "login_answer u r" by blast
    with assms(4) that(2) t show ?thesis by (auto simp: signs_in_def login_answer_def)
  qed
  moreover have "isl (fst (Verify2FA env now tq expiry w'))" if "tq_user_id tq = i"
    by (rule wpt_refused [OF no_secret_no_tokens]) (use assms(1,2) that t in \<open>auto simp: del_rows_def portal_keyed_def sessions_keyed_def\<close>)
  ultimately show ?thesis by blast
qed

theorem disable_locks_out_witness:
  "let m = Disable2FA sample_env 1 ''old'' (portal_world sample_two_factor);
       lq = \<lparr>lq_username = ''eve'', lq_password = ''old'', lq_remember = False\<rparr>;
       tq = \<lparr>tq_challenge = ''2fa.aa'', tq_user_id = 1, tq_code = ''123456''\<rparr> in
   \<not> isl (fst m) \<and> (\<forall>r. fst (Login sample_env 5 lq ''ip'' None None (snd m)) = Inr r \<longrightarrow> lr_user_id r = 1 \<longrightarrow> lr_token r = None)
   \<and> isl (fst (Verify2FA sample_env 5 tq None (snd m)))"
proof -
  let ?w = "portal_world sample_two_factor"
  let ?m = "Disable2FA sample_env 1 ''old'' ?w" and ?tq = "\<lparr>tq_challenge = ''2fa.aa'', tq_user_id = 1, tq_code = ''123456''\<rparr>"
  have ok: "\<not> isl (fst ?m)" and k: "portal_keyed (tables ?w)"
    and f: "\<forall>u \<in> set (rows (pt_users (tables ?w))). pu_id u = 1 \<longrightarrow> pu_two_factor_enabled u" by code_simp+
  from run_Inr [OF ok] have m: "?m = (Inr (), snd ?m)" by simp
  note out = disable_locks_out [OF sample_wired k m f, of 5 _ "''ip''" None None ?tq]
  have "isl (fst (Verify2FA sample_env 5 ?tq None (snd ?m)))" by (rule conjunct2 [OF out, THEN mp]) simp
  with ok conjunct1 [OF out] show ?thesis unfolding Let_def by (intro conjI)
qed

section \<open>Addresses and registration\<close>

text \<open>The language of the expression, as a concatenation.\<close>

definition address_parts :: "string \<Rightarrow> string \<Rightarrow> string \<Rightarrow> string \<Rightarrow> bool" where
  "address_parts s loc sub tld \<longleftrightarrow> s = loc @ CHR ''@'' # sub @ CHR ''.'' # tld \<and> loc \<noteq> [] \<and> list_all local_char loc
     \<and> sub \<noteq> [] \<and> list_all domain_char sub \<and> 2 \<le> length tld \<and> list_all is_letter tld"

lemma no_at: "local_char c \<Longrightarrow> c \<noteq> CHR ''@''" and no_dot: "is_letter c \<Longrightarrow> c \<noteq> CHR ''.''"
  by (auto simp: local_char_def is_letter_def is_digit_def)

lemma while_split:
  assumes "list_all p xs" and "\<not> p x"
  shows "takeWhile p (xs @ x # ys) = xs" and "dropWhile p (xs @ x # ys) = x # ys"
  using assms by (induction xs) auto

lemma split_while: "dropWhile (\<lambda>c. c \<noteq> x) s = y # ys \<Longrightarrow> s = takeWhile (\<lambda>c. c \<noteq> x) s @ x # ys"
  by (metis (mono_tags, lifting) dropWhile_eq_Cons_conv takeWhile_dropWhile_id)

lemma email_regex: "emailRegex_match s \<longleftrightarrow> (\<exists>loc sub tld. address_parts s loc sub tld)"
proof
  assume m: "emailRegex_match s"
  then obtain a rest where d: "dropWhile (\<lambda>c. c \<noteq> CHR ''@'') s = a # rest"
    by (auto simp: emailRegex_match_def Let_def split: list.splits)
  with m obtain b rsub where e: "dropWhile (\<lambda>c. c \<noteq> CHR ''.'') (rev rest) = b # rsub"
    by (auto simp: emailRegex_match_def Let_def split: list.splits)
  from split_while [OF e] have "rest = rev rsub @ CHR ''.'' # rev (takeWhile (\<lambda>c. c \<noteq> CHR ''.'') (rev rest))"
    by (metis append.assoc append_Cons append_Nil rev_append rev_rev_ident rev.simps(2))
  with split_while [OF d] m d e have "address_parts s (takeWhile (\<lambda>c. c \<noteq> CHR ''@'') s) (rev rsub) (rev (takeWhile (\<lambda>c. c \<noteq> CHR ''.'') (rev rest)))"
    by (auto simp: address_parts_def emailRegex_match_def Let_def)
  then show "\<exists>loc sub tld. address_parts s loc sub tld" by blast
next
  assume "\<exists>loc sub tld. address_parts s loc sub tld"
  then obtain loc sub tld where a: "address_parts s loc sub tld" by blast
  note f = a [unfolded address_parts_def]
  have "list_all (\<lambda>c. c \<noteq> CHR ''@'') loc" "list_all (\<lambda>c. c \<noteq> CHR ''.'') (rev tld)"
    using f by (auto simp: list_all_iff dest: no_at no_dot)
  note w = while_split [OF this(1), of "CHR ''@''" "sub @ CHR ''.'' # tld"] while_split [OF this(2), of "CHR ''.''" "rev sub"]
  show "emailRegex_match s"
    unfolding emailRegex_match_def using f w by (simp add: Let_def list_all_rev)
qed

text \<open>
  The address check decides the regular expression.  \<open>ValidateEmail\<close> accepts exactly the strings that,
  without surrounding white space and in lower case, have at most 254 bytes and are a local part, an at sign, a domain, a dot and a
  top-level name of at least two letters, in the alphabets of \<open>emailRegex\<close>.
\<close>

theorem email_syntax:
  "ValidateEmail s \<longleftrightarrow> length (normalizeEmail s) \<le> 254 \<and> (\<exists>loc sub tld. address_parts (normalizeEmail s) loc sub tld)"
proof -
  have "\<not> address_parts (normalizeEmail []) loc sub tld" for loc sub tld
    by (simp add: normalizeEmail_def trim_space_def to_lower_def address_parts_def)
  then show ?thesis by (auto simp: ValidateEmail_def email_regex Let_def)
qed

lemma create_user_spec:
  "wpt (PortalUserCreate u) (\<lambda>r t'. r = (normalize_user u)\<lparr>pu_id := seq (pt_users t) + 1\<rparr>
      \<and> t' = t\<lparr>pt_users := add_row (\<lambda>i. (normalize_user u)\<lparr>pu_id := i\<rparr>) (pt_users t)\<rparr>) (\<lambda>_ t'. t' = t) t"
  unfolding PortalUserCreate_def by (auto intro!: wpt_rules)

lemma username_taken_spec:
  "wpt (CheckUsernameExists name) (\<lambda>b t'. t' = t \<and> (b \<longleftrightarrow> (\<exists>u \<in> set (rows (pt_users t)). to_lower (sql_trim (pu_username u)) = to_lower (trim_space name))))
     (\<lambda>_ t'. t' = t) t"
  unfolding CheckUsernameExists_def GetByUsername_def Let_def
  by (auto intro!: wpt_rules simp: not_found_or_def IsNotFound_def)

lemma email_taken_spec:
  "wpt (attempt (GetByEmail mail)) (\<lambda>r t'. t' = t \<and> (case r of Inr _ \<Rightarrow> True
      | Inl e \<Rightarrow> IsNotFound e \<longrightarrow> (\<forall>u \<in> set (rows (pt_users t)). to_lower (sql_trim (pu_email u)) \<noteq> to_lower (trim_space mail)))) (\<lambda>_ _. False) t"
  unfolding GetByEmail_def Let_def
  by (auto intro!: wpt_rules simp: not_found_or_def IsNotFound_def)

lemma check_invite_spec:
  "wpt (check_invite now needed code) (\<lambda>_ t'. t' = t \<and> (needed \<longrightarrow> (\<exists>c \<in> set (rows (pt_invites t)). pi_code c = code \<and> InviteIsValid now c))) (\<lambda>_ t'. t' = t) t"
  unfolding check_invite_def GetInviteCodeByCode_def
  by (auto intro!: wpt_rules)

definition registered :: "portal_env \<Rightarrow> time \<Rightarrow> register_request \<Rightarrow> bool \<Rightarrow> portal_state \<Rightarrow> register_result \<Rightarrow> portal_state \<Rightarrow> bool" where
  "registered env now req needed t r t' \<longleftrightarrow> (\<exists>h. pe_hash env (rg_password req) = Inr h
     \<and> (\<forall>u \<in> set (rows (pt_users t)). to_lower (sql_trim (pu_username u)) \<noteq> to_lower (trim_space (rg_username req))
          \<and> to_lower (sql_trim (pu_email u)) \<noteq> to_lower (trim_space (rg_email req)))
     \<and> (needed \<longrightarrow> (\<exists>c \<in> set (rows (pt_invites t)). pi_code c = rg_invite_code req \<and> InviteIsValid now c))
     \<and> rr_user_id r = seq (pt_users t) + 1
     \<and> pt_users t' = add_row (\<lambda>i. (normalize_user (new_user now req h))\<lparr>pu_id := i\<rparr>) (pt_users t))"

lemma register_spec:
  "wpt (Register env now draws req0 needed)
     (\<lambda>r t'. fst (RegisterValidate req0) = [] \<and> registered env now (snd (RegisterValidate req0)) needed t r t') (\<lambda>_ t'. t' = t) t"
proof -
  obtain errs req where v: "RegisterValidate req0 = (errs, req)" by (cases "RegisterValidate req0")
  show ?thesis
    unfolding Register_def v prod.case fst_conv snd_conv
    apply (rule wpt_valid)
     apply (rule wpt_bind, rule wpt_mono [OF username_taken_spec], elim conjE, hypsubst)
      apply (rule wpt_bind, rule wpt_guard)
       apply (rule wpt_bind, rule wpt_mono [OF email_taken_spec], elim conjE, hypsubst)
        apply (rule wpt_bind, rule wpt_case_sum, rule wpt_if, rule wpt_ret)
          apply (rule wpt_bind, rule wpt_mono [OF check_invite_spec], elim conjE, hypsubst)
           apply (rule wpt_bind, unfold hashed_def, rule wpt_case_sum, rule wpt_raise, simp, rule wpt_ret)
           apply (rule wpt_bind, rule wpt_mono [OF create_user_spec], elim conjE, hypsubst)
            apply (unfold UseInviteCode_def affected_or_def)
            apply (intro wpt_rules)
            apply (auto simp: registered_def intro: wpt_raise)
    done
qed

text \<open>
  Registration.  A registration that succeeds passed the checks of its fields, found no user with the same name or the
  same address up to case and surrounding blanks, found a valid invite code where one is
  required, and added exactly one user: with the hash of the given password, enabled, not verified, without second factor and
  with the role \<open>user\<close>, whatever the request held.
\<close>

theorem register_outcome:
  fixes w w' :: "portal_state world"
  assumes "Register env now draws req0 needed w = (Inr r, w')"
  shows "fst (RegisterValidate req0) = [] \<and> registered env now (snd (RegisterValidate req0)) needed (tables w) r (tables w')
    \<and> (\<exists>u \<in> set (rows (pt_users (tables w'))). pu_id u = rr_user_id r \<and> pu_role u = ''user'' \<and> \<not> pu_two_factor_enabled u)"
proof -
  from wptD_Inr [OF register_spec assms]
  have a: "fst (RegisterValidate req0) = []" and r: "registered env now (snd (RegisterValidate req0)) needed (tables w) r (tables w')" by blast+
  from r obtain h where "pt_users (tables w') = add_row (\<lambda>i. (normalize_user (new_user now (snd (RegisterValidate req0)) h))\<lparr>pu_id := i\<rparr>) (pt_users (tables w))"
    "rr_user_id r = seq (pt_users (tables w)) + 1" unfolding registered_def by blast
  then have "\<exists>u \<in> set (rows (pt_users (tables w'))). pu_id u = rr_user_id r \<and> pu_role u = ''user'' \<and> \<not> pu_two_factor_enabled u"
    by (simp add: add_row_def normalize_user_def new_user_def)
  with a r show ?thesis by blast
qed

theorem register_outcome_witness:
  "let m = Register sample_env 5 [] \<lparr>rg_username = ''bob'', rg_email = ''b@x.cn'', rg_password = ''aaaaaaa1'', rg_invite_code = []\<rparr> False (portal_world sample_portal) in
   \<not> isl (fst m) \<and> registered sample_env 5 (snd (RegisterValidate \<lparr>rg_username = ''bob'', rg_email = ''b@x.cn'', rg_password = ''aaaaaaa1'', rg_invite_code = []\<rparr>))
     False sample_portal (projr (fst m)) (tables (snd m))"
proof -
  let ?m = "Register sample_env 5 [] \<lparr>rg_username = ''bob'', rg_email = ''b@x.cn'', rg_password = ''aaaaaaa1'', rg_invite_code = []\<rparr> False (portal_world sample_portal)"
  have ok: "\<not> isl (fst ?m)" by code_simp
  have w: "tables (portal_world sample_portal) = sample_portal" by (simp add: portal_world_def)
  from register_outcome [OF run_Inr [OF ok]] ok show ?thesis unfolding Let_def w by blast
qed

end
