(* ===== verification/ProxySettings.thy ===== *)
theory ProxySettings
  imports Errors "HOL-Library.AList"
begin

text \<open>
  The settings of a proxy and what the panel reads out of them: the host, port, server name and
  TLS choice a client is given (\<open>internal/proxy/share.go\<close>) and the normalisation every stored
  settings map goes through (\<open>internal/proxy/settings_normalizer.go\<close>).  A
  \<open>map[string]any\<close> is an association list over the dynamic types the code tells apart; a
  nil map reads like the empty one.  The base64 and X25519 routines are arguments (\<open>key_lib\<close>), and so is
  the host name \<open>url.Parse\<close> finds in an address with a scheme.
\<close>

section \<open>Values and look-ups\<close>

datatype setting =
    VNil | VBool bool | VStr string | VInt int | VInt64 int | VFloat rat
  | VStrs "string list" | VList "setting list"
  | VMap "(string \<times> setting) list" | VSMap "(string \<times> string) list" | VOther

type_synonym settings = "(string \<times> setting) list"

definition put :: "string \<Rightarrow> setting \<Rightarrow> settings \<Rightarrow> settings" where
  "put k v s = AList.update k v s"

definition del :: "string \<Rightarrow> settings \<Rightarrow> settings" where
  "del k s = AList.delete k s"

definition put_both :: "string \<Rightarrow> string \<Rightarrow> setting \<Rightarrow> settings \<Rightarrow> settings" where
  "put_both k1 k2 v s = put k2 v (put k1 v s)"

definition getSettingString :: "settings \<Rightarrow> string \<Rightarrow> string" where
  "getSettingString s key = (case map_of s key of Some (VStr t) \<Rightarrow> trim_space t | _ \<Rightarrow> [])"

text \<open>The first candidate that is not empty, the pattern of the loops over keys.\<close>

fun first_nonempty :: "string list \<Rightarrow> string" where
  "first_nonempty [] = []"
| "first_nonempty (x # xs) = (if x \<noteq> [] then x else first_nonempty xs)"

section \<open>Hosts and ports\<close>

definition invalidShareHosts :: "string list" where
  "invalidShareHosts = [[], ''0.0.0.0'', ''::'', ''[::]'', ''0:0:0:0:0:0:0:0'']"

text \<open>
  \<open>URL.Hostname()\<close> of \<open>url.URL{Host: h}\<close>: what follows the last colon is cut off
  when it consists of digits only, then a pair of enclosing brackets.
\<close>

definition after_last :: "char \<Rightarrow> string \<Rightarrow> string" where
  "after_last c s = rev (takeWhile (\<lambda>x. x \<noteq> c) (rev s))"

definition upto_last :: "char \<Rightarrow> string \<Rightarrow> string" where
  "upto_last c s = rev (tl (dropWhile (\<lambda>x. x \<noteq> c) (rev s)))"

definition unbracket :: "string \<Rightarrow> string" where
  "unbracket h = (if h \<noteq> [] \<and> hd h = CHR ''['' \<and> last h = CHR '']'' then butlast (tl h) else h)"

definition url_hostname :: "string \<Rightarrow> string" where
  "url_hostname h = unbracket (if CHR '':'' \<in> set h \<and> list_all is_digit (after_last CHR '':'' h)
     then upto_last CHR '':'' h else h)"

fun has_infix :: "string \<Rightarrow> string \<Rightarrow> bool" where
  "has_infix p [] \<longleftrightarrow> p = []"
| "has_infix p (c # cs) \<longleftrightarrow> take (length p) (c # cs) = p \<or> has_infix p cs"

definition starts_with :: "string \<Rightarrow> string \<Rightarrow> bool" where
  "starts_with p s \<longleftrightarrow> take (length p) s = p"

text \<open>\<open>parse s\<close> is the host name of \<open>url.Parse(s)\<close>, empty when the address does not parse.\<close>

definition NormalizeShareHost :: "(string \<Rightarrow> string) \<Rightarrow> string \<Rightarrow> string" where
  "NormalizeShareHost parse raw =
     (let host = trim_space raw in
      if host = [] then []
      else (let parsedHost = (if has_infix ''://'' host then parse host else url_hostname host);
                host = (if parsedHost \<noteq> [] then parsedHost else host)
            in if to_lower host \<in> set invalidShareHosts then [] else host))"

definition NormalizeTLSServerName :: "(string \<Rightarrow> string) \<Rightarrow> string \<Rightarrow> string" where
  "NormalizeTLSServerName parse raw =
     (let host = NormalizeShareHost parse raw in
      if host = [] then []
      else if starts_with ''*.'' host
      then (let suffix = drop 2 host in if suffix = [] then [] else ''www.'' @ suffix)
      else host)"

definition ResolveSNI :: "(string \<Rightarrow> string) \<Rightarrow> settings \<Rightarrow> string" where
  "ResolveSNI parse s = first_nonempty (map (\<lambda>k. NormalizeTLSServerName parse (getSettingString s k))
     [''sni'', ''server_name'', ''tls_domain''])"

definition ResolveExternalServerAddress :: "(string \<Rightarrow> string) \<Rightarrow> settings \<Rightarrow> string" where
  "ResolveExternalServerAddress parse s = first_nonempty (map (\<lambda>k. NormalizeShareHost parse (getSettingString s k))
     [''external_host'', ''externalHost'', ''server_host'', ''serverHost''])"

fun ResolveTLSSkipVerify_keys :: "settings \<Rightarrow> string list \<Rightarrow> bool" where
  "ResolveTLSSkipVerify_keys s [] = False"
| "ResolveTLSSkipVerify_keys s (k # ks) = (case map_of s k of
     Some (VBool b) \<Rightarrow> b
   | Some (VStr t) \<Rightarrow> trim_space (to_lower t) \<in> {''1'', ''true''}
   | _ \<Rightarrow> ResolveTLSSkipVerify_keys s ks)"

definition ResolveTLSSkipVerify :: "settings \<Rightarrow> bool" where
  "ResolveTLSSkipVerify s = ResolveTLSSkipVerify_keys s [''allowInsecure'', ''skipCertVerify'']"

definition ResolveVMessCipher :: "settings \<Rightarrow> string" where
  "ResolveVMessCipher s =
     (let cipher = first_nonempty (map (\<lambda>k. trim_space (to_lower (getSettingString s k))) [''cipher'', ''scy'']);
          security = trim_space (to_lower (getSettingString s ''security''))
      in if cipher \<noteq> [] then cipher
         else if security \<in> {[], ''tls'', ''xtls'', ''reality''} then ''auto'' else security)"

definition HasTLSSettings :: "(string \<Rightarrow> string) \<Rightarrow> settings \<Rightarrow> bool" where
  "HasTLSSettings parse s =
     (let security = to_lower (getSettingString s ''security'') in
      if security = ''none'' then False
      else if security \<in> {''tls'', ''xtls'', ''reality''} then True
      else if map_of s ''tls'' = Some (VBool True) then True
      else if to_lower (getSettingString s ''tls'') \<in> {''tls'', ''true'', ''1''} then True
      else ResolveSNI parse s \<noteq> [])"

definition ResolveServerAddress :: "(string \<Rightarrow> string) \<Rightarrow> string \<Rightarrow> settings \<Rightarrow> string" where
  "ResolveServerAddress parse host s = first_nonempty (map (NormalizeShareHost parse)
     [ResolveExternalServerAddress parse s, host, getSettingString s ''server'',
      getSettingString s ''address'', ResolveSNI parse s])"

definition valid_port :: "int \<Rightarrow> bool" where
  "valid_port p \<longleftrightarrow> 1 \<le> p \<and> p \<le> 65535"

definition port_value :: "setting \<Rightarrow> int option" where
  "port_value v = (case v of VInt p \<Rightarrow> Some p | VInt64 p \<Rightarrow> Some p | VFloat r \<Rightarrow> Some (f64_to_int r)
     | VStr t \<Rightarrow> parse_int64 (trim_space t) | _ \<Rightarrow> None)"

fun ResolveServerPort_keys :: "int \<Rightarrow> settings \<Rightarrow> string list \<Rightarrow> int" where
  "ResolveServerPort_keys d s [] = d"
| "ResolveServerPort_keys d s (k # ks) = (case Option.bind (map_of s k) port_value of
     Some p \<Rightarrow> if valid_port p then p else ResolveServerPort_keys d s ks
   | None \<Rightarrow> ResolveServerPort_keys d s ks)"

definition ResolveServerPort :: "int \<Rightarrow> settings \<Rightarrow> int" where
  "ResolveServerPort defaultPort s = ResolveServerPort_keys defaultPort s
     [''external_port'', ''externalPort'', ''server_port'', ''serverPort'']"

section \<open>Readers of the normaliser\<close>

text \<open>The text a value holds: a string, or the first non-blank string of a list.\<close>

definition item_text :: "setting \<Rightarrow> string" where
  "item_text v = (case v of VStr t \<Rightarrow> trim_space t | _ \<Rightarrow> [])"

definition value_text :: "setting \<Rightarrow> string" where
  "value_text v = (case v of VStr t \<Rightarrow> trim_space t
     | VStrs ts \<Rightarrow> first_nonempty (map trim_space ts)
     | VList vs \<Rightarrow> first_nonempty (map item_text vs) | _ \<Rightarrow> [])"

definition firstSettingString :: "settings \<Rightarrow> string list \<Rightarrow> string" where
  "firstSettingString s ks = first_nonempty (map (\<lambda>k. case map_of s k of None \<Rightarrow> [] | Some v \<Rightarrow> value_text v) ks)"

fun firstExistingSetting :: "settings \<Rightarrow> string list \<Rightarrow> setting option" where
  "firstExistingSetting s [] = None"
| "firstExistingSetting s (k # ks) = (case map_of s k of
     Some v \<Rightarrow> if v \<noteq> VNil then Some v else firstExistingSetting s ks
   | None \<Rightarrow> firstExistingSetting s ks)"

definition getSettingMap :: "settings \<Rightarrow> string \<Rightarrow> settings" where
  "getSettingMap s k = (case map_of s k of Some (VMap m) \<Rightarrow> m
     | Some (VSMap m) \<Rightarrow> map (\<lambda>(k, t). (k, VStr t)) m | _ \<Rightarrow> [])"

definition getHeaderHost :: "setting option \<Rightarrow> string" where
  "getHeaderHost v = (case v of
     Some (VMap m) \<Rightarrow> first_nonempty (map (\<lambda>k. firstSettingString m [k]) [''Host'', ''host''])
   | Some (VSMap m) \<Rightarrow> first_nonempty (map (\<lambda>k. case map_of m k of None \<Rightarrow> [] | Some t \<Rightarrow> trim_space t) [''Host'', ''host''])
   | _ \<Rightarrow> [])"

definition splitCommaValues :: "string \<Rightarrow> string list" where
  "splitCommaValues v = filter (\<lambda>p. p \<noteq> []) (map trim_space (split_char CHR '','' (trim_space v)))"

definition getSettingStringSlice :: "settings \<Rightarrow> string \<Rightarrow> string list" where
  "getSettingStringSlice s k = (case map_of s k of
     Some (VStr t) \<Rightarrow> splitCommaValues t
   | Some (VStrs ts) \<Rightarrow> concat (map splitCommaValues ts)
   | Some (VList vs) \<Rightarrow> concat (map (\<lambda>v. case v of VStr t \<Rightarrow> splitCommaValues t | _ \<Rightarrow> []) vs)
   | _ \<Rightarrow> [])"

definition getSettingBoolValue :: "settings \<Rightarrow> string \<Rightarrow> bool" where
  "getSettingBoolValue s k = (case map_of s k of
     Some (VBool b) \<Rightarrow> b
   | Some (VStr t) \<Rightarrow> to_lower (trim_space t) = ''true'' \<or> trim_space t = ''1''
   | Some (VInt i) \<Rightarrow> i \<noteq> 0 | Some (VFloat r) \<Rightarrow> r \<noteq> 0 | _ \<Rightarrow> False)"

definition getSettingIntValue :: "settings \<Rightarrow> string \<Rightarrow> int" where
  "getSettingIntValue s k = (case map_of s k of
     Some (VInt i) \<Rightarrow> i | Some (VInt64 i) \<Rightarrow> i | Some (VFloat r) \<Rightarrow> f64_to_int r | _ \<Rightarrow> 0)"

section \<open>Normalisation of the transport\<close>

definition normalizeAlterIDSettings :: "settings \<Rightarrow> settings" where
  "normalizeAlterIDSettings s = (case firstExistingSetting s [''alterId'', ''alter_id''] of
     None \<Rightarrow> s | Some v \<Rightarrow> put_both ''alterId'' ''alter_id'' v s)"

definition put_text :: "string \<Rightarrow> string \<Rightarrow> settings \<Rightarrow> settings" where
  "put_text k t s = (if t \<noteq> [] then put k (VStr t) s else s)"

definition ws_host :: "string \<Rightarrow> settings \<Rightarrow> settings" where
  "ws_host host ws = (if host \<noteq> []
     then put ''headers'' (VMap (put ''Host'' (VStr host) (getSettingMap ws ''headers''))) ws else ws)"

definition normalizeWebSocketSettings :: "settings \<Rightarrow> settings" where
  "normalizeWebSocketSettings s =
     (let wsSettings = getSettingMap s ''ws_settings'';
          path = first_nonempty [firstSettingString s [''path''], firstSettingString wsSettings [''path'']];
          host = first_nonempty [firstSettingString s [''host''], firstSettingString wsSettings [''host''],
                   getHeaderHost (map_of wsSettings ''headers'')];
          s = put_text ''host'' host (put_text ''path'' path s)
      in if wsSettings \<noteq> [] \<or> path \<noteq> [] \<or> host \<noteq> []
         then put ''ws_settings'' (VMap (ws_host host (put_text ''path'' path wsSettings))) s
         else s)"

definition normalizeGRPCSettings :: "settings \<Rightarrow> settings" where
  "normalizeGRPCSettings s =
     (let grpcSettings = getSettingMap s ''grpc_settings'';
          serviceName = first_nonempty [firstSettingString s [''serviceName'', ''service_name''],
            firstSettingString grpcSettings [''serviceName'', ''service_name'']]
      in if serviceName = [] then s
         else put ''grpc_settings'' (VMap (put_both ''serviceName'' ''service_name'' (VStr serviceName) grpcSettings))
                (put_both ''serviceName'' ''service_name'' (VStr serviceName) s))"

definition normalizeHTTPSettings :: "settings \<Rightarrow> settings" where
  "normalizeHTTPSettings s =
     (let httpSettings = getSettingMap s ''http_settings'';
          path = first_nonempty [firstSettingString s [''path''], firstSettingString httpSettings [''path'']];
          host = first_nonempty [firstSettingString s [''host''], firstSettingString httpSettings [''host'']]
      in put_text ''host'' host (put_text ''path'' path s))"

definition fill_text :: "string \<Rightarrow> string \<Rightarrow> settings \<Rightarrow> settings" where
  "fill_text k t s = (if firstSettingString s [k] = [] then put_text k t s else s)"

definition normalizeTCPHeaderSettings :: "settings \<Rightarrow> settings" where
  "normalizeTCPHeaderSettings s =
     (let headerType = firstSettingString s [''type'', ''headerType''] in
      if headerType \<noteq> [] then put_both ''type'' ''headerType'' (VStr headerType) s
      else (let header = getSettingMap (getSettingMap s ''tcp_settings'') ''header'' in
        if to_lower (firstSettingString header [''type'']) \<noteq> ''http'' then s
        else (let s = put_both ''type'' ''headerType'' (VStr ''http'') s;
                  request = getSettingMap header ''request''
              in fill_text ''host'' (getHeaderHost (Some (VMap (getSettingMap request ''headers''))))
                   (fill_text ''path'' (firstSettingString request [''path'']) s))))"

definition normalizeTransportSettings :: "settings \<Rightarrow> settings" where
  "normalizeTransportSettings s =
     (let network = to_lower (trim_space (firstSettingString s [''network'']));
          s = put_text ''network'' network s
      in if network = ''ws'' then normalizeWebSocketSettings s
         else if network = ''grpc'' then normalizeGRPCSettings s
         else if network \<in> {''http'', ''h2''} then normalizeHTTPSettings s
         else if network = ''tcp'' then normalizeTCPHeaderSettings s
         else (let s = (if map_of s ''ws_settings'' \<noteq> None then normalizeWebSocketSettings s else s)
               in if map_of s ''grpc_settings'' \<noteq> None then normalizeGRPCSettings s else s))"

section \<open>Normalisation of the security settings\<close>

definition defaultSecurityForProtocol :: "string \<Rightarrow> string" where
  "defaultSecurityForProtocol p = (if p = ''trojan'' then ''tls'' else ''none'')"

definition isStreamSecurity :: "string \<Rightarrow> bool" where
  "isStreamSecurity v \<longleftrightarrow> v \<in> {[], ''none'', ''tls'', ''xtls'', ''reality''}"

definition hasTLSIntent :: "settings \<Rightarrow> bool" where
  "hasTLSIntent s \<longleftrightarrow> getSettingBoolValue s ''tls'' \<or> firstSettingString s [''sni'', ''server_name'', ''tls_domain''] \<noteq> []"

datatype base64_encoding = RawURLEncoding | URLEncoding | RawStdEncoding | StdEncoding

record key_lib =
  decode_string :: "base64_encoding \<Rightarrow> string \<Rightarrow> nat list option"
  x25519_base :: "nat list \<Rightarrow> err + nat list"
  encode_raw_url :: "nat list \<Rightarrow> string"

fun decode_first :: "key_lib \<Rightarrow> base64_encoding list \<Rightarrow> string \<Rightarrow> err + nat list" where
  "decode_first lib [] v = Inl (ErrText ''invalid base64 key'')"
| "decode_first lib (e # es) v = (case decode_string lib e v of Some b \<Rightarrow> Inr b | None \<Rightarrow> decode_first lib es v)"

definition decodeRealityKey :: "key_lib \<Rightarrow> string \<Rightarrow> err + nat list" where
  "decodeRealityKey lib v = decode_first lib [RawURLEncoding, URLEncoding, RawStdEncoding, StdEncoding] v"

definition DeriveRealityPublicKey :: "key_lib \<Rightarrow> string \<Rightarrow> err + string" where
  "DeriveRealityPublicKey lib privateKey =
     (let privateKey = trim_space privateKey in
      if privateKey = [] then Inl (ErrText ''empty private key'')
      else case decodeRealityKey lib privateKey of
        Inl e \<Rightarrow> Inl e
      | Inr privateBytes \<Rightarrow>
          if length privateBytes \<noteq> 32
          then Inl (ErrText (''expected 32 bytes, got '' @ show_nat (length privateBytes)))
          else (case x25519_base lib privateBytes of Inl e \<Rightarrow> Inl e
                | Inr publicKey \<Rightarrow> Inr (encode_raw_url lib publicKey)))"

definition rm_vless_only :: string where
  "rm_vless_only = ''Reality '' @ utf8 [231, 155, 174, 229, 137, 141, 228, 187, 133, 230, 148,
     175, 230, 140, 129] @ '' VLESS''"

definition rm_dest :: string where
  "rm_dest = ''Reality '' @ utf8 [233, 156, 128, 232, 166, 129, 229, 161, 171, 229, 134, 153,
     231, 155, 174, 230, 160, 135, 229, 156, 176, 229, 157, 128]"

definition rm_names :: string where
  "rm_names = ''Reality '' @ utf8 [233, 156, 128, 232, 166, 129, 229, 161, 171, 229, 134, 153,
     232, 135, 179, 229, 176, 145, 228, 184, 128, 228, 184, 170] @ '' Server Name''"

definition rm_key :: string where
  "rm_key = ''Reality '' @ utf8 [233, 156, 128, 232, 166, 129, 229, 161, 171, 229, 134, 153,
     231, 167, 129, 233, 146, 165]"

definition rm_key_invalid :: string where
  "rm_key_invalid = ''Reality '' @ utf8 [231, 167, 129, 233, 146, 165, 230, 151, 160, 230, 149,
     136]"

record reality =
  ry_dest :: string
  ry_private :: string
  ry_public :: string
  ry_names :: "string list"
  ry_short_ids :: "string list"

definition reality_fields :: "settings \<Rightarrow> settings \<Rightarrow> reality" where
  "reality_fields rs s = \<lparr>
     ry_dest = firstSettingString rs [''dest''],
     ry_private = first_nonempty [firstSettingString rs [''privateKey''], firstSettingString s [''privateKey'']],
     ry_public = first_nonempty [firstSettingString rs [''publicKey''], firstSettingString s [''publicKey'', ''pbk'']],
     ry_names = (let ns = getSettingStringSlice rs ''serverNames'' in
        if ns = [] then splitCommaValues (firstSettingString s [''sni'', ''server_name'']) else ns),
     ry_short_ids = (let ids = getSettingStringSlice rs ''shortIds'' in
        if ids \<noteq> [] then ids
        else (let shortID = firstSettingString s [''shortId'', ''sid''] in
          if shortID \<noteq> [] then [shortID] else [[]]))\<rparr>"

definition reality_settings_map :: "settings \<Rightarrow> reality \<Rightarrow> settings" where
  "reality_settings_map rs r =
     [(''show'', VBool (getSettingBoolValue rs ''show'')), (''dest'', VStr (ry_dest r)),
      (''xver'', VInt (getSettingIntValue rs ''xver'')), (''serverNames'', VStrs (ry_names r)),
      (''privateKey'', VStr (ry_private r)), (''shortIds'', VStrs (ry_short_ids r))]"

definition reality_public_key :: "key_lib \<Rightarrow> reality \<Rightarrow> err + string" where
  "reality_public_key lib r = (if ry_public r \<noteq> [] then Inr (ry_public r)
     else case DeriveRealityPublicKey lib (ry_private r) of
       Inl e \<Rightarrow> Inl (Wrapped e rm_key_invalid) | Inr k \<Rightarrow> Inr k)"

definition put_reality :: "settings \<Rightarrow> reality \<Rightarrow> string \<Rightarrow> settings \<Rightarrow> settings" where
  "put_reality rs r publicKey s =
     put ''reality_settings'' (VMap (reality_settings_map rs r))
       (put ''privateKey'' (VStr (ry_private r))
         (put_both ''shortId'' ''sid'' (VStr (trim_space (hd (ry_short_ids r))))
           (put_both ''publicKey'' ''pbk'' (VStr publicKey)
             (put_both ''sni'' ''server_name'' (VStr (hd (ry_names r))) s))))"

definition normalize_reality :: "key_lib \<Rightarrow> settings \<Rightarrow> err + settings" where
  "normalize_reality lib s =
     (let rs = getSettingMap s ''reality_settings''; r = reality_fields rs s in
      if ry_dest r = [] then Inl (ErrText rm_dest)
      else if ry_names r = [] then Inl (ErrText rm_names)
      else if ry_private r = [] then Inl (ErrText rm_key)
      else case reality_public_key lib r of Inl e \<Rightarrow> Inl e
        | Inr publicKey \<Rightarrow> Inr (put_reality rs r publicKey s))"

definition drop_reality :: "settings \<Rightarrow> settings" where
  "drop_reality s = del ''privateKey'' (del ''sid'' (del ''shortId''
     (del ''pbk'' (del ''publicKey'' (del ''reality_settings'' s)))))"

definition alias_text :: "string \<Rightarrow> string \<Rightarrow> settings \<Rightarrow> settings" where
  "alias_text k1 k2 s = (let t = firstSettingString s [k1, k2] in
     if t \<noteq> [] then put_both k1 k2 (VStr t) s else s)"

definition alias_fingerprint :: "settings \<Rightarrow> settings" where
  "alias_fingerprint s = (let t = firstSettingString s [''fingerprint'', ''fp''] in
     if t \<noteq> [] then put_both ''fingerprint'' ''fp'' (VStr t) s
     else del ''fp'' (del ''fingerprint'' s))"

definition put_tls :: "string \<Rightarrow> settings \<Rightarrow> settings" where
  "put_tls security s =
     (let s = put ''security'' (VStr security) s in
      if security = ''tls''
      then (let s = put ''tls'' (VBool True) s in put ''allowInsecure'' (VBool (getSettingBoolValue s ''allowInsecure'')) s)
      else del ''tls'' (del ''allowInsecure'' s))"

definition NormalizeSettings :: "key_lib \<Rightarrow> string \<Rightarrow> settings \<Rightarrow> err + settings" where
  "NormalizeSettings lib protocol settings =
     (let protocolName = to_lower (trim_space protocol);
          s = normalizeTransportSettings (normalizeAlterIDSettings settings);
          rawSecurity = to_lower (trim_space (firstSettingString s [''security'']));
          cipherFromSecurity = (if protocolName = ''vmess'' \<and> rawSecurity \<noteq> [] \<and> \<not> isStreamSecurity rawSecurity
             then rawSecurity else []);
          rawSecurity = (if cipherFromSecurity \<noteq> [] then [] else rawSecurity);
          s = (if cipherFromSecurity \<noteq> [] \<and> firstSettingString s [''cipher'', ''scy''] = []
               then put_both ''cipher'' ''scy'' (VStr cipherFromSecurity) s else s);
          s = alias_text ''serviceName'' ''service_name'' s;
          s = alias_text ''sni'' ''server_name'' s;
          s = alias_fingerprint s;
          security = (if rawSecurity = []
             then (if defaultSecurityForProtocol protocolName = ''tls'' \<or> hasTLSIntent s then ''tls'' else ''none'')
             else rawSecurity);
          s = put_tls security s
      in if security = ''reality''
         then (if protocolName \<noteq> ''vless'' then Inl (ErrText rm_vless_only) else normalize_reality lib s)
         else Inr (drop_reality s))"

section \<open>Trimmed text\<close>

declare trim_space_lower [simp]

definition trimmed :: "string \<Rightarrow> bool" where
  "trimmed t \<longleftrightarrow> trim_space t = t"

lemma trimmed_trim [simp]: "trimmed (trim_space t)" "trimmed []"
  by (simp_all add: trimmed_def)

lemma trimmed_lower [simp]: "trimmed t \<Longrightarrow> trimmed (to_lower t)"
  by (simp add: trimmed_def)

lemma trimmedD [simp]: "trimmed t \<Longrightarrow> trim_space t = t"
  by (simp add: trimmed_def)

lemma first_nonempty_all: "(\<And>x. x \<in> set xs \<Longrightarrow> P x) \<Longrightarrow> P [] \<Longrightarrow> P (first_nonempty xs)"
  by (induction xs) auto

lemma first_nonempty_Nil: "first_nonempty xs = [] \<longleftrightarrow> (\<forall>x \<in> set xs. x = [])"
  by (induction xs) auto

lemma trimmed_first_nonempty: "(\<And>x. x \<in> set xs \<Longrightarrow> trimmed x) \<Longrightarrow> trimmed (first_nonempty xs)"
  by (rule first_nonempty_all) auto

lemma trimmed_item [simp]: "trimmed (item_text v)"
  by (cases v) (simp_all add: item_text_def)

lemma trimmed_value [simp]: "trimmed (value_text v)"
  by (cases v) (auto simp: value_text_def intro!: trimmed_first_nonempty)

lemma trimmed_first [simp]: "trimmed (firstSettingString s ks)"
  unfolding firstSettingString_def by (auto intro!: trimmed_first_nonempty split: option.split)

lemma trimmed_header [simp]: "trimmed (getHeaderHost v)"
proof (cases v)
  case (Some x)
  then show ?thesis
    by (cases x) (auto simp: getHeaderHost_def intro!: trimmed_first_nonempty split: option.split)
qed (simp add: getHeaderHost_def)


section \<open>Settings as maps\<close>

lemma map_of_put [simp]: "map_of (put k v s) k' = (if k' = k then Some v else map_of s k')"
  by (simp add: put_def update_conv')

lemma map_of_del [simp]: "map_of (del k s) k' = (if k' = k then None else map_of s k')"
  by (simp add: del_def delete_conv')

lemma put_same [simp]: "map_of s k = Some v \<Longrightarrow> put k v s = s"
  by (simp add: put_def update_triv)

lemma del_absent [simp]: "map_of s k = None \<Longrightarrow> del k s = s"
  by (simp add: del_def map_of_eq_None_iff delete_idem)

lemma put_Nil [simp]: "put k v s \<noteq> []"
  by (simp add: put_def update_nonempty)

lemma map_of_put_both [simp]:
  "map_of (put_both k1 k2 v s) k = (if k = k1 \<or> k = k2 then Some v else map_of s k)"
  by (simp add: put_both_def)

lemma put_both_same [simp]: "map_of s k1 = Some v \<Longrightarrow> map_of s k2 = Some v \<Longrightarrow> put_both k1 k2 v s = s"
  by (simp add: put_both_def)

lemma put_text_same [simp]: "(t \<noteq> [] \<Longrightarrow> map_of s k = Some (VStr t)) \<Longrightarrow> put_text k t s = s"
  by (simp add: put_text_def)

lemma map_of_put_text [simp]: "map_of (put_text k t s) k' = (if k' = k \<and> t \<noteq> [] then Some (VStr t) else map_of s k')"
  by (simp add: put_text_def)

lemma value_text_VStr [simp]: "value_text (VStr t) = trim_space t"
  by (simp add: value_text_def)

lemma first_cong: "(\<And>k. k \<in> set ks \<Longrightarrow> map_of s k = map_of s' k) \<Longrightarrow> firstSettingString s ks = firstSettingString s' ks"
  unfolding firstSettingString_def by (auto intro!: arg_cong [where f = first_nonempty])

lemma getSettingMap_VMap [simp]: "map_of s k = Some (VMap m) \<Longrightarrow> getSettingMap s k = m"
  by (simp add: getSettingMap_def)

lemma getSettingMap_cong: "map_of s k = map_of s' k \<Longrightarrow> getSettingMap s k = getSettingMap s' k"
  by (simp add: getSettingMap_def)

section \<open>Settled settings\<close>

text \<open>
  Each stage of the normaliser leaves a map alone that satisfies a condition on a few of its
  keys, and its result satisfies that condition.
\<close>

definition alter_ok :: "settings \<Rightarrow> bool" where
  "alter_ok s \<longleftrightarrow> (\<forall>v. firstExistingSetting s [''alterId'', ''alter_id''] = Some v \<longrightarrow>
     map_of s ''alterId'' = Some v \<and> map_of s ''alter_id'' = Some v)"

lemma alter_ok_noop: "alter_ok s \<Longrightarrow> normalizeAlterIDSettings s = s"
  unfolding alter_ok_def normalizeAlterIDSettings_def by (simp del: firstExistingSetting.simps split: option.split)

lemma alter_ok_make: "alter_ok (normalizeAlterIDSettings s)"
proof (cases "firstExistingSetting s [''alterId'', ''alter_id'']")
  case None
  then show ?thesis by (simp del: firstExistingSetting.simps add: alter_ok_def normalizeAlterIDSettings_def)
next
  case (Some v)
  then have "v \<noteq> VNil" by (auto split: option.splits if_splits)
  with Some show ?thesis by (simp add: alter_ok_def normalizeAlterIDSettings_def)
qed

definition ws_path :: "settings \<Rightarrow> string" where
  "ws_path s = first_nonempty [firstSettingString s [''path''], firstSettingString (getSettingMap s ''ws_settings'') [''path'']]"

definition ws_hostname :: "settings \<Rightarrow> string" where
  "ws_hostname s = first_nonempty [firstSettingString s [''host''],
     firstSettingString (getSettingMap s ''ws_settings'') [''host''],
     getHeaderHost (map_of (getSettingMap s ''ws_settings'') ''headers'')]"

lemma trimmed_ws [simp]: "trimmed (ws_path s)" "trimmed (ws_hostname s)"
  by (auto simp: ws_path_def ws_hostname_def)

definition holds_text :: "settings \<Rightarrow> string \<Rightarrow> string \<Rightarrow> bool" where
  "holds_text s k t \<longleftrightarrow> (t \<noteq> [] \<longrightarrow> map_of s k = Some (VStr t))"

lemma holds_text_noop [simp]: "holds_text s k t \<Longrightarrow> put_text k t s = s"
  by (simp add: holds_text_def)

definition ws_ok :: "settings \<Rightarrow> bool" where
  "ws_ok s \<longleftrightarrow> (let ws = getSettingMap s ''ws_settings'' in
     holds_text s ''path'' (ws_path s) \<and> holds_text s ''host'' (ws_hostname s)
   \<and> (ws \<noteq> [] \<or> ws_path s \<noteq> [] \<or> ws_hostname s \<noteq> [] \<longrightarrow> (\<exists>m. map_of s ''ws_settings'' = Some (VMap m)))
   \<and> holds_text ws ''path'' (ws_path s)
   \<and> (ws_hostname s \<noteq> [] \<longrightarrow> (\<exists>hs. map_of ws ''headers'' = Some (VMap hs) \<and> map_of hs ''Host'' = Some (VStr (ws_hostname s)))))"

lemma ws_step: "normalizeWebSocketSettings s =
   (let ws = getSettingMap s ''ws_settings''; s' = put_text ''host'' (ws_hostname s) (put_text ''path'' (ws_path s) s)
    in if ws \<noteq> [] \<or> ws_path s \<noteq> [] \<or> ws_hostname s \<noteq> []
       then put ''ws_settings'' (VMap (ws_host (ws_hostname s) (put_text ''path'' (ws_path s) ws))) s' else s')"
  unfolding normalizeWebSocketSettings_def ws_path_def ws_hostname_def Let_def by (rule refl)

lemma ws_ok_noop: "ws_ok s \<Longrightarrow> normalizeWebSocketSettings s = s"
  unfolding ws_ok_def ws_step Let_def by (auto simp: ws_host_def)

lemma ws_lookup [simp]:
  "map_of (normalizeWebSocketSettings s) k =
     (if k = ''ws_settings'' \<and> (getSettingMap s ''ws_settings'' \<noteq> [] \<or> ws_path s \<noteq> [] \<or> ws_hostname s \<noteq> [])
      then Some (VMap (ws_host (ws_hostname s) (put_text ''path'' (ws_path s) (getSettingMap s ''ws_settings''))))
      else if k = ''path'' \<and> ws_path s \<noteq> [] then Some (VStr (ws_path s))
      else if k = ''host'' \<and> ws_hostname s \<noteq> [] then Some (VStr (ws_hostname s)) else map_of s k)"
  unfolding ws_step Let_def by auto

lemma first_one: "firstSettingString s [k] = (case map_of s k of None \<Rightarrow> [] | Some v \<Rightarrow> value_text v)"
  by (simp add: firstSettingString_def split: option.split)

lemma first_two: "firstSettingString s [k, k'] = (if firstSettingString s [k] \<noteq> [] then firstSettingString s [k] else firstSettingString s [k'])"
  by (simp add: firstSettingString_def)

lemma ws_host_lookup [simp]: "map_of (ws_host h ws) k = (if k = ''headers'' \<and> h \<noteq> []
    then Some (VMap (put ''Host'' (VStr h) (getSettingMap ws ''headers''))) else map_of ws k)"
  by (simp add: ws_host_def)

lemma ws_map: "getSettingMap (normalizeWebSocketSettings s) ''ws_settings'' =
    ws_host (ws_hostname s) (put_text ''path'' (ws_path s) (getSettingMap s ''ws_settings''))"
proof (cases "getSettingMap s ''ws_settings'' \<noteq> [] \<or> ws_path s \<noteq> [] \<or> ws_hostname s \<noteq> []")
  case False
  then show ?thesis by (simp add: getSettingMap_def ws_host_def put_text_def)
qed simp

lemma first_keep: "map_of s' k = map_of s k \<Longrightarrow> firstSettingString s' [k] = firstSettingString s [k]"
  by (simp add: first_one)

lemma ws_path_keep [simp]: "ws_path (normalizeWebSocketSettings s) = ws_path s"
proof (cases "ws_path s = []")
  case True
  then have "firstSettingString s [''path''] = []" "firstSettingString (getSettingMap s ''ws_settings'') [''path''] = []"
    by (simp_all add: ws_path_def split: if_splits)
  with True show ?thesis
    unfolding ws_path_def [of "normalizeWebSocketSettings s"] ws_map by (simp add: first_one)
next
  case False
  then show ?thesis unfolding ws_path_def [of "normalizeWebSocketSettings s"] by (simp add: first_one)
qed

lemma ws_hostname_keep [simp]: "ws_hostname (normalizeWebSocketSettings s) = ws_hostname s"
proof (cases "ws_hostname s = []")
  case True
  then have "firstSettingString s [''host''] = []" "firstSettingString (getSettingMap s ''ws_settings'') [''host''] = []"
      "getHeaderHost (map_of (getSettingMap s ''ws_settings'') ''headers'') = []"
    by (simp_all add: ws_hostname_def split: if_splits)
  with True show ?thesis
    unfolding ws_hostname_def [of "normalizeWebSocketSettings s"] ws_map by (simp add: first_one)
next
  case False
  then show ?thesis unfolding ws_hostname_def [of "normalizeWebSocketSettings s"] by (simp add: first_one)
qed

lemma ws_ok_make: "ws_ok (normalizeWebSocketSettings s)"
  unfolding ws_ok_def Let_def ws_path_keep ws_hostname_keep ws_map
  by (intro conjI impI) (simp_all add: holds_text_def, auto simp: ws_host_def put_text_def)

definition service_name :: "settings \<Rightarrow> string" where
  "service_name s = first_nonempty [firstSettingString s [''serviceName'', ''service_name''],
     firstSettingString (getSettingMap s ''grpc_settings'') [''serviceName'', ''service_name'']]"

definition both_hold :: "settings \<Rightarrow> string \<Rightarrow> string \<Rightarrow> string \<Rightarrow> bool" where
  "both_hold s k1 k2 t \<longleftrightarrow> map_of s k1 = Some (VStr t) \<and> map_of s k2 = Some (VStr t)"

definition grpc_ok :: "settings \<Rightarrow> bool" where
  "grpc_ok s \<longleftrightarrow> (service_name s \<noteq> [] \<longrightarrow> both_hold s ''serviceName'' ''service_name'' (service_name s)
     \<and> (\<exists>g. map_of s ''grpc_settings'' = Some (VMap g) \<and> both_hold g ''serviceName'' ''service_name'' (service_name s)))"

lemma grpc_step: "normalizeGRPCSettings s = (if service_name s = [] then s
    else put ''grpc_settings'' (VMap (put_both ''serviceName'' ''service_name'' (VStr (service_name s)) (getSettingMap s ''grpc_settings'')))
           (put_both ''serviceName'' ''service_name'' (VStr (service_name s)) s))"
  unfolding normalizeGRPCSettings_def service_name_def Let_def by (rule refl)

lemma grpc_ok_noop: "grpc_ok s \<Longrightarrow> normalizeGRPCSettings s = s"
  unfolding grpc_ok_def grpc_step both_hold_def by auto

lemma grpc_ok_make: "grpc_ok (normalizeGRPCSettings s)"
proof (cases "service_name s = []")
  case False
  moreover have "trimmed (service_name s)" by (auto simp: service_name_def)
  ultimately have "service_name (normalizeGRPCSettings s) = service_name s"
    unfolding service_name_def [of "normalizeGRPCSettings s"] by (simp add: grpc_step first_two first_one)
  with False show ?thesis by (simp add: grpc_ok_def both_hold_def grpc_step)
qed (simp add: grpc_ok_def grpc_step)

definition http_path :: "settings \<Rightarrow> string" where
  "http_path s = first_nonempty [firstSettingString s [''path''], firstSettingString (getSettingMap s ''http_settings'') [''path'']]"

definition http_host :: "settings \<Rightarrow> string" where
  "http_host s = first_nonempty [firstSettingString s [''host''], firstSettingString (getSettingMap s ''http_settings'') [''host'']]"

definition http_ok :: "settings \<Rightarrow> bool" where
  "http_ok s \<longleftrightarrow> holds_text s ''path'' (http_path s) \<and> holds_text s ''host'' (http_host s)"

lemma http_step: "normalizeHTTPSettings s = put_text ''host'' (http_host s) (put_text ''path'' (http_path s) s)"
  unfolding normalizeHTTPSettings_def http_path_def http_host_def Let_def by (rule refl)

lemma http_ok_noop: "http_ok s \<Longrightarrow> normalizeHTTPSettings s = s"
  by (simp add: http_ok_def http_step)

lemma http_map_keep: "getSettingMap (normalizeHTTPSettings s) ''http_settings'' = getSettingMap s ''http_settings''"
  by (rule getSettingMap_cong) (simp add: http_step)

lemma http_path_keep: "http_path (normalizeHTTPSettings s) = http_path s"
proof -
  have "trimmed (http_path s)" by (simp add: http_path_def)
  then have f: "firstSettingString (normalizeHTTPSettings s) [''path''] = (if http_path s \<noteq> [] then http_path s else firstSettingString s [''path''])"
    by (simp add: http_step first_one)
  show ?thesis unfolding http_path_def [of "normalizeHTTPSettings s"] http_map_keep f by (simp add: http_path_def)
qed

lemma http_host_keep: "http_host (normalizeHTTPSettings s) = http_host s"
proof -
  have "trimmed (http_host s)" by (simp add: http_host_def)
  then have f: "firstSettingString (normalizeHTTPSettings s) [''host''] = (if http_host s \<noteq> [] then http_host s else firstSettingString s [''host''])"
    by (simp add: http_step first_one)
  show ?thesis unfolding http_host_def [of "normalizeHTTPSettings s"] http_map_keep f by (simp add: http_host_def)
qed

lemma http_ok_make: "http_ok (normalizeHTTPSettings s)"
  unfolding http_ok_def http_path_keep http_host_keep by (simp add: holds_text_def http_step)

definition tcp_header :: "settings \<Rightarrow> settings" where
  "tcp_header s = getSettingMap (getSettingMap s ''tcp_settings'') ''header''"

definition tcp_ok :: "settings \<Rightarrow> bool" where
  "tcp_ok s \<longleftrightarrow> (let t = firstSettingString s [''type'', ''headerType''] in
     if t \<noteq> [] then both_hold s ''type'' ''headerType'' t
     else to_lower (firstSettingString (tcp_header s) [''type'']) \<noteq> ''http'')"

lemma tcp_ok_noop: "tcp_ok s \<Longrightarrow> normalizeTCPHeaderSettings s = s"
  by (auto simp: tcp_ok_def normalizeTCPHeaderSettings_def Let_def both_hold_def tcp_header_def split: if_splits)

lemma fill_text_lookup [simp]: "k' \<noteq> k \<Longrightarrow> map_of (fill_text k t s) k' = map_of s k'"
  by (simp add: fill_text_def)

lemma tcp_lookup: "k \<notin> {''type'', ''headerType'', ''path'', ''host''} \<Longrightarrow> map_of (normalizeTCPHeaderSettings s) k = map_of s k"
  by (simp add: normalizeTCPHeaderSettings_def Let_def)

lemma tcp_types: "firstSettingString s [''type'', ''headerType''] = [] \<Longrightarrow> to_lower (firstSettingString (tcp_header s) [''type'']) = ''http''
   \<Longrightarrow> k \<in> {''type'', ''headerType''} \<Longrightarrow> map_of (normalizeTCPHeaderSettings s) k = Some (VStr ''http'')"
  by (elim insertE emptyE) (simp_all add: normalizeTCPHeaderSettings_def Let_def tcp_header_def)

lemma trim_http: "trim_space ''http'' = ''http''"
  by (simp add: trim_space_def is_space_def)

lemma tcp_ok_make: "tcp_ok (normalizeTCPHeaderSettings s)"
proof -
  let ?t = "firstSettingString s [''type'', ''headerType'']" and ?s = "normalizeTCPHeaderSettings s"
  consider (named) "?t \<noteq> []" | (plain) "?t = []" "to_lower (firstSettingString (tcp_header s) [''type'']) \<noteq> ''http''"
    | (http) "?t = []" "to_lower (firstSettingString (tcp_header s) [''type'']) = ''http''" by blast
  then show ?thesis
  proof cases
    case named
    then have s: "?s = put_both ''type'' ''headerType'' (VStr ?t) s" by (simp add: normalizeTCPHeaderSettings_def Let_def)
    have "firstSettingString ?s [''type'', ''headerType''] = ?t"
      unfolding s first_two [of "put_both _ _ _ _"] first_one by simp
    with named show ?thesis by (simp add: tcp_ok_def both_hold_def s)
  next
    case plain
    then have "?s = s" by (simp add: normalizeTCPHeaderSettings_def Let_def tcp_header_def)
    with plain show ?thesis by (simp add: tcp_ok_def)
  next
    case http
    note types = tcp_types [OF http]
    have "firstSettingString ?s [''type'', ''headerType''] = ''http''"
      unfolding first_two first_one by (simp add: types trim_http)
    then show ?thesis by (simp add: tcp_ok_def both_hold_def types)
  qed
qed

text \<open>What a reader of a map sees depends on the keys it looks at.\<close>

definition agree :: "string set \<Rightarrow> settings \<Rightarrow> settings \<Rightarrow> bool" where
  "agree K s s' \<longleftrightarrow> (\<forall>k \<in> K. map_of s k = map_of s' k)"

lemma agreeD: "agree K s s' \<Longrightarrow> k \<in> K \<Longrightarrow> map_of s k = map_of s' k"
  by (simp add: agree_def)

lemma agree_first: "agree K s s' \<Longrightarrow> set ks \<subseteq> K \<Longrightarrow> firstSettingString s ks = firstSettingString s' ks"
  by (rule first_cong) (auto simp: agree_def)

lemma agree_map: "agree K s s' \<Longrightarrow> k \<in> K \<Longrightarrow> getSettingMap s k = getSettingMap s' k"
  by (rule getSettingMap_cong) (auto simp: agree_def)

lemma existing_cong: "(\<And>k. k \<in> set ks \<Longrightarrow> map_of s k = map_of s' k) \<Longrightarrow> firstExistingSetting s ks = firstExistingSetting s' ks"
  by (induction ks) (simp_all split: option.split)

lemma alter_ok_agree: "agree {''alterId'', ''alter_id''} s s' \<Longrightarrow> alter_ok s' \<Longrightarrow> alter_ok s"
proof -
  assume a: "agree {''alterId'', ''alter_id''} s s'" and ok: "alter_ok s'"
  have "firstExistingSetting s [''alterId'', ''alter_id''] = firstExistingSetting s' [''alterId'', ''alter_id'']"
    by (rule existing_cong) (use a in \<open>auto simp: agree_def\<close>)
  with ok a show ?thesis by (simp del: firstExistingSetting.simps add: alter_ok_def agree_def)
qed

definition ws_keys :: "string set" where "ws_keys = {''path'', ''host'', ''ws_settings''}"
definition grpc_keys :: "string set" where "grpc_keys = {''serviceName'', ''service_name'', ''grpc_settings''}"
definition http_keys :: "string set" where "http_keys = {''path'', ''host'', ''http_settings''}"
definition tcp_keys :: "string set" where "tcp_keys = {''type'', ''headerType'', ''tcp_settings''}"

lemma ws_ok_agree: "agree ws_keys s s' \<Longrightarrow> ws_ok s = ws_ok s'"
proof -
  assume a: "agree ws_keys s s'"
  note k = agreeD [OF a] agree_first [OF a] agree_map [OF a]
  have "ws_path s = ws_path s'" "ws_hostname s = ws_hostname s'"
    by (simp_all add: ws_path_def ws_hostname_def k ws_keys_def)
  then show ?thesis by (simp add: ws_ok_def holds_text_def k ws_keys_def)
qed

lemma grpc_ok_agree: "agree grpc_keys s s' \<Longrightarrow> grpc_ok s = grpc_ok s'"
proof -
  assume a: "agree grpc_keys s s'"
  note k = agreeD [OF a] agree_first [OF a] agree_map [OF a]
  have "service_name s = service_name s'" by (simp add: service_name_def k grpc_keys_def)
  then show ?thesis by (simp add: grpc_ok_def both_hold_def k grpc_keys_def)
qed

lemma http_ok_agree: "agree http_keys s s' \<Longrightarrow> http_ok s = http_ok s'"
proof -
  assume a: "agree http_keys s s'"
  note k = agreeD [OF a] agree_first [OF a] agree_map [OF a]
  show ?thesis by (simp add: http_ok_def holds_text_def http_path_def http_host_def k http_keys_def)
qed

lemma tcp_ok_agree: "agree tcp_keys s s' \<Longrightarrow> tcp_ok s = tcp_ok s'"
proof -
  assume a: "agree tcp_keys s s'"
  note k = agreeD [OF a] agree_first [OF a] agree_map [OF a]
  show ?thesis by (simp add: tcp_ok_def tcp_header_def both_hold_def k tcp_keys_def)
qed

definition transport_keys :: "string set" where
  "transport_keys = {''network''} \<union> ws_keys \<union> grpc_keys \<union> http_keys \<union> tcp_keys"

definition network :: "settings \<Rightarrow> string" where
  "network s = to_lower (firstSettingString s [''network''])"

definition uses_grpc :: "settings \<Rightarrow> bool" where
  "uses_grpc s \<longleftrightarrow> network s = ''grpc''
     \<or> network s \<notin> {''ws'', ''http'', ''h2'', ''tcp''} \<and> map_of s ''grpc_settings'' \<noteq> None"

definition transport_ok :: "settings \<Rightarrow> bool" where
  "transport_ok s \<longleftrightarrow> holds_text s ''network'' (network s)
   \<and> (network s = ''ws'' \<or> network s \<notin> {''grpc'', ''http'', ''h2'', ''tcp''} \<and> map_of s ''ws_settings'' \<noteq> None \<longrightarrow> ws_ok s)
   \<and> (uses_grpc s \<longrightarrow> grpc_ok s)
   \<and> (network s \<in> {''http'', ''h2''} \<longrightarrow> http_ok s) \<and> (network s = ''tcp'' \<longrightarrow> tcp_ok s)"

lemma trimmed_network [simp]: "trimmed (network s)"
  by (simp add: network_def)

lemma network_put: "network (put_text ''network'' (network s) s) = network s"
proof (cases "network s = []")
  case False
  then have "firstSettingString (put_text ''network'' (network s) s) [''network''] = network s"
    by (simp add: first_one)
  then have "network (put_text ''network'' (network s) s) = to_lower (network s)"
    by (simp add: network_def [of "put_text _ _ _"])
  then show ?thesis by (simp add: network_def)
qed (simp add: put_text_def)

lemma transport_step: "normalizeTransportSettings s =
     (let s = put_text ''network'' (network s) s; n = network s
      in if n = ''ws'' then normalizeWebSocketSettings s
         else if n = ''grpc'' then normalizeGRPCSettings s
         else if n \<in> {''http'', ''h2''} then normalizeHTTPSettings s
         else if n = ''tcp'' then normalizeTCPHeaderSettings s
         else (let s = (if map_of s ''ws_settings'' \<noteq> None then normalizeWebSocketSettings s else s)
               in if map_of s ''grpc_settings'' \<noteq> None then normalizeGRPCSettings s else s))"
proof -
  have "to_lower (trim_space (firstSettingString s [''network''])) = network s" by (simp add: network_def)
  then show ?thesis unfolding normalizeTransportSettings_def Let_def network_put by simp
qed

lemma transport_ok_noop: "transport_ok s \<Longrightarrow> normalizeTransportSettings s = s"
proof -
  assume ok: "transport_ok s"
  then have "put_text ''network'' (network s) s = s" by (simp add: transport_ok_def)
  note put = this
  consider (ws) "network s = ''ws''" | (grpc) "network s = ''grpc''" | (http) "network s \<in> {''http'', ''h2''}"
    | (tcp) "network s = ''tcp''" | (other) "network s \<notin> {''ws'', ''grpc'', ''http'', ''h2'', ''tcp''}" by blast
  then show ?thesis
  proof cases
    case http
    with ok have "http_ok s" unfolding transport_ok_def by blast
    with http show ?thesis unfolding transport_step Let_def put by (auto simp: http_ok_noop)
  next
    case other
    with ok have w: "map_of s ''ws_settings'' \<noteq> None \<longrightarrow> ws_ok s" and g: "map_of s ''grpc_settings'' \<noteq> None \<longrightarrow> grpc_ok s"
      by (simp_all add: transport_ok_def uses_grpc_def)
    have "(if map_of s ''ws_settings'' \<noteq> None then normalizeWebSocketSettings s else s) = s"
      using w by (simp add: ws_ok_noop)
    with other g show ?thesis unfolding transport_step Let_def put by (simp add: grpc_ok_noop)
  qed (use ok in \<open>simp_all add: transport_ok_def uses_grpc_def transport_step put ws_ok_noop grpc_ok_noop tcp_ok_noop Let_def\<close>)
qed

lemma grpc_lookup: "k \<notin> grpc_keys \<Longrightarrow> map_of (normalizeGRPCSettings s) k = map_of s k"
  by (simp add: grpc_step grpc_keys_def)

lemma http_lookup: "k \<notin> {''path'', ''host''} \<Longrightarrow> map_of (normalizeHTTPSettings s) k = map_of s k"
  by (simp add: http_step)

lemma ws_lookup_other: "k \<notin> ws_keys \<Longrightarrow> map_of (normalizeWebSocketSettings s) k = map_of s k"
  by (simp add: ws_keys_def del: ws_lookup) (simp add: ws_lookup)

lemma network_keep: "map_of s' ''network'' = map_of s ''network'' \<Longrightarrow> network s' = network s"
  by (simp add: network_def first_one)

lemma grpc_present: "map_of (normalizeGRPCSettings s) ''grpc_settings'' = None \<Longrightarrow> map_of s ''grpc_settings'' = None"
  by (simp add: grpc_step split: if_splits)

lemma ws_present: "map_of (normalizeWebSocketSettings s) ''ws_settings'' = None \<Longrightarrow> map_of s ''ws_settings'' = None"
  by (simp split: if_splits)

lemma transport_ok_make: "transport_ok (normalizeTransportSettings s)"
proof -
  define s1 where "s1 = put_text ''network'' (network s) s"
  have n: "network s1 = network s"
    unfolding s1_def by (rule network_put)
  then have h: "holds_text s1 ''network'' (network s1)" by (simp add: s1_def holds_text_def)
  have keep: "network s' = network s1 \<and> holds_text s' ''network'' (network s1)" if "map_of s' ''network'' = map_of s1 ''network''" for s'
    using that h network_keep [OF that] by (simp add: holds_text_def)
  note [simp del] = ws_lookup
  consider (ws) "network s1 = ''ws''" | (grpc) "network s1 = ''grpc''" | (http) "network s1 \<in> {''http'', ''h2''}"
    | (tcp) "network s1 = ''tcp''" | (other) "network s1 \<notin> {''ws'', ''grpc'', ''http'', ''h2'', ''tcp''}" by blast
  then show ?thesis
  proof cases
    case ws
    then have s: "normalizeTransportSettings s = normalizeWebSocketSettings s1" by (simp add: transport_step s1_def Let_def)
    with ws keep [of "normalizeWebSocketSettings s1"] show ?thesis
      by (simp add: transport_ok_def uses_grpc_def ws_ok_make ws_lookup_other ws_keys_def)
  next
    case grpc
    then have s: "normalizeTransportSettings s = normalizeGRPCSettings s1" by (simp add: transport_step s1_def Let_def)
    with grpc keep [of "normalizeGRPCSettings s1"] show ?thesis
      by (simp add: transport_ok_def uses_grpc_def grpc_ok_make grpc_lookup grpc_keys_def)
  next
    case http
    then have s: "normalizeTransportSettings s = normalizeHTTPSettings s1" by (auto simp: transport_step s1_def Let_def)
    with http keep [of "normalizeHTTPSettings s1"] show ?thesis
      by (auto simp: transport_ok_def uses_grpc_def http_ok_make http_lookup)
  next
    case tcp
    then have s: "normalizeTransportSettings s = normalizeTCPHeaderSettings s1" by (simp add: transport_step s1_def Let_def)
    with tcp keep [of "normalizeTCPHeaderSettings s1"] show ?thesis
      by (simp add: transport_ok_def uses_grpc_def tcp_ok_make tcp_lookup)
  next
    case other
    define s2 where "s2 = (if map_of s1 ''ws_settings'' \<noteq> None then normalizeWebSocketSettings s1 else s1)"
    define s3 where "s3 = (if map_of s2 ''grpc_settings'' \<noteq> None then normalizeGRPCSettings s2 else s2)"
    have s: "normalizeTransportSettings s = s3"
      using other unfolding s3_def s2_def by (simp add: transport_step s1_def Let_def)
    have "map_of s3 ''network'' = map_of s1 ''network''"
      by (simp add: s3_def s2_def grpc_lookup ws_lookup_other grpc_keys_def ws_keys_def)
    note k = keep [OF this]
    have w2: "map_of s2 ''ws_settings'' \<noteq> None \<longrightarrow> ws_ok s2" by (auto simp: s2_def ws_ok_make)
    have a: "agree ws_keys s3 s2" by (auto simp: agree_def s3_def grpc_lookup grpc_keys_def ws_keys_def)
    have w: "map_of s3 ''ws_settings'' \<noteq> None \<longrightarrow> ws_ok s3"
      using w2 ws_ok_agree [OF a] agreeD [OF a, of "''ws_settings''"] by (simp add: ws_keys_def)
    have g: "map_of s3 ''grpc_settings'' \<noteq> None \<longrightarrow> grpc_ok s3" by (auto simp: s3_def grpc_ok_make)
    show ?thesis using k w g other by (simp add: transport_ok_def uses_grpc_def s)
  qed
qed

lemma transport_lookup: "k \<notin> transport_keys \<Longrightarrow> map_of (normalizeTransportSettings s) k = map_of s k"
proof -
  assume k: "k \<notin> transport_keys"
  then have "k \<noteq> ''network''" "k \<notin> ws_keys" "k \<notin> grpc_keys" "k \<notin> {''path'', ''host''}"
      "k \<notin> {''type'', ''headerType'', ''path'', ''host''}"
    by (auto simp: transport_keys_def ws_keys_def tcp_keys_def)
  then show ?thesis
    by (simp add: transport_step Let_def ws_lookup_other grpc_lookup http_lookup tcp_lookup del: ws_lookup)
qed

lemma transport_ok_agree: "agree transport_keys s s' \<Longrightarrow> transport_ok s' \<Longrightarrow> transport_ok s"
proof -
  assume a: "agree transport_keys s s'" and ok: "transport_ok s'"
  have sub: "agree K s s'" if "K \<subseteq> transport_keys" for K using a that by (auto simp: agree_def)
  have oks: "ws_ok s = ws_ok s'" "grpc_ok s = grpc_ok s'" "http_ok s = http_ok s'" "tcp_ok s = tcp_ok s'"
    by (auto intro!: ws_ok_agree grpc_ok_agree http_ok_agree tcp_ok_agree sub simp: transport_keys_def)
  have "''network'' \<in> transport_keys" "''ws_settings'' \<in> transport_keys" "''grpc_settings'' \<in> transport_keys"
    by (simp_all add: transport_keys_def ws_keys_def grpc_keys_def)
  note m = this [THEN agreeD [OF a]]
  show ?thesis using ok network_keep [OF m(1)] by (simp add: transport_ok_def uses_grpc_def oks m holds_text_def)
qed

definition alias_ok :: "string \<Rightarrow> string \<Rightarrow> settings \<Rightarrow> bool" where
  "alias_ok k1 k2 s \<longleftrightarrow> (firstSettingString s [k1, k2] \<noteq> [] \<longrightarrow> both_hold s k1 k2 (firstSettingString s [k1, k2]))"

lemma alias_lookup: "k \<notin> {k1, k2} \<Longrightarrow> map_of (alias_text k1 k2 s) k = map_of s k"
  by (simp add: alias_text_def Let_def)

lemma alias_noop: "alias_ok k1 k2 s \<Longrightarrow> alias_text k1 k2 s = s"
  by (simp add: alias_ok_def alias_text_def both_hold_def Let_def)

lemma first_put_both: "trimmed t \<Longrightarrow> t \<noteq> [] \<Longrightarrow> firstSettingString (put_both k1 k2 (VStr t) s) [k1, k2] = t"
  by (simp add: firstSettingString_def)

lemma alias_make: "alias_ok k1 k2 (alias_text k1 k2 s)"
  by (cases "firstSettingString s [k1, k2] = []") (simp_all add: alias_ok_def alias_text_def both_hold_def first_put_both)

lemma alias_agree: "agree {k1, k2} s s' \<Longrightarrow> alias_ok k1 k2 s' \<Longrightarrow> alias_ok k1 k2 s"
  using agree_first [of "{k1, k2}" s s' "[k1, k2]"] by (simp add: alias_ok_def both_hold_def agree_def)

definition fp_ok :: "settings \<Rightarrow> bool" where
  "fp_ok s \<longleftrightarrow> (let t = firstSettingString s [''fingerprint'', ''fp''] in
     if t \<noteq> [] then both_hold s ''fingerprint'' ''fp'' t else map_of s ''fingerprint'' = None \<and> map_of s ''fp'' = None)"

lemma fp_lookup: "k \<notin> {''fingerprint'', ''fp''} \<Longrightarrow> map_of (alias_fingerprint s) k = map_of s k"
  by (simp add: alias_fingerprint_def Let_def)

lemma fp_noop: "fp_ok s \<Longrightarrow> alias_fingerprint s = s"
  by (auto simp: fp_ok_def alias_fingerprint_def both_hold_def Let_def split: if_splits)

lemma fp_make: "fp_ok (alias_fingerprint s)"
proof (cases "firstSettingString s [''fingerprint'', ''fp''] = []")
  case True
  then show ?thesis by (simp add: fp_ok_def alias_fingerprint_def firstSettingString_def)
next
  case False
  then show ?thesis by (simp add: fp_ok_def alias_fingerprint_def both_hold_def first_put_both)
qed

lemma fp_agree: "agree {''fingerprint'', ''fp''} s s' \<Longrightarrow> fp_ok s' \<Longrightarrow> fp_ok s"
  using agree_first [of "{''fingerprint'', ''fp''}" s s' "[''fingerprint'', ''fp'']"]
  by (auto simp: fp_ok_def both_hold_def agree_def Let_def split: if_splits)

definition tls_keys :: "string set" where "tls_keys = {''security'', ''tls'', ''allowInsecure''}"

definition tls_ok :: "string \<Rightarrow> settings \<Rightarrow> bool" where
  "tls_ok sec s \<longleftrightarrow> map_of s ''security'' = Some (VStr sec)
   \<and> (if sec = ''tls'' then map_of s ''tls'' = Some (VBool True) \<and> (\<exists>b. map_of s ''allowInsecure'' = Some (VBool b))
      else map_of s ''tls'' = None \<and> map_of s ''allowInsecure'' = None)"

lemma tls_lookup: "k \<notin> tls_keys \<Longrightarrow> map_of (put_tls sec s) k = map_of s k"
  by (simp add: put_tls_def tls_keys_def Let_def)

lemma tls_noop: "tls_ok sec s \<Longrightarrow> put_tls sec s = s"
  by (auto simp: tls_ok_def put_tls_def getSettingBoolValue_def Let_def split: if_splits)

lemma tls_make: "tls_ok sec (put_tls sec s)"
  by (simp add: tls_ok_def put_tls_def Let_def)

lemma tls_agree: "agree tls_keys s s' \<Longrightarrow> tls_ok sec s' \<Longrightarrow> tls_ok sec s"
  by (simp add: tls_ok_def agree_def tls_keys_def)

lemma grpc_alias_noop: "grpc_ok s \<Longrightarrow> alias_text ''serviceName'' ''service_name'' s = s"
proof (rule alias_noop)
  assume g: "grpc_ok s"
  show "alias_ok ''serviceName'' ''service_name'' s"
  proof (cases "firstSettingString s [''serviceName'', ''service_name''] = []")
    case False
    then have "service_name s = firstSettingString s [''serviceName'', ''service_name'']" by (simp add: service_name_def)
    with g False show ?thesis by (simp add: grpc_ok_def alias_ok_def)
  qed (simp add: alias_ok_def)
qed

lemma transport_alias: "transport_ok s \<Longrightarrow> transport_ok (alias_text ''serviceName'' ''service_name'' s)"
proof (cases "uses_grpc s")
  case True
  moreover assume "transport_ok s"
  ultimately show ?thesis by (simp add: transport_ok_def grpc_alias_noop)
next
  case False
  assume ok: "transport_ok s"
  let ?s = "alias_text ''serviceName'' ''service_name'' s"
  have l: "map_of ?s k = map_of s k" if "k \<notin> {''serviceName'', ''service_name''}" for k
    using that by (rule alias_lookup)
  have n: "network ?s = network s" by (rule network_keep) (simp add: l)
  have u: "uses_grpc ?s = uses_grpc s" by (simp add: uses_grpc_def n l)
  have a: "agree ws_keys ?s s" "agree http_keys ?s s" "agree tcp_keys ?s s"
    by (simp_all add: agree_def ws_keys_def http_keys_def tcp_keys_def l)
  show ?thesis using ok False
    by (simp add: transport_ok_def n u l holds_text_def ws_ok_agree [OF a(1)] http_ok_agree [OF a(2)] tcp_ok_agree [OF a(3)])
qed

text \<open>The normaliser up to the Reality settings, and the maps it leaves alone.\<close>

definition base_settings :: "string \<Rightarrow> settings \<Rightarrow> string \<times> settings" where
  "base_settings p settings =
     (let s = normalizeTransportSettings (normalizeAlterIDSettings settings);
          raw = to_lower (trim_space (firstSettingString s [''security'']));
          cipher = (if p = ''vmess'' \<and> raw \<noteq> [] \<and> \<not> isStreamSecurity raw then raw else []);
          raw = (if cipher \<noteq> [] then [] else raw);
          s = (if cipher \<noteq> [] \<and> firstSettingString s [''cipher'', ''scy''] = []
               then put_both ''cipher'' ''scy'' (VStr cipher) s else s);
          s = alias_text ''serviceName'' ''service_name'' s;
          s = alias_text ''sni'' ''server_name'' s;
          s = alias_fingerprint s;
          security = (if raw = []
             then (if defaultSecurityForProtocol p = ''tls'' \<or> hasTLSIntent s then ''tls'' else ''none'')
             else raw)
      in (security, put_tls security s))"

lemma NormalizeSettings_base: "NormalizeSettings lib protocol s =
   (case base_settings (to_lower (trim_space protocol)) s of (security, s) \<Rightarrow>
      if security = ''reality''
      then (if to_lower (trim_space protocol) \<noteq> ''vless'' then Inl (ErrText rm_vless_only) else normalize_reality lib s)
      else Inr (drop_reality s))"
  unfolding NormalizeSettings_def base_settings_def Let_def by simp

definition settled :: "string \<Rightarrow> string \<Rightarrow> settings \<Rightarrow> bool" where
  "settled p sec s \<longleftrightarrow> alter_ok s \<and> transport_ok s \<and> sec \<noteq> [] \<and> trimmed sec \<and> to_lower sec = sec
   \<and> (p = ''vmess'' \<longrightarrow> isStreamSecurity sec) \<and> alias_ok ''serviceName'' ''service_name'' s
   \<and> alias_ok ''sni'' ''server_name'' s \<and> fp_ok s \<and> tls_ok sec s"

lemma settled_base: "settled p sec s \<Longrightarrow> base_settings p s = (sec, s)"
proof -
  assume s: "settled p sec s"
  then have sec: "firstSettingString s [''security''] = sec" by (simp add: settled_def tls_ok_def first_one)
  have t: "to_lower (trim_space sec) = sec" using s by (simp add: settled_def)
  have n: "normalizeTransportSettings (normalizeAlterIDSettings s) = s" "alias_text ''serviceName'' ''service_name'' s = s"
      "alias_text ''sni'' ''server_name'' s = s" "alias_fingerprint s = s" "put_tls sec s = s"
    using s by (simp_all add: settled_def alter_ok_noop transport_ok_noop alias_noop fp_noop tls_noop)
  have c: "\<not> (p = ''vmess'' \<and> sec \<noteq> [] \<and> \<not> isStreamSecurity sec)" "sec \<noteq> []" using s by (auto simp: settled_def)
  show ?thesis unfolding base_settings_def Let_def n sec t if_not_P [OF c(1)] using c(2) by (simp add: n)
qed

lemma trimmed_literal: "trimmed ''tls''" "trimmed ''none''" "to_lower ''tls'' = ''tls''" "to_lower ''none'' = ''none''"
  by (simp_all add: trimmed_def trim_space_def is_space_def to_lower_def to_lower_char_def)

lemma base_settled:
  assumes "base_settings p s = (sec, b)"
  shows "settled p sec b"
proof -
  define s1 where "s1 = normalizeTransportSettings (normalizeAlterIDSettings s)"
  define raw where "raw = to_lower (firstSettingString s1 [''security''])"
  define c where "c = (if p = ''vmess'' \<and> raw \<noteq> [] \<and> \<not> isStreamSecurity raw then raw else [])"
  define s2 where "s2 = (if c \<noteq> [] \<and> firstSettingString s1 [''cipher'', ''scy''] = [] then put_both ''cipher'' ''scy'' (VStr c) s1 else s1)"
  define s3 where "s3 = alias_text ''serviceName'' ''service_name'' s2"
  define s4 where "s4 = alias_text ''sni'' ''server_name'' s3"
  define s5 where "s5 = alias_fingerprint s4"
  define raw' where "raw' = (if c \<noteq> [] then [] else raw)"
  define sec' where "sec' = (if raw' = []
      then (if defaultSecurityForProtocol p = ''tls'' \<or> hasTLSIntent s5 then ''tls'' else ''none'') else raw')"
  have "base_settings p s = (sec', put_tls sec' s5)"
    unfolding base_settings_def Let_def trimmedD [OF trimmed_first]
    by (simp only: s1_def [symmetric] raw_def [symmetric] c_def [symmetric] s2_def [symmetric] raw'_def [symmetric]
          s3_def [symmetric] s4_def [symmetric] s5_def [symmetric] sec'_def [symmetric])
  with assms have sb: "sec = sec'" and b: "b = put_tls sec s5" by auto
  have raw: "trimmed raw" "to_lower raw = raw" by (simp_all add: raw_def)
  have stream: "isStreamSecurity ''tls''" "isStreamSecurity ''none''" by (simp_all add: isStreamSecurity_def)
  have sec: "sec \<noteq> [] \<and> trimmed sec \<and> to_lower sec = sec \<and> (p = ''vmess'' \<longrightarrow> isStreamSecurity sec)"
    unfolding sb sec'_def using raw stream by (simp add: raw'_def c_def trimmed_literal)
  have l2: "map_of s2 k = map_of s1 k" if "k \<notin> {''cipher'', ''scy''}" for k using that by (simp add: s2_def)
  have l4: "map_of s4 k = map_of s3 k" if "k \<notin> {''sni'', ''server_name''}" for k using that unfolding s4_def by (rule alias_lookup)
  have l5: "map_of s5 k = map_of s4 k" if "k \<notin> {''fingerprint'', ''fp''}" for k using that unfolding s5_def by (rule fp_lookup)
  have l6: "map_of b k = map_of s5 k" if "k \<notin> tls_keys" for k using that unfolding b by (rule tls_lookup)
  have l3: "map_of s3 k = map_of s2 k" if "k \<notin> {''serviceName'', ''service_name''}" for k using that unfolding s3_def by (rule alias_lookup)
  have "alter_ok s1" unfolding s1_def
    by (rule alter_ok_agree [OF _ alter_ok_make]) (simp add: agree_def transport_lookup transport_keys_def ws_keys_def grpc_keys_def http_keys_def tcp_keys_def)
  then have "alter_ok b" by (rule alter_ok_agree [rotated]) (simp add: agree_def l6 l5 l4 l3 l2 tls_keys_def)
  moreover have "transport_ok s2"
    by (rule transport_ok_agree [OF _ transport_ok_make [of "normalizeAlterIDSettings s", folded s1_def]])
      (auto simp: agree_def l2 transport_keys_def ws_keys_def grpc_keys_def http_keys_def tcp_keys_def)
  then have "transport_ok s3" unfolding s3_def by (rule transport_alias)
  then have "transport_ok b"
    by (rule transport_ok_agree [rotated])
      (auto simp: agree_def l6 l5 l4 tls_keys_def transport_keys_def ws_keys_def grpc_keys_def http_keys_def tcp_keys_def)
  moreover have "alias_ok ''serviceName'' ''service_name'' b"
    by (rule alias_agree [OF _ alias_make [of "''serviceName''" "''service_name''" s2, folded s3_def]]) (simp add: agree_def l6 l5 l4 tls_keys_def)
  moreover have "alias_ok ''sni'' ''server_name'' b"
    by (rule alias_agree [OF _ alias_make [of "''sni''" "''server_name''" s3, folded s4_def]]) (simp add: agree_def l6 l5 tls_keys_def)
  moreover have "fp_ok b"
    by (rule fp_agree [OF _ fp_make [of s4, folded s5_def]]) (simp add: agree_def l6 tls_keys_def)
  moreover have "tls_ok sec b" unfolding b by (rule tls_make)
  ultimately show ?thesis using sec by (simp add: settled_def)
qed

definition reality_keys :: "string set" where
  "reality_keys = {''reality_settings'', ''publicKey'', ''pbk'', ''shortId'', ''sid'', ''privateKey''}"

lemma drop_lookup: "map_of (drop_reality s) k = (if k \<in> reality_keys then None else map_of s k)"
  by (auto simp: drop_reality_def reality_keys_def)

lemma drop_noop: "(\<And>k. k \<in> reality_keys \<Longrightarrow> map_of s k = None) \<Longrightarrow> drop_reality s = s"
  by (simp add: drop_reality_def reality_keys_def)

lemma settled_agree:
  fixes s s' :: settings
  assumes "settled p sec s" and "\<And>k. k \<notin> reality_keys \<Longrightarrow> k \<notin> {''sni'', ''server_name''} \<Longrightarrow> map_of s' k = map_of s k"
    and "alias_ok ''sni'' ''server_name'' s'"
  shows "settled p sec s'"
proof -
  have l: "agree K s' s" if "K \<inter> (reality_keys \<union> {''sni'', ''server_name''}) = {}" for K
    using assms(2) that by (auto simp: agree_def)
  have "agree {''alterId'', ''alter_id''} s' s" "agree transport_keys s' s"
      "agree {''serviceName'', ''service_name''} s' s" "agree {''fingerprint'', ''fp''} s' s" "agree tls_keys s' s"
    by (rule l, simp add: reality_keys_def transport_keys_def ws_keys_def grpc_keys_def http_keys_def tcp_keys_def tls_keys_def)+
  note agrees = this
  with assms(1,3) show ?thesis
    unfolding settled_def
    using alter_ok_agree [OF agrees(1)] transport_ok_agree [OF agrees(2)] alias_agree [OF agrees(3)]
      fp_agree [OF agrees(4)] tls_agree [OF agrees(5)] by blast
qed

lemma settled_drop:
  assumes s: "settled p sec s"
  shows "settled p sec (drop_reality s)"
proof (rule settled_agree [OF s])
  show "map_of (drop_reality s) k = map_of s k" if "k \<notin> reality_keys" for k using that by (simp add: drop_lookup)
  have "agree {''sni'', ''server_name''} (drop_reality s) s" by (simp add: agree_def drop_lookup reality_keys_def)
  then show "alias_ok ''sni'' ''server_name'' (drop_reality s)"
    by (rule alias_agree) (use s in \<open>simp add: settled_def\<close>)
qed

text \<open>Server names and short ids are split at commas; the pieces are not split again.\<close>

definition piece :: "string \<Rightarrow> bool" where
  "piece t \<longleftrightarrow> t \<noteq> [] \<and> trimmed t \<and> CHR '','' \<notin> set t"

lemma split_char_pieces: "p \<in> set (split_char d s) \<Longrightarrow> d \<notin> set p"
  by (induction d s arbitrary: p rule: split_char.induct) (auto split: if_splits list.splits)

lemma set_trim: "set (trim_space t) \<subseteq> set t"
  by (auto simp: trim_space_def dest!: set_dropWhileD)

lemma split_pieces: "t \<in> set (splitCommaValues v) \<Longrightarrow> piece t"
  using set_trim by (fastforce simp: splitCommaValues_def piece_def dest: split_char_pieces)

lemma slice_pieces: "t \<in> set (getSettingStringSlice s k) \<Longrightarrow> piece t"
proof (cases "map_of s k")
  case (Some v)
  assume "t \<in> set (getSettingStringSlice s k)"
  with Some show ?thesis
    by (cases v) (auto simp: getSettingStringSlice_def split_pieces split: setting.splits)
qed (simp add: getSettingStringSlice_def)

lemma split_piece: "piece t \<Longrightarrow> splitCommaValues t = [t]"
  by (simp add: splitCommaValues_def piece_def split_char_no)

lemma concat_pieces: "(\<And>t. t \<in> set ts \<Longrightarrow> piece t) \<Longrightarrow> concat (map splitCommaValues ts) = ts"
  by (induction ts) (simp_all add: split_piece)

lemma split_Nil: "splitCommaValues [] = []"
  by (simp add: splitCommaValues_def)

lemma ry_names_pieces: "t \<in> set (ry_names (reality_fields rs s)) \<Longrightarrow> piece t"
  by (auto simp: reality_fields_def Let_def slice_pieces split_pieces split: if_splits)

lemma ry_trimmed [simp]: "trimmed (ry_dest (reality_fields rs s))" "trimmed (ry_private (reality_fields rs s))"
    "trimmed (ry_public (reality_fields rs s))"
  by (simp_all add: reality_fields_def)

lemma ry_ids:
  assumes "CHR '','' \<notin> set (hd (ry_short_ids (reality_fields rs s)))"
  shows "ry_short_ids (reality_fields rs s) = [[]]
    \<or> ry_short_ids (reality_fields rs s) \<noteq> [] \<and> (\<forall>t \<in> set (ry_short_ids (reality_fields rs s)). piece t)"
  using assms slice_pieces by (auto simp: reality_fields_def Let_def piece_def split: if_splits)

lemma reality_lookup:
  "map_of (put_reality rs r pk s) k =
     (if k = ''reality_settings'' then Some (VMap (reality_settings_map rs r))
      else if k = ''privateKey'' then Some (VStr (ry_private r))
      else if k \<in> {''shortId'', ''sid''} then Some (VStr (trim_space (hd (ry_short_ids r))))
      else if k \<in> {''publicKey'', ''pbk''} then Some (VStr pk)
      else if k \<in> {''sni'', ''server_name''} then Some (VStr (hd (ry_names r))) else map_of s k)"
  by (simp add: put_reality_def)

lemma put_reality_noop:
  assumes "map_of s ''reality_settings'' = Some (VMap (reality_settings_map rs r))"
    and "map_of s ''privateKey'' = Some (VStr (ry_private r))"
    and "both_hold s ''shortId'' ''sid'' (trim_space (hd (ry_short_ids r)))"
    and "both_hold s ''publicKey'' ''pbk'' pk" and "both_hold s ''sni'' ''server_name'' (hd (ry_names r))"
  shows "put_reality rs r pk s = s"
  using assms by (simp add: put_reality_def both_hold_def)

lemma reality_map_reads:
  assumes "trimmed (ry_dest r)" "trimmed (ry_private r)"
  shows "firstSettingString (reality_settings_map rs r) [''dest''] = ry_dest r"
    and "firstSettingString (reality_settings_map rs r) [''privateKey''] = ry_private r"
    and "firstSettingString (reality_settings_map rs r) [''publicKey''] = []"
    and "getSettingStringSlice (reality_settings_map rs r) ''serverNames'' = concat (map splitCommaValues (ry_names r))"
    and "getSettingStringSlice (reality_settings_map rs r) ''shortIds'' = concat (map splitCommaValues (ry_short_ids r))"
    and "getSettingBoolValue (reality_settings_map rs r) ''show'' = getSettingBoolValue rs ''show''"
    and "getSettingIntValue (reality_settings_map rs r) ''xver'' = getSettingIntValue rs ''xver''"
  using assms by (simp_all add: reality_settings_map_def first_one getSettingStringSlice_def getSettingBoolValue_def getSettingIntValue_def)

lemma reality_pk_trimmed:
  assumes "\<And>b. trimmed (encode_raw_url lib b)" and "reality_public_key lib (reality_fields rs s) = Inr pk"
  shows "trimmed pk"
  using assms(2) assms(1)
  by (auto simp: reality_public_key_def DeriveRealityPublicKey_def Let_def split: if_splits sum.splits)

lemma first_twice: "map_of s k1 = Some (VStr t) \<Longrightarrow> map_of s k2 = Some (VStr t) \<Longrightarrow> trimmed t \<Longrightarrow> firstSettingString s [k1, k2] = t"
  by (simp add: firstSettingString_def)

lemma reality_fields_again:
  assumes r: "r = reality_fields rs s" and s': "s' = put_reality rs r pk s" and pk: "trimmed pk"
    and full: "ry_names r \<noteq> []" "ry_private r \<noteq> []" and comma: "CHR '','' \<notin> set (hd (ry_short_ids r))"
  shows "reality_fields (reality_settings_map rs r) s' = r\<lparr>ry_public := pk\<rparr>"
proof -
  have t: "trimmed (ry_dest r)" "trimmed (ry_private r)" by (simp_all add: r)
  note reads = reality_map_reads [OF t, of rs]
  have names: "concat (map splitCommaValues (ry_names r)) = ry_names r"
    by (rule concat_pieces) (simp add: r ry_names_pieces)
  have pub: "firstSettingString s' [''publicKey'', ''pbk''] = pk"
    by (rule first_twice) (simp_all add: s' reality_lookup pk)
  have ids: "ry_short_ids (reality_fields (reality_settings_map rs r) s') = ry_short_ids r"
  proof -
    from ry_ids [OF comma [unfolded r], folded r]
    consider (blank) "ry_short_ids r = [[]]" | (given) "ry_short_ids r \<noteq> []" "concat (map splitCommaValues (ry_short_ids r)) = ry_short_ids r"
      using concat_pieces by blast
    then show ?thesis
    proof cases
      case blank
      have "firstSettingString s' [''shortId'', ''sid''] = []"
        by (rule first_twice) (simp_all add: s' reality_lookup blank)
      then show ?thesis unfolding reality_fields_def Let_def reads by (simp add: blank split_Nil)
    next
      case given
      then show ?thesis unfolding reality_fields_def Let_def reads by simp
    qed
  qed
  show ?thesis
    using full names ids pub unfolding reality_fields_def [of "reality_settings_map rs r"] Let_def reads by simp
qed

lemma normalize_reality_again:
  assumes ok: "normalize_reality lib b = Inr s'" and enc: "\<And>b. trimmed (encode_raw_url lib b)"
    and comma: "CHR '','' \<notin> set (getSettingString s' ''shortId'')" and b: "settled p ''reality'' b"
  shows "normalize_reality lib s' = Inr s' \<and> settled p ''reality'' s'"
proof -
  define rs where "rs = getSettingMap b ''reality_settings''"
  define r where "r = reality_fields rs b"
  from ok obtain pk where pk: "reality_public_key lib r = Inr pk" and s': "s' = put_reality rs r pk b"
      and full: "ry_dest r \<noteq> []" "ry_names r \<noteq> []" "ry_private r \<noteq> []"
    by (auto simp: normalize_reality_def Let_def rs_def [symmetric] r_def [symmetric] split: if_splits sum.splits)
  have tp: "trimmed pk" using reality_pk_trimmed [OF enc] pk unfolding r_def by blast
  have trimmed_ids: "trimmed (hd (ry_short_ids r))"
  proof -
    have "trimmed t" if "t \<in> set (ry_short_ids r)" for t
      using that slice_pieces by (auto simp: r_def reality_fields_def Let_def piece_def split: if_splits)
    moreover have "ry_short_ids r \<noteq> []" by (simp add: r_def reality_fields_def Let_def)
    ultimately show ?thesis by simp
  qed
  have "getSettingString s' ''shortId'' = trim_space (hd (ry_short_ids r))"
    by (simp add: getSettingString_def s' reality_lookup trimmed_ids)
  then have c: "CHR '','' \<notin> set (hd (ry_short_ids r))" using comma trimmed_ids by simp
  have t: "trimmed (ry_dest r)" "trimmed (ry_private r)" by (simp_all add: r_def)
  have rs': "getSettingMap s' ''reality_settings'' = reality_settings_map rs r" by (simp add: s' reality_lookup)
  have r': "reality_fields (reality_settings_map rs r) s' = r\<lparr>ry_public := pk\<rparr>"
    using reality_fields_again [OF r_def s' tp full(2,3) c] .
  have m: "reality_settings_map (reality_settings_map rs r) (r\<lparr>ry_public := pk\<rparr>) = reality_settings_map rs r"
    using reality_map_reads(6,7) [OF t] by (simp add: reality_settings_map_def [of "reality_settings_map rs r"])
      (simp add: reality_settings_map_def)
  have pk': "reality_public_key lib (r\<lparr>ry_public := pk\<rparr>) = Inr pk"
    using pk by (auto simp: reality_public_key_def split: if_splits)
  have "put_reality (reality_settings_map rs r) (r\<lparr>ry_public := pk\<rparr>) pk s' = s'"
    by (rule put_reality_noop) (simp_all add: m both_hold_def s' reality_lookup)
  then have "normalize_reality lib s' = Inr s'"
    using full unfolding normalize_reality_def Let_def rs' r' by (simp add: pk')
  moreover have "settled p ''reality'' s'"
  proof (rule settled_agree [OF b])
    show "map_of s' k = map_of b k" if "k \<notin> reality_keys" "k \<notin> {''sni'', ''server_name''}" for k
      using that by (simp add: s' reality_lookup reality_keys_def)
    have "piece (hd (ry_names r))" using ry_names_pieces hd_in_set [OF full(2)] unfolding r_def by blast
    then have "firstSettingString s' [''sni'', ''server_name''] = hd (ry_names r)"
      by (intro first_twice) (simp_all add: s' reality_lookup piece_def)
    then show "alias_ok ''sni'' ''server_name'' s'" by (simp add: alias_ok_def both_hold_def s' reality_lookup)
  qed
  ultimately show ?thesis ..
qed

section \<open>Properties\<close>

text \<open>
  (C25) Normalising settings a second time changes nothing: whatever \<open>NormalizeSettings\<close> accepts it
  turns into a map that it returns as it is, nested transport and Reality settings included,
  provided the base64 encoder yields text without blanks around it and the single short id of a
  Reality proxy holds no comma.
\<close>

theorem normalize_idempotent:
  assumes "NormalizeSettings lib protocol s = Inr s'"
    and "\<And>b. trim_space (encode_raw_url lib b) = encode_raw_url lib b"
    and "CHR '','' \<notin> set (getSettingString s' ''shortId'')"
  shows "NormalizeSettings lib protocol s' = Inr s'"
proof -
  let ?p = "to_lower (trim_space protocol)"
  obtain sec b where base: "base_settings ?p s = (sec, b)" by fastforce
  then have b: "settled ?p sec b" by (rule base_settled)
  show ?thesis
  proof (cases "sec = ''reality''")
    case True
    with assms(1) base have p: "?p = ''vless''" and r: "normalize_reality lib b = Inr s'"
      by (auto simp: NormalizeSettings_base split: if_splits)
    have "normalize_reality lib s' = Inr s' \<and> settled ?p sec s'"
      using normalize_reality_again [OF r _ assms(3)] assms(2) b True by (simp add: trimmed_def)
    then have "base_settings ?p s' = (''reality'', s')" and "normalize_reality lib s' = Inr s'"
      using True by (simp_all add: settled_base)
    then show ?thesis unfolding NormalizeSettings_base using p by simp
  next
    case False
    with assms(1) base have s': "s' = drop_reality b" by (simp add: NormalizeSettings_base)
    have "settled ?p sec s'" unfolding s' using b by (rule settled_drop)
    moreover have "drop_reality s' = s'" by (rule drop_noop) (simp add: s' drop_lookup)
    ultimately show ?thesis using False by (simp add: NormalizeSettings_base settled_base)
  qed
qed

definition sample_key_lib :: key_lib where
  "sample_key_lib = \<lparr>decode_string = \<lambda>_ _. Some (replicate 32 0), x25519_base = Inr, encode_raw_url = \<lambda>_. ''K''\<rparr>"

definition sample_settings :: settings where
  "sample_settings = [(''network'', VStr ''WS''), (''security'', VStr ''reality''), (''path'', VStr ''/a''),
     (''reality_settings'', VMap [(''dest'', VStr ''d''), (''serverNames'', VStr ''b, c''), (''privateKey'', VStr ''p'')])]"

definition sample_normalized :: settings where
  "sample_normalized = projr (NormalizeSettings sample_key_lib ''vless'' sample_settings)"

theorem normalize_idempotent_witness:
  "NormalizeSettings sample_key_lib ''vless'' sample_settings = Inr sample_normalized
   \<and> (\<forall>b. trim_space (encode_raw_url sample_key_lib b) = encode_raw_url sample_key_lib b)
   \<and> CHR '','' \<notin> set (getSettingString sample_normalized ''shortId'')
   \<and> NormalizeSettings sample_key_lib ''vless'' sample_normalized = Inr sample_normalized"
proof -
  have "\<not> isl (NormalizeSettings sample_key_lib ''vless'' sample_settings)" by code_simp
  then have ok: "NormalizeSettings sample_key_lib ''vless'' sample_settings = Inr sample_normalized"
    by (simp add: sample_normalized_def)
  have enc: "trim_space (encode_raw_url sample_key_lib b) = encode_raw_url sample_key_lib b" for b
    by (simp add: sample_key_lib_def trim_space_def is_space_def)
  have c: "CHR '','' \<notin> set (getSettingString sample_normalized ''shortId'')" by code_simp
  show ?thesis using ok enc c normalize_idempotent [OF ok enc c] by simp
qed



section \<open>Addresses with a port\<close>

text \<open>\<open>net.JoinHostPort\<close>.\<close>

definition JoinHostPort :: "string \<Rightarrow> string \<Rightarrow> string" where
  "JoinHostPort host port = (if CHR '':'' \<in> set host \<or> CHR ''%'' \<in> set host
     then ''['' @ host @ '']:'' @ port else host @ '':'' @ port)"

lemma last_part:
  assumes "c \<notin> set q"
  shows "after_last c (p @ c # q) = q" and "upto_last c (p @ c # q) = p"
proof -
  have "takeWhile (\<lambda>x. x \<noteq> c) (rev q @ c # rev p) = rev q"
    by (subst takeWhile_append2) (use assms in auto)
  then show "after_last c (p @ c # q) = q" by (simp add: after_last_def)
  have "dropWhile (\<lambda>x. x \<noteq> c) (rev q @ c # rev p) = c # rev p"
    by (subst dropWhile_append2) (use assms in auto)
  then show "upto_last c (p @ c # q) = p" by (simp add: upto_last_def)
qed

lemma show_nat_digit: "list_all is_digit (show_nat n)"
proof (induction n rule: show_nat.induct)
  case (1 n)
  have "is_digit (digit_char d)" if "d < 10" for d using that by (simp add: is_digit_def digit_char_def)
  then show ?case using 1 by (subst show_nat.simps) auto
qed

lemma digit_not: "list_all is_digit p \<Longrightarrow> \<not> is_digit c \<Longrightarrow> c \<notin> set p"
  by (auto simp: list_all_iff)

lemma trim_digits: "p \<noteq> [] \<Longrightarrow> list_all is_digit p \<Longrightarrow> h \<noteq> [] \<Longrightarrow> \<not> is_space (hd h) \<Longrightarrow> trim_space (h @ p) = h @ p"
proof -
  assume p: "p \<noteq> []" "list_all is_digit p" and h: "h \<noteq> []" "\<not> is_space (hd h)"
  have "is_digit (last p)" using p by (simp add: list_all_iff)
  then have "\<not> is_space (last p)" by (auto simp: is_digit_def dest: is_space_le)
  then have "dropWhile is_space (rev (h @ p)) = rev (h @ p)"
    using p(1) by (cases p rule: rev_cases) auto
  moreover have "dropWhile is_space (h @ p) = h @ p" using h by (cases h) auto
  ultimately show ?thesis unfolding trim_space_def by simp
qed

lemma hostname_join:
  assumes "list_all is_digit p" and "h \<noteq> []" and "hd h \<noteq> CHR ''[''"
  shows "url_hostname (JoinHostPort h p) = h"
proof -
  have c: "CHR '':'' \<notin> set p" using assms(1) by (rule digit_not) (simp add: is_digit_def)
  show ?thesis
  proof (cases "CHR '':'' \<in> set h \<or> CHR ''%'' \<in> set h")
    case True
    then have j: "JoinHostPort h p = (''['' @ h @ '']'') @ CHR '':'' # p" by (simp add: JoinHostPort_def)
    have "url_hostname (JoinHostPort h p) = unbracket (''['' @ h @ '']'')"
      unfolding url_hostname_def j last_part [OF c] using assms(1) by simp
    also have "\<dots> = h" by (simp add: unbracket_def)
    finally show ?thesis .
  next
    case False
    then have j: "JoinHostPort h p = h @ CHR '':'' # p" by (simp add: JoinHostPort_def)
    show ?thesis unfolding url_hostname_def j last_part [OF c] using assms by (simp add: unbracket_def)
  qed
qed

text \<open>
  Joining and normalising addresses are inverse: a host, an IPv6 address included, joined with a
  port by \<open>net.JoinHostPort\<close> is given back by \<open>NormalizeShareHost\<close>, unless it is one of the wildcard
  addresses, for which nothing is returned.
\<close>

theorem share_host_round_trip:
  assumes "h \<noteq> []" and "\<not> is_space (hd h)" and "hd h \<noteq> CHR ''[''"
    and "\<not> has_infix ''://'' (JoinHostPort h (show_nat port))"
  shows "NormalizeShareHost parse (JoinHostPort h (show_nat port))
    = (if to_lower h \<in> set invalidShareHosts then [] else h)"
proof -
  let ?j = "JoinHostPort h (show_nat port)"
  have ne: "show_nat port \<noteq> []" by (subst show_nat.simps) simp
  have d: "list_all is_digit (show_nat port)" by (rule show_nat_digit)
  have "trim_space ?j = ?j"
  proof (cases "CHR '':'' \<in> set h \<or> CHR ''%'' \<in> set h")
    case True
    then show ?thesis using trim_digits [OF ne d, of "''['' @ h @ '']:''"] by (simp add: JoinHostPort_def is_space_def)
  next
    case False
    then show ?thesis using trim_digits [OF ne d, of "h @ '':''"] assms(1,2) by (simp add: JoinHostPort_def)
  qed
  moreover have "?j \<noteq> []" by (simp add: JoinHostPort_def)
  ultimately show ?thesis
    using assms hostname_join [OF d assms(1,3)] by (simp add: NormalizeShareHost_def Let_def)
qed

theorem share_host_round_trip_witness:
  "NormalizeShareHost id (JoinHostPort ''fe80::1'' (show_nat 443)) = ''fe80::1''"
proof -
  have inv: "to_lower ''fe80::1'' \<notin> set invalidShareHosts" by code_simp
  have "\<not> has_infix ''://'' (JoinHostPort ''fe80::1'' (show_nat 443))" by code_simp
  then show ?thesis
    using share_host_round_trip [of "''fe80::1''" 443 id] inv by (simp add: is_space_def)
qed

text \<open>
  Without brackets an IPv6 address is cut at its last colon when what follows is decimal, and the
  entry \<open>::\<close> of the wildcard addresses is never reached.
\<close>

lemma bare_ipv6_truncated:
  "NormalizeShareHost parse ''2001:db8::1'' = ''2001:db8:''" "NormalizeShareHost parse ''::'' = '':''"
  by (simp_all add: NormalizeShareHost_def url_hostname_def unbracket_def after_last_def upto_last_def trim_space_def
      is_space_def is_digit_def to_lower_def to_lower_char_def invalidShareHosts_def Let_def)

text \<open>A port override is only taken when it is a port.\<close>

lemma server_port_valid: "ResolveServerPort d s \<noteq> d \<Longrightarrow> valid_port (ResolveServerPort d s)"
proof -
  have "ResolveServerPort_keys d s ks \<noteq> d \<longrightarrow> valid_port (ResolveServerPort_keys d s ks)" for ks
    by (induction ks) (auto split: option.split)
  then show "ResolveServerPort d s \<noteq> d \<Longrightarrow> valid_port (ResolveServerPort d s)" unfolding ResolveServerPort_def by blast
qed

end
