(* ===== verification/FleetStore.thy ===== *)
theory FleetStore
  imports NodeStore ProxySettings
begin

text \<open>
  What the health checker works on: the nodes of \<open>NodeStore\<close>, the proxies
  (\<open>proxy_repository.go\<close>), the certificates (\<open>certificate_repository.go\<close>) and the history of
  checks (\<open>health_check_repository.go\<close>), with the counters the checker keeps in memory.  The
  maps from identifiers to counters are functions with default 0; a set of failed proxies is the
  map with only true values.
\<close>

section \<open>Rows and state\<close>

record proxy_row =
  px_id :: int
  px_user_id :: int
  px_node_id :: "int option"
  px_name :: string
  px_protocol :: string
  px_port :: int
  px_host :: string
  px_settings :: settings
  px_enabled :: bool
  px_remark :: string

record cert_row =
  ct_id :: int
  ct_domain :: string
  ct_auto_renew :: bool
  ct_status :: string
  ct_expire_date :: "time option"
  ct_expires_at :: time

record health_row =
  hk_id :: int
  hk_node_id :: int
  hk_status :: string
  hk_latency :: int
  hk_message :: string
  hk_tcp_ok :: bool
  hk_api_ok :: bool
  hk_xray_ok :: bool
  hk_checked_at :: time

record status_notice =
  sn_node_id :: int
  sn_old :: string
  sn_new :: string
  sn_reason :: string

record fleet =
  fl_nodes :: node_db
  proxies :: "proxy_row table"
  certificates :: "cert_row table"
  health_checks :: "health_row table"
  consecutiveFailures :: "int \<Rightarrow> int"
  consecutiveSuccesses :: "int \<Rightarrow> int"
  pendingSince :: "int \<Rightarrow> time option"
  probeCursor :: "int \<Rightarrow> nat"
  probeFailures :: "int \<Rightarrow> int list"
  notices :: "status_notice list"
  callbacks :: "(int \<times> string \<times> string) list"

type_synonym 'a fleetop = "(fleet, 'a) op"

definition on_nodes :: "'a nodeop \<Rightarrow> 'a fleetop" where
  "on_nodes = on_part fl_nodes (\<lambda>d t. t\<lparr>fl_nodes := d\<rparr>)"

text \<open>A read and a write of the checker's own maps, which are no database statements.\<close>

definition look :: "('t \<Rightarrow> 'a) \<Rightarrow> ('t, 'a) op" where
  "look f w = (Inr (f (tables w)), w)"

definition mem :: "('t \<Rightarrow> 't) \<Rightarrow> ('t, unit) op" where
  "mem f w = (Inr (), w\<lparr>tables := f (tables w)\<rparr>)"

lemma wpt_look [wpt_rules]: "Q (f t) t \<Longrightarrow> wpt (look f) Q E t"
  by (simp add: wpt_def look_def)

lemma wpt_mem [wpt_rules]: "Q () (f t) \<Longrightarrow> wpt (mem f) Q E t"
  by (simp add: wpt_def mem_def)

lemma runs_look [runs_rules]: "Q (f t) t \<Longrightarrow> runs (look f) Q t"
  by (simp add: runs_def look_def)

lemma runs_mem [runs_rules]: "Q () (f t) \<Longrightarrow> runs (mem f) Q t"
  by (simp add: runs_def mem_def)

section \<open>Proxies\<close>

abbreviation never_clash :: "'r \<Rightarrow> 'r \<Rightarrow> bool" where
  "never_clash \<equiv> \<lambda>_ _. False"

text \<open>\<open>validProxyQuery\<close>: the proxies of the panel itself and of users that exist.\<close>

definition valid_proxy :: "fleet \<Rightarrow> proxy_row \<Rightarrow> bool" where
  "valid_proxy t p \<longleftrightarrow> px_user_id p = 0 \<or> (\<exists>u \<in> set (rows (panel_users (fl_nodes t))). u_id u = px_user_id p)"

definition ProxyCreate :: "proxy_row \<Rightarrow> proxy_row fleetop" where
  "ProxyCreate p = map_err (DatabaseError ''failed to create proxy'')
     (create proxies proxies_update never_clash (\<lambda>i. p\<lparr>px_id := i\<rparr>))"

definition ProxyGetByID :: "int \<Rightarrow> proxy_row fleetop" where
  "ProxyGetByID i = map_err (found_or (NotFoundError ''proxy'' i) ''failed to get proxy'') (first proxies (\<lambda>p. px_id p = i))"

definition ProxyUpdate :: "proxy_row \<Rightarrow> unit fleetop" where
  "ProxyUpdate p = map_err (DatabaseError ''failed to update proxy'') (save proxies proxies_update never_clash px_id p)"

definition ProxyDelete :: "int \<Rightarrow> unit fleetop" where
  "ProxyDelete i = bindE (map_err (DatabaseError ''failed to delete proxy'')
       (delete_where proxies proxies_update (\<lambda>p. px_id p = i)))
     (\<lambda>n. guardE (n \<noteq> 0) (NotFoundError ''proxy'' i))"

definition page :: "int \<Rightarrow> int \<Rightarrow> 'r list \<Rightarrow> 'r list" where
  "page limit offset rs = limit_rows limit (drop (nat offset) rs)"

definition proxies_where :: "string \<Rightarrow> (fleet \<Rightarrow> proxy_row \<Rightarrow> bool) \<Rightarrow> proxy_row list fleetop" where
  "proxies_where msg p = map_err (DatabaseError msg) (query (\<lambda>t. filter (p t) (rows (proxies t))))"

definition ProxyList :: "int \<Rightarrow> int \<Rightarrow> proxy_row list fleetop" where
  "ProxyList limit offset = map_err (DatabaseError ''failed to list proxies'')
     (query (\<lambda>t. page limit offset (rows (proxies t))))"

definition ProxyGetByProtocol :: "string \<Rightarrow> proxy_row list fleetop" where
  "ProxyGetByProtocol protocol = proxies_where ''failed to get proxies by protocol'' (\<lambda>_ p. px_protocol p = protocol)"

definition ProxyGetEnabled :: "proxy_row list fleetop" where
  "ProxyGetEnabled = proxies_where ''failed to get enabled proxies'' (\<lambda>t p. valid_proxy t p \<and> px_enabled p)"

definition ProxyGetByUserID :: "int \<Rightarrow> int \<Rightarrow> int \<Rightarrow> proxy_row list fleetop" where
  "ProxyGetByUserID userID limit offset = map_err (DatabaseError ''failed to get proxies by user ID'')
     (query (\<lambda>t. page limit offset (filter (\<lambda>p. px_user_id p = userID) (rows (proxies t)))))"

definition ProxyCountByUserID :: "int \<Rightarrow> int fleetop" where
  "ProxyCountByUserID userID = map_err (DatabaseError ''failed to count proxies by user ID'')
     (query (\<lambda>t. count_rows (\<lambda>p. px_user_id p = userID) (proxies t)))"

definition ProxyGetByPort :: "int \<Rightarrow> proxy_row option fleetop" where
  "ProxyGetByPort port = map_err (DatabaseError ''failed to get proxy by port'')
     (query (\<lambda>t. find (\<lambda>p. valid_proxy t p \<and> px_port p = port) (rows (proxies t))))"

definition set_enabled :: "string \<Rightarrow> bool \<Rightarrow> int \<Rightarrow> unit fleetop" where
  "set_enabled msg b userID = bindE (map_err (DatabaseError msg)
     (update_where proxies proxies_update (\<lambda>p. px_user_id p = userID) (\<lambda>p. p\<lparr>px_enabled := b\<rparr>))) (\<lambda>_. ret ())"

definition ProxyEnableByUserID :: "int \<Rightarrow> unit fleetop" where
  "ProxyEnableByUserID = set_enabled ''failed to enable proxies by user ID'' True"

definition ProxyDisableByUserID :: "int \<Rightarrow> unit fleetop" where
  "ProxyDisableByUserID = set_enabled ''failed to disable proxies by user ID'' False"

definition ProxyDeleteByIDs :: "int list \<Rightarrow> unit fleetop" where
  "ProxyDeleteByIDs ids = (if ids = [] then ret ()
     else bindE (map_err (DatabaseError ''failed to delete proxies by IDs'')
       (delete_where proxies proxies_update (\<lambda>p. px_id p \<in> set ids))) (\<lambda>_. ret ()))"

definition ProxyCount :: "int fleetop" where
  "ProxyCount = map_err (DatabaseError ''failed to count proxies'') (query (\<lambda>t. int (length (rows (proxies t)))))"

definition ProxyCountEnabled :: "int fleetop" where
  "ProxyCountEnabled = map_err (DatabaseError ''failed to count enabled proxies'')
     (query (\<lambda>t. count_rows px_enabled (proxies t)))"

definition ProxyCountByProtocol :: "(string \<times> int) list fleetop" where
  "ProxyCountByProtocol = map_err (DatabaseError ''failed to count proxies by protocol'')
     (query (\<lambda>t. map (\<lambda>s. (s, count_rows (\<lambda>p. px_protocol p = s) (proxies t)))
        (remdups (map px_protocol (rows (proxies t))))))"

definition ProxyGetByNodeID :: "int \<Rightarrow> proxy_row list fleetop" where
  "ProxyGetByNodeID nodeID = proxies_where ''failed to get proxies by node ID''
     (\<lambda>t p. valid_proxy t p \<and> px_node_id p = Some nodeID \<and> px_enabled p)"

section \<open>Certificates\<close>

text \<open>The unique index of the table: \<open>domain\<close>.\<close>

definition domain_clash :: "cert_row \<Rightarrow> cert_row \<Rightarrow> bool" where
  "domain_clash a b \<longleftrightarrow> ct_domain a = ct_domain b"

definition CertCreate :: "cert_row \<Rightarrow> cert_row fleetop" where
  "CertCreate c = map_err (\<lambda>e. if e = Gorm ErrDuplicatedKey then ConflictError (''certificate with domain '' @ ct_domain c @ '' already exists'')
       else DatabaseError ''failed to create certificate'' e)
     (create certificates certificates_update domain_clash (\<lambda>i. c\<lparr>ct_id := i\<rparr>))"

definition CertGetByID :: "int \<Rightarrow> cert_row fleetop" where
  "CertGetByID i = map_err (found_or (NotFoundError ''certificate'' i) ''failed to get certificate'')
     (first certificates (\<lambda>c. ct_id c = i))"

definition CertGetByDomain :: "string \<Rightarrow> cert_row fleetop" where
  "CertGetByDomain d = map_err (found_or (NotFoundKey ''certificate'' d) ''failed to get certificate by domain'')
     (first certificates (\<lambda>c. ct_domain c = d))"

definition CertUpdate :: "cert_row \<Rightarrow> unit fleetop" where
  "CertUpdate c = map_err (DatabaseError ''failed to update certificate'')
     (save certificates certificates_update domain_clash ct_id c)"

definition CertDelete :: "int \<Rightarrow> unit fleetop" where
  "CertDelete i = bindE (map_err (DatabaseError ''failed to delete certificate'')
       (delete_where certificates certificates_update (\<lambda>c. ct_id c = i)))
     (\<lambda>n. guardE (n \<noteq> 0) (NotFoundError ''certificate'' i))"

definition CertList :: "int \<Rightarrow> int \<Rightarrow> cert_row list fleetop" where
  "CertList limit offset = map_err (DatabaseError ''failed to list certificates'') (query (\<lambda>t.
     let cs = sort_key ct_expires_at (rows (certificates t));
         cs = (if 0 < offset then drop (nat offset) cs else cs)
     in if 0 < limit then take (nat limit) cs else cs))"

definition CertCount :: "int fleetop" where
  "CertCount = map_err (DatabaseError ''failed to count certificates'') (query (\<lambda>t. int (length (rows (certificates t)))))"

definition CertGetExpiring :: "time \<Rightarrow> time \<Rightarrow> int \<Rightarrow> cert_row list fleetop" where
  "CertGetExpiring now now' days = map_err (DatabaseError ''failed to get expiring certificates'') (query (\<lambda>t.
     sort_key ct_expires_at (filter (\<lambda>c. ct_expires_at c \<le> add_days now days \<and> now' < ct_expires_at c)
       (rows (certificates t)))))"

definition CertGetAutoRenew :: "cert_row list fleetop" where
  "CertGetAutoRenew = map_err (DatabaseError ''failed to get auto-renew certificates'')
     (query (\<lambda>t. filter ct_auto_renew (rows (certificates t))))"

section \<open>History of health checks\<close>

definition HealthCheckStatusSuccess :: string where "HealthCheckStatusSuccess = ''success''"
definition HealthCheckStatusFailed :: string where "HealthCheckStatusFailed = ''failed''"

lemma health_status_distinct [simp]: "HealthCheckStatusSuccess \<noteq> HealthCheckStatusFailed" "HealthCheckStatusFailed \<noteq> HealthCheckStatusSuccess"
  by (simp_all add: HealthCheckStatusSuccess_def HealthCheckStatusFailed_def)

definition HealthCreate :: "health_row \<Rightarrow> health_row fleetop" where
  "HealthCreate c = map_err (DatabaseError ''failed to create health check'')
     (create health_checks health_checks_update never_clash (\<lambda>i. c\<lparr>hk_id := i\<rparr>))"

definition HealthGetByID :: "int \<Rightarrow> health_row fleetop" where
  "HealthGetByID i = map_err (found_or (NotFoundError ''health check'' i) ''failed to get health check'')
     (first health_checks (\<lambda>c. hk_id c = i))"

definition HealthDelete :: "int \<Rightarrow> unit fleetop" where
  "HealthDelete i = bindE (map_err (DatabaseError ''failed to delete health check'')
     (delete_where health_checks health_checks_update (\<lambda>c. hk_id c = i))) (\<lambda>_. ret ())"

text \<open>\<open>ORDER BY checked_at DESC\<close> of the rows a condition selects.\<close>

definition recent :: "(health_row \<Rightarrow> bool) \<Rightarrow> fleet \<Rightarrow> health_row list" where
  "recent p t = sort_key (\<lambda>c. - hk_checked_at c) (filter p (rows (health_checks t)))"

definition recent_checks :: "string \<Rightarrow> (health_row \<Rightarrow> bool) \<Rightarrow> (health_row list \<Rightarrow> 'a) \<Rightarrow> 'a fleetop" where
  "recent_checks msg p f = map_err (DatabaseError msg) (query (\<lambda>t. f (recent p t)))"

definition HealthGetByNodeID :: "int \<Rightarrow> int \<Rightarrow> health_row list fleetop" where
  "HealthGetByNodeID nodeID limit = recent_checks ''failed to get health checks by node ID'' (\<lambda>c. hk_node_id c = nodeID)
     (\<lambda>cs. if 0 < limit then take (nat limit) cs else cs)"

definition HealthGetLatestByNodeID :: "int \<Rightarrow> health_row option fleetop" where
  "HealthGetLatestByNodeID nodeID = recent_checks ''failed to get latest health check'' (\<lambda>c. hk_node_id c = nodeID)
     (\<lambda>cs. case cs of [] \<Rightarrow> None | c # _ \<Rightarrow> Some c)"

definition HealthGetByDateRange :: "int \<Rightarrow> time \<Rightarrow> time \<Rightarrow> health_row list fleetop" where
  "HealthGetByDateRange nodeID start stop = recent_checks ''failed to get health checks by date range''
     (\<lambda>c. hk_node_id c = nodeID \<and> start \<le> hk_checked_at c \<and> hk_checked_at c \<le> stop) (\<lambda>cs. cs)"

definition HealthGetRecentFailures :: "int \<Rightarrow> int \<Rightarrow> health_row list fleetop" where
  "HealthGetRecentFailures nodeID n = recent_checks ''failed to get recent failures''
     (\<lambda>c. hk_node_id c = nodeID \<and> hk_status c = HealthCheckStatusFailed) (limit_rows n)"

definition HealthGetRecentSuccesses :: "int \<Rightarrow> int \<Rightarrow> health_row list fleetop" where
  "HealthGetRecentSuccesses nodeID n = recent_checks ''failed to get recent successes''
     (\<lambda>c. hk_node_id c = nodeID \<and> hk_status c = HealthCheckStatusSuccess) (limit_rows n)"

definition HealthCountByStatus :: "int \<Rightarrow> string \<Rightarrow> time \<Rightarrow> int fleetop" where
  "HealthCountByStatus nodeID status since = map_err (DatabaseError ''failed to count health checks by status'')
     (query (\<lambda>t. count_rows (\<lambda>c. hk_node_id c = nodeID \<and> hk_status c = status \<and> since \<le> hk_checked_at c) (health_checks t)))"

definition HealthGetAverageLatency :: "int \<Rightarrow> time \<Rightarrow> rat fleetop" where
  "HealthGetAverageLatency nodeID since = map_err (DatabaseError ''failed to get average latency'') (query (\<lambda>t.
     let p = (\<lambda>c. hk_node_id c = nodeID \<and> hk_status c = HealthCheckStatusSuccess \<and> since \<le> hk_checked_at c);
         n = count_rows p (health_checks t)
     in if n = 0 then 0 else f64 (of_int (sum_rows p hk_latency (health_checks t)) / of_int n)))"

definition HealthGetConsecutiveFailures :: "int \<Rightarrow> int fleetop" where
  "HealthGetConsecutiveFailures nodeID = recent_checks ''failed to get health checks'' (\<lambda>c. hk_node_id c = nodeID)
     (\<lambda>cs. int (length (takeWhile (\<lambda>c. hk_status c = HealthCheckStatusFailed) (take 100 cs))))"

definition HealthGetConsecutiveSuccesses :: "int \<Rightarrow> int fleetop" where
  "HealthGetConsecutiveSuccesses nodeID = recent_checks ''failed to get health checks'' (\<lambda>c. hk_node_id c = nodeID)
     (\<lambda>cs. int (length (takeWhile (\<lambda>c. hk_status c = HealthCheckStatusSuccess) (take 100 cs))))"

definition HealthDeleteOlderThan :: "time \<Rightarrow> int fleetop" where
  "HealthDeleteOlderThan before = map_err (DatabaseError ''failed to delete old health checks'')
     (delete_where health_checks health_checks_update (\<lambda>c. hk_checked_at c < before))"

definition HealthDeleteByNodeID :: "int \<Rightarrow> unit fleetop" where
  "HealthDeleteByNodeID nodeID = bindE (map_err (DatabaseError ''failed to delete health checks by node ID'')
     (delete_where health_checks health_checks_update (\<lambda>c. hk_node_id c = nodeID))) (\<lambda>_. ret ())"

end
