(* ===== verification/Health.thy ===== *)
theory Health
  imports FleetStore
begin

text \<open>
  The health checker of the nodes (\<open>internal/node/health_checker.go\<close>): what one check of a node
  finds out, its verdict, and how verdicts move a node between online, unhealthy and offline.
  Everything the checker learns from the network, the clock and the TLS library is a record of
  answers (\<open>probes\<close>); a failed database statement is a fault of the store, as elsewhere.
  Logging and the cancellation of a running round are not modelled.
\<close>

section \<open>Configuration\<close>

record health_config =
  hc_interval :: int
  hc_timeout :: int
  hc_unhealthy_threshold :: int
  hc_healthy_threshold :: int
  hc_retention_days :: int
  hc_max_concurrent :: int

definition DefaultHealthCheckConfig :: health_config where
  "DefaultHealthCheckConfig = \<lparr>hc_interval = 30 * second, hc_timeout = 10 * second, hc_unhealthy_threshold = 3,
     hc_healthy_threshold = 2, hc_retention_days = 7, hc_max_concurrent = 10\<rparr>"

text \<open>The optional collaborators are present or nil.\<close>

record checker =
  ck_config :: health_config
  ck_proxy_repo :: bool
  ck_cert_repo :: bool
  ck_notifications :: bool
  ck_callback :: bool
  ck_running :: bool

definition NewHealthChecker :: "health_config option \<Rightarrow> bool \<Rightarrow> bool \<Rightarrow> checker" where
  "NewHealthChecker config proxyRepo certRepo =
     \<lparr>ck_config = (case config of None \<Rightarrow> DefaultHealthCheckConfig | Some c \<Rightarrow> c),
      ck_proxy_repo = proxyRepo, ck_cert_repo = certRepo, ck_notifications = False, ck_callback = False, ck_running = False\<rparr>"

definition SetOnStatusChange :: "checker \<Rightarrow> checker" where
  "SetOnStatusChange hc = hc\<lparr>ck_callback := True\<rparr>"

definition SetNotificationService :: "checker \<Rightarrow> checker" where
  "SetNotificationService hc = hc\<lparr>ck_notifications := True\<rparr>"

definition Start :: "checker \<Rightarrow> err + checker" where
  "Start hc = (if ck_running hc then Inl (ErrText ''health checker is already running'') else Inr (hc\<lparr>ck_running := True\<rparr>))"

definition Stop :: "checker \<Rightarrow> checker" where
  "Stop hc = (if ck_running hc then hc\<lparr>ck_running := False\<rparr> else hc)"

definition HealthUpdateConfig :: "health_config \<Rightarrow> checker \<Rightarrow> checker" where
  "HealthUpdateConfig config hc = hc\<lparr>ck_config := config\<rparr>"

section \<open>Answers from outside\<close>

record peer_cert =
  pc_raw :: string
  pc_not_before :: time
  pc_not_after :: time

text \<open>
  \<open>pr_dial_proxy\<close> and \<open>pr_handshake\<close> give the text of an error;
  \<open>pr_get\<close> says whether a GET was answered with status 200.
\<close>

record probes =
  pr_checked_at :: time
  pr_elapsed :: int
  pr_dial_node :: "string \<Rightarrow> bool"
  pr_get :: "string \<Rightarrow> bool"
  pr_dial_proxy :: "string \<Rightarrow> string option"
  pr_handshake :: "string \<Rightarrow> string \<Rightarrow> string + peer_cert list"
  pr_verify_hostname :: "peer_cert \<Rightarrow> string \<Rightarrow> string option"
  pr_verify_chain :: "peer_cert list \<Rightarrow> string \<Rightarrow> time \<Rightarrow> string option"
  pr_rfc3339 :: "time \<Rightarrow> string"
  pr_parse_url :: "string \<Rightarrow> string"
  pr_tls_now :: "string \<Rightarrow> time"
  pr_cert_now :: time
  pr_heartbeat_now :: time
  pr_grace_now :: time

record check_result =
  cr_node_id :: int
  cr_status :: string
  cr_tcp_ok :: bool
  cr_api_ok :: bool
  cr_xray_ok :: bool
  cr_latency :: int
  cr_message :: string
  cr_checked_at :: time

definition dial_address :: "string \<Rightarrow> int \<Rightarrow> string" where
  "dial_address address port = JoinHostPort address (show_int port)"

definition checkTCP :: "(string \<Rightarrow> bool) \<Rightarrow> string \<Rightarrow> int \<Rightarrow> bool" where
  "checkTCP dial address port = dial (dial_address address port)"

definition checkAPI :: "probes \<Rightarrow> string \<Rightarrow> int \<Rightarrow> bool" where
  "checkAPI pr address port = pr_get pr (''http://'' @ dial_address address port @ ''/health'')"

definition checkXray :: "probes \<Rightarrow> string \<Rightarrow> int \<Rightarrow> bool" where
  "checkXray pr address port = pr_get pr (''http://'' @ address @ '':'' @ show_int port @ ''/xray/status'')"

section \<open>Certificates\<close>

record certificate_health =
  ch_message :: string
  ch_failed :: bool

definition no_certificate_health :: certificate_health where
  "no_certificate_health = \<lparr>ch_message = [], ch_failed = False\<rparr>"

definition nodeUsesCertificate :: "node_row \<Rightarrow> bool" where
  "nodeUsesCertificate n \<longleftrightarrow> nd_tls_enabled n \<and> nd_certificate_id n \<noteq> None"

definition hm_cert_unchecked :: string where
  "hm_cert_unchecked = utf8 [230, 151, 160, 230, 179, 149, 230, 163, 128, 230, 159, 165, 229, 133, 179,
     232, 129, 148, 232, 175, 129, 228, 185, 166, 231, 138, 182, 230, 128, 129]"

definition hm_cert_unreadable :: string where
  "hm_cert_unreadable = utf8 [230, 151, 160, 230, 179, 149, 232, 175, 187, 229, 143, 150, 229, 133, 179,
     232, 129, 148, 232, 175, 129, 228, 185, 166] @ '' #''"

definition hm_cert_missing :: string where
  "hm_cert_missing = utf8 [229, 133, 179, 232, 129, 148, 232, 175, 129, 228, 185, 166, 228, 184, 141, 229, 173,
     152, 229, 156, 168]"

definition hm_cert_no_dates :: string where
  "hm_cert_no_dates = utf8 [229, 133, 179, 232, 129, 148, 232, 175, 129, 228, 185, 166, 231, 188, 186, 229, 176,
     145, 230, 156, 137, 230, 149, 136, 230, 156, 159, 228, 191, 161, 230, 129, 175]"

definition hm_cert_expired :: string where
  "hm_cert_expired = utf8 [229, 133, 179, 232, 129, 148, 232, 175, 129, 228, 185, 166, 229, 183, 178, 232, 191,
     135, 230, 156, 159]"

definition hm_days :: string where "hm_days = '' '' @ utf8 [229, 164, 169]"

definition hm_cert_expires_in :: string where
  "hm_cert_expires_in = utf8 [232, 175, 129, 228, 185, 166, 229, 176, 134, 229, 156, 168] @ '' ''"

definition hm_days_left :: string where
  "hm_days_left = '' '' @ utf8 [229, 164, 169, 229, 144, 142, 232, 191, 135, 230, 156, 159]"

definition evaluateCertificateHealth :: "cert_row option \<Rightarrow> time \<Rightarrow> certificate_health" where
  "evaluateCertificateHealth cert now = (case cert of
     None \<Rightarrow> \<lparr>ch_message = hm_cert_missing, ch_failed = True\<rparr>
   | Some c \<Rightarrow>
      (let expiresAt = (case ct_expire_date c of None \<Rightarrow> ct_expires_at c | Some d \<Rightarrow> d) in
       if expiresAt = zero_time then \<lparr>ch_message = hm_cert_no_dates, ch_failed = True\<rparr>
       else (let timeUntilExpiry = time_sub expiresAt now; daysLeft = whole_days timeUntilExpiry in
         if timeUntilExpiry \<le> 0 \<or> ct_status c = ''expired''
         then (let daysExpired = max 0 (whole_days (time_sub now expiresAt)) in
           \<lparr>ch_message = (if 0 < daysExpired then hm_cert_expired @ '' '' @ show_int daysExpired @ hm_days else hm_cert_expired),
            ch_failed = True\<rparr>)
         else if daysLeft \<le> 30
         then \<lparr>ch_message = hm_cert_expires_in @ show_int daysLeft @ hm_days_left, ch_failed = False\<rparr>
         else no_certificate_health)))"

definition checkCertificateExpiration :: "checker \<Rightarrow> probes \<Rightarrow> node_row \<Rightarrow> certificate_health fleetop" where
  "checkCertificateExpiration hc pr n =
     (if \<not> nodeUsesCertificate n then ret no_certificate_health
      else if \<not> ck_cert_repo hc then ret \<lparr>ch_message = hm_cert_unchecked, ch_failed = True\<rparr>
      else (let i = the (nd_certificate_id n) in
        bindE (attempt (CertGetByID i)) (\<lambda>r. case r of
          Inl _ \<Rightarrow> ret \<lparr>ch_message = hm_cert_unreadable @ show_int i, ch_failed = True\<rparr>
        | Inr c \<Rightarrow> ret (evaluateCertificateHealth (Some c) (pr_cert_now pr)))))"

definition joined_message :: "string \<Rightarrow> string \<Rightarrow> string" where
  "joined_message a b = a @ ''. '' @ b"

definition applyCertificateHealth :: "check_result \<Rightarrow> certificate_health \<Rightarrow> check_result" where
  "applyCertificateHealth r h =
     (if ch_message h = [] then r
      else if ch_failed h
      then r\<lparr>cr_message := (if cr_status r = HealthCheckStatusSuccess \<or> cr_message r = [] then ch_message h
               else joined_message (cr_message r) (ch_message h)),
             cr_status := HealthCheckStatusFailed\<rparr>
      else r\<lparr>cr_message := (if cr_message r = [] then ch_message h else joined_message (cr_message r) (ch_message h))\<rparr>)"

section \<open>Proxy endpoints\<close>

definition proxyStringSetting :: "settings \<Rightarrow> string list \<Rightarrow> string" where
  "proxyStringSetting s ks = first_nonempty (map (getSettingString s) ks)"

definition proxyUsesTLS :: "proxy_row \<Rightarrow> bool" where
  "proxyUsesTLS p =
     (let s = px_settings p; security = to_lower (proxyStringSetting s [''security'']) in
      if security \<noteq> [] then security = ''tls''
      else (case map_of s ''tls'' of
          Some (VBool b) \<Rightarrow> b
        | Some (VStr t) \<Rightarrow> to_lower (trim_space t) \<in> {''tls'', ''true'', ''1''}
        | Some _ \<Rightarrow> False
        | None \<Rightarrow>
            if proxyStringSetting s [''server_name'', ''sni'', ''tls_domain''] \<noteq> [] then True
            else to_lower (trim_space (px_protocol p)) = ''trojan''))"

definition resolveProxyTLSServerName :: "node_row \<Rightarrow> proxy_row \<Rightarrow> string \<Rightarrow> string" where
  "resolveProxyTLSServerName n p fallback =
     first_nonempty [proxyStringSetting (px_settings p) [''server_name'', ''sni'', ''tls_domain''],
       trim_space (nd_tls_domain n), trim_space fallback]"

definition verifyServedTLSCertificate :: "probes \<Rightarrow> peer_cert list \<Rightarrow> string \<Rightarrow> time \<Rightarrow> string option" where
  "verifyServedTLSCertificate pr certs serverName now = (case certs of
     [] \<Rightarrow> Some ''TLS peer did not provide a certificate''
   | leaf # _ \<Rightarrow>
      if now < pc_not_before leaf
      then Some (''served TLS certificate is not valid before '' @ pr_rfc3339 pr (pc_not_before leaf))
      else if \<not> now < pc_not_after leaf
      then Some (''served TLS certificate expired at '' @ pr_rfc3339 pr (pc_not_after leaf))
      else (case (if serverName \<noteq> [] then pr_verify_hostname pr leaf serverName else None) of
          Some e \<Rightarrow> Some (''served TLS certificate does not match '' @ serverName @ '': '' @ e)
        | None \<Rightarrow> (case pr_verify_chain pr certs serverName now of
            Some e \<Rightarrow> Some (''served TLS certificate chain is invalid: '' @ e)
          | None \<Rightarrow> None)))"

record endpoint_health =
  eh_reachable :: bool
  eh_tls_failure :: bool
  eh_reason :: string

definition reachable :: endpoint_health where
  "reachable = \<lparr>eh_reachable = True, eh_tls_failure = False, eh_reason = []\<rparr>"

definition checkProxyEndpoint :: "probes \<Rightarrow> node_row \<Rightarrow> proxy_row \<Rightarrow> string \<Rightarrow> endpoint_health" where
  "checkProxyEndpoint pr n p host =
     (let address = dial_address host (px_port p) in
      if \<not> proxyUsesTLS p
      then (if checkTCP (\<lambda>a. pr_dial_proxy pr a = None) host (px_port p) then reachable
            else \<lparr>eh_reachable = False, eh_tls_failure = False, eh_reason = ''TCP connection failed''\<rparr>)
      else (let serverName = resolveProxyTLSServerName n p host in
        case pr_dial_proxy pr address of
          Some e \<Rightarrow> \<lparr>eh_reachable = False, eh_tls_failure = False, eh_reason = ''TCP connection failed: '' @ e\<rparr>
        | None \<Rightarrow> (case pr_handshake pr address serverName of
            Inl e \<Rightarrow> \<lparr>eh_reachable = False, eh_tls_failure = True, eh_reason = ''TLS handshake failed: '' @ e\<rparr>
          | Inr certs \<Rightarrow> (case verifyServedTLSCertificate pr certs serverName (pr_tls_now pr address) of
              Some e \<Rightarrow> \<lparr>eh_reachable = False, eh_tls_failure = True, eh_reason = e\<rparr>
            | None \<Rightarrow> reachable))))"

definition resolveHealthCheckProxyHost :: "probes \<Rightarrow> node_row \<Rightarrow> proxy_row \<Rightarrow> string" where
  "resolveHealthCheckProxyHost pr n p =
     (let norm = NormalizeShareHost (pr_parse_url pr) in
      first_nonempty
       [(case map_of (px_settings p) ''server'' of Some (VStr t) \<Rightarrow> norm t | _ \<Rightarrow> []),
        (if to_lower (trim_space (px_remark p)) = ''auto provisioned'' then norm (nd_address n) else []),
        ResolveServerAddress (pr_parse_url pr) (px_host p) (px_settings p),
        norm (nd_address n)])"

text \<open>\<open>selectProxySample\<close>: at most three proxies, the failed ones first, the rest in rotation.\<close>

fun rotate_sample :: "nat \<Rightarrow> proxy_row list \<Rightarrow> proxy_row list \<Rightarrow> nat \<Rightarrow> proxy_row list \<times> nat" where
  "rotate_sample 0 valid res cursor = (res, cursor)"
| "rotate_sample (Suc v) valid res cursor =
     (if 3 \<le> length res then (res, cursor)
      else (let p = valid ! (cursor mod length valid) in
        rotate_sample v valid (if px_id p \<in> px_id ` set res then res else res @ [p]) ((cursor + 1) mod length valid)))"

definition selectProxySample :: "proxy_row list \<Rightarrow> int list \<Rightarrow> nat \<Rightarrow> proxy_row list \<times> nat" where
  "selectProxySample ps failed cursor =
     (let valid = sort_key px_id (filter (\<lambda>p. 0 < px_port p) ps) in
      if valid = [] then ([], 0)
      else rotate_sample (length valid) valid (take 3 (filter (\<lambda>p. px_id p \<in> set failed) valid)) cursor)"

record sampled =
  sp_has :: bool
  sp_any :: bool
  sp_all :: bool
  sp_checked :: int
  sp_target :: string
  sp_reason :: string
  sp_tls :: bool

definition no_sample :: sampled where
  "no_sample = \<lparr>sp_has = False, sp_any = False, sp_all = False, sp_checked = 0, sp_target = [], sp_reason = [], sp_tls = False\<rparr>"

definition note_endpoint :: "string \<Rightarrow> endpoint_health \<Rightarrow> sampled \<Rightarrow> sampled" where
  "note_endpoint target e h =
     (if eh_reachable e then h\<lparr>sp_any := True\<rparr>
      else (let h = h\<lparr>sp_all := False, sp_tls := (sp_tls h \<or> eh_tls_failure e)\<rparr> in
        if sp_target h = [] then h\<lparr>sp_target := target, sp_reason := eh_reason e\<rparr> else h))"

definition mark_probe :: "int \<Rightarrow> int \<Rightarrow> bool \<Rightarrow> fleet \<Rightarrow> fleet" where
  "mark_probe n p ok t = t\<lparr>probeFailures := (probeFailures t)(n :=
     (if ok then removeAll p (probeFailures t n) else List.insert p (probeFailures t n)))\<rparr>"

fun probe_each :: "probes \<Rightarrow> node_row \<Rightarrow> proxy_row list \<Rightarrow> string list \<Rightarrow> sampled \<Rightarrow> sampled fleetop" where
  "probe_each pr n [] targets h = ret h"
| "probe_each pr n (p # ps) targets h =
     (if px_port p \<le> 0 then probe_each pr n ps targets h
      else (let host = resolveHealthCheckProxyHost pr n p; target = host @ '':'' @ show_int (px_port p) in
        if host = [] then probe_each pr n ps targets h
        else if target \<in> set targets then probe_each pr n ps targets h
        else (let e = checkProxyEndpoint pr n p host; h = note_endpoint target e (h\<lparr>sp_checked := sp_checked h + 1\<rparr>) in
          bindE (mem (mark_probe (nd_id n) (px_id p) (eh_reachable e))) (\<lambda>_.
            if 3 \<le> sp_checked h then ret h else probe_each pr n ps (target # targets) h))))"

definition finish_sample :: "sampled \<Rightarrow> sampled" where
  "finish_sample h = (let h = h\<lparr>sp_has := 0 < sp_checked h\<rparr> in if sp_has h then h else h\<lparr>sp_all := False\<rparr>)"

definition checkReachableProxyEndpoint :: "checker \<Rightarrow> probes \<Rightarrow> node_row \<Rightarrow> sampled fleetop" where
  "checkReachableProxyEndpoint hc pr n =
     (if \<not> ck_proxy_repo hc \<or> nd_id n \<le> 0 then ret no_sample
      else bindE (attempt (ProxyGetByNodeID (nd_id n))) (\<lambda>r. case r of
        Inl _ \<Rightarrow> ret no_sample
      | Inr ps \<Rightarrow>
          if ps = [] then ret no_sample
          else bindE (look (\<lambda>t. selectProxySample ps (probeFailures t (nd_id n)) (probeCursor t (nd_id n)))) (\<lambda>(sample, cursor).
            bindE (mem (\<lambda>t. t\<lparr>probeCursor := (probeCursor t)(nd_id n := cursor)\<rparr>)) (\<lambda>_.
            bindE (probe_each pr n sample [] (no_sample\<lparr>sp_all := True\<rparr>)) (\<lambda>h. ret (finish_sample h))))))"

section \<open>Messages\<close>

definition formatSampledProxyEndpointFailure :: "string \<Rightarrow> string \<Rightarrow> sampled \<Rightarrow> string" where
  "formatSampledProxyEndpointFailure before middle h =
     (let reason = trim_space (sp_reason h) in
      before @ sp_target h @ middle @ (if reason = [] then ''connection failed'' else reason))"

definition sampledProxyEndpointFailureMessage :: "sampled \<Rightarrow> string" where
  "sampledProxyEndpointFailureMessage h = (if sp_target h \<noteq> []
     then formatSampledProxyEndpointFailure ''Agent and Xray checks passed, but sampled proxy endpoint ''
       '' is unhealthy from the panel: '' h
     else ''Agent and Xray checks passed, but sampled proxy endpoints are unreachable from the panel'')"

definition sampledProxyEndpointTLSFailureMessage :: "sampled \<Rightarrow> string" where
  "sampledProxyEndpointTLSFailureMessage h = (if sp_target h \<noteq> []
     then formatSampledProxyEndpointFailure ''Sampled TLS proxy endpoint '' '' is unhealthy: '' h
     else ''A sampled TLS proxy endpoint is unhealthy'')"

definition hm_sync_pending :: string where
  "hm_sync_pending = utf8 [233, 133, 141, 231, 189, 174, 229, 144, 140, 230, 173, 165, 230, 156, 170, 229, 174, 140,
     230, 136, 144, 239, 188, 140, 228, 187, 163, 231, 144, 134, 231, 171, 175, 229, 143, 163]"

definition hm_sync_recheck :: string where
  "hm_sync_recheck = utf8 [230, 154, 130, 230, 156, 170, 228, 187, 142, 233, 157, 162, 230, 157, 191, 228, 190, 167,
     232, 191, 158, 233, 128, 154, 239, 188, 155, 231, 173, 137, 229, 190, 133] @ '' Agent ''
     @ utf8 [229, 144, 140, 230, 173, 165, 229, 185, 182, 233, 135, 141, 229, 144, 175] @ '' Xray ''
     @ utf8 [229, 144, 142, 229, 164, 141, 230, 159, 165]"

definition sampledProxyEndpointConfigPendingMessage :: "sampled \<Rightarrow> string" where
  "sampledProxyEndpointConfigPendingMessage h = (if sp_target h \<noteq> []
     then hm_sync_pending @ '' '' @ sp_target h @ '' '' @ hm_sync_recheck else hm_sync_pending @ hm_sync_recheck)"

definition sampledProxyEndpointWarningMessage :: "sampled \<Rightarrow> string" where
  "sampledProxyEndpointWarningMessage h = (if sp_target h \<noteq> []
     then formatSampledProxyEndpointFailure ''Agent and Xray checks passed, but sampled proxy endpoint ''
       '' is unhealthy while at least one sampled proxy endpoint is reachable: '' h
     else ''Agent and Xray checks passed, but some sampled proxy endpoints are unreachable'')"

definition heartbeatFallbackMessage :: "bool \<Rightarrow> string" where
  "heartbeatFallbackMessage hasSampledProxy = (if hasSampledProxy
     then ''Recent heartbeat confirms Xray is running and at least one sampled proxy endpoint is reachable''
     else ''Recent heartbeat confirms Xray is running'')"

definition buildFailureMessage :: "bool \<Rightarrow> bool \<Rightarrow> bool \<Rightarrow> string" where
  "buildFailureMessage tcp api xray =
     (let failures = (if tcp then [] else [''TCP connection failed'']) @ (if api then [] else [''API not responding''])
        @ (if xray then [] else [''Xray not running''])
      in if failures = [] then ''Unknown failure'' else ''Health check failed: ['' @ join_char CHR '' '' failures @ '']'')"

section \<open>The verdict\<close>

definition nodeTrafficLimitExceeded :: "node_row \<Rightarrow> bool" where
  "nodeTrafficLimitExceeded n \<longleftrightarrow> 0 < nd_traffic_limit n \<and> nd_traffic_limit n \<le> nd_traffic_total n"

definition sampledProxyEndpointHasTLSFailure :: "sampled \<Rightarrow> bool" where
  "sampledProxyEndpointHasTLSFailure h \<longleftrightarrow> sp_has h \<and> sp_tls h"

definition sampledProxyEndpointsHealthyForPrimary :: "sampled \<Rightarrow> bool" where
  "sampledProxyEndpointsHealthyForPrimary h \<longleftrightarrow> \<not> sp_has h \<or> sp_all h"

definition shouldDeferProxyEndpointFailureForConfigSync :: "node_row \<Rightarrow> sampled \<Rightarrow> bool" where
  "shouldDeferProxyEndpointFailureForConfigSync n h \<longleftrightarrow>
     nd_sync_status n = NodeSyncStatusPending \<and> sp_has h \<and> \<not> sp_any h \<and> \<not> sp_tls h"

definition shouldTrustRecentHeartbeat :: "node_row \<Rightarrow> int \<Rightarrow> time \<Rightarrow> bool" where
  "shouldTrustRecentHeartbeat n interval now = (case nd_last_seen_at n of
     None \<Rightarrow> False
   | Some seen \<Rightarrow> if \<not> nd_xray_running n then False
       else (let window = (if wrap64 (interval * 2) \<le> 0 then minute else wrap64 (interval * 2)) in time_sub now seen \<le> window))"

definition shouldAcceptHeartbeatFallback :: "bool \<Rightarrow> bool \<Rightarrow> bool \<Rightarrow> bool" where
  "shouldAcceptHeartbeatFallback heartbeatHealthy hasSampledProxy proxyReachable =
     (if \<not> heartbeatHealthy then False else if \<not> hasSampledProxy then True else proxyReachable)"

definition pendingSyncWithinGrace :: "node_row \<Rightarrow> time \<Rightarrow> bool fleetop" where
  "pendingSyncWithinGrace n now =
     (if nd_sync_status n \<noteq> NodeSyncStatusPending
      then bindE (mem (\<lambda>t. t\<lparr>pendingSince := (pendingSince t)(nd_id n := None)\<rparr>)) (\<lambda>_. ret False)
      else bindE (look (\<lambda>t. pendingSince t (nd_id n))) (\<lambda>since. case since of
        None \<Rightarrow> bindE (mem (\<lambda>t. t\<lparr>pendingSince := (pendingSince t)(nd_id n \<mapsto> now)\<rparr>)) (\<lambda>_. ret True)
      | Some s \<Rightarrow> ret (time_sub now s < 2 * minute)))"

text \<open>The chain of conditions of \<open>performCheck\<close>.\<close>

definition check_verdict :: "node_row \<Rightarrow> bool \<Rightarrow> bool \<Rightarrow> bool \<Rightarrow> bool \<Rightarrow> sampled \<Rightarrow> bool \<Rightarrow> string \<times> string" where
  "check_verdict n tcp api xray heartbeatHealthy h pendingGrace =
     (let passed = tcp \<and> api \<and> xray in
      if nodeTrafficLimitExceeded n then (HealthCheckStatusFailed, ''Node traffic limit exceeded'')
      else if sampledProxyEndpointHasTLSFailure h
      then (HealthCheckStatusFailed, sampledProxyEndpointTLSFailureMessage h)
      else if passed \<and> pendingGrace \<and> shouldDeferProxyEndpointFailureForConfigSync n h
      then (HealthCheckStatusSuccess, sampledProxyEndpointConfigPendingMessage h)
      else if passed \<and> sampledProxyEndpointsHealthyForPrimary h
      then (HealthCheckStatusSuccess, ''All checks passed'')
      else if passed \<and> sp_has h \<and> \<not> sp_all h
      then (HealthCheckStatusFailed,
        if sp_any h then sampledProxyEndpointWarningMessage h else sampledProxyEndpointFailureMessage h)
      else if shouldAcceptHeartbeatFallback heartbeatHealthy (sp_has h) (sp_all h)
      then (HealthCheckStatusSuccess, heartbeatFallbackMessage (sp_has h))
      else (HealthCheckStatusFailed,
        if heartbeatHealthy \<and> sp_has h \<and> \<not> sp_any h
        then ''Recent heartbeat confirms Xray is running, but sampled proxy endpoints are unreachable from the panel''
        else buildFailureMessage tcp api xray))"

definition performCheck :: "checker \<Rightarrow> probes \<Rightarrow> node_row \<Rightarrow> check_result fleetop" where
  "performCheck hc pr n =
     (let tcp = checkTCP (pr_dial_node pr) (nd_address n) (nd_port n);
          api = (tcp \<and> checkAPI pr (nd_address n) (nd_port n));
          xray = (api \<and> checkXray pr (nd_address n) (nd_port n));
          latency = (if tcp then pr_elapsed pr else - 1)
      in bindE (checkCertificateExpiration hc pr n) (\<lambda>certHealth.
         let heartbeatHealthy = shouldTrustRecentHeartbeat n (hc_interval (ck_config hc)) (pr_heartbeat_now pr) in
         bindE (checkReachableProxyEndpoint hc pr n) (\<lambda>proxyHealth.
         bindE (pendingSyncWithinGrace n (pr_grace_now pr)) (\<lambda>pendingGrace.
         let (status, message) = check_verdict n tcp api xray heartbeatHealthy proxyHealth pendingGrace in
         ret (applyCertificateHealth \<lparr>cr_node_id = nd_id n, cr_status = status, cr_tcp_ok = tcp, cr_api_ok = api,
            cr_xray_ok = xray, cr_latency = latency, cr_message = message, cr_checked_at = pr_checked_at pr\<rparr> certHealth)))))"

section \<open>Status changes\<close>

definition sendStatusChangeNotification :: "checker \<Rightarrow> node_row \<Rightarrow> string \<Rightarrow> string \<Rightarrow> string \<Rightarrow> unit fleetop" where
  "sendStatusChangeNotification hc n old new reason =
     (if ck_notifications hc
      then mem (\<lambda>t. t\<lparr>notices := notices t @ [\<lparr>sn_node_id = nd_id n, sn_old = old, sn_new = new, sn_reason = reason\<rparr>]\<rparr>)
      else ret ())"

definition call_back :: "checker \<Rightarrow> node_row \<Rightarrow> string \<Rightarrow> string \<Rightarrow> unit fleetop" where
  "call_back hc n old new =
     (if ck_callback hc then mem (\<lambda>t. t\<lparr>callbacks := callbacks t @ [(nd_id n, old, new)]\<rparr>) else ret ())"

definition transition :: "checker \<Rightarrow> node_row \<Rightarrow> string \<Rightarrow> string \<Rightarrow> string \<Rightarrow> unit fleetop" where
  "transition hc n old new reason =
     bindE (attempt (on_nodes (NodeUpdateStatus (nd_id n) new))) (\<lambda>r. case r of
       Inl _ \<Rightarrow> ret ()
     | Inr _ \<Rightarrow> bindE (sendStatusChangeNotification hc n old new reason) (\<lambda>_. call_back hc n old new))"

definition transitionToHealthy :: "checker \<Rightarrow> node_row \<Rightarrow> string \<Rightarrow> unit fleetop" where
  "transitionToHealthy hc n old = transition hc n old NodeStatusOnline ''Node recovered after consecutive successful health checks''"

definition transitionToOnline :: "checker \<Rightarrow> node_row \<Rightarrow> string \<Rightarrow> unit fleetop" where
  "transitionToOnline hc n old = transition hc n old NodeStatusOnline ''Node came online''"

definition transitionToUnhealthy :: "checker \<Rightarrow> node_row \<Rightarrow> string \<Rightarrow> string \<Rightarrow> unit fleetop" where
  "transitionToUnhealthy hc n old reason = transition hc n old NodeStatusUnhealthy reason"

definition count_success :: "int \<Rightarrow> fleet \<Rightarrow> fleet" where
  "count_success i t = t\<lparr>consecutiveFailures := (consecutiveFailures t)(i := 0),
     consecutiveSuccesses := (consecutiveSuccesses t)(i := consecutiveSuccesses t i + 1)\<rparr>"

definition count_failure :: "int \<Rightarrow> fleet \<Rightarrow> fleet" where
  "count_failure i t = t\<lparr>consecutiveSuccesses := (consecutiveSuccesses t)(i := 0),
     consecutiveFailures := (consecutiveFailures t)(i := consecutiveFailures t i + 1)\<rparr>"

definition handleCheckResult :: "checker \<Rightarrow> node_row \<Rightarrow> check_result \<Rightarrow> unit fleetop" where
  "handleCheckResult hc n r =
     bindE (attempt (on_nodes (NodeUpdateMetrics (nd_id n) (cr_latency r) (nd_current_users n)))) (\<lambda>_.
     if cr_status r = HealthCheckStatusSuccess
     then bindE (mem (count_success (nd_id n))) (\<lambda>_.
          bindE (look (\<lambda>t. consecutiveSuccesses t (nd_id n))) (\<lambda>k.
          if nd_status n = NodeStatusUnhealthy \<and> hc_healthy_threshold (ck_config hc) \<le> k
          then transitionToHealthy hc n (nd_status n)
          else if nd_status n = NodeStatusOffline then transitionToOnline hc n (nd_status n)
          else ret ()))
     else bindE (mem (count_failure (nd_id n))) (\<lambda>_.
          bindE (look (\<lambda>t. consecutiveFailures t (nd_id n))) (\<lambda>k.
          if nd_status n = NodeStatusOnline \<and> hc_unhealthy_threshold (ck_config hc) \<le> k
          then transitionToUnhealthy hc n (nd_status n) (cr_message r)
          else ret ())))"

section \<open>Checks and rounds\<close>

definition check_record :: "int \<Rightarrow> check_result \<Rightarrow> health_row" where
  "check_record nodeID r = \<lparr>hk_id = 0, hk_node_id = nodeID, hk_status = cr_status r, hk_latency = cr_latency r,
     hk_message = cr_message r, hk_tcp_ok = cr_tcp_ok r, hk_api_ok = cr_api_ok r, hk_xray_ok = cr_xray_ok r,
     hk_checked_at = cr_checked_at r\<rparr>"

definition check_and_save :: "checker \<Rightarrow> probes \<Rightarrow> node_row \<Rightarrow> check_result fleetop" where
  "check_and_save hc pr n = bindE (performCheck hc pr n) (\<lambda>r.
     bindE (attempt (HealthCreate (check_record (nd_id n) r))) (\<lambda>_. ret r))"

definition checkNode :: "checker \<Rightarrow> probes \<Rightarrow> node_row \<Rightarrow> check_result fleetop" where
  "checkNode hc pr n = bindE (check_and_save hc pr n) (\<lambda>r. bindE (handleCheckResult hc n r) (\<lambda>_. ret r))"

definition cleanupOldRecords :: "checker \<Rightarrow> time \<Rightarrow> unit fleetop" where
  "cleanupOldRecords hc now = bindE (attempt (HealthDeleteOlderThan (add_days now (- hc_retention_days (ck_config hc))))) (\<lambda>_. ret ())"

text \<open>
  A round checks the listed nodes in the order in which their goroutines finish, which the
  argument \<open>order\<close> gives; \<open>pr i\<close> are the answers for node \<open>i\<close>.
\<close>

fun check_each :: "(node_row \<Rightarrow> 'a fleetop) \<Rightarrow> node_row list \<Rightarrow> 'a list fleetop" where
  "check_each f [] = ret []"
| "check_each f (n # ns) = bindE (f n) (\<lambda>r. bindE (check_each f ns) (\<lambda>rs. ret (r # rs)))"

definition checkAllNodes :: "engine \<Rightarrow> (node_row list \<Rightarrow> node_row list) \<Rightarrow> checker \<Rightarrow> (int \<Rightarrow> probes) \<Rightarrow> time \<Rightarrow> unit fleetop" where
  "checkAllNodes eng order hc pr now = bindE (attempt (on_nodes (NodeList eng None))) (\<lambda>r. case r of
     Inl _ \<Rightarrow> ret ()
   | Inr ns \<Rightarrow> if ns = [] then ret ()
       else bindE (check_each (\<lambda>n. checkNode hc (pr (nd_id n)) n) (order ns)) (\<lambda>_. cleanupOldRecords hc now))"

definition CheckNode :: "checker \<Rightarrow> probes \<Rightarrow> int \<Rightarrow> check_result fleetop" where
  "CheckNode hc pr nodeID = bindE (map_err (\<lambda>e. Wrapped e ''node not found'') (on_nodes (NodeGetByID nodeID)))
     (check_and_save hc pr)"

definition CheckAll :: "engine \<Rightarrow> (node_row list \<Rightarrow> node_row list) \<Rightarrow> checker \<Rightarrow> (int \<Rightarrow> probes) \<Rightarrow> check_result list fleetop" where
  "CheckAll eng order hc pr = bindE (map_err (\<lambda>e. Wrapped e ''failed to list nodes'') (on_nodes (NodeList eng None))) (\<lambda>ns.
     if ns = [] then ret [] else check_each (\<lambda>n. check_and_save hc (pr (nd_id n)) n) (order ns))"

definition GetHistory :: "int \<Rightarrow> int \<Rightarrow> health_row list fleetop" where
  "GetHistory = HealthGetByNodeID"

definition GetConsecutiveFailures :: "int \<Rightarrow> fleet \<Rightarrow> int" where
  "GetConsecutiveFailures i t = consecutiveFailures t i"

definition GetConsecutiveSuccesses :: "int \<Rightarrow> fleet \<Rightarrow> int" where
  "GetConsecutiveSuccesses i t = consecutiveSuccesses t i"

section \<open>What a check leaves alone\<close>

text \<open>Every check returns a result, and up to it neither the nodes nor the counters change.\<close>

definition quiet :: "fleet \<Rightarrow> fleet \<Rightarrow> bool" where
  "quiet t t' \<longleftrightarrow> fl_nodes t' = fl_nodes t \<and> consecutiveFailures t' = consecutiveFailures t
     \<and> consecutiveSuccesses t' = consecutiveSuccesses t"

lemma quiet_refl [simp]: "quiet t t"
  by (simp add: quiet_def)

lemma quiet_trans [trans]: "quiet t u \<Longrightarrow> quiet u v \<Longrightarrow> quiet t v"
  by (simp add: quiet_def)

definition quietly :: "'a fleetop \<Rightarrow> bool" where
  "quietly m \<longleftrightarrow> (\<forall>t. wpt m (\<lambda>_ t'. quiet t t') (\<lambda>_ _. False) t)"

lemma quietlyD: "quietly m \<Longrightarrow> wpt m (\<lambda>_ t'. quiet t t') (\<lambda>_ _. False) t"
  by (simp add: quietly_def)

lemma quietly_ret: "quietly (ret x)"
  by (auto simp: quietly_def intro: wpt_rules)

lemma quietly_bind: "quietly m \<Longrightarrow> (\<And>x. quietly (f x)) \<Longrightarrow> quietly (bindE m f)"
  unfolding quietly_def
proof (intro allI wpt_bind)
  fix t assume m: "\<forall>t. wpt m (\<lambda>_ t'. quiet t t') (\<lambda>_ _. False) t" and f: "\<And>x. \<forall>t. wpt (f x) (\<lambda>_ t'. quiet t t') (\<lambda>_ _. False) t"
  show "wpt m (\<lambda>x. wpt (f x) (\<lambda>_. quiet t) (\<lambda>_ _. False)) (\<lambda>_ _. False) t"
    by (rule wpt_mono [OF m [rule_format]]) (auto intro: wpt_mono [OF f [rule_format]] quiet_trans)
qed

lemma quietly_if: "(b \<Longrightarrow> quietly m) \<Longrightarrow> (\<not> b \<Longrightarrow> quietly n) \<Longrightarrow> quietly (if b then m else n)"
  by simp

lemma quietly_case_sum: "(\<And>e. quietly (f e)) \<Longrightarrow> (\<And>x. quietly (g x)) \<Longrightarrow> quietly (case r of Inl e \<Rightarrow> f e | Inr x \<Rightarrow> g x)"
  by (cases r) simp_all

lemma quietly_case_option: "quietly m \<Longrightarrow> (\<And>x. quietly (f x)) \<Longrightarrow> quietly (case r of None \<Rightarrow> m | Some x \<Rightarrow> f x)"
  by (cases r) simp_all

lemma quietly_case_prod: "(\<And>a b. quietly (f a b)) \<Longrightarrow> quietly (case p of (a, b) \<Rightarrow> f a b)"
  by (cases p) simp

lemma quietly_look: "quietly (look f)"
  by (auto simp: quietly_def intro: wpt_rules)

lemma quietly_mem: "(\<And>t. quiet t (f t)) \<Longrightarrow> quietly (mem f)"
  by (auto simp: quietly_def intro: wpt_rules)

lemma quietly_attempt: "(\<And>t. wpt m (\<lambda>_ t'. quiet t t') (\<lambda>_ t'. quiet t t') t) \<Longrightarrow> quietly (attempt m)"
  unfolding quietly_def by (auto intro: wpt_attempt)

lemmas quietly_rules = quietly_ret quietly_bind quietly_if quietly_case_sum quietly_case_option quietly_case_prod
  quietly_look

lemma cert_get_quiet: "wpt (CertGetByID i) (\<lambda>_ t'. quiet t t') (\<lambda>_ t'. quiet t t') t"
  unfolding CertGetByID_def by (intro wpt_rules) simp_all

lemma proxies_get_quiet: "wpt (ProxyGetByNodeID i) (\<lambda>_ t'. quiet t t') (\<lambda>_ t'. quiet t t') t"
  unfolding ProxyGetByNodeID_def proxies_where_def by (intro wpt_rules) simp_all

lemma health_create_quiet: "wpt (HealthCreate c) (\<lambda>_ t'. quiet t t') (\<lambda>_ t'. quiet t t') t"
  unfolding HealthCreate_def by (intro wpt_rules) (simp_all add: quiet_def)

lemma probe_each_quiet: "quietly (probe_each pr n ps targets h)"
proof (induction pr n ps targets h rule: probe_each.induct)
  case (2 pr n p ps targets h)
  then show ?case
    unfolding probe_each.simps Let_def
    by (intro quietly_if quietly_bind quietly_ret quietly_mem) (simp_all add: mark_probe_def quiet_def)
qed (simp add: quietly_ret)

lemma performCheck_quiet: "quietly (performCheck hc pr n)"
  unfolding performCheck_def checkCertificateExpiration_def checkReachableProxyEndpoint_def pendingSyncWithinGrace_def Let_def
  by (intro quietly_rules quietly_mem quietly_attempt cert_get_quiet proxies_get_quiet probe_each_quiet) (simp_all add: quiet_def)

lemma check_and_save_quiet: "quietly (check_and_save hc pr n)"
  unfolding check_and_save_def
  by (intro quietly_rules performCheck_quiet quietly_attempt health_create_quiet)

section \<open>Runs without faults\<close>

definition calm :: "('t, 'a) op \<Rightarrow> bool" where
  "calm m \<longleftrightarrow> (\<forall>w. faults w = [] \<longrightarrow> faults (snd (m w)) = [])"

lemma calm_ret: "calm (ret x)" "calm (raise e)" "calm (guardE b e)" "calm (look f)" "calm (mem g)"
  by (simp_all add: calm_def ret_def raise_def guardE_def look_def mem_def)

lemma calm_stmt: "calm (stmt f)"
  by (auto simp: calm_def stmt_run split: sum.split)

lemma calm_sql: "calm (query q)" "calm (first sel p)" "calm (create sel upd clash mk)" "calm (update_where sel upd p f)"
    "calm (delete_where sel upd p)"
  by (simp_all add: query_def first_def create_def update_where_def delete_where_def calm_stmt)

lemma calm_bind: "calm m \<Longrightarrow> (\<And>x. calm (f x)) \<Longrightarrow> calm (bindE m f)"
proof -
  assume m: "calm m" and f: "\<And>x. calm (f x)"
  show ?thesis unfolding calm_def
  proof (intro allI impI)
    fix w :: "'a world" assume w: "faults w = []"
    obtain r w' where r: "m w = (r, w')" by fastforce
    then have "faults w' = []" using m w by (auto simp: calm_def)
    then show "faults (snd (bindE m f w)) = []"
      using f by (cases r) (simp_all add: bindE_def r calm_def)
  qed
qed

lemma calm_map_err: "calm m \<Longrightarrow> calm (map_err h m)"
  unfolding calm_def map_err_def by (auto split: prod.splits sum.splits)

lemma calm_attempt: "calm m \<Longrightarrow> calm (attempt m)"
  unfolding calm_def attempt_def by (auto split: prod.splits)

lemma calm_part: "calm m \<Longrightarrow> calm (on_part view wr m)"
proof -
  assume m: "calm m"
  have "faults (snd (on_part view wr m w)) = []" if "faults w = []" for w
    using m [unfolded calm_def, rule_format, of "\<lparr>tables = view (tables w), faults = faults w, in_tx = in_tx w\<rparr>"] that
    by (auto simp: on_part_def split: prod.split)
  then show ?thesis by (simp add: calm_def)
qed

lemma calm_cases:
  "(b \<Longrightarrow> calm m) \<Longrightarrow> (\<not> b \<Longrightarrow> calm n) \<Longrightarrow> calm (if b then m else n)"
  "(\<And>e. calm (f e)) \<Longrightarrow> (\<And>x. calm (g x)) \<Longrightarrow> calm (case r of Inl e \<Rightarrow> f e | Inr x \<Rightarrow> g x)"
  "calm k \<Longrightarrow> (\<And>x. calm (h x)) \<Longrightarrow> calm (case s of None \<Rightarrow> k | Some x \<Rightarrow> h x)"
  "(\<And>a b. calm (l a b)) \<Longrightarrow> calm (case p of (a, b) \<Rightarrow> l a b)"
  by (simp_all split: sum.split option.split prod.split)

lemmas calm_rules = calm_ret calm_sql calm_bind calm_map_err calm_attempt calm_part calm_cases

lemma runs_calm: "calm m \<Longrightarrow> wpt m Q (\<lambda>_ _. False) t \<Longrightarrow> runs m Q t"
  unfolding runs_def
proof (intro allI impI)
  fix w :: "'a world"
  assume c: "calm m" and m: "wpt m Q (\<lambda>_ _. False) t" and w: "tables w = t \<and> faults w = []"
  obtain r w' where r: "m w = (r, w')" by fastforce
  have "faults w' = []" using c w r by (auto simp: calm_def)
  moreover obtain x where "r = Inr x" "Q x (tables w')" using wpt_run [of m Q "\<lambda>_ _. False" w r w'] m w r by (cases r) auto
  ultimately show "\<exists>x w'. m w = (Inr x, w') \<and> faults w' = [] \<and> Q x (tables w')" using r by blast
qed

lemma probe_each_calm: "calm (probe_each pr n ps targets h)"
proof (induction pr n ps targets h rule: probe_each.induct)
  case (2 pr n p ps targets h)
  then show ?case unfolding probe_each.simps Let_def by (intro calm_cases calm_bind calm_ret) simp_all
qed (simp add: calm_ret)

lemma check_and_save_calm: "calm (check_and_save hc pr n)"
  unfolding check_and_save_def performCheck_def checkCertificateExpiration_def checkReachableProxyEndpoint_def
    pendingSyncWithinGrace_def CertGetByID_def ProxyGetByNodeID_def proxies_where_def HealthCreate_def Let_def
  by (intro calm_rules probe_each_calm)

lemma check_runs: "runs (check_and_save hc pr n) (\<lambda>_ t'. quiet t t') t"
  by (rule runs_calm [OF check_and_save_calm quietlyD [OF check_and_save_quiet]])

section \<open>How a result moves a node\<close>

definition statuses :: "fleet \<Rightarrow> (int \<times> string) list" where
  "statuses t = map (\<lambda>n. (nd_id n, nd_status n)) (rows (nodes (fl_nodes t)))"

definition set_status :: "int \<Rightarrow> string \<Rightarrow> (int \<times> string) list \<Rightarrow> (int \<times> string) list" where
  "set_status i s = map (\<lambda>(j, s'). (j, if j = i then s else s'))"

text \<open>Only the statuses change, and only from a list to another.\<close>

definition moves :: "(int \<times> string) list \<Rightarrow> fleet \<Rightarrow> fleet \<Rightarrow> bool" where
  "moves ss t t' \<longleftrightarrow> statuses t' = ss \<and> consecutiveFailures t' = consecutiveFailures t
     \<and> consecutiveSuccesses t' = consecutiveSuccesses t"

lemma moves_refl [simp]: "moves (statuses t) t t"
  by (simp add: moves_def)

lemma set_node_wpt:
  "wpt (set_node msg i f) (\<lambda>_ d'. d' = d\<lparr>nodes := upd_rows (\<lambda>n. nd_id n = i) f (nodes d)\<rparr> \<and> (\<exists>n \<in> set (rows (nodes d)). nd_id n = i))
     (\<lambda>_ d'. d' = d \<or> d' = d\<lparr>nodes := upd_rows (\<lambda>n. nd_id n = i) f (nodes d)\<rparr> \<and> \<not> (\<exists>n \<in> set (rows (nodes d)). nd_id n = i)) d"
  unfolding set_node_def rows_or_missing_def
  by (intro wpt_rules) (auto simp: count_rows_zero)

lemma upd_rows_none: "(\<And>r. r \<in> set (rows t) \<Longrightarrow> \<not> p r) \<Longrightarrow> upd_rows p f t = t"
  by (simp add: upd_rows_def map_idI)

lemma statuses_upd:
  "(\<And>n. nd_id (f n) = nd_id n) \<Longrightarrow> (\<And>n. nd_status (f n) = nd_status n)
   \<Longrightarrow> statuses (t\<lparr>fl_nodes := (fl_nodes t)\<lparr>nodes := upd_rows p f (nodes (fl_nodes t))\<rparr>\<rparr>) = statuses t"
  by (simp add: statuses_def upd_rows_def comp_def)

lemma statuses_set:
  "statuses (t\<lparr>fl_nodes := (fl_nodes t)\<lparr>nodes := upd_rows (\<lambda>n. nd_id n = i) (\<lambda>n. n\<lparr>nd_status := s\<rparr>) (nodes (fl_nodes t))\<rparr>\<rparr>)
    = set_status i s (statuses t)"
  by (simp add: statuses_def set_status_def upd_rows_def comp_def)

lemma metrics_wpt:
  "wpt (on_nodes (NodeUpdateMetrics i l k)) (\<lambda>_ t'. moves (statuses t) t t') (\<lambda>_ t'. moves (statuses t) t t') t"
  unfolding on_nodes_def NodeUpdateMetrics_def
  by (rule wpt_part, rule wpt_mono [OF set_node_wpt]) (auto simp: moves_def statuses_upd)

lemma status_wpt:
  "wpt (on_nodes (NodeUpdateStatus i s)) (\<lambda>_ t'. moves (set_status i s (statuses t)) t t')
     (\<lambda>_ t'. moves (statuses t) t t') t"
  unfolding on_nodes_def NodeUpdateStatus_def
proof (rule wpt_part, rule wpt_mono [OF set_node_wpt], goal_cases)
  case (1 x d')
  then show ?case by (simp add: moves_def statuses_set)
next
  case (2 e d')
  then show ?case by (auto simp: moves_def upd_rows_none)
qed

lemma transition_wpt:
  "wpt (transition hc n old new reason)
     (\<lambda>_ t'. moves (statuses t) t t' \<or> moves (set_status (nd_id n) new (statuses t)) t t') (\<lambda>_ _. False) t"
  unfolding transition_def sendStatusChangeNotification_def call_back_def
  by (rule wpt_bind, rule wpt_attempt, rule wpt_mono [OF status_wpt])
    (auto simp: moves_def statuses_def intro!: wpt_rules)

text \<open>The counters after a result, and the change of status it may cause.\<close>

definition counted :: "int \<Rightarrow> bool \<Rightarrow> fleet \<Rightarrow> fleet \<Rightarrow> bool" where
  "counted i ok t t' \<longleftrightarrow>
     consecutiveFailures t' = (consecutiveFailures t)(i := if ok then 0 else consecutiveFailures t i + 1)
   \<and> consecutiveSuccesses t' = (consecutiveSuccesses t)(i := if ok then consecutiveSuccesses t i + 1 else 0)"

definition due :: "checker \<Rightarrow> node_row \<Rightarrow> bool \<Rightarrow> fleet \<Rightarrow> string option" where
  "due hc n ok t = (if ok
     then (if nd_status n = NodeStatusUnhealthy \<and> hc_healthy_threshold (ck_config hc) \<le> consecutiveSuccesses t (nd_id n) + 1
             \<or> nd_status n = NodeStatusOffline then Some NodeStatusOnline else None)
     else (if nd_status n = NodeStatusOnline \<and> hc_unhealthy_threshold (ck_config hc) \<le> consecutiveFailures t (nd_id n) + 1
           then Some NodeStatusUnhealthy else None))"

definition outcome :: "checker \<Rightarrow> node_row \<Rightarrow> bool \<Rightarrow> fleet \<Rightarrow> fleet \<Rightarrow> bool" where
  "outcome hc n ok t t' \<longleftrightarrow> counted (nd_id n) ok t t'
     \<and> (statuses t' = statuses t \<or> (\<exists>s. due hc n ok t = Some s \<and> statuses t' = set_status (nd_id n) s (statuses t)))"

lemma transition_outcome:
  "counted (nd_id n) ok t u \<Longrightarrow> statuses u = statuses t \<Longrightarrow> due hc n ok t = Some new
   \<Longrightarrow> wpt (transition hc n old new reason) (\<lambda>_. outcome hc n ok t) (\<lambda>_ _. False) u"
  by (rule wpt_mono [OF transition_wpt]) (auto simp: moves_def counted_def outcome_def)

lemma count_moves:
  assumes "moves (statuses t) t u"
  shows "counted i True t (count_success i u)" "counted i False t (count_failure i u)"
    and "statuses (count_success i u) = statuses t" "statuses (count_failure i u) = statuses t"
    and "consecutiveSuccesses (count_success i u) i = consecutiveSuccesses t i + 1"
    and "consecutiveFailures (count_failure i u) i = consecutiveFailures t i + 1"
  using assms by (auto simp: counted_def moves_def count_success_def count_failure_def statuses_def)

lemma handle_rest:
  assumes "moves (statuses t) t u"
  shows "wpt (if ok
     then bindE (mem (count_success (nd_id n))) (\<lambda>_. bindE (look (\<lambda>t. consecutiveSuccesses t (nd_id n))) (\<lambda>k.
          if nd_status n = NodeStatusUnhealthy \<and> hc_healthy_threshold (ck_config hc) \<le> k
          then transitionToHealthy hc n (nd_status n)
          else if nd_status n = NodeStatusOffline then transitionToOnline hc n (nd_status n) else ret ()))
     else bindE (mem (count_failure (nd_id n))) (\<lambda>_. bindE (look (\<lambda>t. consecutiveFailures t (nd_id n))) (\<lambda>k.
          if nd_status n = NodeStatusOnline \<and> hc_unhealthy_threshold (ck_config hc) \<le> k
          then transitionToUnhealthy hc n (nd_status n) (cr_message r) else ret ())))
     (\<lambda>_. outcome hc n ok t) (\<lambda>_ _. False) u"
  unfolding transitionToHealthy_def transitionToOnline_def transitionToUnhealthy_def
  using count_moves [OF assms, of "nd_id n"]
  by (intro wpt_rules transition_outcome) (auto simp: due_def outcome_def)

lemma handle_wpt:
  "wpt (handleCheckResult hc n r) (\<lambda>_. outcome hc n (cr_status r = HealthCheckStatusSuccess) t) (\<lambda>_ _. False) t"
  unfolding handleCheckResult_def
  by (rule wpt_bind, rule wpt_attempt, rule wpt_mono [OF metrics_wpt]) (erule handle_rest)+

lemma checkNode_wpt:
  "wpt (checkNode hc pr n) (\<lambda>r. outcome hc n (cr_status r = HealthCheckStatusSuccess) t) (\<lambda>_ _. False) t"
  unfolding checkNode_def
proof (rule wpt_bind, rule wpt_mono [OF quietlyD [OF check_and_save_quiet]], goal_cases)
  case (1 r u)
  then have "statuses u = statuses t" "consecutiveFailures u = consecutiveFailures t" "consecutiveSuccesses u = consecutiveSuccesses t"
    by (simp_all add: quiet_def statuses_def)
  then have "outcome hc n ok u = outcome hc n ok t" for ok
    by (simp add: outcome_def counted_def due_def fun_eq_iff)
  then show ?case by (intro wpt_bind wpt_ret) (rule wpt_mono [OF handle_wpt], auto intro: wpt_rules)
qed simp

text \<open>Without faults a change of status that is due takes place.\<close>

lemma set_node_runs:
  "\<exists>n \<in> set (rows (nodes d)). nd_id n = i
   \<Longrightarrow> runs (set_node msg i f) (\<lambda>_ d'. d' = d\<lparr>nodes := upd_rows (\<lambda>n. nd_id n = i) f (nodes d)\<rparr>) d"
  unfolding set_node_def rows_or_missing_def update_where_def
  by (intro runs_rules) (auto simp: runs_def stmt_run count_rows_zero guardE_def ret_def)

definition node_present :: "int \<Rightarrow> fleet \<Rightarrow> bool" where
  "node_present i t \<longleftrightarrow> (\<exists>n \<in> set (rows (nodes (fl_nodes t))). nd_id n = i)"

lemma node_present_statuses: "node_present i t \<longleftrightarrow> i \<in> fst ` set (statuses t)"
  by (force simp: node_present_def statuses_def)

lemma transition_runs:
  assumes "node_present (nd_id n) t"
  shows "runs (transition hc n old new reason) (\<lambda>_ t'. moves (set_status (nd_id n) new (statuses t)) t t') t"
  unfolding transition_def sendStatusChangeNotification_def call_back_def on_nodes_def NodeUpdateStatus_def
  by (rule runs_bind, rule runs_attempt, rule runs_part, rule runs_mono [OF set_node_runs])
    (use assms in \<open>auto simp: moves_def statuses_set node_present_def intro!: runs_rules\<close>, simp_all add: statuses_def set_status_def upd_rows_def comp_def)

definition exact_outcome :: "checker \<Rightarrow> node_row \<Rightarrow> bool \<Rightarrow> fleet \<Rightarrow> fleet \<Rightarrow> bool" where
  "exact_outcome hc n ok t t' \<longleftrightarrow> counted (nd_id n) ok t t'
     \<and> statuses t' = (case due hc n ok t of None \<Rightarrow> statuses t | Some s \<Rightarrow> set_status (nd_id n) s (statuses t))"

lemma transition_exact:
  "counted (nd_id n) ok t u \<Longrightarrow> statuses u = statuses t \<Longrightarrow> due hc n ok t = Some new \<Longrightarrow> node_present (nd_id n) t
   \<Longrightarrow> runs (transition hc n old new reason) (\<lambda>_. exact_outcome hc n ok t) u"
  by (rule runs_mono [OF transition_runs])
    (auto simp: moves_def counted_def exact_outcome_def node_present_statuses)

lemma handle_rest_exact:
  assumes "moves (statuses t) t u" and "node_present (nd_id n) t"
  shows "runs (if ok
     then bindE (mem (count_success (nd_id n))) (\<lambda>_. bindE (look (\<lambda>t. consecutiveSuccesses t (nd_id n))) (\<lambda>k.
          if nd_status n = NodeStatusUnhealthy \<and> hc_healthy_threshold (ck_config hc) \<le> k
          then transitionToHealthy hc n (nd_status n)
          else if nd_status n = NodeStatusOffline then transitionToOnline hc n (nd_status n) else ret ()))
     else bindE (mem (count_failure (nd_id n))) (\<lambda>_. bindE (look (\<lambda>t. consecutiveFailures t (nd_id n))) (\<lambda>k.
          if nd_status n = NodeStatusOnline \<and> hc_unhealthy_threshold (ck_config hc) \<le> k
          then transitionToUnhealthy hc n (nd_status n) (cr_message r) else ret ())))
     (\<lambda>_. exact_outcome hc n ok t) u"
  unfolding transitionToHealthy_def transitionToOnline_def transitionToUnhealthy_def
  using count_moves [OF assms(1), of "nd_id n"] assms(2)
  by (intro runs_rules transition_exact) (auto simp: due_def exact_outcome_def)

lemma handle_runs:
  "node_present (nd_id n) t
   \<Longrightarrow> runs (handleCheckResult hc n r) (\<lambda>_. exact_outcome hc n (cr_status r = HealthCheckStatusSuccess) t) t"
  unfolding handleCheckResult_def on_nodes_def NodeUpdateMetrics_def
proof (rule runs_bind, rule runs_attempt, rule runs_part, rule runs_mono [OF set_node_runs], goal_cases)
  case (2 x d')
  then have "moves (statuses t) t (t\<lparr>fl_nodes := d'\<rparr>)" by (simp add: moves_def statuses_upd)
  then show ?case using 2(1) by (rule handle_rest_exact)
qed (simp add: node_present_def)

lemma checkNode_runs:
  assumes "node_present (nd_id n) t"
  shows "runs (checkNode hc pr n) (\<lambda>r. exact_outcome hc n (cr_status r = HealthCheckStatusSuccess) t) t"
  unfolding checkNode_def
proof (rule runs_bind, rule runs_mono [OF check_runs], goal_cases)
  case (1 r u)
  then have s: "statuses u = statuses t" "consecutiveFailures u = consecutiveFailures t" "consecutiveSuccesses u = consecutiveSuccesses t"
    by (simp_all add: quiet_def statuses_def)
  then have "exact_outcome hc n ok u = exact_outcome hc n ok t" for ok
    by (simp add: exact_outcome_def counted_def due_def fun_eq_iff)
  then show ?case
    using handle_runs [of n u hc r] assms s(1)
    by (auto simp: node_present_statuses intro!: runs_bind runs_ret elim!: runs_mono)
qed

section \<open>Histories of checks\<close>

text \<open>
  A history lists the verdicts of the checker's own rounds, node by node.  Manual checks add
  nothing to it, and between two checks any other component may change the tables.
\<close>

inductive health_history :: "(int \<times> bool) list \<Rightarrow> fleet world \<Rightarrow> bool" where
  start: "consecutiveFailures (tables w) = (\<lambda>_. 0) \<Longrightarrow> consecutiveSuccesses (tables w) = (\<lambda>_. 0)
    \<Longrightarrow> health_history [] w"
| checked: "health_history tr w \<Longrightarrow> checkNode hc pr n w = (Inr r, w')
    \<Longrightarrow> health_history (tr @ [(nd_id n, cr_status r = HealthCheckStatusSuccess)]) w'"
| manual: "health_history tr w \<Longrightarrow> check_and_save hc pr n w = (x, w') \<Longrightarrow> health_history tr w'"
| outside: "health_history tr w \<Longrightarrow> consecutiveFailures (tables w') = consecutiveFailures (tables w)
    \<Longrightarrow> consecutiveSuccesses (tables w') = consecutiveSuccesses (tables w) \<Longrightarrow> health_history tr w'"

definition run_length :: "bool \<Rightarrow> int \<Rightarrow> (int \<times> bool) list \<Rightarrow> int" where
  "run_length b i tr = int (length (takeWhile (\<lambda>v. v = b) (rev (map snd (filter (\<lambda>v. fst v = i) tr)))))"

lemma run_length_simps [simp]:
  "run_length b i [] = 0"
  "run_length b i (tr @ [(j, ok)]) = (if j = i then if ok = b then run_length b i tr + 1 else 0 else run_length b i tr)"
  by (simp_all add: run_length_def)

lemma history_counters:
  "health_history tr w \<Longrightarrow> consecutiveFailures (tables w) i = run_length False i tr
     \<and> consecutiveSuccesses (tables w) i = run_length True i tr"
proof (induction rule: health_history.induct)
  case (checked tr w hc pr n r w')
  have "outcome hc n (cr_status r = HealthCheckStatusSuccess) (tables w) (tables w')"
    using wptD_Inr [OF checkNode_wpt checked(2)] .
  with checked.IH show ?case by (auto simp: outcome_def counted_def)
next
  case (manual tr w hc pr n x w')
  have "quiet (tables w) (tables w')"
    using wpt_run [OF quietlyD [OF check_and_save_quiet] manual(2)] by (cases x) auto
  with manual.IH show ?case by (simp add: quiet_def)
qed simp_all

lemma check_each_history:
  "health_history tr w \<Longrightarrow> check_each (\<lambda>n. checkNode hc (pr (nd_id n)) n) ns w = (x, w') \<Longrightarrow> \<exists>tr'. health_history (tr @ tr') w'"
proof (induction ns arbitrary: tr w x w')
  case (Cons n ns)
  obtain y v where c: "checkNode hc (pr (nd_id n)) n w = (y, v)" by fastforce
  then obtain r where r: "y = Inr r"
    using wpt_run [OF checkNode_wpt c] by (cases y) auto
  obtain z u where d: "check_each (\<lambda>n. checkNode hc (pr (nd_id n)) n) ns v = (z, u)" by fastforce
  have "u = w'" using Cons.prems(2) c r d by (auto simp: bindE_def ret_def split: sum.splits)
  moreover have "health_history (tr @ [(nd_id n, cr_status r = HealthCheckStatusSuccess)]) v"
    using Cons.prems(1) c r by (auto intro: health_history.checked)
  ultimately show ?case using Cons.IH [OF _ d] by force
qed (auto simp: ret_def intro: exI [of _ "[]"])

lemma node_list_same: "wpt (on_nodes (NodeList eng fo)) (\<lambda>_ t'. t' = t) (\<lambda>_ t'. t' = t) t"
  unfolding on_nodes_def NodeList_def by (rule wpt_part, intro wpt_rules) simp_all

text \<open>A whole round is such a history.\<close>

lemma round_history:
  assumes h: "health_history tr w" and m: "checkAllNodes eng order hc pr now w = (x, w')"
  shows "\<exists>tr'. health_history (tr @ tr') w'"
proof -
  obtain y v where o: "on_nodes (NodeList eng None) w = (y, v)" by fastforce
  then have l: "attempt (on_nodes (NodeList eng None)) w = (Inr y, v)" by (simp add: attempt_def)
  have "tables v = tables w"
    using wpt_run [OF node_list_same o] by (cases y) auto
  then have v: "health_history tr v" using h by (auto intro: health_history.outside)
  have keep: "health_history tr' w'" if "health_history tr' u" "cleanupOldRecords hc now u = (z, w')" for tr' u z
  proof -
    have "wpt (cleanupOldRecords hc now) (\<lambda>_ t'. quiet (tables u) t') (\<lambda>_ t'. quiet (tables u) t') (tables u)"
      unfolding cleanupOldRecords_def HealthDeleteOlderThan_def by (intro wpt_rules) (simp_all add: quiet_def)
    from wpt_run [OF this that(2)] have "quiet (tables u) (tables w')" by (cases z) auto
    then show ?thesis using that(1) by (auto simp: quiet_def intro: health_history.outside)
  qed
  show ?thesis
  proof (cases y)
    case (Inl e)
    then have "w' = v" using m l by (simp add: checkAllNodes_def bindE_def ret_def)
    then show ?thesis using v by (metis append_Nil2)
  next
    case (Inr ns)
    show ?thesis
    proof (cases "ns = []")
      case True
      then have "w' = v" using m l Inr by (simp add: checkAllNodes_def bindE_def ret_def)
      then show ?thesis using v by (metis append_Nil2)
    next
      case False
      obtain z u where c: "check_each (\<lambda>n. checkNode hc (pr (nd_id n)) n) (order ns) v = (z, u)" by fastforce
      obtain tr' where u: "health_history (tr @ tr') u" using check_each_history [OF v c] by blast
      show ?thesis
      proof (cases z)
        case (Inl e)
        then have "w' = u" using m l Inr \<open>y = Inr ns\<close> False c by (simp add: checkAllNodes_def bindE_def)
        then show ?thesis using u by blast
      next
        case z: (Inr rs)
        then have "cleanupOldRecords hc now u = (x, w')" using m l \<open>y = Inr ns\<close> False c by (simp add: checkAllNodes_def bindE_def)
        then show ?thesis using keep u by blast
      qed
    qed
  qed
qed

section \<open>The abstract machine\<close>

text \<open>Status, failures in a row and successes in a row of one node, and what a verdict does to them.\<close>

fun debounce :: "health_config \<Rightarrow> string \<times> int \<times> int \<Rightarrow> bool \<Rightarrow> string \<times> int \<times> int" where
  "debounce c (s, f, k) True =
     (if s = NodeStatusUnhealthy \<and> hc_healthy_threshold c \<le> k + 1 \<or> s = NodeStatusOffline then NodeStatusOnline else s, 0, k + 1)"
| "debounce c (s, f, k) False =
     (if s = NodeStatusOnline \<and> hc_unhealthy_threshold c \<le> f + 1 then NodeStatusUnhealthy else s, f + 1, 0)"

definition node_view :: "int \<Rightarrow> fleet \<Rightarrow> (string \<times> int \<times> int) option" where
  "node_view i t = (case map_of (statuses t) i of None \<Rightarrow> None
     | Some s \<Rightarrow> Some (s, consecutiveFailures t i, consecutiveSuccesses t i))"

text \<open>A node checked again and again, with its row read before each check.\<close>

fun check_again :: "checker \<Rightarrow> int \<Rightarrow> probes list \<Rightarrow> check_result list fleetop" where
  "check_again hc i [] = ret []"
| "check_again hc i (pr # prs) = bindE (on_nodes (NodeGetByID i)) (\<lambda>n. bindE (checkNode hc pr n) (\<lambda>r.
     bindE (check_again hc i prs) (\<lambda>rs. ret (r # rs))))"

definition verdicts :: "check_result list \<Rightarrow> bool list" where
  "verdicts rs = map (\<lambda>r. cr_status r = HealthCheckStatusSuccess) rs"

lemma map_of_set_status: "map_of (set_status i s ss) j = (if j = i then map_option (\<lambda>_. s) (map_of ss j) else map_of ss j)"
  by (induction ss) (auto simp: set_status_def)

lemma find_status: "map_of (statuses t) i = Some s
   \<Longrightarrow> \<exists>n. find (\<lambda>n. nd_id n = i) (rows (nodes (fl_nodes t))) = Some n \<and> nd_id n = i \<and> nd_status n = s"
proof -
  have "map_of (map (\<lambda>n. (nd_id n, nd_status n)) ns) i = Some s
     \<Longrightarrow> \<exists>n. find (\<lambda>n. nd_id n = i) ns = Some n \<and> nd_id n = i \<and> nd_status n = s" for ns
    by (induction ns) (auto split: if_splits)
  then show "map_of (statuses t) i = Some s \<Longrightarrow> \<exists>n. find (\<lambda>n. nd_id n = i) (rows (nodes (fl_nodes t))) = Some n \<and> nd_id n = i \<and> nd_status n = s"
    by (simp add: statuses_def)
qed

lemma exact_outcome_debounce:
  assumes "exact_outcome hc n ok t t'" and "node_view (nd_id n) t = Some (nd_status n, f, k)"
  shows "node_view (nd_id n) t' = Some (debounce (ck_config hc) (nd_status n, f, k) ok)"
  using assms
  by (cases ok) (auto simp: exact_outcome_def counted_def due_def node_view_def map_of_set_status split: option.splits if_splits)

lemma check_once_runs:
  assumes "node_view i t = Some v"
  shows "runs (bindE (on_nodes (NodeGetByID i)) (\<lambda>n. checkNode hc pr n))
    (\<lambda>r t'. node_view i t' = Some (debounce (ck_config hc) v (cr_status r = HealthCheckStatusSuccess))) t"
proof -
  obtain s where s: "map_of (statuses t) i = Some s" and v: "v = (s, consecutiveFailures t i, consecutiveSuccesses t i)"
    using assms by (auto simp: node_view_def split: option.splits)
  obtain n where n: "find (\<lambda>n. nd_id n = i) (rows (nodes (fl_nodes t))) = Some n" "nd_id n = i" "nd_status n = s"
    using find_status [OF s] by blast
  have p: "node_present (nd_id n) t" using n(1,2) by (auto simp: node_present_def dest: find_Some_iff_In)
  have w: "node_view (nd_id n) t = Some (nd_status n, consecutiveFailures t i, consecutiveSuccesses t i)" using assms v n by simp
  have "runs (on_nodes (NodeGetByID i)) (\<lambda>x t'. x = n \<and> t' = t) t"
    unfolding on_nodes_def NodeGetByID_def by (rule runs_part, intro runs_rules) (use n in auto)
  then show ?thesis
  proof (intro runs_bind, elim runs_mono, goal_cases)
    case (1 x t')
    then have "x = n" "t' = t" by simp_all
    moreover have "runs (checkNode hc pr n) (\<lambda>r t'. node_view i t' = Some (debounce (ck_config hc) v (cr_status r = HealthCheckStatusSuccess))) t"
      by (rule runs_mono [OF checkNode_runs [OF p]]) (use exact_outcome_debounce [OF _ w] n v in simp)
    ultimately show ?case by simp
  qed
qed

lemma check_again_runs:
  "node_view i t = Some v \<Longrightarrow> runs (check_again hc i prs) (\<lambda>rs t'. length rs = length prs
     \<and> node_view i t' = Some (foldl (debounce (ck_config hc)) v (verdicts rs))) t"
proof (induction prs arbitrary: t v)
  case Nil
  then show ?case by (simp add: verdicts_def runs_ret)
next
  case (Cons pr prs)
  have eq: "check_again hc i (pr # prs) = bindE (bindE (on_nodes (NodeGetByID i)) (\<lambda>n. checkNode hc pr n))
      (\<lambda>r. bindE (check_again hc i prs) (\<lambda>rs. ret (r # rs)))"
    by (simp add: bindE_def fun_eq_iff split: prod.split sum.split)
  show ?case unfolding eq
    by (rule runs_bind, rule runs_mono [OF check_once_runs [OF Cons.prems]], rule runs_bind, rule runs_mono [OF Cons.IH], assumption)
      (auto simp: verdicts_def intro!: runs_ret)
qed

section \<open>Properties\<close>

text \<open>
  (C20) Status changes are debounced.  After any history of checks, with manual checks and changes by
  other components in between, a further check changes a stored status only for the node it
  checked, and only in one of two ways: to unhealthy, if the node was online and this is at
  least the configured number of failures in a row, or to online, if this check succeeded and
  the node was offline, or unhealthy with at least the configured number of successes in a row.
\<close>

theorem status_changes_debounced:
  assumes "health_history tr w" and "checkNode hc pr n w = (Inr r, w')"
    and "statuses (tables w') \<noteq> statuses (tables w)"
  shows "cr_status r \<noteq> HealthCheckStatusSuccess \<and> nd_status n = NodeStatusOnline
      \<and> hc_unhealthy_threshold (ck_config hc) \<le> run_length False (nd_id n) tr + 1
      \<and> statuses (tables w') = set_status (nd_id n) NodeStatusUnhealthy (statuses (tables w))
    \<or> cr_status r = HealthCheckStatusSuccess
      \<and> (nd_status n = NodeStatusOffline
         \<or> nd_status n = NodeStatusUnhealthy \<and> hc_healthy_threshold (ck_config hc) \<le> run_length True (nd_id n) tr + 1)
      \<and> statuses (tables w') = set_status (nd_id n) NodeStatusOnline (statuses (tables w))"
proof -
  let ?ok = "cr_status r = HealthCheckStatusSuccess"
  have "outcome hc n ?ok (tables w) (tables w')" using wptD_Inr [OF checkNode_wpt assms(2)] .
  then obtain s where d: "due hc n ?ok (tables w) = Some s" and s: "statuses (tables w') = set_status (nd_id n) s (statuses (tables w))"
    using assms(3) by (auto simp: outcome_def)
  then show ?thesis
    using history_counters [OF assms(1), of "nd_id n"] by (cases ?ok) (auto simp: due_def split: if_splits)
qed

definition sample_probes :: "bool \<Rightarrow> probes" where
  "sample_probes up = \<lparr>pr_checked_at = 1, pr_elapsed = 5, pr_dial_node = \<lambda>_. up, pr_get = \<lambda>_. up,
     pr_dial_proxy = \<lambda>_. None, pr_handshake = \<lambda>_ _. Inr [], pr_verify_hostname = \<lambda>_ _. None,
     pr_verify_chain = \<lambda>_ _ _. None, pr_rfc3339 = \<lambda>_. [], pr_parse_url = id, pr_tls_now = \<lambda>_. 1,
     pr_cert_now = 1, pr_heartbeat_now = 1, pr_grace_now = 1\<rparr>"

definition sample_checker :: checker where
  "sample_checker = SetNotificationService (NewHealthChecker (Some (DefaultHealthCheckConfig\<lparr>hc_unhealthy_threshold := 1\<rparr>)) True True)"

definition sample_snapshot :: "string \<Rightarrow> node_row" where
  "sample_snapshot s = (sample_node 4 1 0)\<lparr>nd_status := s, nd_port := 1\<rparr>"

definition sample_fleet :: "string \<Rightarrow> fleet" where
  "sample_fleet s = \<lparr>fl_nodes = \<lparr>nodes = \<lparr>rows = [sample_snapshot s], seq = 4\<rparr>, node_groups = \<lparr>rows = [], seq = 0\<rparr>,
       group_members = \<lparr>rows = [], seq = 0\<rparr>, assignments = \<lparr>rows = [], seq = 0\<rparr>, panel_users = \<lparr>rows = [], seq = 0\<rparr>\<rparr>,
     proxies = \<lparr>rows = [], seq = 0\<rparr>, certificates = \<lparr>rows = [], seq = 0\<rparr>, health_checks = \<lparr>rows = [], seq = 0\<rparr>,
     consecutiveFailures = \<lambda>_. 0, consecutiveSuccesses = \<lambda>_. 0, pendingSince = \<lambda>_. None, probeCursor = \<lambda>_. 0,
     probeFailures = \<lambda>_. [], notices = [], callbacks = []\<rparr>"

definition sample_fleet_world :: "string \<Rightarrow> fleet world" where
  "sample_fleet_world s = \<lparr>tables = sample_fleet s, faults = [], in_tx = False\<rparr>"

theorem status_changes_debounced_witness:
  "\<exists>r w'. checkNode sample_checker (sample_probes False) (sample_snapshot NodeStatusOnline) (sample_fleet_world NodeStatusOnline) = (Inr r, w')
     \<and> cr_status r \<noteq> HealthCheckStatusSuccess
     \<and> hc_unhealthy_threshold (ck_config sample_checker) \<le> run_length False 4 [] + 1
     \<and> statuses (tables w') = [(4, NodeStatusUnhealthy)]"
proof -
  let ?m = "checkNode sample_checker (sample_probes False) (sample_snapshot NodeStatusOnline) (sample_fleet_world NodeStatusOnline)"
  let ?r = "projr (fst ?m)" and ?w = "snd ?m"
  have "\<not> isl (fst ?m)" by code_simp
  then have m: "?m = (Inr ?r, ?w)" by (rule run_Inr)
  have h: "health_history [] (sample_fleet_world NodeStatusOnline)"
    by (rule health_history.start) (simp_all add: sample_fleet_world_def sample_fleet_def)
  have before: "statuses (tables (sample_fleet_world NodeStatusOnline)) = [(4, ''online'')]" by code_simp
  have after: "statuses (tables ?w) = [(4, ''unhealthy'')]" by code_simp
  have id: "nd_id (sample_snapshot NodeStatusOnline) = 4" by code_simp
  have on: "nd_status (sample_snapshot NodeStatusOnline) = NodeStatusOnline" by (simp add: sample_snapshot_def)
  have "statuses (tables ?w) \<noteq> statuses (tables (sample_fleet_world NodeStatusOnline))"
    unfolding before after by simp
  from status_changes_debounced [OF h m this] show ?thesis
    using m after on unfolding id by (intro exI [of _ ?r] exI [of _ ?w]) (auto simp: node_status_defs)
qed

text \<open>
  (C22) Repeated checks of a node refine the debouncing machine: when no statement fails, each check of
  a stored node returns a verdict, and the node's status with its two counters is
  what the abstract machine makes of the sequence of verdicts.
\<close>

theorem checks_refine_debounce:
  assumes "faults w = []" and "node_view i (tables w) = Some v"
  shows "\<exists>rs w'. check_again hc i prs w = (Inr rs, w') \<and> length rs = length prs
    \<and> node_view i (tables w') = Some (foldl (debounce (ck_config hc)) v (verdicts rs))"
  using runsD [OF check_again_runs [OF assms(2)] assms(1)] by blast

theorem checks_refine_debounce_witness:
  "\<exists>rs w'. check_again sample_checker 4 [sample_probes True, sample_probes True] (sample_fleet_world NodeStatusUnhealthy) = (Inr rs, w')
     \<and> length rs = 2 \<and> node_view 4 (tables w') = Some (foldl (debounce (ck_config sample_checker)) (NodeStatusUnhealthy, 0, 0) (verdicts rs))"
proof -
  have f: "faults (sample_fleet_world NodeStatusUnhealthy) = []" by code_simp
  have "node_view 4 (tables (sample_fleet_world NodeStatusUnhealthy)) = Some (''unhealthy'', 0, 0)" by code_simp
  then have v: "node_view 4 (tables (sample_fleet_world NodeStatusUnhealthy)) = Some (NodeStatusUnhealthy, 0, 0)"
    by (simp add: NodeStatusUnhealthy_def)
  from checks_refine_debounce [OF f v, of sample_checker "[sample_probes True, sample_probes True]"] show ?thesis
    by (simp add: numeral_2_eq_2)
qed

lemma debounce_failing:
  "True \<notin> set vs \<Longrightarrow> fst v = NodeStatusUnhealthy \<or> fst v = NodeStatusOnline \<and> vs \<noteq> [] \<and> hc_unhealthy_threshold c \<le> fst (snd v) + int (length vs)
   \<Longrightarrow> fst (foldl (debounce c) v vs) = NodeStatusUnhealthy"
proof (induction vs arbitrary: v)
  case (Cons ok vs)
  obtain s f k where v: "v = (s, f, k)" by (cases v) auto
  show ?case using Cons.prems by (auto simp: v intro!: Cons.IH split: if_splits)
qed simp

lemma debounce_passing:
  "False \<notin> set vs \<Longrightarrow> fst v = NodeStatusOnline \<or> fst v = NodeStatusUnhealthy \<and> vs \<noteq> [] \<and> hc_healthy_threshold c \<le> snd (snd v) + int (length vs)
   \<Longrightarrow> fst (foldl (debounce c) v vs) = NodeStatusOnline"
proof (induction vs arbitrary: v)
  case (Cons ok vs)
  obtain s f k where v: "v = (s, f, k)" by (cases v) auto
  show ?case using Cons.prems by (auto simp: v intro!: Cons.IH split: if_splits)
qed simp

text \<open>
  (C23) The thresholds are reached: when no statement fails, an online node whose checks all fail is stored
  as unhealthy after the configured number of checks at the latest, and an unhealthy node whose
  checks all succeed is stored as online after the configured number of checks.
\<close>

theorem thresholds_reached:
  assumes "faults w = []" and "node_view i (tables w) = Some (s, f, k)" and "0 \<le> f" and "0 \<le> k" and "prs \<noteq> []"
  shows "\<exists>rs w' s'. check_again hc i prs w = (Inr rs, w') \<and> map_of (statuses (tables w')) i = Some s'
    \<and> (s = NodeStatusOnline \<and> True \<notin> set (verdicts rs)
         \<and> hc_unhealthy_threshold (ck_config hc) \<le> int (length prs) \<longrightarrow> s' = NodeStatusUnhealthy)
    \<and> (s = NodeStatusUnhealthy \<and> False \<notin> set (verdicts rs)
         \<and> hc_healthy_threshold (ck_config hc) \<le> int (length prs) \<longrightarrow> s' = NodeStatusOnline)"
proof -
  obtain rs w' where run: "check_again hc i prs w = (Inr rs, w')" and len: "length rs = length prs"
      and view: "node_view i (tables w') = Some (foldl (debounce (ck_config hc)) (s, f, k) (verdicts rs))"
    using runsD [OF check_again_runs [OF assms(2)] assms(1)] by blast
  have n: "verdicts rs \<noteq> []" "length (verdicts rs) = length prs" using assms(5) len by (auto simp: verdicts_def)
  obtain s' f' k' where fin: "foldl (debounce (ck_config hc)) (s, f, k) (verdicts rs) = (s', f', k')" by (metis prod_cases3)
  then have st: "map_of (statuses (tables w')) i = Some s'" using view by (simp add: node_view_def split: option.splits)
  have down: "s' = NodeStatusUnhealthy" if "s = NodeStatusOnline" "True \<notin> set (verdicts rs)"
      "hc_unhealthy_threshold (ck_config hc) \<le> int (length prs)"
    using debounce_failing [of "verdicts rs" "(s, f, k)" "ck_config hc"] that n assms(3) fin by simp
  have up: "s' = NodeStatusOnline" if "s = NodeStatusUnhealthy" "False \<notin> set (verdicts rs)"
      "hc_healthy_threshold (ck_config hc) \<le> int (length prs)"
    using debounce_passing [of "verdicts rs" "(s, f, k)" "ck_config hc"] that n assms(4) fin by simp
  show ?thesis using run st down up by blast
qed

theorem thresholds_reached_witness:
  "\<exists>rs w' s'. check_again sample_checker 4 [sample_probes False] (sample_fleet_world NodeStatusOnline) = (Inr rs, w')
     \<and> verdicts rs = [False] \<and> map_of (statuses (tables w')) 4 = Some s' \<and> s' = NodeStatusUnhealthy"
proof -
  have f: "faults (sample_fleet_world NodeStatusOnline) = []" by code_simp
  have "node_view 4 (tables (sample_fleet_world NodeStatusOnline)) = Some (''online'', 0, 0)" by code_simp
  then have v: "node_view 4 (tables (sample_fleet_world NodeStatusOnline)) = Some (NodeStatusOnline, 0, 0)"
    by (simp add: NodeStatusOnline_def)
  have vs: "map_sum id verdicts (fst (check_again sample_checker 4 [sample_probes False] (sample_fleet_world NodeStatusOnline))) = Inr [False]"
    by code_simp
  have u: "hc_unhealthy_threshold (ck_config sample_checker) = 1" by code_simp
  from thresholds_reached [OF f v, of "[sample_probes False]" sample_checker]
  show ?thesis using vs u by auto
qed

section \<open>What a healthy verdict says\<close>

definition expiry :: "cert_row \<Rightarrow> time" where
  "expiry c = (case ct_expire_date c of None \<Rightarrow> ct_expires_at c | Some d \<Rightarrow> d)"

definition certificate_in_force :: "fleet \<Rightarrow> node_row \<Rightarrow> time \<Rightarrow> bool" where
  "certificate_in_force t n now \<longleftrightarrow> (\<exists>c \<in> set (rows (certificates t)). nd_certificate_id n = Some (ct_id c)
     \<and> ct_status c \<noteq> ''expired'' \<and> now < expiry c)"

lemma time_sub_le0: "time_sub t u \<le> 0 \<longleftrightarrow> t \<le> u"
  by (auto simp: time_sub_def i64_defs min_def)

lemma hm_nonempty: "hm_cert_unchecked \<noteq> []" "hm_cert_unreadable \<noteq> []" "hm_cert_missing \<noteq> []" "hm_cert_no_dates \<noteq> []"
    "hm_cert_expired \<noteq> []"
  by (simp_all add: hm_cert_unchecked_def hm_cert_unreadable_def hm_cert_missing_def hm_cert_no_dates_def hm_cert_expired_def utf8_def)

lemma evaluate_failed: "ch_failed (evaluateCertificateHealth (Some c) now) \<longleftrightarrow>
    expiry c = zero_time \<or> expiry c \<le> now \<or> ct_status c = ''expired''"
  by (auto simp: evaluateCertificateHealth_def expiry_def Let_def time_sub_le0 no_certificate_health_def)

lemma evaluate_message: "ch_failed (evaluateCertificateHealth co now) \<Longrightarrow> ch_message (evaluateCertificateHealth co now) \<noteq> []"
  by (auto simp: evaluateCertificateHealth_def Let_def hm_nonempty no_certificate_health_def split: option.splits if_splits)

lemma certificate_wpt:
  "wpt (checkCertificateExpiration hc pr n)
     (\<lambda>h t'. (ch_failed h \<longrightarrow> ch_message h \<noteq> [])
        \<and> (\<not> ch_failed h \<and> nodeUsesCertificate n \<longrightarrow> certificate_in_force t n (pr_cert_now pr)))
     (\<lambda>_ _. False) t"
proof -
  have c: "certificate_in_force t n (pr_cert_now pr)"
    if "find (\<lambda>c. ct_id c = the (nd_certificate_id n)) (rows (certificates t)) = Some c" "nodeUsesCertificate n"
      "\<not> ch_failed (evaluateCertificateHealth (Some c) (pr_cert_now pr))" for c
    using that by (force simp: certificate_in_force_def nodeUsesCertificate_def evaluate_failed not_le dest!: find_Some_iff_In)
  show ?thesis
    unfolding checkCertificateExpiration_def Let_def CertGetByID_def
    by (intro wpt_rules) (auto simp: hm_nonempty no_certificate_health_def evaluate_message intro: c)
qed

text \<open>The chain of conditions in a closed form.\<close>

lemma verdict_success:
  "fst (check_verdict n tcp api xray beat h grace) = HealthCheckStatusSuccess \<longleftrightarrow>
     \<not> nodeTrafficLimitExceeded n \<and> \<not> (sp_has h \<and> sp_tls h)
   \<and> (tcp \<and> api \<and> xray \<and> (\<not> sp_has h \<or> sp_all h \<or> grace \<and> nd_sync_status n = NodeSyncStatusPending \<and> \<not> sp_any h)
      \<or> beat \<and> (\<not> sp_has h \<or> sp_all h))"
  unfolding check_verdict_def Let_def sampledProxyEndpointHasTLSFailure_def sampledProxyEndpointsHealthyForPrimary_def
    shouldDeferProxyEndpointFailureForConfigSync_def shouldAcceptHeartbeatFallback_def
  by auto

lemma apply_certificate_status:
  "cr_status (applyCertificateHealth r h) = (if ch_failed h \<and> ch_message h \<noteq> [] then HealthCheckStatusFailed else cr_status r)"
  by (simp add: applyCertificateHealth_def)

lemma apply_certificate_keeps [simp]: "cr_tcp_ok (applyCertificateHealth r h) = cr_tcp_ok r"
    "cr_api_ok (applyCertificateHealth r h) = cr_api_ok r" "cr_xray_ok (applyCertificateHealth r h) = cr_xray_ok r"
  by (simp_all add: applyCertificateHealth_def)



section \<open>The sample of proxies\<close>

lemma rotate_fresh:
  fixes valid :: "proxy_row list"
  assumes d: "distinct (map px_id valid)" and j: "j \<le> length valid" "j \<le> 3" and n: "valid \<noteq> []"
  shows "v = length valid - j \<Longrightarrow>
    rotate_sample v valid (map (\<lambda>i. valid ! ((c + i) mod length valid)) [0..<j]) (if j = 0 then c else (c + j) mod length valid)
    = (map (\<lambda>i. valid ! ((c + i) mod length valid)) [0..<min 3 (length valid)], (c + min 3 (length valid)) mod length valid)"
  using j
proof (induction v arbitrary: j)
  case 0
  then have "j = length valid" by simp
  with 0 n show ?case by (auto simp: min_def)
next
  case (Suc v)
  let ?n = "length valid" and ?at = "\<lambda>i. valid ! ((c + i) mod length valid)"
  show ?case
  proof (cases "j = 3")
    case True
    then show ?thesis unfolding rotate_sample.simps using Suc.prems by (simp add: min_def)
  next
    case False
    with Suc.prems have j: "j < 3" "j < ?n" by auto
    have "?at i \<noteq> ?at j" "px_id (?at i) \<noteq> px_id (?at j)" if "i < j" for i
    proof -
      have "(c + i) mod ?n \<noteq> (c + j) mod ?n"
      proof
        assume "(c + i) mod ?n = (c + j) mod ?n"
        then have "?n dvd (c + j) - (c + i)" using that by (metis add_le_cancel_left less_imp_le mod_eq_dvd_iff_nat)
        then show False using that j by (auto dest: dvd_imp_le)
      qed
      moreover have "(c + i) mod ?n < ?n" "(c + j) mod ?n < ?n" using n by simp_all
      ultimately show "px_id (?at i) \<noteq> px_id (?at j)" using d by (auto simp: distinct_conv_nth)
      then show "?at i \<noteq> ?at j" by auto
    qed
    then have fresh: "px_id (?at j) \<notin> px_id ` set (map ?at [0..<j])" by fastforce
    have cur: "(if j = 0 then c else (c + j) mod ?n) mod ?n = (c + j) mod ?n" by simp
    have step: "((if j = 0 then c else (c + j) mod ?n) + 1) mod ?n = (c + Suc j) mod ?n" by (simp add: mod_simps)
    have ext: "map ?at [0..<j] @ [?at j] = map ?at [0..<Suc j]" by simp
    have v: "v = ?n - Suc j" using Suc.prems j by simp
    have "rotate_sample v valid (map ?at [0..<Suc j]) ((c + Suc j) mod ?n)
        = (map ?at [0..<min 3 ?n], (c + min 3 ?n) mod ?n)"
      using Suc.IH [OF v] j by simp
    moreover have "\<not> 3 \<le> length (map ?at [0..<j])" using j by simp
    ultimately show ?thesis
      unfolding rotate_sample.simps Let_def cur step if_not_P [OF fresh] ext by (simp only: if_False not_False_eq_True)
  qed
qed

lemma rotate_extends: "set res \<subseteq> set (fst (rotate_sample v valid res c))"
proof (induction v valid res c rule: rotate_sample.induct)
  case (2 v valid res c)
  then show ?case by (auto simp: Let_def split: if_splits)
qed simp

lemma rotate_length: "length res \<le> 3 \<Longrightarrow> length (fst (rotate_sample v valid res c)) \<le> 3"
proof (induction v valid res c rule: rotate_sample.induct)
  case (2 v valid res c)
  then show ?case by (auto simp: Let_def)
qed simp

definition probed :: "proxy_row list \<Rightarrow> proxy_row list" where
  "probed ps = sort_key px_id (filter (\<lambda>p. 0 < px_port p) ps)"

text \<open>The proxies sampled in consecutive rounds while none of them fails.\<close>

fun sample_rounds :: "nat \<Rightarrow> proxy_row list \<Rightarrow> nat \<Rightarrow> proxy_row list" where
  "sample_rounds 0 ps c = []"
| "sample_rounds (Suc k) ps c = (case selectProxySample ps [] c of (s, c') \<Rightarrow> s @ sample_rounds k ps c')"

lemma sample_fresh:
  assumes "distinct (map px_id ps)" and "probed ps \<noteq> []"
  shows "selectProxySample ps [] c = (map (\<lambda>i. probed ps ! ((c + i) mod length (probed ps))) [0..<min 3 (length (probed ps))],
    (c + min 3 (length (probed ps))) mod length (probed ps))"
proof -
  have "distinct (map px_id (filter (\<lambda>p. 0 < px_port p) ps))" using assms(1) by (simp add: distinct_map_filter)
  then have "distinct (map px_id (probed ps))" by (simp add: probed_def distinct_map)
  from rotate_fresh [OF this, of 0 "length (probed ps)" c] assms(2) show ?thesis
    by (simp add: selectProxySample_def probed_def [symmetric] Let_def)
qed

lemma rounds_cover:
  assumes "distinct (map px_id ps)" and "probed ps \<noteq> []"
  shows "set (sample_rounds k ps c) = (\<lambda>i. probed ps ! ((c + i) mod length (probed ps))) ` {0..<k * min 3 (length (probed ps))}"
proof (induction k arbitrary: c)
  case (Suc k)
  let ?n = "length (probed ps)" and ?at = "\<lambda>c i. probed ps ! ((c + i) mod length (probed ps))"
  let ?m = "min 3 ?n"
  have shift: "?at ((c + ?m) mod ?n) = (\<lambda>i. ?at c (?m + i))" by (rule ext) (simp add: mod_simps add.assoc)
  have "?at ((c + ?m) mod ?n) ` {0..<k * ?m} = ?at c ` ((+) ?m ` {0..<k * ?m})" unfolding shift image_image by (rule refl)
  moreover have "(+) ?m ` {0..<k * ?m} = {?m..<Suc k * ?m}" by (simp add: add.commute)
  moreover have "{0..<Suc k * ?m} = {0..<?m} \<union> {?m..<Suc k * ?m}" by (auto simp: ivl_disj_un)
  ultimately show ?case using Suc.IH by (simp add: sample_fresh [OF assms] image_Un)
qed simp

text \<open>
  (C24) The three proxies probed in a round are chosen so that nothing is overlooked.  A sample has at
  most three of them; a proxy that failed stays in the sample until it recovers, as long as at
  most three fail; and while none fails, every proxy with a port is sampled
  once in a third as many rounds as there are proxies, wherever the rotation stands.
\<close>

theorem proxy_rotation:
  assumes "distinct (map px_id ps)"
  shows "length (fst (selectProxySample ps failed c)) \<le> 3
    \<and> (length (filter (\<lambda>p. px_id p \<in> set failed \<and> 0 < px_port p) ps) \<le> 3 \<longrightarrow>
         {p \<in> set ps. px_id p \<in> set failed \<and> 0 < px_port p} \<subseteq> set (fst (selectProxySample ps failed c)))
    \<and> (length (filter (\<lambda>p. 0 < px_port p) ps) \<le> 3 * k \<longrightarrow>
         set (sample_rounds k ps c) = {p \<in> set ps. 0 < px_port p})"
proof (intro conjI impI)
  have len: "length (probed ps) = length (filter (\<lambda>p. 0 < px_port p) ps)" and set: "set (probed ps) = {p \<in> set ps. 0 < px_port p}"
    by (auto simp: probed_def)
  show "length (fst (selectProxySample ps failed c)) \<le> 3"
    by (simp add: selectProxySample_def Let_def rotate_length)
  show "{p \<in> set ps. px_id p \<in> set failed \<and> 0 < px_port p} \<subseteq> set (fst (selectProxySample ps failed c))"
    if few: "length (filter (\<lambda>p. px_id p \<in> set failed \<and> 0 < px_port p) ps) \<le> 3"
  proof (cases "probed ps = []")
    case True
    then have "\<forall>p \<in> set ps. \<not> 0 < px_port p" using set by auto
    then show ?thesis by auto
  next
    case False
    have "filter (\<lambda>p. px_id p \<in> set failed) (probed ps) = sort_key px_id (filter (\<lambda>p. px_id p \<in> set failed \<and> 0 < px_port p) ps)"
      by (simp add: probed_def filter_sort conj_commute)
    then have t: "take 3 (filter (\<lambda>p. px_id p \<in> set failed) (probed ps)) = filter (\<lambda>p. px_id p \<in> set failed) (probed ps)"
      using few by simp
    have "selectProxySample ps failed c = rotate_sample (length (probed ps)) (probed ps) (filter (\<lambda>p. px_id p \<in> set failed) (probed ps)) c"
      using False by (simp add: selectProxySample_def probed_def [symmetric] Let_def t)
    then show ?thesis using rotate_extends [of "filter (\<lambda>p. px_id p \<in> set failed) (probed ps)" "length (probed ps)" "probed ps" c] set by auto
  qed
  show "set (sample_rounds k ps c) = {p \<in> set ps. 0 < px_port p}" if k: "length (filter (\<lambda>p. 0 < px_port p) ps) \<le> 3 * k"
  proof (cases "probed ps = []")
    case True
    then have "selectProxySample ps [] c = ([], 0)" for c by (simp add: selectProxySample_def probed_def [symmetric])
    then have "sample_rounds k ps c = []" for c by (induction k arbitrary: c) simp_all
    then show ?thesis using set True by simp
  next
    case False
    let ?n = "length (probed ps)"
    have "?n \<le> k * min 3 ?n" using k len False by (cases k) (auto simp: min_def)
    then have "{0..<?n} \<subseteq> {0..<k * min 3 ?n}" by auto
    then have sub: "(\<lambda>i. probed ps ! ((c + i) mod ?n)) ` {0..<?n} \<subseteq> (\<lambda>i. probed ps ! ((c + i) mod ?n)) ` {0..<k * min 3 ?n}"
      by (rule image_mono)
    have all: "(\<lambda>i. probed ps ! ((c + i) mod ?n)) ` {0..<?n} = set (probed ps)"
    proof (intro equalityI subsetI)
      fix p assume "p \<in> set (probed ps)"
      then obtain j where j: "j < ?n" "p = probed ps ! j" by (auto simp: in_set_conv_nth)
      have "(c + (?n - c mod ?n + j) mod ?n) mod ?n = (c mod ?n + (?n - c mod ?n) + j) mod ?n" by (simp add: mod_simps add.assoc)
      also have "\<dots> = j" using j(1) False by (simp add: le_add_diff_inverse mod_less_divisor less_imp_le)
      finally show "p \<in> (\<lambda>i. probed ps ! ((c + i) mod ?n)) ` {0..<?n}"
        using j False by (intro image_eqI [of _ _ "(?n - c mod ?n + j) mod ?n"]) simp_all
    qed (use False in auto)
    have "(\<lambda>i. probed ps ! ((c + i) mod ?n)) ` {0..<k * min 3 ?n} \<subseteq> set (probed ps)" using False by auto
    then show ?thesis
      unfolding rounds_cover [OF assms False] set [symmetric] by (rule equalityI) (use sub in \<open>simp only: all\<close>)
  qed
qed

definition sample_proxy :: "int \<Rightarrow> proxy_row" where
  "sample_proxy i = \<lparr>px_id = i, px_user_id = 0, px_node_id = Some 4, px_name = [], px_protocol = ''vless'', px_port = 1,
     px_host = ''h'', px_settings = [], px_enabled = True, px_remark = []\<rparr>"

theorem proxy_rotation_witness:
  "distinct (map px_id (map sample_proxy [1, 2, 3, 4]))
   \<and> set (sample_rounds 2 (map sample_proxy [1, 2, 3, 4]) 3) = set (map sample_proxy [1, 2, 3, 4])"
proof -
  let ?ps = "map sample_proxy [1, 2, 3, 4]"
  have d: "distinct (map px_id ?ps)" and l: "length (filter (\<lambda>p. 0 < px_port p) ?ps) \<le> 3 * 2"
    and a: "{p \<in> set ?ps. 0 < px_port p} = set ?ps"
    by (auto simp: sample_proxy_def)
  show ?thesis using d proxy_rotation [OF d, of "[]" 3 2] l unfolding a by blast
qed

text \<open>The URL of the Xray check has no brackets around an IPv6 address; that of the API check has.\<close>

lemma xray_url_unbracketed:
  "checkAPI pr ''::1'' 80 = pr_get pr ''http://[::1]:80/health''"
  "checkXray pr ''::1'' 80 = pr_get pr ''http://::1:80/xray/status''"
proof -
  have port: "show_int 80 = ''80''" by code_simp
  show "checkAPI pr ''::1'' 80 = pr_get pr ''http://[::1]:80/health''"
    and "checkXray pr ''::1'' 80 = pr_get pr ''http://::1:80/xray/status''"
    by (simp_all add: checkAPI_def checkXray_def dial_address_def JoinHostPort_def port)
qed

end
