(* ===== verification/Spec2Isabelle.thy ===== *)
theory Spec2Isabelle
  imports OrderService Coupons GiftCards PlanChange Trials Pauses Invites Payments Cache Failover Accounts Health
begin

text \<open>
  A verification library for Vpanel, a panel that sells and administers proxy subscriptions
  (Go, with gorm on SQLite or MySQL).  It covers the commercial core, where money and
  subscriptions change hands; the accounts of the user portal with the authentication, rate
  limiting and caching the panel rests on; and the fleet of proxy servers: how users are placed on them,
  how their health is checked, and the settings of the proxies they run.

  \<^bold>\<open>The program.\<close>  A user has a wallet (the \<open>balance\<close> column) with an audit
  trail of balance transactions.  Money enters through recharge orders and gift cards, and
  through payment gateways that call back; it leaves through orders and plan upgrades; refunds, commissions and
  adjustments move it too.  Orders are created pending, paid by balance or gateway, fulfilled, cancelled,
  expired or refunded; a paid order puts its user on a plan.  Trials, pauses, coupons, invitations
  and plan changes modify subscriptions.  HTTP handlers and schedulers
  call the services; \<open>internal/api/routes.go\<close> wires the services together.  Administrators
  and users log in through rate limited handlers and hold tokens backed by sessions in the database;
  users register, verify their address, reset passwords and use a second factor in the portal.  Proxy
  servers (nodes) belong to groups; a load balancer places users on them; a health checker probes every
  node and the proxies it runs and changes its status when enough probes agree, and when a node becomes
  unhealthy the failover manager moves its users away.

  \<^bold>\<open>Theories.\<close>  Files below are under \<open>src/internal\<close>; \<open>repo/\<close> is
  \<open>database/repository/\<close> and \<open>com/\<close> is \<open>commercial/\<close>.
  \<^item> \<open>Prelude\<close>: the Go runtime facts used (64-bit wrap-around, truncating division, double
    rounding, instants and durations, strings) and generic lemmas.  \<open>Errors\<close>: the error values.
  \<^item> \<open>Store\<close>: the relational store, its fault schedule, transactions, and verification
    conditions \<open>wpt\<close> for operations.  \<open>Schema\<close>: the rows of the tables (repo/*.go), the
    database, and its invariant \<open>sound_db\<close>.
  \<^item> \<open>BalanceRepo\<close>: repo/balance_repository.go.  \<open>BalanceService\<close>: com/balance/service.go and
    repo/balance_recharge_repository.go.  \<open>Users\<close>: the part of repo/user_repository.go in use.
  \<^item> \<open>OrderRepo\<close>: repo/order_repository.go and repo/commercial_atomic.go.  \<open>OrderService\<close>:
    com/order/service.go and com/refund/service.go.
  \<^item> \<open>Coupons\<close>, \<open>GiftCards\<close>, \<open>PlanChange\<close>, \<open>Trials\<close>, \<open>Pauses\<close>: the service under
    com/ of that name with its repository.  \<open>Invites\<close>: com/invite, com/commission and
    repo/invite_repository.go.  \<open>Payments\<close>: com/payment service.go, retry.go, amount.go and the gateway interface.
  \<^item> \<open>Cache\<close>: cache/memory.go, cache.go, factory.go and strategy.go.  \<open>RateLimits\<close>: auth/rate_limiter.go
    and the limiter of portal/auth/service.go.  \<open>Sessions\<close>: auth/session.go, service.go and token_blacklist.go.
  \<^item> \<open>Accounts\<close>: portal/auth/service.go over repo/auth_token_repository.go and repo/user_repository.go; the token
    service of \<open>Sessions\<close> runs on its tables through \<open>zoom\<close>.
  \<^item> \<open>NodeStore\<close>: repo/node_repository.go, node_group_repository.go and user_node_assignment_repository.go.
    \<open>LoadBalancer\<close>: node/load_balancer.go.  \<open>Failover\<close>: node/failover_manager.go.
  \<^item> \<open>ProxySettings\<close>: proxy/share.go and settings_normalizer.go.  \<open>FleetStore\<close>: repo/proxy_repository.go,
    certificate_repository.go and health_check_repository.go.  \<open>Health\<close>: node/health_checker.go, on the tables of
    \<open>FleetStore\<close> and the checker's own counters, with \<open>on_nodes\<close> for the node table.
  \<^item> This theory: the commercial operations as one state machine, and its invariant.

  \<^bold>\<open>State and operations.\<close>  A repository method is an operation on a world: the tables, a fault
  schedule and whether a transaction is open; it returns an error or a value and the new world.  Every
  statement may fail as the schedule says, every theorem holds for all schedules, and
  \<open>transaction\<close> rolls back.  Operations are composed as the code composes
  calls: \<open>bindE\<close> for a call whose error is returned, \<open>attempt\<close> where the caller inspects or ignores it.
  Definitions carry the names of the Go functions, with a prefix of the package where two
  packages share a name.  The clock, random bytes and formatted dates are arguments, one clock reading per
  call.  Collaborators behind Go interfaces are records of functions (the order service's
  wallet and hooks, payment gateways, caches, session stores), and what a caller relies on
  is a locale with an interpretation on the code's own implementation: \<open>wallet_store\<close>,
  \<open>order_collaborators\<close>, \<open>quiet_collaborators\<close>, \<open>invalidating_cache\<close>,
  \<open>attempt_limiter\<close>, \<open>session_backend\<close>, \<open>token_backend\<close> (interpreted for the stand-alone service and
  for the portal), \<open>placement\<close> (the move of a user, for rebalancing and failover) and \<open>balance_strategy\<close>.

  \<^bold>\<open>What is shown.\<close>  Money: in every reachable state balances are int64 values
  that are not negative, and each balance moves by exactly the sum of the audit rows written; wallet changes
  are atomic; payment, refund, recharge, redemption and commission confirmation take effect at
  most once; each operation's outcome is stated on every branch, errors included.  Subscriptions: payment
  and plan changes compute the plan, expiry and proration exactly; pauses restore what they took; a user
  has one trial.  Orders: the life cycle, and that retries of fulfilment clear what they report.  Coupons
  and amounts: acceptance, exact discounts, round trips of the encodings.  Callbacks and retries: only
  verified callbacks act, retries are bounded.  Authentication: sessions are consumed once and tokens
  need a live session; failed logins are bounded.  Accounts: reset tokens serve once and are rationed; a new
  password ends every session; logins and second factors on every check; registration; the
  address syntax.  Nodes: the indexes of the tables; selection of distinct available nodes, fairness of the
  weighted strategy, even rebalancing; what a failover moves under any faults and
  any order of the migrations, and that without faults it empties the node; a health status changes
  only after as many probes in a row as the thresholds ask, as a debounced counter does, and does change then; a
  healthy verdict has every check behind it; the probed proxies rotate.  Proxy settings: normalizing is
  idempotent and leaves one coherent transport and security choice; shared host lists round trip.  Cache: refinement of an expiring map, and its capacity.

  \<^bold>\<open>Loops and bounds.\<close>  Loops over rows are recursions on lists.  The loops that draw random
  codes until they find a fresh one take the supply of random bytes as a list and return
  \<open>None\<close> when it runs out; that a supply with enough different codes suffices is proved
  (\<open>batch_codes_complete\<close>, \<open>draw_codes_progress\<close>).  No other definition needs fuel.  Integers
  are mathematical integers (the round-robin counter is a 64-bit word) with \<open>wrap64\<close> where the code can overflow; float64 values are
  rationals rounded by \<open>f64\<close> where rounding is visible, and exact rationals for commission rates.  Fairness
  of the weighted strategy asks that the square of the total weight is an int64 value (weights are
  small numbers), and selection that there are fewer than \<open>2 ^ 64\<close> nodes.

  \<^bold>\<open>Not modelled.\<close>  Concurrency inside a call beyond the atomicity of statements and
  transactions (mutexes are taken to make calls atomic; the goroutines of a failover, which
  share only the store, run in any order of whole migrations); logging; failover notifications; the SQL engine itself beyond
  the statements used; timers of schedulers and cleanup goroutines, whose runs are steps; HTTP
  handlers, middleware and routing; payment gateway protocols, Redis, mail and Telegram;
  JSON web tokens, bcrypt, SHA-256, TOTP, geolocation, the answers of probed servers, URL and Base64 syntax and
  X25519 keys, which are arguments; issuing certificates, node agents and remote deployment, Xray process
  control, generated client configurations, the
  statistics queries that use functions of one SQL dialect, and the web front end.
\<close>

section \<open>The commercial subsystem as a state machine\<close>

text \<open>
  One step is one call of a service operation by a handler, a payment callback or a scheduler,
  with the services wired as \<open>internal/api/routes.go\<close> wires them, at any clock reading,
  with any arguments the operation's types admit (amounts are int64 values) and under any
  fault schedule of the engine.  Calls that return an error are steps too.
\<close>

inductive commercial_step :: "engine \<Rightarrow> (int \<Rightarrow> unit dbop) \<Rightarrow> db \<Rightarrow> db \<Rightarrow> bool" for eng hook where
  recharge: "in_i64 a \<Longrightarrow> Recharge now u a oid desc w = (rU, w') \<Longrightarrow> commercial_step eng hook (tables w) (tables w')"
| deduct: "in_i64 a \<Longrightarrow> Deduct now u a oid desc w = (rU, w') \<Longrightarrow> commercial_step eng hook (tables w) (tables w')"
| refund: "in_i64 a \<Longrightarrow> Refund now u a oid desc w = (rU, w') \<Longrightarrow> commercial_step eng hook (tables w) (tables w')"
| commission: "in_i64 a \<Longrightarrow> AddCommission now u a desc w = (rU, w') \<Longrightarrow> commercial_step eng hook (tables w) (tables w')"
| adjust: "in_i64 a \<Longrightarrow> Adjust now u a desc desc' w = (rU, w') \<Longrightarrow> commercial_step eng hook (tables w) (tables w')"
| recharge_order: "in_i64 a \<Longrightarrow> CreateRechargeOrder True now date bytes u a meth w = (rR, w')
    \<Longrightarrow> commercial_step eng hook (tables w) (tables w')"
| recharge_cancel: "CancelRechargeOrder True no w = (rU, w') \<Longrightarrow> commercial_step eng hook (tables w) (tables w')"
| recharge_paid: "MarkRechargePaid True eng now no pno paidAt w = (rU, w')
    \<Longrightarrow> commercial_step eng hook (tables w) (tables w')"
| order_create: "OrderSvcCreate (hooked_orders hook now) now date nanos rnd req w = (rO, w')
    \<Longrightarrow> commercial_step eng hook (tables w) (tables w')"
| order_cancel: "Cancel (hooked_orders hook now) i w = (rU, w') \<Longrightarrow> commercial_step eng hook (tables w) (tables w')"
| order_pay: "Pay (hooked_orders hook now) now no pno meth ub w = (rU, w')
    \<Longrightarrow> commercial_step eng hook (tables w) (tables w')"
| order_complete: "Complete i w = (rU, w') \<Longrightarrow> commercial_step eng hook (tables w) (tables w')"
| order_status: "UpdateStatus (hooked_orders hook now) now i st w = (rU, w')
    \<Longrightarrow> commercial_step eng hook (tables w) (tables w')"
| order_expire: "ExpirePendingOrders (hooked_orders hook now) now w = (rI, w')
    \<Longrightarrow> commercial_step eng hook (tables w) (tables w')"
| order_refund: "ProcessRefund eng now rreq w = (rF, w') \<Longrightarrow> commercial_step eng hook (tables w) (tables w')"
| scheduler: "RunOnce (Some (hooked_orders hook now)) now w = (rE, w')
    \<Longrightarrow> commercial_step eng hook (tables w) (tables w')"
| coupon_create: "CouponSvcCreate now bytes creq w = (rC, w') \<Longrightarrow> commercial_step eng hook (tables w) (tables w')"
| coupon_update: "CouponSvcUpdate i creq w = (rC, w') \<Longrightarrow> commercial_step eng hook (tables w) (tables w')"
| coupon_use: "Use now i u j a w = (rU, w') \<Longrightarrow> commercial_step eng hook (tables w) (tables w')"
| coupon_active: "CouponSvcSetActive i b w = (rU, w') \<Longrightarrow> commercial_step eng hook (tables w) (tables w')"
| coupon_delete: "CouponSvcDelete i w = (rU, w') \<Longrightarrow> commercial_step eng hook (tables w) (tables w')"
| gift_batch: "in_i64 (br_value breq) \<Longrightarrow> CreateBatch now date ids rnds breq u = Some m \<Longrightarrow> m w = (rB, w')
    \<Longrightarrow> commercial_step eng hook (tables w) (tables w')"
| gift_redeem: "Redeem now code u w = (rG, w') \<Longrightarrow> commercial_step eng hook (tables w) (tables w')"
| gift_purchase: "Purchase now i u w = (rG, w') \<Longrightarrow> commercial_step eng hook (tables w) (tables w')"
| gift_status: "GiftSetStatus i st w = (rU, w') \<Longrightarrow> commercial_step eng hook (tables w) (tables w')"
| gift_delete: "GiftDelete i w = (rU, w') \<Longrightarrow> commercial_step eng hook (tables w) (tables w')"
| gift_expire: "ExpireOldCards now w = (rI, w') \<Longrightarrow> commercial_step eng hook (tables w) (tables w')"
| upgrade: "ExecuteUpgrade now preq w = (rU, w') \<Longrightarrow> commercial_step eng hook (tables w) (tables w')"
| downgrade: "ScheduleDowngrade now preq w = (rU, w') \<Longrightarrow> commercial_step eng hook (tables w) (tables w')"
| downgrade_cancel: "CancelPendingDowngrade u w = (rU, w') \<Longrightarrow> commercial_step eng hook (tables w) (tables w')"
| trial: "trial_step d d' \<Longrightarrow> commercial_step eng hook d d'"
| pause: "Pause pcfg now u w = (rP, w') \<Longrightarrow> commercial_step eng hook (tables w) (tables w')"
| resume: "Resume now u w = (rU, w') \<Longrightarrow> commercial_step eng hook (tables w) (tables w')"
| invite_code: "GetOrCreateCode codes rnds now u w = (rK, w') \<Longrightarrow> commercial_step eng hook (tables w) (tables w')"
| referral: "RecordReferral now code u w = (rU, w') \<Longrightarrow> commercial_step eng hook (tables w) (tables w')"
| referral_converted: "InviteMarkConverted now u w = (rU, w') \<Longrightarrow> commercial_step eng hook (tables w) (tables w')"
| commission_create: "in_i64 a \<Longrightarrow> CommissionCreate kcfg now u v i a rate level w = (rKo, w')
    \<Longrightarrow> commercial_step eng hook (tables w) (tables w')"
| commission_confirm: "Confirm True now i w = (rU, w') \<Longrightarrow> commercial_step eng hook (tables w) (tables w')"
| commission_cancel: "CommissionCancel now i w = (rU, w') \<Longrightarrow> commercial_step eng hook (tables w) (tables w')"
| commission_order: "CancelByOrder i w = (rU, w') \<Longrightarrow> commercial_step eng hook (tables w) (tables w')"
| commission_settle: "ConfirmPendingCommissions kcfg now w = (rI, w') \<Longrightarrow> commercial_step eng hook (tables w) (tables w')"
| payment_create: "py_orders svc = hooked_orders hook now \<Longrightarrow> CreatePayment svc now nanos no meth ip w = (rQ, w')
    \<Longrightarrow> commercial_step eng hook (tables w) (tables w')"
| payment_callback: "py_orders svc = hooked_orders hook now \<Longrightarrow> HandleCallback svc eng now meth data sig w = (rU, w')
    \<Longrightarrow> commercial_step eng hook (tables w) (tables w')"
| payment_refund: "py_orders svc = hooked_orders hook now \<Longrightarrow> GatewayProcessRefund svc now i a desc w = (rGR, w')
    \<Longrightarrow> commercial_step eng hook (tables w) (tables w')"
| auto_resume: "AutoResumePaused now w = (rI, w') \<Longrightarrow> commercial_step eng hook (tables w) (tables w')"

lemma trial_step_sound: "trial_step d d' \<Longrightarrow> sound_db d \<Longrightarrow> sound_step d d'"
  by (induction rule: trial_step.induct) (auto elim!: sound_op_run [rotated 2] intro: sound_rules)

lemma RunOnce_sound:
  assumes "quiet_hook hook"
  shows "sound_op (RunOnce (Some (hooked_orders hook now)) now)"
  unfolding RunOnce_def option.case Let_def
  by (intro sound_rules order_collaborators.RetryPendingFulfillments_sound hooked_sound assms)

lemma commercial_step_sound:
  assumes "commercial_step eng hook d d'" and "strict_engine eng" and "quiet_hook hook" and "sound_db d"
  shows "sound_step d d'"
  using assms(1,4)
proof (induction rule: commercial_step.induct)
  case (gift_batch breq now date ids rnds u m w rB w')
  then show ?case using CreateBatch_sound sound_op_run by blast
next
  case (payment_create svc now nanos no meth ip w rQ w')
  then show ?case using sound_op_run [OF CreatePayment_sound] hooked_sound assms(3) by metis
next
  case (payment_callback svc now meth data sig w rU w')
  then show ?case using sound_op_run [OF HandleCallback_sound [OF _ assms(2)]] hooked_sound assms(3) by metis
qed (use assms(2,3) in \<open>auto elim!: sound_op_run [rotated 2] intro: sound_rules trial_step_sound RunOnce_sound
    order_collaborators.Cancel_sound order_collaborators.Pay_sound order_collaborators.ExpirePendingOrders_sound
    order_collaborators.UpdateStatus_sound hooked_sound
    simp: CouponSvcSetActive_def CouponSvcDelete_def\<close>)


lemma no_hook_quiet: "quiet_hook (\<lambda>_. ret ())"
  by (auto simp: quiet_hook_def money_frame_def intro!: sound_rules wpt_rules)


end
